(* ===== verification/GoBase.thy ===== *)
theory GoBase
  imports Main "HOL-Library.Word" "HOL-Library.Sublist"
begin

text \<open>
  Prelude of the development: how Go values and Go's standard library appear in the model.

  \<^item> A Go \<open>byte\<close> is an \<open>8 word\<close>, a \<open>[]byte\<close> a list of them (\<open>nil\<close> and the empty slice
    are both \<open>[]\<close>: \<open>len\<close>, \<open>append\<close> and range treat them alike), and a Go \<open>string\<close>, which is a
    byte sequence too, is a HOL \<open>string\<close>.
  \<^item> A computation that can panic returns \<open>'a go\<close>: \<open>Inl\<close> of the panic or \<open>Inr\<close> of the value.
  \<^item> A function with an \<open>error\<close> result returns \<open>'a or_err\<close> inside \<open>'a go\<close>.
  \<^item> Lengths and indices that the code never makes negative are \<open>nat\<close>; \<open>int32\<close> and \<open>int64\<close>
    conversions are written out with \<open>signed_take_bit\<close>.
  The string functions of the standard library that the source calls are defined here.
\<close>

unbundle bit_operations_syntax

named_theorems go_simps \<open>evaluation of the Go primitives\<close>
named_theorems go_lens \<open>lengths of decoded and sliced byte lists\<close>

type_synonym byte = "8 word"
type_synonym bytes = "byte list"

datatype go_panic =
    IndexOutOfRange
  | SliceOutOfRange
  | DivideByZero
  | NilDereference
  | ExplicitPanic string

type_synonym 'a go = "go_panic + 'a"
type_synonym 'a or_err = "string + 'a"

subsection \<open>Sequencing of computations that may panic\<close>

definition go_bind :: "'a go \<Rightarrow> ('a \<Rightarrow> 'b go) \<Rightarrow> 'b go" where
  "go_bind m f = (case m of Inl e \<Rightarrow> Inl e | Inr x \<Rightarrow> f x)"

lemma go_bind_simps [simp]:
  "go_bind (Inl e) f = Inl e"
  "go_bind (Inr x) f = f x"
  by (simp_all add: go_bind_def)

lemma go_bind_eq_Inr: "go_bind m f = Inr y \<longleftrightarrow> (\<exists>x. m = Inr x \<and> f x = Inr y)"
  by (cases m) simp_all

lemma go_bind_eq_Inl: "go_bind m f = Inl e \<longleftrightarrow> m = Inl e \<or> (\<exists>x. m = Inr x \<and> f x = Inl e)"
  by (cases m) simp_all

lemma go_bind_cong [fundef_cong]:
  "m = m' \<Longrightarrow> (\<And>x. m' = Inr x \<Longrightarrow> f x = g x) \<Longrightarrow> go_bind m f = go_bind m' g"
  by (cases m') simp_all

definition panics :: "'a go \<Rightarrow> bool" where
  "panics m = (case m of Inl _ \<Rightarrow> True | Inr _ \<Rightarrow> False)"

lemma panics_simps [simp]: "panics (Inl e)" "\<not> panics (Inr x)"
  by (simp_all add: panics_def)

lemma not_panics_iff: "\<not> panics m \<longleftrightarrow> (\<exists>x. m = Inr x)"
  by (cases m) simp_all

subsection \<open>Indexing and slicing\<close>

definition go_at :: "'a list \<Rightarrow> nat \<Rightarrow> 'a go" where
  "go_at xs i = (if i < length xs then Inr (xs ! i) else Inl IndexOutOfRange)"

definition go_slice :: "'a list \<Rightarrow> nat \<Rightarrow> nat \<Rightarrow> 'a list go" where
  "go_slice xs i j =
     (if i \<le> j \<and> j \<le> length xs then Inr (take (j - i) (drop i xs)) else Inl SliceOutOfRange)"

definition go_slice_from :: "'a list \<Rightarrow> nat \<Rightarrow> 'a list go" where
  "go_slice_from xs i = (if i \<le> length xs then Inr (drop i xs) else Inl SliceOutOfRange)"

definition go_store :: "'a list \<Rightarrow> int \<Rightarrow> 'a \<Rightarrow> 'a list go" where
  "go_store xs i x =
     (if 0 \<le> i \<and> i < int (length xs) then Inr (xs[nat i := x]) else Inl IndexOutOfRange)"

lemma go_at_in_range [simp]: "i < length xs \<Longrightarrow> go_at xs i = Inr (xs ! i)"
  by (simp add: go_at_def)

lemma go_slice_in_range [simp]:
  "i \<le> j \<Longrightarrow> j \<le> length xs \<Longrightarrow> go_slice xs i j = Inr (take (j - i) (drop i xs))"
  by (simp add: go_slice_def)

lemma go_slice_from_in_range [simp]: "i \<le> length xs \<Longrightarrow> go_slice_from xs i = Inr (drop i xs)"
  by (simp add: go_slice_from_def)

lemma go_at_eq_Inr: "go_at xs i = Inr x \<longleftrightarrow> i < length xs \<and> x = xs ! i"
  by (auto simp: go_at_def)

lemma go_slice_eq_Inr:
  "go_slice xs i j = Inr ys \<longleftrightarrow> i \<le> j \<and> j \<le> length xs \<and> ys = take (j - i) (drop i xs)"
  by (auto simp: go_slice_def)

lemma go_slice_from_eq_Inr: "go_slice_from xs i = Inr ys \<longleftrightarrow> i \<le> length xs \<and> ys = drop i xs"
  by (auto simp: go_slice_from_def)

lemmas go_eq_Inr = go_bind_eq_Inr go_at_eq_Inr go_slice_eq_Inr go_slice_from_eq_Inr

subsection \<open>Fixed-width reads of encoding/binary\<close>

definition be_uint16 :: "bytes \<Rightarrow> 16 word go" where
  "be_uint16 b = go_bind (go_at b 1) (\<lambda>b1. go_bind (go_at b 0) (\<lambda>b0.
     Inr (ucast b1 OR push_bit 8 (ucast b0))))"

definition be_uint32 :: "bytes \<Rightarrow> 32 word go" where
  "be_uint32 b = go_bind (go_at b 3) (\<lambda>b3. go_bind (go_at b 2) (\<lambda>b2. go_bind (go_at b 1) (\<lambda>b1.
     go_bind (go_at b 0) (\<lambda>b0.
       Inr (ucast b3 OR push_bit 8 (ucast b2) OR push_bit 16 (ucast b1) OR push_bit 24 (ucast b0))))))"

definition le_uint32 :: "bytes \<Rightarrow> 32 word go" where
  "le_uint32 b = go_bind (go_at b 3) (\<lambda>b3. go_bind (go_at b 2) (\<lambda>b2. go_bind (go_at b 1) (\<lambda>b1.
     go_bind (go_at b 0) (\<lambda>b0.
       Inr (ucast b0 OR push_bit 8 (ucast b1) OR push_bit 16 (ucast b2) OR push_bit 24 (ucast b3))))))"

lemma byte_lt_256: "unat (b :: byte) < 256"
  using unsigned_less [of b, where 'a = nat] by simp

lemma or_eq_plus_disjoint:
  fixes a b :: "'a::len word"
  assumes "a AND b = 0"
  shows "a OR b = a + b"
  using assms by (simp add: disjunctive_add_eq_or)

lemma bit_byte_beyond [simp]: "8 \<le> n \<Longrightarrow> \<not> bit (b :: byte) n"
  using bit_imp_le_length [of b n] by auto

lemma be16_value:
  "unat (ucast (lo :: byte) OR push_bit 8 (ucast (hi :: byte)) :: 16 word) = 256 * unat hi + unat lo"
proof -
  have "(ucast lo :: 16 word) AND push_bit 8 (ucast hi) = 0"
    by (intro bit_eqI) (auto simp: bit_simps)
  then have eq: "(ucast lo OR push_bit 8 (ucast hi) :: 16 word) = ucast lo + push_bit 8 (ucast hi)"
    by (rule or_eq_plus_disjoint)
  have hi: "unat (push_bit 8 (ucast hi) :: 16 word) = 256 * unat hi"
    using byte_lt_256 [of hi]
    by (simp add: push_bit_eq_mult unat_word_ariths unsigned_ucast_eq take_bit_eq_mod)
  have lo: "unat (ucast lo :: 16 word) = unat lo"
    using byte_lt_256 [of lo] by (simp add: unsigned_ucast_eq take_bit_eq_mod)
  show ?thesis
    using byte_lt_256 [of hi] byte_lt_256 [of lo]
    by (simp add: eq unat_word_ariths hi lo)
qed

lemma le24_value:
  "unat (0xFFFFFF AND (ucast (b0 :: byte) OR push_bit 8 (ucast (b1 :: byte)) OR
     push_bit 16 (ucast (b2 :: byte)) OR push_bit 24 (ucast (b3 :: byte))) :: 32 word) =
   unat b0 + 256 * unat b1 + 65536 * unat b2"
proof -
  let ?w = "\<lambda>b :: byte. ucast b :: 32 word"
  have mask: "(0xFFFFFF :: 32 word) = mask 24"
    by (simp add: mask_eq_exp_minus_1)
  have "0xFFFFFF AND (?w b0 OR push_bit 8 (?w b1) OR push_bit 16 (?w b2) OR push_bit 24 (?w b3)) =
      ?w b0 OR push_bit 8 (?w b1) OR push_bit 16 (?w b2)"
    unfolding mask
    by (intro bit_eqI) (auto simp: bit_simps; rule ccontr, simp)
  also have "\<dots> = ?w b0 OR (push_bit 8 (?w b1) + push_bit 16 (?w b2))"
    by (subst or_eq_plus_disjoint [of "push_bit 8 (?w b1)"])
      (auto intro!: bit_eqI simp: bit_simps)
  also have "\<dots> = ?w b0 + (push_bit 8 (?w b1) + push_bit 16 (?w b2))"
  proof (rule or_eq_plus_disjoint)
    have "push_bit 8 (?w b1) + push_bit 16 (?w b2) = push_bit 8 (?w b1) OR push_bit 16 (?w b2)"
      by (subst or_eq_plus_disjoint)
        (auto intro!: bit_eqI simp: bit_simps)
    then show "?w b0 AND (push_bit 8 (?w b1) + push_bit 16 (?w b2)) = 0"
      by (auto intro!: bit_eqI simp: bit_simps)
  qed
  finally have eq: "0xFFFFFF AND (?w b0 OR push_bit 8 (?w b1) OR push_bit 16 (?w b2) OR push_bit 24 (?w b3)) =
      ?w b0 + (push_bit 8 (?w b1) + push_bit 16 (?w b2))" .
  have u: "unat (?w b) = unat b" for b
    using byte_lt_256 [of b] by (simp add: unsigned_ucast_eq take_bit_eq_mod)
  show ?thesis
    using byte_lt_256 [of b0] byte_lt_256 [of b1] byte_lt_256 [of b2]
    unfolding eq by (simp add: unat_word_ariths push_bit_eq_mult u)
qed

end
