(* ===== verification/GoStrings.thy ===== *)
theory GoStrings
  imports GoBase
begin

text \<open>
  The functions of Go's \<open>strings\<close>, \<open>strconv\<close> and \<open>encoding/hex\<close> packages that the source
  calls, on byte strings. White space is Unicode white space in its UTF-8 encoding, as in
  \<open>unicode.IsSpace\<close>: six ASCII characters and nineteen longer sequences.
\<close>

subsection \<open>Conversions between []byte and string\<close>

definition string_of_bytes :: "bytes \<Rightarrow> string" where
  "string_of_bytes b = map (\<lambda>w. char_of (unat w)) b"

definition bytes_of_string :: "string \<Rightarrow> bytes" where
  "bytes_of_string s = map (\<lambda>c. word_of_nat (of_char c)) s"

lemma length_string_of_bytes [simp, go_lens]: "length (string_of_bytes b) = length b"
  by (simp add: string_of_bytes_def)

lemma length_bytes_of_string [simp, go_lens]: "length (bytes_of_string s) = length s"
  by (simp add: bytes_of_string_def)

lemma string_of_bytes_Nil_iff [simp]: "string_of_bytes b = [] \<longleftrightarrow> b = []"
  by (simp add: string_of_bytes_def)

lemma string_of_bytes_append [simp]:
  "string_of_bytes (a @ b) = string_of_bytes a @ string_of_bytes b"
  by (simp add: string_of_bytes_def)

lemma string_of_bytes_drop: "string_of_bytes (drop n b) = drop n (string_of_bytes b)"
  by (simp add: string_of_bytes_def drop_map)

lemma bytes_of_string_of_bytes [simp]: "bytes_of_string (string_of_bytes b) = b"
proof -
  have "word_of_nat (of_char (char_of (unat w) :: char)) = w" for w :: byte
    using byte_lt_256 [of w] by simp
  then show ?thesis by (simp add: bytes_of_string_def string_of_bytes_def map_idI)
qed

lemma string_of_bytes_of_string [simp]: "string_of_bytes (bytes_of_string s) = s"
proof -
  have "char_of (unat (word_of_nat (of_char c) :: byte)) = c" for c
    by (simp add: unat_of_nat)
  then show ?thesis by (simp add: bytes_of_string_def string_of_bytes_def map_idI)
qed

lemma string_of_bytes_eq_iff [simp]: "string_of_bytes a = string_of_bytes b \<longleftrightarrow> a = b"
  by (metis bytes_of_string_of_bytes)

subsection \<open>strings.HasPrefix, strings.Index, strings.Split\<close>

definition has_prefix :: "string \<Rightarrow> string \<Rightarrow> bool" where
  "has_prefix s p \<longleftrightarrow> length p \<le> length s \<and> take (length p) s = p"

lemma has_prefix_iff: "has_prefix s p \<longleftrightarrow> (\<exists>t. s = p @ t)"
  by (auto simp: has_prefix_def intro: exI [of _ "drop (length p) s"])
    (metis append_take_drop_id)

lemma has_prefix_append [simp]: "has_prefix (p @ t) p"
  by (auto simp: has_prefix_iff)

fun str_index :: "string \<Rightarrow> string \<Rightarrow> nat option" where
  "str_index [] sub = (if sub = [] then Some 0 else None)"
| "str_index (c # s) sub =
     (if has_prefix (c # s) sub then Some 0 else map_option Suc (str_index s sub))"

definition strings_Index :: "string \<Rightarrow> string \<Rightarrow> int" where
  "strings_Index s sub = (case str_index s sub of None \<Rightarrow> -1 | Some i \<Rightarrow> int i)"

lemma str_index_Some:
  "str_index s sub = Some i \<Longrightarrow>
     i + length sub \<le> length s \<and> take (length sub) (drop i s) = sub"
proof (induction s arbitrary: i)
  case Nil
  then show ?case by (auto split: if_splits)
next
  case (Cons c s)
  then show ?case
    by (cases "has_prefix (c # s) sub") (auto simp: has_prefix_def)
qed

lemma str_index_None:
  "str_index s sub = None \<Longrightarrow> i \<le> length s \<Longrightarrow> \<not> has_prefix (drop i s) sub"
proof (induction s arbitrary: i)
  case Nil
  then show ?case by (auto simp: has_prefix_def split: if_splits)
next
  case (Cons c s)
  then show ?case
    by (cases i) (auto split: if_splits)
qed

lemma str_index_least:
  "str_index s sub = Some i \<Longrightarrow> j < i \<Longrightarrow> \<not> has_prefix (drop j s) sub"
proof (induction s arbitrary: i j)
  case Nil
  then show ?case by (auto split: if_splits)
next
  case (Cons c s)
  then show ?case
    by (cases j) (auto split: if_splits)
qed

lemma strings_Index_nonneg_iff: "0 \<le> strings_Index s sub \<longleftrightarrow> strings_Index s sub \<noteq> -1"
  by (auto simp: strings_Index_def split: option.splits)

fun split_on :: "char \<Rightarrow> string \<Rightarrow> string list" where
  "split_on sep [] = [ [] ]"
| "split_on sep (c # s) =
     (if c = sep then [] # split_on sep s
      else (case split_on sep s of [] \<Rightarrow> [ [c] ] | p # ps \<Rightarrow> (c # p) # ps))"

lemma split_on_not_Nil [simp]: "split_on sep s \<noteq> []"
  by (induction s) (auto split: list.splits)

lemma length_split_on: "length (split_on sep s) = Suc (count_list s sep)"
  by (induction s) (auto split: list.splits)

lemma split_on_clean: "sep \<notin> set p \<Longrightarrow> split_on sep p = [p]"
  by (induction p) auto

lemma split_on_append:
  "sep \<notin> set p \<Longrightarrow> split_on sep (p @ sep # s) = p # split_on sep s"
  by (induction p) auto

subsection \<open>White space: strings.TrimSpace and strings.Fields\<close>

definition ascii_spaces :: string where
  "ascii_spaces = [CHR 0x09, CHR 0x0A, CHR 0x0B, CHR 0x0C, CHR 0x0D, CHR 0x20]"

definition go_spaces :: "string list" where
  "go_spaces = map (\<lambda>c. [c]) ascii_spaces @
     [ [CHR 0xC2, CHR 0x85], [CHR 0xC2, CHR 0xA0], [CHR 0xE1, CHR 0x9A, CHR 0x80] ] @
     map (\<lambda>c. [CHR 0xE2, CHR 0x80, c])
       [CHR 0x80, CHR 0x81, CHR 0x82, CHR 0x83, CHR 0x84, CHR 0x85, CHR 0x86, CHR 0x87,
        CHR 0x88, CHR 0x89, CHR 0x8A, CHR 0xA8, CHR 0xA9, CHR 0xAF] @
     [ [CHR 0xE2, CHR 0x81, CHR 0x9F], [CHR 0xE3, CHR 0x80, CHR 0x80] ]"

function strip :: "string list \<Rightarrow> string \<Rightarrow> string" where
  "strip ws s = (case find (\<lambda>w. w \<noteq> [] \<and> has_prefix s w) ws of
     None \<Rightarrow> s | Some w \<Rightarrow> strip ws (drop (length w) s))"
  by pat_completeness auto
termination
  by (relation "measure (\<lambda>(ws, s). length s)")
    (auto simp: find_Some_iff has_prefix_def, metis diff_less le_zero_eq length_greater_0_conv not_gr_zero)

declare strip.simps [simp del]

definition strings_TrimSpace :: "string \<Rightarrow> string" where
  "strings_TrimSpace s = rev (strip (map rev go_spaces) (rev (strip go_spaces s)))"

lemma strip_suffix: "suffix (strip ws s) s"
proof (induction ws s rule: strip.induct)
  case (1 ws s)
  show ?case
  proof (cases "find (\<lambda>w. w \<noteq> [] \<and> has_prefix s w) ws")
    case None
    then show ?thesis by (simp add: strip.simps [of ws s])
  next
    case (Some w)
    then show ?thesis
      using "1.IH" [OF Some] suffix_drop [of "length w" s]
      by (simp add: strip.simps [of ws s] suffix_order.trans)
  qed
qed

lemma strip_no_prefix: "w \<in> set ws \<Longrightarrow> w \<noteq> [] \<Longrightarrow> \<not> has_prefix (strip ws s) w"
proof (induction ws s rule: strip.induct)
  case (1 ws s)
  show ?case
  proof (cases "find (\<lambda>w. w \<noteq> [] \<and> has_prefix s w) ws")
    case None
    then have "strip ws s = s" by (simp add: strip.simps [of ws s])
    moreover from None have "w \<in> set ws \<longrightarrow> w = [] \<or> \<not> has_prefix s w"
      by (simp add: find_None_iff)
    ultimately show ?thesis using "1.prems" by simp
  next
    case (Some w')
    then show ?thesis
      using "1.IH" [OF Some "1.prems"] by (simp add: strip.simps [of ws s])
  qed
qed

lemma strip_id:
  assumes "\<And>w. w \<in> set ws \<Longrightarrow> w \<noteq> [] \<Longrightarrow> \<not> has_prefix s w"
  shows "strip ws s = s"
proof -
  have "find (\<lambda>w. w \<noteq> [] \<and> has_prefix s w) ws = None"
    using assms by (auto simp: find_None_iff)
  then show ?thesis by (simp add: strip.simps [of ws s])
qed

lemma ascii_space_in_go_spaces: "c \<in> set ascii_spaces \<Longrightarrow> [c] \<in> set go_spaces"
  by (auto simp: go_spaces_def)

lemma TrimSpace_sublist: "sublist (strings_TrimSpace s) s"
proof -
  have "prefix (strings_TrimSpace s) (strip go_spaces s)"
    using strip_suffix [of "map rev go_spaces" "rev (strip go_spaces s)"]
    by (simp add: strings_TrimSpace_def suffix_to_prefix)
  then show ?thesis
    using strip_suffix [of go_spaces s] by (meson prefix_imp_sublist sublist_order.order.trans suffix_imp_sublist)
qed

lemma length_TrimSpace_le: "length (strings_TrimSpace s) \<le> length s"
  using TrimSpace_sublist by (rule sublist_length_le)

lemma TrimSpace_last:
  assumes "strings_TrimSpace s \<noteq> []"
  shows "last (strings_TrimSpace s) \<notin> set ascii_spaces"
proof
  let ?r = "strip (map rev go_spaces) (rev (strip go_spaces s))"
  let ?c = "hd ?r"
  assume "last (strings_TrimSpace s) \<in> set ascii_spaces"
  then have "[?c] \<in> set (map rev go_spaces)"
    using ascii_space_in_go_spaces [of ?c] assms
    by (force simp: strings_TrimSpace_def last_rev)
  then have no: "\<not> has_prefix ?r [?c]"
    by (rule strip_no_prefix) simp
  from assms obtain c r where "?r = c # r"
    by (cases ?r) (auto simp: strings_TrimSpace_def)
  with no show False by (simp add: has_prefix_def)
qed

text \<open>Trimming removes bytes of white space sequences only.\<close>

lemma strip_rest: "c \<in> set s \<Longrightarrow> c \<in> set (strip ws s) \<or> (\<exists>w \<in> set ws. c \<in> set w)"
proof (induction ws s rule: strip.induct)
  case (1 ws s)
  show ?case
  proof (cases "find (\<lambda>w. w \<noteq> [] \<and> has_prefix s w) ws")
    case None
    then show ?thesis using "1.prems" by (simp add: strip.simps [of ws s])
  next
    case (Some w)
    then have w: "w \<in> set ws" "has_prefix s w" by (auto simp: find_Some_iff)
    then have "s = w @ drop (length w) s"
      by (metis append_take_drop_id has_prefix_def)
    with "1.prems" have "c \<in> set w \<or> c \<in> set (drop (length w) s)"
      by (metis Un_iff set_append)
    with "1.IH" [OF Some] w(1) Some show ?thesis by (auto simp: strip.simps [of ws s])
  qed
qed

lemma TrimSpace_rest:
  assumes "c \<in> set s" "\<And>w. w \<in> set go_spaces \<Longrightarrow> c \<notin> set w"
  shows "c \<in> set (strings_TrimSpace s)"
  using strip_rest [OF assms(1), of go_spaces] assms(2)
    strip_rest [of c "rev (strip go_spaces s)" "map rev go_spaces"]
  by (auto simp: strings_TrimSpace_def)

text \<open>A string is trimmed when no white space sequence starts or ends it.\<close>

definition trimmed :: "string \<Rightarrow> bool" where
  "trimmed t \<longleftrightarrow> (\<forall>w \<in> set go_spaces. \<not> has_prefix t w \<and> \<not> has_prefix (rev t) (rev w))"

lemma go_spaces_nonempty: "w \<in> set go_spaces \<Longrightarrow> w \<noteq> []"
  by (auto simp: go_spaces_def)

lemma has_prefix_of_prefix: "prefix t s \<Longrightarrow> has_prefix t w \<Longrightarrow> has_prefix s w"
  by (auto simp: has_prefix_iff prefix_def)

lemma TrimSpace_trimmed: "trimmed (strings_TrimSpace s)"
  unfolding trimmed_def
proof (intro ballI conjI)
  fix w assume w: "w \<in> set go_spaces"
  let ?l = "strip go_spaces s"
  have "\<not> has_prefix ?l w"
    using w go_spaces_nonempty strip_no_prefix by blast
  moreover have "prefix (strings_TrimSpace s) ?l"
    using strip_suffix [of "map rev go_spaces" "rev ?l"]
    by (simp add: strings_TrimSpace_def suffix_to_prefix)
  ultimately show "\<not> has_prefix (strings_TrimSpace s) w"
    using has_prefix_of_prefix by blast
  show "\<not> has_prefix (rev (strings_TrimSpace s)) (rev w)"
    using strip_no_prefix [of "rev w" "map rev go_spaces" "rev ?l"] w go_spaces_nonempty [OF w]
    by (simp add: strings_TrimSpace_def)
qed

lemma TrimSpace_id: "trimmed t \<Longrightarrow> strings_TrimSpace t = t"
proof -
  assume t: "trimmed t"
  have "strip go_spaces t = t"
    using t by (intro strip_id) (simp add: trimmed_def)
  moreover have "strip (map rev go_spaces) (rev t) = rev t"
    using t by (intro strip_id) (auto simp: trimmed_def)
  ultimately show ?thesis by (simp add: strings_TrimSpace_def)
qed

lemma TrimSpace_idem [simp]: "strings_TrimSpace (strings_TrimSpace s) = strings_TrimSpace s"
  by (rule TrimSpace_id) (rule TrimSpace_trimmed)

text \<open>\<open>strings.Fields\<close>: the maximal runs of bytes between white space.\<close>

definition space_len :: "string \<Rightarrow> nat" where
  "space_len s = (case find (has_prefix s) go_spaces of None \<Rightarrow> 0 | Some w \<Rightarrow> length w)"

function fields_from :: "string \<Rightarrow> string \<Rightarrow> string list" where
  "fields_from cur [] = (if cur = [] then [] else [rev cur])"
| "fields_from cur (c # s) =
     (let n = space_len (c # s) in
      if n = 0 then fields_from (c # cur) s
      else (if cur = [] then [] else [rev cur]) @ fields_from [] (drop n (c # s)))"
  by pat_completeness auto
termination
  by (relation "measure (\<lambda>(cur, s). length s)") (auto simp: Suc_diff_le)

definition strings_Fields :: "string \<Rightarrow> string list" where
  "strings_Fields s = fields_from [] s"

subsection \<open>Letter case\<close>

text \<open>
  \<open>strings.ToLower\<close> on ASCII letters. The source lowers text only to compare it with ASCII
  words of the letters of \<open>select\<close>, \<open>desc\<close> and \<open>show\<close>; no letter outside ASCII has one of
  these as its lower case, so bytes outside ASCII can be left as they are.
\<close>

definition ascii_lower :: "char \<Rightarrow> char" where
  "ascii_lower c = (let n = of_char c :: nat in if 65 \<le> n \<and> n \<le> 90 then char_of (n + 32) else c)"

definition strings_ToLower :: "string \<Rightarrow> string" where
  "strings_ToLower s = map ascii_lower s"

lemma length_ToLower [simp]: "length (strings_ToLower s) = length s"
  by (simp add: strings_ToLower_def)

subsection \<open>strconv.Itoa, strconv.Atoi, strconv.ParseInt\<close>

definition digit_char :: "nat \<Rightarrow> char" where
  "digit_char d = char_of (48 + d)"

definition is_digit :: "char \<Rightarrow> bool" where
  "is_digit c \<longleftrightarrow> 48 \<le> (of_char c :: nat) \<and> (of_char c :: nat) \<le> 57"

definition digit_value :: "char \<Rightarrow> nat" where
  "digit_value c = of_char c - 48"

fun decimal :: "nat \<Rightarrow> string" where
  "decimal n = (if n < 10 then [digit_char n] else decimal (n div 10) @ [digit_char (n mod 10)])"

declare decimal.simps [simp del]

definition strconv_Itoa :: "int \<Rightarrow> string" where
  "strconv_Itoa i = (if i < 0 then CHR ''-'' # decimal (nat (- i)) else decimal (nat i))"

fun digits_value :: "nat \<Rightarrow> string \<Rightarrow> nat option" where
  "digits_value acc [] = Some acc"
| "digits_value acc (c # s) =
     (if is_digit c then digits_value (10 * acc + digit_value c) s else None)"

definition parse_int64 :: "string \<Rightarrow> int option" where
  "parse_int64 s =
     (let neg = (s \<noteq> [] \<and> hd s = CHR ''-'');
          ds = (if s \<noteq> [] \<and> (hd s = CHR ''-'' \<or> hd s = CHR ''+'') then tl s else s)
      in if ds = [] then None
         else case digits_value 0 ds of
             None \<Rightarrow> None
           | Some n \<Rightarrow>
               (let v = (if neg then - int n else int n)
                in if - (2 ^ 63) \<le> v \<and> v < 2 ^ 63 then Some v else None))"

lemma is_digit_digit_char [simp]: "d < 10 \<Longrightarrow> is_digit (digit_char d)"
  by (simp add: is_digit_def digit_char_def)

lemma digit_value_digit_char [simp]: "d < 10 \<Longrightarrow> digit_value (digit_char d) = d"
  by (simp add: digit_value_def digit_char_def)

lemma decimal_not_Nil [simp]: "decimal n \<noteq> []"
  by (subst decimal.simps) simp

lemma decimal_digits: "c \<in> set (decimal n) \<Longrightarrow> is_digit c"
proof (induction n rule: decimal.induct)
  case (1 n)
  then show ?case
    by (cases "n < 10") (auto simp: decimal.simps [of n])
qed

lemma digits_value_append:
  "digits_value acc (s @ t) = Option.bind (digits_value acc s) (\<lambda>v. digits_value v t)"
  by (induction s arbitrary: acc) auto

lemma digits_value_decimal_acc: "digits_value 0 (decimal n) = Some n"
proof (induction n rule: decimal.induct)
  case (1 n)
  then show ?case
    by (cases "n < 10") (simp_all add: decimal.simps [of n] digits_value_append)
qed

lemma decimal_inject [simp]: "decimal m = decimal n \<longleftrightarrow> m = n"
  by (metis digits_value_decimal_acc option.inject)

lemma not_is_digit_simps [simp]:
  "\<not> is_digit CHR ''-''" "\<not> is_digit CHR ''+''" "\<not> is_digit CHR '':''" "\<not> is_digit CHR ''.''"
  by (simp_all add: is_digit_def)

lemma decimal_char_neq: "\<not> is_digit c \<Longrightarrow> c \<notin> set (decimal n)"
  using decimal_digits by blast

lemma parse_int64_Itoa:
  assumes "- (2 ^ 63) \<le> i" "i < 2 ^ 63"
  shows "parse_int64 (strconv_Itoa i) = Some i"
proof (cases "i < 0")
  case True
  then show ?thesis
    using assms by (simp add: parse_int64_def strconv_Itoa_def digits_value_decimal_acc)
next
  case False
  have "hd (decimal n) \<noteq> CHR ''-''" "hd (decimal n) \<noteq> CHR ''+''" for n
    using decimal_digits [of "hd (decimal n)" n] by (auto simp: hd_in_set)
  with False show ?thesis
    using assms by (simp add: parse_int64_def strconv_Itoa_def digits_value_decimal_acc)
qed

lemma strconv_Itoa_inject: "strconv_Itoa i = strconv_Itoa j \<Longrightarrow> i = j"
proof -
  have hd: "hd (decimal n) \<noteq> CHR ''-''" for n
    using decimal_digits [of "hd (decimal n)" n] by (auto simp: hd_in_set)
  then have "CHR ''-'' # s \<noteq> decimal n" for s n
    by (metis list.sel(1))
  then show "strconv_Itoa i = strconv_Itoa j \<Longrightarrow> i = j"
    by (auto simp: strconv_Itoa_def split: if_splits dest: sym)
qed

subsection \<open>hex.EncodeToString\<close>

definition hex_digit :: "nat \<Rightarrow> char" where
  "hex_digit d = (if d < 10 then char_of (48 + d) else char_of (87 + d))"

definition hex_encode :: "bytes \<Rightarrow> string" where
  "hex_encode b = concat (map (\<lambda>w. [hex_digit (unat (drop_bit 4 w)), hex_digit (unat (w AND 15))]) b)"

definition hex_value :: "char \<Rightarrow> nat" where
  "hex_value c = (if is_digit c then of_char c - 48 else of_char c - 87)"

fun hex_decode :: "string \<Rightarrow> bytes" where
  "hex_decode (h # l # s) = word_of_nat (16 * hex_value h + hex_value l) # hex_decode s"
| "hex_decode _ = []"

lemma hex_value_hex_digit [simp]: "d < 16 \<Longrightarrow> hex_value (hex_digit d) = d"
  by (auto simp: hex_value_def hex_digit_def is_digit_def)

lemma nibbles:
  fixes w :: byte
  shows "unat (drop_bit 4 w) = unat w div 16" "unat (w AND 15) = unat w mod 16"
proof -
  show "unat (drop_bit 4 w) = unat w div 16"
    by (simp add: drop_bit_eq_div unat_div)
  have "w AND 15 = take_bit 4 w" by (simp add: take_bit_eq_mask mask_eq_exp_minus_1)
  then show "unat (w AND 15) = unat w mod 16"
    by (simp add: unsigned_take_bit_eq take_bit_eq_mod unat_mod)
qed

lemma hex_decode_encode [simp]: "hex_decode (hex_encode b) = b"
proof (induction b)
  case Nil
  then show ?case by (simp add: hex_encode_def)
next
  case (Cons w b)
  have "unat w div 16 < 16" using byte_lt_256 [of w] by simp
  then have "word_of_nat (16 * hex_value (hex_digit (unat (drop_bit 4 w))) +
      hex_value (hex_digit (unat (w AND 15)))) = w"
    by (simp add: nibbles)
  with Cons show ?case by (simp add: hex_encode_def)
qed

lemma length_hex_encode [simp, go_lens]: "length (hex_encode b) = 2 * length b"
  by (induction b) (simp_all add: hex_encode_def)

lemma hex_encode_inject: "hex_encode a = hex_encode b \<Longrightarrow> a = b"
  by (metis hex_decode_encode)

end
