(* ===== verification/ByteOrder.thy ===== *)
theory ByteOrder
  imports GoStrings
begin

text \<open>
  Little endian byte strings and words of any width: the bytes of a word, the word of a byte
  string written as the sources do, with shifts and \<open>|\<close>, and that they are inverse.
\<close>

subsection \<open>Reading\<close>

text \<open>\<open>uint64(b[0]) | uint64(b[1])<<8 | \<dots>\<close>\<close>

fun le_word :: "bytes \<Rightarrow> 'a::len word" where
  "le_word [] = 0"
| "le_word (b # bs) = ucast b OR push_bit 8 (le_word bs)"

fun le_value :: "bytes \<Rightarrow> nat" where
  "le_value [] = 0"
| "le_value (b # bs) = unat b + 256 * le_value bs"

lemma le_value_less: "le_value bs < 256 ^ length bs"
proof (induction bs)
  case (Cons b bs)
  with byte_lt_256 [of b] have "unat b + 256 * le_value bs < 256 + 256 * (256 ^ length bs - 1)"
    by (intro add_less_le_mono mult_le_mono2) simp_all
  also have "\<dots> = 256 ^ length (b # bs)"
    by (simp add: diff_mult_distrib2)
  finally show ?case by simp
qed simp

lemma unat_le_word:
  "8 * length bs \<le> LENGTH('a) \<Longrightarrow> unat (le_word bs :: 'a::len word) = le_value bs"
proof (induction bs)
  case (Cons b bs)
  let ?w = "le_word bs :: 'a word"
  have IH: "unat ?w = le_value bs" using Cons by simp
  have "256 ^ length bs = (2 :: nat) ^ (8 * length bs)"
    by (simp add: power_mult)
  also have "256 * \<dots> \<le> 2 ^ LENGTH('a)"
  proof -
    have "256 * (2 :: nat) ^ (8 * length bs) = 2 ^ (8 + 8 * length bs)" by (simp add: power_add)
    also have "\<dots> \<le> 2 ^ LENGTH('a)" using Cons.prems by (intro power_increasing) simp_all
    finally show ?thesis .
  qed
  finally have big: "256 * 256 ^ length bs \<le> (2 :: nat) ^ LENGTH('a)" by simp
  have small: "256 * le_value bs + unat b < 256 * 256 ^ length bs"
    using le_value_less [of "b # bs"] by (simp add: add.commute)
  have disj: "(ucast b :: 'a word) AND push_bit 8 ?w = 0"
    by (intro bit_eqI) (auto simp: bit_simps)
  have "unat (push_bit 8 ?w) = 256 * le_value bs"
  proof -
    have "unat (push_bit 8 ?w) = take_bit LENGTH('a) (push_bit 8 (unat ?w))"
      by (rule unsigned_push_bit_eq)
    also have "\<dots> = (256 * le_value bs) mod 2 ^ LENGTH('a)"
      unfolding IH by (simp add: push_bit_eq_mult take_bit_eq_mod mult.commute)
    finally show ?thesis using small big by simp
  qed
  moreover have "unat (ucast b :: 'a word) = unat b"
    using small big byte_lt_256 [of b]
    by (simp add: unsigned_ucast_eq take_bit_eq_mod)
  ultimately show ?case
    using small big by (simp add: or_eq_plus_disjoint [OF disj] unat_word_ariths add.commute)
qed simp

subsection \<open>Writing\<close>

text \<open>\<open>byte(n), byte(n >> 8), \<dots>\<close>\<close>

fun le_bytes :: "nat \<Rightarrow> 'a::len word \<Rightarrow> bytes" where
  "le_bytes 0 n = []"
| "le_bytes (Suc k) n = ucast n # le_bytes k (drop_bit 8 n)"

lemma length_le_bytes [simp]: "length (le_bytes k n) = k"
  by (induction k arbitrary: n) simp_all

lemma le_word_le_bytes: "le_word (le_bytes k n) = take_bit (8 * k) n"
proof (induction k arbitrary: n)
  case (Suc k)
  show ?case
    unfolding le_bytes.simps le_word.simps Suc.IH
    by (rule bit_eqI) (auto simp: bit_simps)
qed simp

lemma le_word_le_bytes_id:
  fixes n :: "'a::len word"
  assumes "unat n < 2 ^ (8 * k)"
  shows "le_word (le_bytes k n) = n"
proof -
  have "take_bit (8 * k) n = n"
    using assms by (metis take_bit_nat_eq_self unsigned_take_bit_eq unsigned_word_eqI)
  then show ?thesis by (simp add: le_word_le_bytes)
qed

lemma le_bytes_le_word:
  "8 * length bs \<le> LENGTH('a) \<Longrightarrow> le_bytes (length bs) (le_word bs :: 'a::len word) = bs"
proof (induction bs)
  case (Cons b bs)
  have "ucast (ucast b OR push_bit 8 (le_word bs) :: 'a word) = b"
    using Cons.prems by (intro bit_eqI) (auto simp: bit_simps)
  moreover have "drop_bit 8 (ucast b OR push_bit 8 (le_word bs) :: 'a word) = le_word bs"
  proof (rule bit_word_eqI)
    fix n assume n: "n < LENGTH('a)"
    have "\<not> bit (le_word bs :: 'a word) n" if "LENGTH('a) \<le> 8 + n"
    proof -
      have "unat (le_word bs :: 'a word) < 2 ^ (8 * length bs)"
        using Cons.prems le_value_less [of bs] by (simp add: unat_le_word power_mult)
      then have "take_bit (8 * length bs) (le_word bs :: 'a word) = le_word bs"
        by (metis take_bit_nat_eq_self unsigned_take_bit_eq unsigned_word_eqI)
      then have "bit (le_word bs :: 'a word) n \<longleftrightarrow> n < 8 * length bs \<and> bit (le_word bs :: 'a word) n"
        by (metis bit_take_bit_iff)
      with that Cons.prems show ?thesis by auto
    qed
    with n show "bit (drop_bit 8 (ucast b OR push_bit 8 (le_word bs) :: 'a word)) n = bit (le_word bs :: 'a word) n"
      by (cases "LENGTH('a) \<le> 8 + n") (auto simp: bit_simps not_le)
  qed
  ultimately show ?case using Cons by simp
qed simp

lemma le_value_le_bytes:
  fixes n :: "'a::len word"
  assumes "8 * k \<le> LENGTH('a)" "unat n < 2 ^ (8 * k)"
  shows "le_value (le_bytes k n) = unat n"
  using unat_le_word [where ?'a = 'a, of "le_bytes k n"] le_word_le_bytes_id [OF assms(2)] assms(1) by simp

subsection \<open>encoding/binary.LittleEndian\<close>

definition le_uint16 :: "bytes \<Rightarrow> 16 word go" where
  "le_uint16 b = go_bind (go_at b 1) (\<lambda>b1. go_bind (go_at b 0) (\<lambda>b0.
     Inr (ucast b0 OR push_bit 8 (ucast b1))))"

lemma le_uint16_eq: "2 \<le> length b \<Longrightarrow> le_uint16 b = Inr (le_word (take 2 b))"
  by (cases b rule: list.exhaust; cases "tl b") (auto simp: le_uint16_def)

lemma le_uint32_eq: "4 \<le> length b \<Longrightarrow> le_uint32 b = Inr (le_word (take 4 b))"
proof -
  assume "4 \<le> length b"
  then have "Suc (Suc (Suc (Suc 0))) \<le> length b" by simp
  then obtain b0 b1 b2 b3 bs where b: "b = b0 # b1 # b2 # b3 # bs"
    unfolding Suc_le_length_iff by blast
  show ?thesis
    unfolding b le_uint32_def
    by (simp add: push_bit_or push_bit_push_bit ac_simps eval_nat_numeral)
qed

end
