(* ===== verification/GoFlow.thy ===== *)
theory GoFlow
  imports GoBase
begin

text \<open>Code that may panic and may not return, and the division of Go.\<close>

subsection \<open>Runs that may not end\<close>

text \<open>\<open>None\<close> is the run that does not end.\<close>

definition ret_bind :: "'a go option \<Rightarrow> ('a \<Rightarrow> 'b go option) \<Rightarrow> 'b go option" where
  "ret_bind m f =
     (case m of None \<Rightarrow> None | Some (Inl p) \<Rightarrow> Some (Inl p) | Some (Inr x) \<Rightarrow> f x)"

lemma ret_bind_simps [simp]:
  "ret_bind None f = None" "ret_bind (Some (Inl p)) f = Some (Inl p)" "ret_bind (Some (Inr x)) f = f x"
  by (simp_all add: ret_bind_def)

text \<open>Code that surely returns, followed by code that may not.\<close>

abbreviation then_ret :: "'a go \<Rightarrow> ('a \<Rightarrow> 'b go option) \<Rightarrow> 'b go option" where
  "then_ret m \<equiv> ret_bind (Some m)"

subsection \<open>Code that returns a result or an error, and may panic\<close>

definition or_fail :: "('e + 'a) go \<Rightarrow> ('a \<Rightarrow> ('e + 'b) go) \<Rightarrow> ('e + 'b) go" where
  "or_fail m f = go_bind m (\<lambda>r. case r of Inl e \<Rightarrow> Inr (Inl e) | Inr x \<Rightarrow> f x)"

lemma or_fail_simps [simp]:
  "or_fail (Inl p) f = Inl p" "or_fail (Inr (Inl e)) f = Inr (Inl e)" "or_fail (Inr (Inr x)) f = f x"
  by (simp_all add: or_fail_def)

lemma or_fail_eq: "or_fail m f = Inr (Inr y) \<longleftrightarrow> (\<exists>x. m = Inr (Inr x) \<and> f x = Inr (Inr y))"
  by (cases m) (auto simp: or_fail_def split: sum.splits)

subsection \<open>Division\<close>

text \<open>Go's division truncates.\<close>

definition trunc_div :: "int \<Rightarrow> int \<Rightarrow> int" where
  "trunc_div i j = sgn i * (\<bar>i\<bar> div j)"

definition trunc_rem :: "int \<Rightarrow> int \<Rightarrow> int" where
  "trunc_rem i j = i - j * trunc_div i j"

lemma trunc_div_nonneg [simp]: "0 \<le> i \<Longrightarrow> trunc_div i j = i div j"
  by (cases "i = 0") (simp_all add: trunc_div_def)

end
