(* ===== verification/BsonValue.thy ===== *)
theory BsonValue
  imports ByteOrder GoFlow
begin

text \<open>
  \<open>bson/encode.go\<close>: the values of Go that a document is made of, by the types that the encoder
  distinguishes, and the encoder. The types are found by reflection there; values of user-defined struct
  types, of \<open>Getter\<close>s, of \<open>json.Number\<close> and of \<open>url.URL\<close> are not modelled. A Go map is a list of pairs in
  the order in which it is walked. The message about a value that is no document leaves out the name of its type.
\<close>

subsection \<open>Values\<close>

datatype go_value =
    GNil
  | GString bytes
  | GObjectId bytes
  | GSymbol bytes
  | GFloat "64 word"                              \<comment> \<open>the bits\<close>
  | GUint "64 word"                               \<comment> \<open>of a kind up to \<open>uint32\<close>, \<open>uint\<close> included\<close>
  | GUint64 "64 word"
  | GInt "64 word"                                \<comment> \<open>of a kind other than \<open>int64\<close>\<close>
  | GInt64 "64 word"
  | GTimestamp "64 word"                          \<comment> \<open>\<open>MongoTimestamp\<close>\<close>
  | GMinKey
  | GMaxKey
  | GDuration "64 word"                           \<comment> \<open>nanoseconds\<close>
  | GBool bool
  | GBytes bytes
  | GBinary byte bytes
  | GRaw byte bytes
  | GDecimal "64 word" "64 word"                  \<comment> \<open>\<open>h\<close> and \<open>l\<close>\<close>
  | GDBPointer bytes bytes
  | GRegEx bytes bytes
  | GJavaScript bytes go_value                    \<comment> \<open>\<open>GNil\<close> for no scope\<close>
  | GTime int int                                 \<comment> \<open>\<open>Unix()\<close> and \<open>Nanosecond()\<close>\<close>
  | GUndefined
  | GMap "(bytes \<times> go_value) list"
  | GD "(bytes \<times> go_value) list"                  \<comment> \<open>\<open>bson.D\<close>\<close>
  | GSlice "go_value list"                        \<comment> \<open>\<open>[]interface{}\<close>\<close>

subsection \<open>Kinds of elements\<close>

definition ElementFloat64 :: byte where "ElementFloat64 = 0x01"
definition ElementString :: byte where "ElementString = 0x02"
definition ElementDocument :: byte where "ElementDocument = 0x03"
definition ElementArray :: byte where "ElementArray = 0x04"
definition ElementBinary :: byte where "ElementBinary = 0x05"
definition Element06 :: byte where "Element06 = 0x06"
definition ElementObjectId :: byte where "ElementObjectId = 0x07"
definition ElementBool :: byte where "ElementBool = 0x08"
definition ElementDatetime :: byte where "ElementDatetime = 0x09"
definition ElementNil :: byte where "ElementNil = 0x0A"
definition ElementRegEx :: byte where "ElementRegEx = 0x0B"
definition ElementDBPointer :: byte where "ElementDBPointer = 0x0C"
definition ElementJavaScriptWithoutScope :: byte where "ElementJavaScriptWithoutScope = 0x0D"
definition ElementSymbol :: byte where "ElementSymbol = 0x0E"
definition ElementJavaScriptWithScope :: byte where "ElementJavaScriptWithScope = 0x0F"
definition ElementInt32 :: byte where "ElementInt32 = 0x10"
definition ElementTimestamp :: byte where "ElementTimestamp = 0x11"
definition ElementInt64 :: byte where "ElementInt64 = 0x12"
definition ElementDecimal128 :: byte where "ElementDecimal128 = 0x13"
definition ElementMinKey :: byte where "ElementMinKey = 0xFF"
definition ElementMaxKey :: byte where "ElementMaxKey = 0x7F"

definition BinaryGeneric :: byte where "BinaryGeneric = 0x00"
definition BinaryBinaryOld :: byte where "BinaryBinaryOld = 0x02"

lemmas element_kinds =
  ElementFloat64_def ElementString_def ElementDocument_def ElementArray_def ElementBinary_def Element06_def
  ElementObjectId_def ElementBool_def ElementDatetime_def ElementNil_def ElementRegEx_def ElementDBPointer_def
  ElementJavaScriptWithoutScope_def ElementSymbol_def ElementJavaScriptWithScope_def ElementInt32_def
  ElementTimestamp_def ElementInt64_def ElementDecimal128_def ElementMinKey_def ElementMaxKey_def

definition arrayOps :: "bytes set" where
  "arrayOps = set (map bytes_of_string [''$in'', ''$nin'', ''$all''])"

subsection \<open>Base types\<close>

definition enc_int32 :: "32 word \<Rightarrow> bytes" where "enc_int32 v = le_bytes 4 v"
definition enc_int64 :: "64 word \<Rightarrow> bytes" where "enc_int64 v = le_bytes 8 v"

lemma length_enc [simp]: "length (enc_int32 w) = 4" "length (enc_int64 u) = 8"
  by (simp_all add: enc_int32_def enc_int64_def)

text \<open>A length as \<open>int32\<close>.\<close>

abbreviation len32 :: "nat \<Rightarrow> bytes" where
  "len32 n \<equiv> enc_int32 (word_of_nat n)"

definition addCStr :: "bytes \<Rightarrow> bytes" where "addCStr v = v @ [0]"

definition addStr :: "bytes \<Rightarrow> bytes" where
  "addStr v = len32 (length v + 1) @ addCStr v"

definition addBinary :: "byte \<Rightarrow> bytes \<Rightarrow> bytes" where
  "addBinary subtype v =
     (if subtype = 0x02 then len32 (length v + 4) @ [subtype] @ len32 (length v)
      else len32 (length v) @ [subtype]) @ v"

definition addElemName :: "byte \<Rightarrow> bytes \<Rightarrow> bytes" where
  "addElemName kind name = kind # name @ [0]"

text \<open>The document around its elements: \<open>reserveInt32\<close>, the zero byte and \<open>setInt32\<close>.\<close>

definition wrap_doc :: "bytes go \<Rightarrow> bytes go" where
  "wrap_doc body = go_bind body (\<lambda>b. Inr (len32 (length b + 5) @ b @ [0]))"

subsection \<open>Options of regular expressions\<close>

text \<open>
  \<open>[]rune\<close> of a string and back: \<open>utf8.DecodeRune\<close> with the replacement character for what is not valid,
  and \<open>utf8.EncodeRune\<close>.
\<close>

definition continuation :: "byte \<Rightarrow> bool" where
  "continuation b \<longleftrightarrow> b AND 0xC0 = 0x80"

definition low6 :: "byte \<Rightarrow> nat" where
  "low6 b = unat (b AND 0x3F)"

definition decode_rune :: "bytes \<Rightarrow> nat \<times> nat" where
  "decode_rune s =
     (case s of
        [] \<Rightarrow> (0xFFFD, 0)
      | a # t \<Rightarrow>
          if a < 0x80 then (unat a, 1)
          else if 0xC2 \<le> a \<and> a \<le> 0xDF \<and> 1 \<le> length t \<and> continuation (t ! 0)
            then (unat (a AND 0x1F) * 64 + low6 (t ! 0), 2)
          else if 0xE0 \<le> a \<and> a \<le> 0xEF \<and> 2 \<le> length t \<and> continuation (t ! 0) \<and> continuation (t ! 1) \<and>
              (a = 0xE0 \<longrightarrow> 0xA0 \<le> t ! 0) \<and> (a = 0xED \<longrightarrow> t ! 0 \<le> 0x9F)
            then (unat (a AND 0x0F) * 4096 + low6 (t ! 0) * 64 + low6 (t ! 1), 3)
          else if 0xF0 \<le> a \<and> a \<le> 0xF4 \<and> 3 \<le> length t \<and> continuation (t ! 0) \<and> continuation (t ! 1) \<and>
              continuation (t ! 2) \<and> (a = 0xF0 \<longrightarrow> 0x90 \<le> t ! 0) \<and> (a = 0xF4 \<longrightarrow> t ! 0 \<le> 0x8F)
            then (unat (a AND 0x07) * 262144 + low6 (t ! 0) * 4096 + low6 (t ! 1) * 64 + low6 (t ! 2), 4)
          else (0xFFFD, 1))"

lemma decode_rune_size: "s \<noteq> [] \<Longrightarrow> 1 \<le> snd (decode_rune s) \<and> snd (decode_rune s) \<le> length s"
  by (cases s) (auto simp: decode_rune_def)

function runes_of :: "bytes \<Rightarrow> nat list" where
  "runes_of s = (if s = [] then [] else fst (decode_rune s) # runes_of (drop (snd (decode_rune s)) s))"
  by pat_completeness auto
termination
  by (relation "measure length") (use decode_rune_size in \<open>fastforce simp: not_less\<close>)+

declare runes_of.simps [simp del]

definition encode_rune :: "nat \<Rightarrow> bytes" where
  "encode_rune r =
     (if r < 0x80 then [word_of_nat r]
      else if r < 0x800 then [word_of_nat (0xC0 + r div 64), word_of_nat (0x80 + r mod 64)]
      else if r < 0x10000 then
        [word_of_nat (0xE0 + r div 4096), word_of_nat (0x80 + r div 64 mod 64), word_of_nat (0x80 + r mod 64)]
      else
        [word_of_nat (0xF0 + r div 262144), word_of_nat (0x80 + r div 4096 mod 64),
         word_of_nat (0x80 + r div 64 mod 64), word_of_nat (0x80 + r mod 64)])"

text \<open>\<open>sort.Sort\<close> of runes: equal ones cannot be told apart.\<close>

definition sorted_options :: "bytes \<Rightarrow> bytes" where
  "sorted_options s = concat (map encode_rune (sort (runes_of s)))"

subsection \<open>Elements and documents\<close>

definition fits_int32 :: "64 word \<Rightarrow> bool" where
  "fits_int32 i \<longleftrightarrow> - (2 ^ 31) \<le> sint i \<and> sint i \<le> 2 ^ 31 - 1"

definition id_length :: "bytes \<Rightarrow> bytes go" where
  "id_length s =
     (if length s \<noteq> 12
      then Inl (ExplicitPanic (''ObjectIDs must be exactly 12 bytes long (got '' @ strconv_Itoa (int (length s)) @ '')''))
      else Inr s)"

definition enc_uint :: "bool \<Rightarrow> bytes \<Rightarrow> 64 word \<Rightarrow> bytes go" where
  "enc_uint small name u =
     (if sint u < 0
      then Inl (ExplicitPanic ''BSON has no uint64 type, and value is too large to fit correctly in an int64'')
      else Inr (if uint u \<le> 2 ^ 31 - 1 \<and> small then addElemName ElementInt32 name @ enc_int32 (ucast u)
        else addElemName ElementInt64 name @ enc_int64 u))"

definition enc_int :: "bool \<Rightarrow> bytes \<Rightarrow> 64 word \<Rightarrow> bytes" where
  "enc_int small name i =
     (if small \<and> fits_int32 i then addElemName ElementInt32 name @ enc_int32 (ucast i)
      else addElemName ElementInt64 name @ enc_int64 i)"

definition index_name :: "nat \<Rightarrow> bytes" where
  "index_name i = bytes_of_string (strconv_Itoa (int i))"

text \<open>The bytes of a slice as elements of an array (\<open>addSlice\<close> over \<open>uint8\<close>s).\<close>

definition enc_byte_array :: "bytes \<Rightarrow> bytes go" where
  "enc_byte_array v =
     wrap_doc (Inr (concat (map (\<lambda>(i, b). addElemName ElementInt32 (index_name i) @ enc_int32 (ucast b))
       (enumerate 0 v))))"

definition raw_needs_data :: "byte \<Rightarrow> bool" where
  "raw_needs_data kind \<longleftrightarrow> kind \<notin> set [0x06, 0x0A, 0xFF, 0x7F]"

text \<open>Values without elements of their own: \<open>addElem\<close> up to the documents.\<close>

fun enc_leaf :: "bool \<Rightarrow> bytes \<Rightarrow> go_value \<Rightarrow> bytes go" where
  "enc_leaf minSize name GNil = Inr (addElemName ElementNil name)"
| "enc_leaf minSize name (GString s) = Inr (addElemName ElementString name @ addStr s)"
| "enc_leaf minSize name (GObjectId s) = go_bind (id_length s) (\<lambda>s. Inr (addElemName ElementObjectId name @ s))"
| "enc_leaf minSize name (GSymbol s) = Inr (addElemName ElementSymbol name @ addStr s)"
| "enc_leaf minSize name (GFloat w) = Inr (addElemName ElementFloat64 name @ enc_int64 w)"
| "enc_leaf minSize name (GUint u) = enc_uint True name u"
| "enc_leaf minSize name (GUint64 u) = enc_uint minSize name u"
| "enc_leaf minSize name (GInt i) = Inr (enc_int True name i)"
| "enc_leaf minSize name (GInt64 i) = Inr (enc_int minSize name i)"
| "enc_leaf minSize name (GTimestamp w) = Inr (addElemName ElementTimestamp name @ enc_int64 w)"
| "enc_leaf minSize name GMinKey = Inr (addElemName ElementMinKey name)"
| "enc_leaf minSize name GMaxKey = Inr (addElemName ElementMaxKey name)"
| "enc_leaf minSize name (GDuration w) =
     Inr (addElemName ElementInt64 name @ enc_int64 (word_of_int (trunc_div (sint w) 1000000)))"
| "enc_leaf minSize name (GBool b) = Inr (addElemName ElementBool name @ [if b then 1 else 0])"
| "enc_leaf minSize name (GBytes v) =
     (if name \<in> arrayOps then go_bind (enc_byte_array v) (\<lambda>d. Inr (addElemName ElementArray name @ d))
      else Inr (addElemName ElementBinary name @ addBinary 0 v))"
| "enc_leaf minSize name (GBinary kind v) = Inr (addElemName ElementBinary name @ addBinary kind v)"
| "enc_leaf minSize name (GRaw kind v) =
     (let kind = (if kind = 0 then 0x03 else kind) in
      if v = [] \<and> raw_needs_data kind then Inl (ExplicitPanic ''Attempted to marshal empty Raw document'')
      else Inr (addElemName kind name @ v))"
| "enc_leaf minSize name (GDecimal h l) = Inr (addElemName ElementDecimal128 name @ enc_int64 l @ enc_int64 h)"
| "enc_leaf minSize name (GDBPointer ns oid) =
     go_bind (id_length oid) (\<lambda>oid. Inr (addElemName ElementDBPointer name @ addStr ns @ oid))"
| "enc_leaf minSize name (GRegEx pattern options) =
     Inr (addElemName ElementRegEx name @ addCStr pattern @ addCStr (sorted_options options))"
| "enc_leaf minSize name (GTime sec nsec) =
     Inr (addElemName ElementDatetime name @ enc_int64 (word_of_int (sec * 1000 + trunc_div nsec 1000000)))"
| "enc_leaf minSize name GUndefined = Inr (addElemName Element06 name)"
| "enc_leaf minSize name v = Inr []"

text \<open>The exported fields of a struct of this package where a document is asked for.\<close>

fun struct_fields :: "go_value \<Rightarrow> (bytes \<times> go_value) list option" where
  "struct_fields (GBinary kind v) =
     Some [(bytes_of_string ''kind'', GUint (ucast kind)), (bytes_of_string ''data'', GBytes v)]"
| "struct_fields (GDBPointer ns oid) =
     Some [(bytes_of_string ''namespace'', GString ns), (bytes_of_string ''id'', GObjectId oid)]"
| "struct_fields (GRegEx pattern options) =
     Some [(bytes_of_string ''pattern'', GString pattern), (bytes_of_string ''options'', GString options)]"
| "struct_fields (GDecimal h l) = Some []"
| "struct_fields (GTime sec nsec) = Some []"
| "struct_fields GUndefined = Some []"
| "struct_fields _ = None"

fun enc_leaves :: "(bytes \<times> go_value) list \<Rightarrow> bytes go" where
  "enc_leaves [] = Inr []"
| "enc_leaves ((name, v) # d) =
     go_bind (enc_leaf False name v) (\<lambda>a. go_bind (enc_leaves d) (\<lambda>b. Inr (a @ b)))"

fun addDoc :: "go_value \<Rightarrow> bytes go"
  and addElems :: "(bytes \<times> go_value) list \<Rightarrow> bytes go"
  and addItems :: "nat \<Rightarrow> go_value list \<Rightarrow> bytes go"
  and addElem :: "bool \<Rightarrow> bytes \<Rightarrow> go_value \<Rightarrow> bytes go"
where
  "addDoc v =
     (case v of
        GRaw kind data \<Rightarrow>
          if kind \<noteq> 0x03 \<and> kind \<noteq> 0
          then Inl (ExplicitPanic (''Attempted to marshal Raw kind '' @ strconv_Itoa (uint kind) @ '' as a document''))
          else if data = [] then Inl (ExplicitPanic ''Attempted to marshal empty Raw document'')
          else Inr data
      | GMap d \<Rightarrow> wrap_doc (addElems d)
      | GD d \<Rightarrow> wrap_doc (addElems d)
      | GSlice xs \<Rightarrow> wrap_doc (addItems 0 xs)
      | GBytes b \<Rightarrow> enc_byte_array b
      | GJavaScript code scope \<Rightarrow>
          wrap_doc (go_bind (addElem False (bytes_of_string ''scope'') scope) (\<lambda>b.
            Inr (addElemName ElementString (bytes_of_string ''code'') @ addStr code @ b)))
      | _ \<Rightarrow>
          (case struct_fields v of
             Some d \<Rightarrow> wrap_doc (enc_leaves d)
           | None \<Rightarrow> Inl (ExplicitPanic ''Can't marshal as a BSON document'')))"
| "addElems [] = Inr []"
| "addElems ((name, v) # d) =
     go_bind (addElem False name v) (\<lambda>a. go_bind (addElems d) (\<lambda>b. Inr (a @ b)))"
| "addItems i [] = Inr []"
| "addItems i (v # xs) =
     go_bind (addElem False (index_name i) v) (\<lambda>a. go_bind (addItems (Suc i) xs) (\<lambda>b. Inr (a @ b)))"
| "addElem minSize name v =
     (case v of
        GMap d \<Rightarrow> go_bind (wrap_doc (addElems d)) (\<lambda>b. Inr (addElemName ElementDocument name @ b))
      | GD d \<Rightarrow> go_bind (wrap_doc (addElems d)) (\<lambda>b. Inr (addElemName ElementDocument name @ b))
      | GSlice xs \<Rightarrow> go_bind (wrap_doc (addItems 0 xs)) (\<lambda>b. Inr (addElemName ElementArray name @ b))
      | GJavaScript code scope \<Rightarrow>
          if scope = GNil then Inr (addElemName ElementJavaScriptWithoutScope name @ addStr code)
          else go_bind (addDoc scope) (\<lambda>b.
            Inr (addElemName ElementJavaScriptWithScope name @ len32 (4 + length (addStr code) + length b) @
              addStr code @ b))
      | _ \<Rightarrow> enc_leaf minSize name v)"

declare addDoc.simps [simp del] addElem.simps [simp del]

text \<open>\<open>handleErr\<close>: a panic of this package's own, with a text, becomes an error; others go on.\<close>

definition handleErr :: "'a go \<Rightarrow> (string + 'a) go" where
  "handleErr r =
     (case r of
        Inl (ExplicitPanic msg) \<Rightarrow> Inr (Inl msg)
      | Inl p \<Rightarrow> Inl p
      | Inr x \<Rightarrow> Inr (Inr x))"

definition Marshal :: "go_value \<Rightarrow> (string + bytes) go" where
  "Marshal v = handleErr (addDoc v)"

end
