(* ===== verification/MgoWrite.thy ===== *)
theory MgoWrite
  imports BsonValue
begin

text \<open>
  \<open>session.go\<close>: write operations of the MongoDB driver, as commands and, for old servers, as operations
  followed by \<open>getLastError\<close>. What the server answers is the parameter \<open>env\<close> of this part: it gives, in a state
  \<open>'s\<close> of its own, what \<open>Database.run\<close> makes of the answer to a command, and what \<open>socket.Query\<close> does.
  Counters of type \<open>int\<close> are unbounded.
\<close>

subsection \<open>Operations\<close>

record update_op =
  up_Collection :: string
  up_Selector :: go_value
  up_Update :: go_value
  up_Flags :: nat
  up_Multi :: bool
  up_Upsert :: bool

record delete_op =
  del_Collection :: string
  del_Selector :: go_value
  del_Flags :: nat
  del_Limit :: nat

text \<open>What stands in the \<open>[]interface{}\<close> of an operation.\<close>

datatype op_arg = ArgDoc go_value | ArgUpdate update_op | ArgDelete delete_op

datatype write_op =
    InsertOp string "op_arg list" nat
  | UpdateSingle update_op
  | BulkUpdateOp "op_arg list"
  | DeleteSingle delete_op
  | BulkDeleteOp "op_arg list"

abbreviation field :: "string \<Rightarrow> go_value \<Rightarrow> bytes \<times> go_value" where
  "field name v \<equiv> (bytes_of_string name, v)"

text \<open>The documents that the structs are encoded as.\<close>

definition update_doc :: "update_op \<Rightarrow> go_value" where
  "update_doc u = GD ([field ''q'' (up_Selector u), field ''u'' (up_Update u)] @
     (if up_Multi u then [field ''multi'' (GBool True)] else []) @
     (if up_Upsert u then [field ''upsert'' (GBool True)] else []))"

definition delete_doc :: "delete_op \<Rightarrow> go_value" where
  "delete_doc d = GD [field ''q'' (del_Selector d), field ''limit'' (GInt (word_of_nat (del_Limit d)))]"

fun arg_value :: "op_arg \<Rightarrow> go_value" where
  "arg_value (ArgDoc d) = d"
| "arg_value (ArgUpdate u) = update_doc u"
| "arg_value (ArgDelete d) = delete_doc d"

subsection \<open>Errors and answers\<close>

datatype mongo_err =
    PlainError string
  | QueryError int string bool
  | LastErr last_error
and last_error = LastError (le_Err: string) (le_Code: int) (le_N: int) (le_modified: int)
    (le_UpdatedExisting: bool) (le_UpsertedId: "go_value option") (le_ecases: "(int \<times> mongo_err) list")

record writeCmdError =
  we_Index :: int
  we_Code :: int
  we_ErrMsg :: string

record writeCmdResult =
  wr_N :: int
  wr_NModified :: int
  wr_Upserted :: "(int \<times> go_value) list"
  wr_ConcernError :: "int \<times> string"
  wr_Errors :: "writeCmdError list"

definition BulkErrorCases :: "writeCmdResult \<Rightarrow> (int \<times> mongo_err) list" where
  "BulkErrorCases r = map (\<lambda>e. (we_Index e, QueryError (we_Code e) (we_ErrMsg e) False)) (wr_Errors r)"

text \<open>\<open>env_gle\<close> is the answer to an operation that \<open>getLastError\<close> follows: an error, or \<open>Err\<close>, \<open>Code\<close> and \<open>N\<close>.\<close>

record 's mongo_env =
  env_acquire :: "'s \<Rightarrow> mongo_err option \<times> 's"
  env_wire :: "'s \<Rightarrow> int"
  env_run :: "go_value \<Rightarrow> 's \<Rightarrow> (writeCmdResult \<times> mongo_err option) \<times> 's"
  env_send :: "write_op \<Rightarrow> 's \<Rightarrow> mongo_err option \<times> 's"
  env_gle :: "write_op \<Rightarrow> 's \<Rightarrow> (mongo_err + last_error) \<times> 's"

subsection \<open>Safety of a session\<close>

record safe_mode =
  safe_W :: int
  safe_WMode :: string
  safe_RMode :: string
  safe_WTimeout :: int
  safe_FSync :: bool
  safe_J :: bool

text \<open>\<open>W\<close> of the command: absent, a number or a mode.\<close>

datatype write_w = NoW | WCount int | WName string

record get_last_error =
  gle_W :: write_w
  gle_WTimeout :: int
  gle_FSync :: bool
  gle_J :: bool

record mongo_session =
  ms_safeOp :: "get_last_error option"
  ms_bypassValidation :: bool
  ms_readConcern :: string

definition wanted_w :: "safe_mode \<Rightarrow> write_w" where
  "wanted_w safe =
     (if safe_WMode safe \<noteq> [] then WName (safe_WMode safe)
      else if 0 < safe_W safe then WCount (safe_W safe) else NoW)"

definition stricter :: "safe_mode \<Rightarrow> get_last_error \<Rightarrow> get_last_error" where
  "stricter safe cmd =
     (let cmd = (case gle_W cmd of
           NoW \<Rightarrow> cmd\<lparr>gle_W := wanted_w safe\<rparr>
         | w \<Rightarrow> if safe_WMode safe \<noteq> [] then cmd\<lparr>gle_W := WName (safe_WMode safe)\<rparr>
             else (case w of WCount i \<Rightarrow> if i < safe_W safe then cmd\<lparr>gle_W := WCount (safe_W safe)\<rparr> else cmd | _ \<Rightarrow> cmd));
          cmd = (if 0 < safe_WTimeout safe \<and> safe_WTimeout safe < gle_WTimeout cmd
            then cmd\<lparr>gle_WTimeout := safe_WTimeout safe\<rparr> else cmd)
      in if safe_FSync safe then cmd\<lparr>gle_FSync := True, gle_J := False\<rparr>
         else if safe_J safe \<and> \<not> gle_FSync cmd then cmd\<lparr>gle_J := True\<rparr> else cmd)"

definition ensureSafe :: "safe_mode option \<Rightarrow> mongo_session \<Rightarrow> mongo_session" where
  "ensureSafe safe s =
     (case safe of
        None \<Rightarrow> s
      | Some safe \<Rightarrow>
          (let s = (if safe_RMode safe \<in> set [''majority'', ''local'', ''linearizable'']
               then s\<lparr>ms_readConcern := safe_RMode safe\<rparr> else s)
           in s\<lparr>ms_safeOp := Some (case ms_safeOp s of
                None \<Rightarrow> \<lparr>gle_W = wanted_w safe, gle_WTimeout = safe_WTimeout safe, gle_FSync = safe_FSync safe, gle_J = safe_J safe\<rparr>
              | Some cmd \<Rightarrow> stricter safe cmd)\<rparr>))"

definition SetSafe :: "safe_mode option \<Rightarrow> mongo_session \<Rightarrow> mongo_session" where
  "SetSafe safe s = ensureSafe safe (s\<lparr>ms_safeOp := None\<rparr>)"

text \<open>The document of \<open>getLastError\<close> (fields that are zero are left out) and of a write that is not answered for.\<close>

definition gle_doc :: "get_last_error \<Rightarrow> go_value" where
  "gle_doc g = GD ([field ''getLastError'' (GInt 1)] @
     (case gle_W g of NoW \<Rightarrow> [] | WCount i \<Rightarrow> [field ''w'' (GInt (word_of_int i))]
      | WName m \<Rightarrow> [field ''w'' (GString (bytes_of_string m))]) @
     (if gle_WTimeout g = 0 then [] else [field ''wtimeout'' (GInt (word_of_int (gle_WTimeout g)))]) @
     (if gle_FSync g then [field ''fsync'' (GBool True)] else []) @
     (if gle_J g then [field ''j'' (GBool True)] else []))"

definition write_concern :: "get_last_error option \<Rightarrow> go_value" where
  "write_concern safeOp = (case safeOp of None \<Rightarrow> GD [field ''w'' (GInt 0)] | Some g \<Rightarrow> gle_doc g)"

subsection \<open>One command\<close>

fun write_cmd :: "string \<Rightarrow> get_last_error option \<Rightarrow> write_op \<Rightarrow> bool \<Rightarrow> (bytes \<times> go_value) list" where
  "write_cmd name safeOp (InsertOp coll docs flags) ordered =
     [field ''insert'' (GString (bytes_of_string name)), field ''documents'' (GSlice (map arg_value docs)),
      field ''writeConcern'' (write_concern safeOp), field ''ordered'' (GBool (even flags))]"
| "write_cmd name safeOp (UpdateSingle u) ordered =
     [field ''update'' (GString (bytes_of_string name)), field ''updates'' (GSlice [update_doc u]),
      field ''writeConcern'' (write_concern safeOp), field ''ordered'' (GBool ordered)]"
| "write_cmd name safeOp (BulkUpdateOp ops) ordered =
     [field ''update'' (GString (bytes_of_string name)), field ''updates'' (GSlice (map arg_value ops)),
      field ''writeConcern'' (write_concern safeOp), field ''ordered'' (GBool ordered)]"
| "write_cmd name safeOp (DeleteSingle d) ordered =
     [field ''delete'' (GString (bytes_of_string name)), field ''deletes'' (GSlice [delete_doc d]),
      field ''writeConcern'' (write_concern safeOp), field ''ordered'' (GBool ordered)]"
| "write_cmd name safeOp (BulkDeleteOp ops) ordered =
     [field ''delete'' (GString (bytes_of_string name)), field ''deletes'' (GSlice (map arg_value ops)),
      field ''writeConcern'' (write_concern safeOp), field ''ordered'' (GBool ordered)]"

definition bypass_field :: "bool \<Rightarrow> (bytes \<times> go_value) list" where
  "bypass_field bypassValidation = (if bypassValidation then [field ''bypassDocumentValidation'' (GBool True)] else [])"

type_synonym write_result = "last_error option \<times> mongo_err option"

definition command_result :: "bool \<Rightarrow> writeCmdResult \<Rightarrow> mongo_err option \<Rightarrow> write_result" where
  "command_result safe r err =
     (let upserted = (case wr_Upserted r of [] \<Rightarrow> None | u # us \<Rightarrow> Some (snd u));
          lerr = (\<lambda>code msg. LastError msg code (wr_N r) (wr_NModified r) (0 < wr_N r \<and> wr_Upserted r = []) upserted (BulkErrorCases r))
      in case wr_Errors r of
           e # es \<Rightarrow> (Some (lerr (we_Code e) (we_ErrMsg e)), Some (LastErr (lerr (we_Code e) (we_ErrMsg e))))
         | [] \<Rightarrow>
             if fst (wr_ConcernError r) \<noteq> 0
             then (Some (case_prod lerr (wr_ConcernError r)), Some (LastErr (case_prod lerr (wr_ConcernError r))))
             else if err = None \<and> \<not> safe then (None, None)
             else (Some (lerr 0 ''''), err))"

definition writeOpCommand ::
  "'s mongo_env \<Rightarrow> string \<Rightarrow> get_last_error option \<Rightarrow> write_op \<Rightarrow> bool \<Rightarrow> bool \<Rightarrow> 's \<Rightarrow> write_result \<times> 's" where
  "writeOpCommand env name safeOp wop ordered bypassValidation s =
     (let ((r, err), s) = env_run env (GD (write_cmd name safeOp wop ordered @ bypass_field bypassValidation)) s
      in (command_result (safeOp \<noteq> None) r err, s))"

definition inserts_many :: "write_op \<Rightarrow> bool" where
  "inserts_many wop = (case wop of InsertOp coll docs flags \<Rightarrow> 1 < length docs | _ \<Rightarrow> False)"

definition writeOpQuery :: "'s mongo_env \<Rightarrow> get_last_error option \<Rightarrow> write_op \<Rightarrow> 's \<Rightarrow> write_result \<times> 's" where
  "writeOpQuery env safeOp wop s =
     (case safeOp of
        None \<Rightarrow> (let (err, s) = env_send env wop s in ((None, err), s))
      | Some g \<Rightarrow>
          (let (r, s) = env_gle env wop s in
           (case r of
              Inl err \<Rightarrow> (None, Some err)
            | Inr result \<Rightarrow>
                if le_Err result \<noteq> []
                then (let cases = (if inserts_many wop then - 1 else 0);
                          plain = LastErr (LastError (le_Err result) (le_Code result) (le_N result) 0
                            (le_UpdatedExisting result) (le_UpsertedId result) []);
                          result = LastError (le_Err result) (le_Code result) (le_N result) 0
                            (le_UpdatedExisting result) (le_UpsertedId result) [(cases, plain)]
                      in (Some result, Some (LastErr result)))
                else (Some (LastError (le_Err result) (le_Code result) (le_N result) (le_N result)
                  (le_UpdatedExisting result) (le_UpsertedId result) []), None), s)))"

subsection \<open>Batches\<close>

definition batch_size :: nat where "batch_size = 1000"

lemma batch_size_pos: "0 < batch_size" by (simp add: batch_size_def)

definition no_error :: last_error where
  "no_error = LastError '''' 0 0 0 False None []"

definition add_counts :: "last_error \<Rightarrow> last_error \<Rightarrow> last_error" where
  "add_counts lerr oplerr =
     LastError (le_Err lerr) (le_Code lerr) (le_N lerr + le_N oplerr) (le_modified lerr + le_modified oplerr)
       (le_UpdatedExisting lerr) (le_UpsertedId lerr) (le_ecases lerr)"

definition add_ecases :: "last_error \<Rightarrow> (int \<times> mongo_err) list \<Rightarrow> last_error" where
  "add_ecases lerr cs =
     LastError (le_Err lerr) (le_Code lerr) (le_N lerr) (le_modified lerr)
       (le_UpdatedExisting lerr) (le_UpsertedId lerr) (le_ecases lerr @ cs)"

definition shift_ecases :: "nat \<Rightarrow> last_error \<Rightarrow> last_error" where
  "shift_ecases i lerr =
     LastError (le_Err lerr) (le_Code lerr) (le_N lerr) (le_modified lerr)
       (le_UpdatedExisting lerr) (le_UpsertedId lerr) (map (\<lambda>(k, e). (k + int i, e)) (le_ecases lerr))"

definition batches_end :: "last_error \<Rightarrow> write_result" where
  "batches_end lerr = (Some lerr, case le_ecases lerr of [] \<Rightarrow> None | (k, e) # cs \<Rightarrow> Some e)"

text \<open>The error of a command is the result itself, so its cases are shifted with it.\<close>

definition shift_error :: "nat \<Rightarrow> mongo_err \<Rightarrow> mongo_err" where
  "shift_error i err = (case err of LastErr lerr \<Rightarrow> LastErr (shift_ecases i lerr) | _ \<Rightarrow> err)"

function insert_batches ::
  "'s mongo_env \<Rightarrow> string \<Rightarrow> get_last_error option \<Rightarrow> bool \<Rightarrow> bool \<Rightarrow> string \<Rightarrow> nat \<Rightarrow> nat \<Rightarrow> op_arg list \<Rightarrow> last_error \<Rightarrow> 's \<Rightarrow>
    (write_result \<times> 's) go" where
  "insert_batches env name safeOp ordered bypass coll flags i docs lerr s =
     (if docs = [] then Inr (batches_end lerr, s)
      else case writeOpCommand env name safeOp (InsertOp coll (take batch_size docs) flags) ordered bypass s of
        ((None, err), s) \<Rightarrow> Inl NilDereference
      | ((Some oplerr, None), s) \<Rightarrow>
          insert_batches env name safeOp ordered bypass coll flags (i + batch_size) (drop batch_size docs) (add_counts lerr oplerr) s
      | ((Some oplerr, Some err), s) \<Rightarrow>
          let lerr = add_ecases (add_counts lerr oplerr) (le_ecases (shift_ecases i oplerr)) in
          if even flags then Inr ((Some lerr, Some (shift_error i err)), s)
          else insert_batches env name safeOp ordered bypass coll flags (i + batch_size) (drop batch_size docs) lerr s)"
  by pat_completeness auto
termination
  by (relation "measure (\<lambda>(env, name, safeOp, ordered, bypass, coll, flags, i, docs, lerr, s). length docs)")
    (use batch_size_pos in auto)

declare insert_batches.simps [simp del]

text \<open>Updates and removals, by \<open>bulk\<close>: one case for a batch.\<close>

function bulk_batches ::
  "'s mongo_env \<Rightarrow> string \<Rightarrow> get_last_error option \<Rightarrow> bool \<Rightarrow> bool \<Rightarrow> (op_arg list \<Rightarrow> write_op) \<Rightarrow> nat \<Rightarrow> op_arg list \<Rightarrow> last_error \<Rightarrow> 's \<Rightarrow>
    (write_result \<times> 's) go" where
  "bulk_batches env name safeOp ordered bypass bulk i ops lerr s =
     (if ops = [] then Inr (batches_end lerr, s)
      else case writeOpCommand env name safeOp (bulk (take batch_size ops)) ordered bypass s of
        ((None, err), s) \<Rightarrow> Inl NilDereference
      | ((Some oplerr, None), s) \<Rightarrow>
          bulk_batches env name safeOp ordered bypass bulk (i + batch_size) (drop batch_size ops) (add_counts lerr oplerr) s
      | ((Some oplerr, Some err), s) \<Rightarrow>
          let lerr = add_ecases (add_counts lerr oplerr) [(int i, err)] in
          if ordered then Inr (batches_end lerr, s)
          else bulk_batches env name safeOp ordered bypass bulk (i + batch_size) (drop batch_size ops) lerr s)"
  by pat_completeness auto
termination
  by (relation "measure (\<lambda>(env, name, safeOp, ordered, bypass, bulk, i, ops, lerr, s). length ops)")
    (use batch_size_pos in auto)

declare bulk_batches.simps [simp del]

text \<open>One by one, for old servers. An argument of another kind does not occur (\<open>socket.Query\<close> panics).\<close>

definition single_op :: "op_arg \<Rightarrow> write_op go" where
  "single_op a = (case a of ArgUpdate u \<Rightarrow> Inr (UpdateSingle u) | ArgDelete d \<Rightarrow> Inr (DeleteSingle d)
     | ArgDoc d \<Rightarrow> Inl (ExplicitPanic ''internal error: unknown operation type''))"

fun old_bulk :: "'s mongo_env \<Rightarrow> get_last_error option \<Rightarrow> bool \<Rightarrow> nat \<Rightarrow> op_arg list \<Rightarrow> last_error \<Rightarrow> 's \<Rightarrow> (write_result \<times> 's) go" where
  "old_bulk env safeOp ordered i [] lerr s = Inr (batches_end lerr, s)"
| "old_bulk env safeOp ordered i (a # ops) lerr s =
     go_bind (single_op a) (\<lambda>wop.
       case writeOpQuery env safeOp wop s of
         ((None, err), s) \<Rightarrow> Inl NilDereference
       | ((Some oplerr, None), s) \<Rightarrow> old_bulk env safeOp ordered (i + 1) ops (add_counts lerr oplerr) s
       | ((Some oplerr, Some err), s) \<Rightarrow>
           let lerr = add_ecases (add_counts lerr oplerr) [(int i, err)] in
           if ordered then Inr (batches_end lerr, s) else old_bulk env safeOp ordered (i + 1) ops lerr s)"

definition writeOp ::
  "'s mongo_env \<Rightarrow> mongo_session \<Rightarrow> string \<Rightarrow> write_op \<Rightarrow> bool \<Rightarrow> 's \<Rightarrow> (write_result \<times> 's) go" where
  "writeOp env sess name wop ordered s =
     (case env_acquire env s of
        (Some err, s) \<Rightarrow> Inr ((None, Some err), s)
      | (None, s) \<Rightarrow>
          (let safeOp = ms_safeOp sess; bypass = ms_bypassValidation sess in
           if 2 \<le> env_wire env s then
             (case wop of
                InsertOp coll docs flags \<Rightarrow>
                  if batch_size < length docs
                  then insert_batches env name safeOp ordered bypass coll flags 0 docs no_error s
                  else Inr (writeOpCommand env name safeOp wop ordered bypass s)
              | BulkUpdateOp ops \<Rightarrow>
                  if batch_size < length ops then bulk_batches env name safeOp ordered bypass BulkUpdateOp 0 ops no_error s
                  else Inr (writeOpCommand env name safeOp wop ordered bypass s)
              | BulkDeleteOp ops \<Rightarrow>
                  if batch_size < length ops then bulk_batches env name safeOp ordered bypass BulkDeleteOp 0 ops no_error s
                  else Inr (writeOpCommand env name safeOp wop ordered bypass s)
              | _ \<Rightarrow> Inr (writeOpCommand env name safeOp wop ordered bypass s))
           else
             (case wop of
                BulkUpdateOp ops \<Rightarrow> old_bulk env safeOp ordered 0 ops no_error s
              | BulkDeleteOp ops \<Rightarrow> old_bulk env safeOp ordered 0 ops no_error s
              | _ \<Rightarrow> Inr (writeOpQuery env safeOp wop s))))"

text \<open>\<open>Collection.Insert\<close>.\<close>

definition collection_Insert ::
  "'s mongo_env \<Rightarrow> mongo_session \<Rightarrow> string \<Rightarrow> string \<Rightarrow> go_value list \<Rightarrow> 's \<Rightarrow> (mongo_err option \<times> 's) go" where
  "collection_Insert env sess fullname name docs s =
     go_bind (writeOp env sess name (InsertOp fullname (map ArgDoc docs) 0) True s) (\<lambda>((lerr, err), s). Inr (err, s))"

end
