(* ===== verification/MgoBulk.thy ===== *)
theory MgoBulk
  imports MgoWrite
begin

text \<open>
  \<open>bulk.go\<close>: operations queued in groups and run together. The slices of an action are values here: that
  \<open>Run\<close> gives them back to a pool while the \<open>Bulk\<close> still refers to them is not modelled, so a \<open>Bulk\<close> is not used
  again after \<open>Run\<close>.
\<close>

datatype bulk_op = BulkInsert_op | BulkUpdate_op | BulkRemove_op

record bulkAction =
  ba_op :: bulk_op
  ba_docs :: "op_arg list"
  ba_idxs :: "nat list"

record bulk =
  bk_FullName :: string
  bk_opcount :: nat
  bk_actions :: "bulkAction list"
  bk_ordered :: bool

record BulkResult =
  br_Matched :: int
  br_Modified :: int

subsection \<open>Queueing\<close>

text \<open>\<open>Collection.Bulk\<close> and \<open>Unordered\<close>.\<close>

definition collection_Bulk :: "string \<Rightarrow> bulk" where
  "collection_Bulk fullname = \<lparr>bk_FullName = fullname, bk_opcount = 0, bk_actions = [], bk_ordered = True\<rparr>"

definition Unordered :: "bulk \<Rightarrow> bulk" where
  "Unordered b = b\<lparr>bk_ordered := False\<rparr>"

text \<open>The position of the action that takes an operation, if there is one.\<close>

fun first_action :: "bulk_op \<Rightarrow> bulkAction list \<Rightarrow> nat option" where
  "first_action kind [] = None"
| "first_action kind (a # as) = (if ba_op a = kind then Some 0 else map_option Suc (first_action kind as))"

definition find_action :: "bulk_op \<Rightarrow> bulk \<Rightarrow> nat option" where
  "find_action kind b =
     (if bk_actions b \<noteq> [] \<and> ba_op (List.last (bk_actions b)) = kind then Some (length (bk_actions b) - 1)
      else if \<not> bk_ordered b then first_action kind (bk_actions b)
      else None)"

text \<open>\<open>action\<close>, and the documents that the caller appends to what it returns.\<close>

definition bulk_action :: "bulk_op \<Rightarrow> op_arg list \<Rightarrow> bulk \<Rightarrow> bulk" where
  "bulk_action kind docs b =
     (let (k, as) = (case find_action kind b of
           Some k \<Rightarrow> (k, bk_actions b)
         | None \<Rightarrow> (length (bk_actions b), bk_actions b @ [\<lparr>ba_op = kind, ba_docs = [], ba_idxs = []\<rparr>]));
          a = as ! k;
          a = a\<lparr>ba_idxs := ba_idxs a @ [bk_opcount b ..< bk_opcount b + length docs], ba_docs := ba_docs a @ docs\<rparr>
      in b\<lparr>bk_actions := as[k := a], bk_opcount := bk_opcount b + length docs\<rparr>)"

definition bulk_Insert :: "go_value list \<Rightarrow> bulk \<Rightarrow> bulk" where
  "bulk_Insert docs b = bulk_action BulkInsert_op (map ArgDoc docs) b"

definition selector_of :: "go_value \<Rightarrow> go_value" where
  "selector_of v = (if v = GNil then GD [] else v)"

definition bulk_Remove :: "go_value list \<Rightarrow> bulk \<Rightarrow> bulk" where
  "bulk_Remove selectors b = bulk_action BulkRemove_op
     (map (\<lambda>v. ArgDelete \<lparr>del_Collection = bk_FullName b, del_Selector = selector_of v, del_Flags = 1, del_Limit = 1\<rparr>) selectors) b"

definition bulk_RemoveAll :: "go_value list \<Rightarrow> bulk \<Rightarrow> bulk" where
  "bulk_RemoveAll selectors b = bulk_action BulkRemove_op
     (map (\<lambda>v. ArgDelete \<lparr>del_Collection = bk_FullName b, del_Selector = selector_of v, del_Flags = 0, del_Limit = 0\<rparr>) selectors) b"

fun pairs_from :: "'a list \<Rightarrow> ('a \<times> 'a) list" where
  "pairs_from (x # y # xs) = (x, y) # pairs_from xs"
| "pairs_from _ = []"

definition queue_updates :: "string \<Rightarrow> (go_value \<Rightarrow> go_value \<Rightarrow> update_op) \<Rightarrow> go_value list \<Rightarrow> bulk \<Rightarrow> bulk go" where
  "queue_updates what f pairs b =
     (if length pairs mod 2 \<noteq> 0 then Inl (ExplicitPanic (what @ '' requires an even number of parameters''))
      else Inr (bulk_action BulkUpdate_op (map (\<lambda>(x, y). ArgUpdate (f (selector_of x) y)) (pairs_from pairs)) b))"

definition bulk_Update :: "go_value list \<Rightarrow> bulk \<Rightarrow> bulk go" where
  "bulk_Update pairs b = queue_updates ''Bulk.Update'' (\<lambda>x y.
     \<lparr>up_Collection = bk_FullName b, up_Selector = x, up_Update = y, up_Flags = 0, up_Multi = False, up_Upsert = False\<rparr>) pairs b"

definition bulk_UpdateAll :: "go_value list \<Rightarrow> bulk \<Rightarrow> bulk go" where
  "bulk_UpdateAll pairs b = queue_updates ''Bulk.UpdateAll'' (\<lambda>x y.
     \<lparr>up_Collection = bk_FullName b, up_Selector = x, up_Update = y, up_Flags = 2, up_Multi = True, up_Upsert = False\<rparr>) pairs b"

definition bulk_Upsert :: "go_value list \<Rightarrow> bulk \<Rightarrow> bulk go" where
  "bulk_Upsert pairs b = queue_updates ''Bulk.Update'' (\<lambda>x y.
     \<lparr>up_Collection = bk_FullName b, up_Selector = x, up_Update = y, up_Flags = 1, up_Multi = False, up_Upsert = True\<rparr>) pairs b"

subsection \<open>Running\<close>

text \<open>Cases of an error, mapped back to the positions in which the operations were queued.\<close>

fun visible_cases :: "nat list \<Rightarrow> (int \<times> mongo_err) list \<Rightarrow> (int \<times> mongo_err) list go" where
  "visible_cases idxs [] = Inr []"
| "visible_cases idxs ((i, e) # cs) =
     go_bind (if 0 \<le> i then go_bind (go_at idxs (nat i)) (\<lambda>k. Inr (int k)) else Inr i) (\<lambda>k.
     go_bind (visible_cases idxs cs) (\<lambda>cs. Inr ((k, e) # cs)))"

definition checkSuccess :: "bulkAction \<Rightarrow> (int \<times> mongo_err) list \<Rightarrow> write_result \<Rightarrow> (bool \<times> (int \<times> mongo_err) list) go" where
  "checkSuccess act berr r =
     (let (lerr, err) = r; ecases = (case lerr of None \<Rightarrow> [] | Some l \<Rightarrow> le_ecases l) in
      if ecases \<noteq> [] then go_bind (visible_cases (ba_idxs act) ecases) (\<lambda>cs. Inr (False, berr @ cs))
      else (case err of
          Some e \<Rightarrow> Inr (False, berr @ map (\<lambda>i. (int i, e)) (ba_idxs act))
        | None \<Rightarrow> Inr (True, berr)))"

definition count_result :: "write_result \<Rightarrow> BulkResult \<Rightarrow> BulkResult" where
  "count_result r res =
     (case fst r of None \<Rightarrow> res
      | Some l \<Rightarrow> \<lparr>br_Matched = br_Matched res + le_N l, br_Modified = br_Modified res + le_modified l\<rparr>)"

definition run_action ::
  "'s mongo_env \<Rightarrow> mongo_session \<Rightarrow> string \<Rightarrow> bulk \<Rightarrow> bulkAction \<Rightarrow> BulkResult \<Rightarrow> (int \<times> mongo_err) list \<Rightarrow> 's \<Rightarrow>
    (bool \<times> BulkResult \<times> (int \<times> mongo_err) list \<times> 's) go" where
  "run_action env sess name b act res berr s =
     (let wop = (case ba_op act of
           BulkInsert_op \<Rightarrow> InsertOp (bk_FullName b) (ba_docs act) (if bk_ordered b then 0 else 1)
         | BulkUpdate_op \<Rightarrow> BulkUpdateOp (ba_docs act)
         | BulkRemove_op \<Rightarrow> BulkDeleteOp (ba_docs act))
      in go_bind (writeOp env sess name wop (bk_ordered b) s) (\<lambda>(r, s).
         go_bind (checkSuccess act berr r) (\<lambda>(ok, berr).
         Inr (ok, if ba_op act = BulkInsert_op then res else count_result r res, berr, s))))"

fun run_actions ::
  "'s mongo_env \<Rightarrow> mongo_session \<Rightarrow> string \<Rightarrow> bulk \<Rightarrow> bulkAction list \<Rightarrow> bool \<Rightarrow> BulkResult \<Rightarrow> (int \<times> mongo_err) list \<Rightarrow> 's \<Rightarrow>
    (bool \<times> BulkResult \<times> (int \<times> mongo_err) list \<times> 's) go" where
  "run_actions env sess name b [] failed res berr s = Inr (failed, res, berr, s)"
| "run_actions env sess name b (act # acts) failed res berr s =
     go_bind (run_action env sess name b act res berr s) (\<lambda>(ok, res, berr, s).
       if \<not> ok \<and> bk_ordered b then Inr (True, res, berr, s)
       else run_actions env sess name b acts (failed \<or> \<not> ok) res berr s)"

text \<open>\<open>sort.Sort\<close> of the cases; the order of cases of one position is the one of a stable sort here.\<close>

definition bulk_Run ::
  "'s mongo_env \<Rightarrow> mongo_session \<Rightarrow> string \<Rightarrow> bulk \<Rightarrow> 's \<Rightarrow> (((int \<times> mongo_err) list + BulkResult) \<times> 's) go" where
  "bulk_Run env sess name b s =
     go_bind (run_actions env sess name b (bk_actions b) False \<lparr>br_Matched = 0, br_Modified = 0\<rparr> [] s)
       (\<lambda>(failed, res, berr, s). Inr (if failed then Inl (sort_key fst berr) else Inr res, s))"

subsection \<open>The text of an error\<close>

fun err_text :: "mongo_err \<Rightarrow> string" where
  "err_text (PlainError msg) = msg"
| "err_text (QueryError code msg assertion) = msg"
| "err_text (LastErr lerr) = le_Err lerr"

fun seen_once :: "string list \<Rightarrow> string list \<Rightarrow> string list" where
  "seen_once seen [] = []"
| "seen_once seen (m # ms) = (if m \<in> set seen then seen_once seen ms else m # seen_once (m # seen) ms)"

definition BulkError_Error :: "(int \<times> mongo_err) list \<Rightarrow> string" where
  "BulkError_Error ecases =
     (case ecases of
        [] \<Rightarrow> ''invalid BulkError instance: no errors''
      | [(i, e)] \<Rightarrow> err_text e
      | _ \<Rightarrow>
          (case seen_once [] (map (err_text \<circ> snd) ecases) of
             [m] \<Rightarrow> m
           | ms \<Rightarrow> ''multiple errors in bulk operation:'' @ [CHR 0x0A] @ concat (map (\<lambda>m. ''  - '' @ m @ [CHR 0x0A]) ms)))"

end
