(* ===== verification/MgoInsert.thy ===== *)
theory MgoInsert
  imports MgoBulk
begin

text \<open>
  What the write operations promise. A server that stores documents one by one, \<open>store\<close>, and answers a command of
  at most 1000 documents for those is the specification; insertions of any number of documents, split into
  batches, are the insertion of all of them.
\<close>

subsection \<open>Storing one by one\<close>

text \<open>What is stored, how many, and the position and the error of each document that is not.\<close>

fun server_insert ::
  "(go_value \<Rightarrow> 'c \<Rightarrow> (int \<times> string) + 'c) \<Rightarrow> bool \<Rightarrow> nat \<Rightarrow> go_value list \<Rightarrow> 'c \<Rightarrow> 'c \<times> nat \<times> (nat \<times> int \<times> string) list" where
  "server_insert store ordered i [] c = (c, 0, [])"
| "server_insert store ordered i (d # ds) c =
     (case store d c of
        Inr c \<Rightarrow> (let (c, n, es) = server_insert store ordered (Suc i) ds c in (c, Suc n, es))
      | Inl e \<Rightarrow>
          if ordered then (c, 0, [(i, e)])
          else (let (c, n, es) = server_insert store ordered (Suc i) ds c in (c, n, (i, e) # es)))"

lemma server_insert_shift:
  "server_insert store ordered (i + k) ds c =
     (let (c, n, es) = server_insert store ordered i ds c in (c, n, map (\<lambda>(j, e). (j + k, e)) es))"
proof (induction ds arbitrary: i c)
  case (Cons d ds)
  show ?case using Cons.IH [of "Suc i"] by (auto simp: Let_def split: sum.splits prod.splits)
qed simp

lemma server_insert_append:
  "server_insert store ordered i (ds @ ds') c =
     (let (c1, n1, e1) = server_insert store ordered i ds c in
      if ordered \<and> e1 \<noteq> [] then (c1, n1, e1)
      else let (c2, n2, e2) = server_insert store ordered (i + length ds) ds' c1 in (c2, n1 + n2, e1 @ e2))"
  by (induction ds arbitrary: i c) (auto simp: Let_def split: sum.splits prod.splits)

lemma server_insert_positions:
  "server_insert store ordered i ds c = (c', n, es) \<Longrightarrow>
   sorted (map fst es) \<and> distinct (map fst es) \<and> (\<forall>(j, e) \<in> set es. i \<le> j \<and> j < i + length ds) \<and>
   (\<not> ordered \<longrightarrow> n + length es = length ds)"
proof (induction ds arbitrary: i c c' n es)
  case (Cons d ds)
  show ?case
  proof (cases "store d c")
    case (Inr c1)
    obtain c2 m fs where r: "server_insert store ordered (Suc i) ds c1 = (c2, m, fs)"
      by (cases "server_insert store ordered (Suc i) ds c1") auto
    with Cons.IH [OF r] Cons.prems Inr show ?thesis by fastforce
  next
    case (Inl e)
    obtain c2 m fs where r: "server_insert store ordered (Suc i) ds c = (c2, m, fs)"
      by (cases "server_insert store ordered (Suc i) ds c") auto
    from Cons.IH [OF r] have "Suc i \<le> j" if "j \<in> fst ` set fs" for j using that by fastforce
    with Cons.IH [OF r] Cons.prems Inl r show ?thesis by (cases ordered) fastforce+
  qed
qed simp

subsection \<open>The server\<close>

definition insert_answer :: "nat \<Rightarrow> (nat \<times> int \<times> string) list \<Rightarrow> writeCmdResult" where
  "insert_answer n es =
     \<lparr>wr_N = int n, wr_NModified = 0, wr_Upserted = [], wr_ConcernError = (0, []),
      wr_Errors = map (\<lambda>(i, code, msg). \<lparr>we_Index = int i, we_Code = code, we_ErrMsg = msg\<rparr>) es\<rparr>"

text \<open>
  A server that is reached, speaks write commands and answers an insertion into \<open>name\<close> of one to 1000
  documents; \<open>contents\<close> is what it keeps of the collection.
\<close>

definition inserts_into ::
  "('s \<Rightarrow> 'c) \<Rightarrow> (go_value \<Rightarrow> 'c \<Rightarrow> (int \<times> string) + 'c) \<Rightarrow> string \<Rightarrow> get_last_error option \<Rightarrow> bool \<Rightarrow> 's mongo_env \<Rightarrow> bool" where
  "inserts_into contents store name safeOp bypass env \<longleftrightarrow>
     (\<forall>s. \<exists>s'. env_acquire env s = (None, s') \<and> contents s' = contents s) \<and>
     (\<forall>s. 2 \<le> env_wire env s) \<and>
     (\<forall>s docs flags c n es. docs \<noteq> [] \<longrightarrow> length docs \<le> 1000 \<longrightarrow> server_insert store (even flags) 0 docs (contents s) = (c, n, es) \<longrightarrow>
        (\<exists>s'. env_run env (GD (write_cmd name safeOp (InsertOp [] (map ArgDoc docs) flags) True @ bypass_field bypass)) s =
          ((insert_answer n es, None), s') \<and> contents s' = c))"

definition insert_cases :: "(nat \<times> int \<times> string) list \<Rightarrow> (int \<times> mongo_err) list" where
  "insert_cases es = map (\<lambda>(i, code, msg). (int i, QueryError code msg False)) es"

lemma insert_cases_Nil [simp]: "insert_cases es = [] \<longleftrightarrow> es = []" "insert_cases [] = []"
  by (simp_all add: insert_cases_def)

lemma answer_ecases: "BulkErrorCases (insert_answer n es) = insert_cases es"
  by (simp add: BulkErrorCases_def insert_answer_def insert_cases_def comp_def case_prod_unfold)

lemma write_cmd_insert: "write_cmd name safeOp (InsertOp coll docs flags) ordered = write_cmd name safeOp (InsertOp [] docs flags) True"
  by simp

lemma insert_command:
  assumes "inserts_into contents store name (Some g) bypass env" "docs \<noteq> []" "length docs \<le> 1000"
    and "server_insert store (even flags) 0 docs (contents s) = (c, n, es)"
  shows "\<exists>s' lerr. contents s' = c \<and> le_ecases lerr = insert_cases es \<and> le_N lerr = int n \<and>
    writeOpCommand env name (Some g) (InsertOp coll (map ArgDoc docs) flags) ordered bypass s =
      ((Some lerr, if es = [] then None else Some (LastErr lerr)), s')"
proof -
  obtain s' where s': "env_run env (GD (write_cmd name (Some g) (InsertOp [] (map ArgDoc docs) flags) True @ bypass_field bypass)) s =
      ((insert_answer n es, None), s')" "contents s' = c"
    using assms unfolding inserts_into_def by blast
  have "writeOpCommand env name (Some g) (InsertOp coll (map ArgDoc docs) flags) ordered bypass s =
      (command_result True (insert_answer n es) None, s')"
    unfolding writeOpCommand_def write_cmd_insert [of name "Some g" coll _ _ ordered] s'(1) by simp
  moreover have "\<exists>lerr. le_ecases lerr = insert_cases es \<and> le_N lerr = int n \<and>
      command_result True (insert_answer n es) None = (Some lerr, if es = [] then None else Some (LastErr lerr))"
  proof (cases es)
    case Nil
    then show ?thesis by (simp add: command_result_def answer_ecases) (simp add: insert_answer_def)
  next
    case (Cons e es')
    obtain i code msg where e: "e = (i, code, msg)" by (cases e)
    have "wr_Errors (insert_answer n es) \<noteq> []" "wr_N (insert_answer n es) = int n"
      using Cons by (simp_all add: insert_answer_def)
    then show ?thesis using Cons
      by (cases "wr_Errors (insert_answer n es)") (simp_all add: command_result_def answer_ecases Let_def)
  qed
  ultimately show ?thesis using s'(2) by metis
qed

subsection \<open>Batches\<close>

lemma shift_insert_cases:
  "map (\<lambda>(k, e). (k + int i, e)) (insert_cases es) = insert_cases (map (\<lambda>(j, e). (j + i, e)) es)"
  by (simp add: insert_cases_def comp_def case_prod_unfold)

lemma insert_cases_append: "insert_cases (es @ fs) = insert_cases es @ insert_cases fs"
  by (simp add: insert_cases_def)

text \<open>The answer to all documents, from the document at \<open>i\<close> on, when \<open>before\<close> were refused.\<close>

lemma insert_batches_store:
  assumes "inserts_into contents store name (Some g) bypass env"
    and "server_insert store (even flags) i docs (contents s) = (c, n, es)"
    and "le_ecases lerr = insert_cases before" "even flags \<Longrightarrow> before = []"
  shows "\<exists>s' l err. insert_batches env name (Some g) ordered bypass coll flags i (map ArgDoc docs) lerr s = Inr ((Some l, err), s') \<and>
    contents s' = c \<and> le_ecases l = insert_cases (before @ es) \<and> le_N l = le_N lerr + int n \<and>
    (err = None \<longleftrightarrow> before @ es = [])"
  using assms(2-4)
proof (induction "length docs" arbitrary: docs i s lerr n es before rule: less_induct)
  case less
  show ?case
  proof (cases "docs = []")
    case True
    with less.prems show ?thesis
      by (auto simp: insert_batches.simps batches_end_def insert_cases_def split: list.splits)
  next
    case False
    let ?now = "take 1000 docs" and ?rest = "drop 1000 docs"
    obtain c1 n1 e1 where now: "server_insert store (even flags) 0 ?now (contents s) = (c1, n1, e1)"
      by (cases "server_insert store (even flags) 0 ?now (contents s)") auto
    obtain s1 op where cmd: "contents s1 = c1" "le_ecases op = insert_cases e1" "le_N op = int n1"
      "writeOpCommand env name (Some g) (InsertOp coll (map ArgDoc ?now) flags) ordered bypass s =
        ((Some op, if e1 = [] then None else Some (LastErr op)), s1)"
      using insert_command [OF assms(1) _ _ now, of coll ordered] False by auto
    let ?e1 = "map (\<lambda>(j, e). (j + i, e)) e1"
    have here: "server_insert store (even flags) i ?now (contents s) = (c1, n1, ?e1)"
      using server_insert_shift [of store "even flags" 0 i ?now "contents s"] now by simp
    have split: "server_insert store (even flags) i docs (contents s) =
      (if even flags \<and> ?e1 \<noteq> [] then (c1, n1, ?e1)
       else let (c2, n2, e2) = server_insert store (even flags) (i + length ?now) ?rest c1 in (c2, n1 + n2, ?e1 @ e2))"
      using server_insert_append [of store "even flags" i ?now ?rest "contents s"] here by simp
    let ?lerr = "if e1 = [] then add_counts lerr op else add_ecases (add_counts lerr op) (le_ecases (shift_ecases i op))"
    have lerr: "le_ecases ?lerr = insert_cases (before @ ?e1)" "le_N ?lerr = le_N lerr + int n1"
      using less.prems(2) cmd(2,3)
      by (simp_all add: add_counts_def add_ecases_def shift_ecases_def shift_insert_cases insert_cases_append)
    show ?thesis
    proof (cases "even flags \<and> e1 \<noteq> []")
      case True
      with split less.prems(1) have "c = c1" "n = n1" "es = ?e1" by simp_all
      moreover have "insert_batches env name (Some g) ordered bypass coll flags i (map ArgDoc docs) lerr s =
          Inr ((Some ?lerr, Some (shift_error i (LastErr op))), s1)"
        using True False cmd(4) by (subst insert_batches.simps) (simp add: take_map batch_size_def)
      ultimately show ?thesis using lerr cmd(1) True less.prems(3) by auto
    next
      case False2: False
      obtain c2 n2 e2 where rest: "server_insert store (even flags) (i + length ?now) ?rest c1 = (c2, n2, e2)"
        by (cases "server_insert store (even flags) (i + length ?now) ?rest c1") auto
      with split False2 less.prems(1) have res: "c = c2" "n = n1 + n2" "es = ?e1 @ e2" by auto
      have "?rest = [] \<or> length ?now = 1000" by auto
      then have rest': "server_insert store (even flags) (i + 1000) ?rest (contents s1) = (c, n2, e2)"
        using rest cmd(1) res(1) by auto
      have step: "insert_batches env name (Some g) ordered bypass coll flags i (map ArgDoc docs) lerr s =
          insert_batches env name (Some g) ordered bypass coll flags (i + 1000) (map ArgDoc ?rest) ?lerr s1"
        using False False2 cmd(4)
        by (subst insert_batches.simps) (auto simp: take_map drop_map batch_size_def)
      have "length ?rest < length docs" using False by simp
      moreover have "even flags \<Longrightarrow> before @ ?e1 = []" using less.prems(3) False2 by auto
      ultimately obtain s2 l err where
        "insert_batches env name (Some g) ordered bypass coll flags (i + 1000) (map ArgDoc ?rest) ?lerr s1 = Inr ((Some l, err), s2)"
        "contents s2 = c" "le_ecases l = insert_cases ((before @ ?e1) @ e2)" "le_N l = le_N ?lerr + int n2"
        "err = None \<longleftrightarrow> (before @ ?e1) @ e2 = []"
        using less.hyps [OF _ rest' lerr(1)] by blast
      then show ?thesis using step res lerr(2) by auto
    qed
  qed
qed

lemma writeOp_insert:
  assumes "inserts_into contents store name (ms_safeOp sess) (ms_bypassValidation sess) env" "ms_safeOp sess \<noteq> None"
    and "server_insert store (even flags) 0 docs (contents s) = (c, n, es)" "docs \<noteq> []"
  shows "\<exists>s' l err. writeOp env sess name (InsertOp coll (map ArgDoc docs) flags) ordered s = Inr ((Some l, err), s') \<and>
    contents s' = c \<and> le_ecases l = insert_cases es \<and> le_N l = int n \<and> (err = None \<longleftrightarrow> es = [])"
proof -
  obtain g where g: "ms_safeOp sess = Some g" using assms(2) by auto
  obtain s1 where s1: "env_acquire env s = (None, s1)" "contents s1 = contents s"
    using assms(1) unfolding inserts_into_def by blast
  have wire: "2 \<le> env_wire env s1" using assms(1) unfolding inserts_into_def by blast
  have si: "server_insert store (even flags) 0 docs (contents s1) = (c, n, es)" using assms(3) s1 by simp
  show ?thesis
  proof (cases "1000 < length docs")
    case True
    obtain s' l err where "insert_batches env name (Some g) ordered (ms_bypassValidation sess) coll flags 0 (map ArgDoc docs) no_error s1 =
        Inr ((Some l, err), s')" "contents s' = c" "le_ecases l = insert_cases ([] @ es)" "le_N l = le_N no_error + int n"
      "err = None \<longleftrightarrow> [] @ es = []"
      using insert_batches_store [OF assms(1) [unfolded g] si, of no_error "[]" ordered coll] by (auto simp: no_error_def)
    then show ?thesis using True s1 wire g by (simp add: writeOp_def batch_size_def no_error_def)
  next
    case False
    then obtain s' lerr where "contents s' = c" "le_ecases lerr = insert_cases es" "le_N lerr = int n"
      "writeOpCommand env name (Some g) (InsertOp coll (map ArgDoc docs) flags) ordered (ms_bypassValidation sess) s1 =
        ((Some lerr, if es = [] then None else Some (LastErr lerr)), s')"
      using insert_command [OF assms(1) [unfolded g] assms(4) _ si, of coll ordered] by auto
    then show ?thesis using False s1 wire g by (simp add: writeOp_def batch_size_def)
  qed
qed

end
