(* ===== verification/MgoRun.thy ===== *)
theory MgoRun
  imports MgoInsert "HOL-Library.Multiset"
begin

text \<open>
  The queue of a \<open>Bulk\<close> as a list of operations, and what running it does: insertions against the specification
  of the server, and the ways in which failures of large batches are reported.
\<close>

subsection \<open>The queue\<close>

definition action_ops :: "bulkAction \<Rightarrow> (nat \<times> bulk_op \<times> op_arg) list" where
  "action_ops a = map (\<lambda>(i, d). (i, ba_op a, d)) (zip (ba_idxs a) (ba_docs a))"

definition queue_ops :: "bulk \<Rightarrow> (nat \<times> bulk_op \<times> op_arg) list" where
  "queue_ops b = concat (map action_ops (bk_actions b))"

definition new_ops :: "nat \<Rightarrow> bulk_op \<Rightarrow> op_arg list \<Rightarrow> (nat \<times> bulk_op \<times> op_arg) list" where
  "new_ops i kind docs = map (\<lambda>(i, d). (i, kind, d)) (enumerate i docs)"

text \<open>Every action has a position for each of its operations; an unordered bulk has one action of a kind.\<close>

definition queue_ok :: "bulk \<Rightarrow> bool" where
  "queue_ok b \<longleftrightarrow>
     (\<forall>a \<in> set (bk_actions b). length (ba_idxs a) = length (ba_docs a)) \<and>
     (\<not> bk_ordered b \<longrightarrow> distinct (map ba_op (bk_actions b)))"

definition add_ops :: "bulk \<Rightarrow> op_arg list \<Rightarrow> bulkAction \<Rightarrow> bulkAction" where
  "add_ops b docs a =
     a\<lparr>ba_idxs := ba_idxs a @ [bk_opcount b ..< bk_opcount b + length docs], ba_docs := ba_docs a @ docs\<rparr>"

lemma add_ops_simps [simp]:
  "ba_op (add_ops b docs a) = ba_op a" "ba_docs (add_ops b docs a) = ba_docs a @ docs"
  "ba_idxs (add_ops b docs a) = ba_idxs a @ [bk_opcount b ..< bk_opcount b + length docs]"
  by (simp_all add: add_ops_def)

lemma action_ops_add:
  "length (ba_idxs a) = length (ba_docs a) \<Longrightarrow> ba_op a = kind \<Longrightarrow>
   action_ops (add_ops b docs a) = action_ops a @ new_ops (bk_opcount b) kind docs"
  by (simp add: action_ops_def new_ops_def enumerate_eq_zip)

lemma first_action_Some:
  "first_action kind as = Some k \<Longrightarrow> k < length as \<and> ba_op (as ! k) = kind"
  by (induction as arbitrary: k) (auto split: if_splits)

lemma first_action_None: "first_action kind as = None \<longleftrightarrow> kind \<notin> ba_op ` set as"
  by (induction as) auto

text \<open>Where an operation goes: behind the operations of an action of its kind, or into a new action at the end.\<close>

lemma bulk_action_cases:
  assumes "find_action kind b = r"
  shows "(\<exists>as a as'. r = Some (length as) \<and> bk_actions b = as @ a # as' \<and> ba_op a = kind \<and> (bk_ordered b \<longrightarrow> as' = []) \<and>
      bulk_action kind docs b = b\<lparr>bk_actions := as @ add_ops b docs a # as', bk_opcount := bk_opcount b + length docs\<rparr>) \<or>
    (r = None \<and> (\<not> bk_ordered b \<longrightarrow> kind \<notin> ba_op ` set (bk_actions b)) \<and>
      bulk_action kind docs b = b\<lparr>bk_actions := bk_actions b @ [add_ops b docs \<lparr>ba_op = kind, ba_docs = [], ba_idxs = []\<rparr>],
        bk_opcount := bk_opcount b + length docs\<rparr>)"
proof (cases r)
  case None
  then have "\<not> bk_ordered b \<longrightarrow> kind \<notin> ba_op ` set (bk_actions b)"
    using assms by (auto simp: find_action_def first_action_None split: if_splits)
  moreover have "bulk_action kind docs b = b\<lparr>bk_actions := bk_actions b @ [add_ops b docs \<lparr>ba_op = kind, ba_docs = [], ba_idxs = []\<rparr>],
        bk_opcount := bk_opcount b + length docs\<rparr>"
    using assms None by (simp add: bulk_action_def add_ops_def Let_def)
  ultimately show ?thesis using None by blast
next
  case (Some k)
  have k: "k < length (bk_actions b)" "ba_op (bk_actions b ! k) = kind"
    using assms Some by (auto simp: find_action_def last_conv_nth dest: first_action_Some split: if_splits)
  have ord: "bk_ordered b \<longrightarrow> k = length (bk_actions b) - 1"
    using assms Some by (auto simp: find_action_def split: if_splits)
  let ?as = "take k (bk_actions b)" and ?a = "bk_actions b ! k" and ?as' = "drop (Suc k) (bk_actions b)"
  have split: "bk_actions b = ?as @ ?a # ?as'" using id_take_nth_drop [OF k(1)] .
  have "bulk_action kind docs b = b\<lparr>bk_actions := (bk_actions b)[k := add_ops b docs ?a], bk_opcount := bk_opcount b + length docs\<rparr>"
    using assms Some by (simp add: bulk_action_def add_ops_def Let_def)
  also have "(bk_actions b)[k := add_ops b docs ?a] = ?as @ add_ops b docs ?a # ?as'"
    using upd_conv_take_nth_drop [OF k(1)] .
  finally have "bulk_action kind docs b = b\<lparr>bk_actions := ?as @ add_ops b docs ?a # ?as', bk_opcount := bk_opcount b + length docs\<rparr>" .
  moreover have "r = Some (length ?as)" using Some k(1) by simp
  moreover have "bk_ordered b \<longrightarrow> ?as' = []" using ord by auto
  ultimately show ?thesis using split k(2) by blast
qed

lemma queue_ok_new: "queue_ok (collection_Bulk fullname)" "queue_ok (Unordered (collection_Bulk fullname))"
  by (simp_all add: queue_ok_def collection_Bulk_def Unordered_def)

lemma queue_ok_action:
  assumes "queue_ok b"
  shows "queue_ok (bulk_action kind docs b) \<and> bk_ordered (bulk_action kind docs b) = bk_ordered b \<and>
    bk_opcount (bulk_action kind docs b) = bk_opcount b + length docs"
  using bulk_action_cases [OF refl, of kind b docs] assms
  by (elim disjE exE conjE) (auto simp: queue_ok_def)

lemma action_takes_queue:
  assumes "queue_ok b"
  shows "bk_ordered b \<Longrightarrow> queue_ops (bulk_action kind docs b) = queue_ops b @ new_ops (bk_opcount b) kind docs"
    and "mset (queue_ops (bulk_action kind docs b)) = mset (queue_ops b) + mset (new_ops (bk_opcount b) kind docs)"
    and "filter (\<lambda>(i, k, d). k = kind') (queue_ops (bulk_action kind docs b)) =
      filter (\<lambda>(i, k, d). k = kind') (queue_ops b) @ (if kind = kind' then new_ops (bk_opcount b) kind docs else [])
      \<or> bk_ordered b"
proof -
  have other: "filter (\<lambda>(i, k, d). k = kind') (action_ops a) = (if ba_op a = kind' then action_ops a else [])" for a kind'
    by (auto simp: action_ops_def filter_empty_conv intro!: filter_True)
  have mine: "filter (\<lambda>(i, k, d). k = kind') (new_ops i kind docs) = (if kind = kind' then new_ops i kind docs else [])" for i
    by (auto simp: new_ops_def filter_empty_conv intro!: filter_True)
  have none: "filter (\<lambda>(i, k, d). k = kind) (concat (map action_ops as)) = []" if "kind \<notin> ba_op ` set as" for as
    using that by (induction as) (auto simp: other)
  have new: "action_ops (add_ops b docs \<lparr>ba_op = kind, ba_docs = [], ba_idxs = []\<rparr>) = new_ops (bk_opcount b) kind docs"
    by (subst action_ops_add) (simp_all add: action_ops_def)
  let ?b = "bulk_action kind docs b" and ?new = "new_ops (bk_opcount b) kind docs"
  have all: "(bk_ordered b \<longrightarrow> queue_ops ?b = queue_ops b @ ?new) \<and>
      mset (queue_ops ?b) = mset (queue_ops b) + mset ?new \<and>
      (filter (\<lambda>(i, k, d). k = kind') (queue_ops ?b) =
        filter (\<lambda>(i, k, d). k = kind') (queue_ops b) @ (if kind = kind' then ?new else []) \<or> bk_ordered b)"
    using bulk_action_cases [OF refl, of kind b docs]
  proof (elim disjE exE conjE)
    fix as a as'
    assume a: "bk_actions b = as @ a # as'" "ba_op a = kind" "bk_ordered b \<longrightarrow> as' = []"
      and b: "?b = b\<lparr>bk_actions := as @ add_ops b docs a # as', bk_opcount := bk_opcount b + length docs\<rparr>"
    have "length (ba_idxs a) = length (ba_docs a)" using assms a(1) by (simp add: queue_ok_def)
    then have "queue_ops ?b = concat (map action_ops as) @ (action_ops a @ ?new) @ concat (map action_ops as')"
      unfolding b by (simp add: queue_ops_def action_ops_add [OF _ a(2)])
    moreover have "queue_ops b = concat (map action_ops as) @ action_ops a @ concat (map action_ops as')"
      by (simp add: queue_ops_def a(1))
    moreover have "filter (\<lambda>(i, k, d). k = kind) (concat (map action_ops as')) = []" if "\<not> bk_ordered b"
      using assms a(1,2) that by (intro none) (auto simp: queue_ok_def)
    moreover have "mset (xs @ (ys @ zs) @ us) = mset (xs @ ys @ us) + mset zs" for xs ys zs us :: "(nat \<times> bulk_op \<times> op_arg) list"
      by (simp add: ac_simps)
    ultimately show ?thesis using a(3) mine by (cases "kind = kind'"; cases "bk_ordered b") (simp_all del: mset_concat mset_map)
  next
    assume b: "?b = b\<lparr>bk_actions := bk_actions b @ [add_ops b docs \<lparr>ba_op = kind, ba_docs = [], ba_idxs = []\<rparr>],
        bk_opcount := bk_opcount b + length docs\<rparr>"
    show ?thesis unfolding b by (simp add: queue_ops_def new mine)
  qed
  then show "bk_ordered b \<Longrightarrow> queue_ops ?b = queue_ops b @ ?new"
    and "mset (queue_ops ?b) = mset (queue_ops b) + mset ?new"
    and "filter (\<lambda>(i, k, d). k = kind') (queue_ops ?b) =
      filter (\<lambda>(i, k, d). k = kind') (queue_ops b) @ (if kind = kind' then ?new else []) \<or> bk_ordered b"
    by blast+
qed

text \<open>A sequence of calls.\<close>

definition queue_all :: "(bulk_op \<times> op_arg list) list \<Rightarrow> bulk \<Rightarrow> bulk" where
  "queue_all calls b = fold (\<lambda>(kind, docs). bulk_action kind docs) calls b"

definition all_ops :: "(bulk_op \<times> op_arg list) list \<Rightarrow> (bulk_op \<times> op_arg) list" where
  "all_ops calls = concat (map (\<lambda>(kind, docs). map (Pair kind) docs) calls)"

lemma enumerate_all_ops:
  "enumerate i (all_ops ((kind, docs) # calls)) = new_ops i kind docs @ enumerate (i + length docs) (all_ops calls)"
proof -
  have "enumerate i (map (Pair kind) docs) = new_ops i kind docs"
    by (induction docs arbitrary: i) (simp_all add: new_ops_def)
  moreover have "enumerate i (xs @ ys) = enumerate i xs @ enumerate (i + length xs) ys" for xs ys :: "(bulk_op \<times> op_arg) list"
    by (induction xs arbitrary: i) simp_all
  ultimately show ?thesis by (simp add: all_ops_def)
qed

lemma queue_all_ordered:
  "queue_ok b \<Longrightarrow> bk_ordered b \<Longrightarrow> queue_ops (queue_all calls b) = queue_ops b @ enumerate (bk_opcount b) (all_ops calls)"
proof (induction calls arbitrary: b)
  case (Cons c calls)
  obtain kind docs where c: "c = (kind, docs)" by (cases c)
  show ?case
    using Cons.IH [of "bulk_action kind docs b"] queue_ok_action [OF Cons.prems(1), of kind docs]
      action_takes_queue(1) [OF Cons.prems, where kind = kind and docs = docs] Cons.prems
    by (simp add: c queue_all_def enumerate_all_ops)
qed (simp add: queue_all_def all_ops_def)

lemma queue_all_unordered:
  "queue_ok b \<Longrightarrow> \<not> bk_ordered b \<Longrightarrow>
   mset (queue_ops (queue_all calls b)) = mset (queue_ops b) + mset (enumerate (bk_opcount b) (all_ops calls)) \<and>
   (\<forall>kind. filter (\<lambda>(i, k, d). k = kind) (queue_ops (queue_all calls b)) =
      filter (\<lambda>(i, k, d). k = kind) (queue_ops b @ enumerate (bk_opcount b) (all_ops calls))) \<and>
   queue_ok (queue_all calls b)"
proof (induction calls arbitrary: b)
  case (Cons c calls)
  obtain kind docs where c: "c = (kind, docs)" by (cases c)
  have new: "filter (\<lambda>(i, k, d). k = kind') (new_ops i kind docs) = (if kind = kind' then new_ops i kind docs else [])" for kind' i
    by (auto simp: new_ops_def filter_empty_conv intro!: filter_True)
  have "queue_ok (bulk_action kind docs b)" "\<not> bk_ordered (bulk_action kind docs b)"
    using queue_ok_action [OF Cons.prems(1), of kind docs] Cons.prems(2) by simp_all
  from Cons.IH [OF this] show ?case
    using queue_ok_action [OF Cons.prems(1), of kind docs]
      action_takes_queue(2) [OF Cons.prems(1), where kind = kind and docs = docs]
      action_takes_queue(3) [OF Cons.prems(1), where kind = kind and docs = docs] Cons.prems(2)
    by (simp add: c queue_all_def enumerate_all_ops new)
qed (simp add: queue_all_def all_ops_def)

subsection \<open>Insertions\<close>

lemma go_at_upt: "i < n \<Longrightarrow> go_at [0..<n] i = Inr i"
  by (simp add: go_at_def)

lemma visible_insert_cases:
  "(\<And>j e. (j, e) \<in> set es \<Longrightarrow> j < n) \<Longrightarrow> visible_cases [0..<n] (insert_cases es) = Inr (insert_cases es)"
proof (induction es)
  case (Cons e es)
  obtain j code msg where e: "e = (j, code, msg)" by (cases e)
  have "j < n" using Cons.prems [of j "(code, msg)"] e by simp
  moreover have "visible_cases [0..<n] (insert_cases es) = Inr (insert_cases es)" using Cons by (intro Cons.IH) auto
  ultimately show ?case using e by (simp add: insert_cases_def go_at_upt)
qed simp

text \<open>The bulk of one action that the calls of \<open>Insert\<close> build.\<close>

definition insert_bulk :: "string \<Rightarrow> bool \<Rightarrow> go_value list \<Rightarrow> bulk" where
  "insert_bulk fullname ordered docs =
     \<lparr>bk_FullName = fullname, bk_opcount = length docs, bk_actions =
       [\<lparr>ba_op = BulkInsert_op, ba_docs = map ArgDoc docs, ba_idxs = [0..<length docs]\<rparr>], bk_ordered = ordered\<rparr>"

lemma insert_bulk_step: "bulk_Insert more_docs (insert_bulk fullname ordered docs) = insert_bulk fullname ordered (docs @ more_docs)"
  by (simp add: bulk_Insert_def bulk_action_def find_action_def insert_bulk_def upt_add_eq_append [symmetric])

lemma insert_one_by_one:
  assumes "docs \<noteq> []"
  shows "fold (\<lambda>d. bulk_Insert [d]) docs (collection_Bulk fullname) = insert_bulk fullname True docs"
    and "fold (\<lambda>d. bulk_Insert [d]) docs (Unordered (collection_Bulk fullname)) = insert_bulk fullname False docs"
proof -
  have more: "fold (\<lambda>d. bulk_Insert [d]) ds (insert_bulk fullname ordered ds') = insert_bulk fullname ordered (ds' @ ds)" for ds ds' ordered
    by (induction ds arbitrary: ds') (simp_all add: insert_bulk_step)
  obtain d ds where docs: "docs = d # ds" using assms by (cases docs) auto
  have "bulk_Insert [d] (collection_Bulk fullname) = insert_bulk fullname True [d]"
    "bulk_Insert [d] (Unordered (collection_Bulk fullname)) = insert_bulk fullname False [d]"
    by (simp_all add: bulk_Insert_def bulk_action_def find_action_def insert_bulk_def collection_Bulk_def Unordered_def)
  then show "fold (\<lambda>d. bulk_Insert [d]) docs (collection_Bulk fullname) = insert_bulk fullname True docs"
    "fold (\<lambda>d. bulk_Insert [d]) docs (Unordered (collection_Bulk fullname)) = insert_bulk fullname False docs"
    using more by (simp_all add: docs)
qed

lemma run_one_action:
  assumes "writeOp env sess name (InsertOp fullname (map ArgDoc docs) (if ordered then 0 else 1)) ordered s = Inr (r, s')"
  shows "bulk_Run env sess name (insert_bulk fullname ordered docs) s =
    go_bind (checkSuccess (bk_actions (insert_bulk fullname ordered docs) ! 0) [] r)
      (\<lambda>(ok, berr). Inr (if ok then Inr \<lparr>br_Matched = 0, br_Modified = 0\<rparr> else Inl (sort_key fst berr), s'))"
  using assms
  by (cases "checkSuccess (bk_actions (insert_bulk fullname ordered docs) ! 0) [] r")
    (auto simp: bulk_Run_def insert_bulk_def run_action_def)

lemma sorted_insert_cases: "sorted (map fst es) \<Longrightarrow> sort_key fst (insert_cases es) = insert_cases es"
proof -
  assume "sorted (map fst es)"
  then have "sorted (map fst (insert_cases es))"
    by (simp add: insert_cases_def sorted_map comp_def case_prod_unfold)
  then show ?thesis by (simp add: sort_key_id_if_sorted)
qed

lemma run_inserts:
  assumes "inserts_into contents store name (ms_safeOp sess) (ms_bypassValidation sess) env" "ms_safeOp sess \<noteq> None"
    and "server_insert store ordered 0 docs (contents s) = (c, n, es)" "docs \<noteq> []"
  shows "\<exists>s'. bulk_Run env sess name (insert_bulk fullname ordered docs) s =
      Inr (if es = [] then Inr \<lparr>br_Matched = 0, br_Modified = 0\<rparr> else Inl (insert_cases es), s') \<and> contents s' = c"
proof -
  let ?flags = "if ordered then 0 else 1 :: nat"
  have "server_insert store (even ?flags) 0 docs (contents s) = (c, n, es)" using assms(3) by (cases ordered) simp_all
  from writeOp_insert [OF assms(1,2) this assms(4), of fullname ordered] obtain s' l err where
    w: "writeOp env sess name (InsertOp fullname (map ArgDoc docs) ?flags) ordered s = Inr ((Some l, err), s')"
    "contents s' = c" "le_ecases l = insert_cases es" "err = None \<longleftrightarrow> es = []"
    by auto
  have pos: "sorted (map fst es)" "\<And>j e. (j, e) \<in> set es \<Longrightarrow> j < length docs"
    using server_insert_positions [OF assms(3)] by auto
  have "bulk_Run env sess name (insert_bulk fullname ordered docs) s =
      Inr (if es = [] then Inr \<lparr>br_Matched = 0, br_Modified = 0\<rparr> else Inl (insert_cases es), s')"
    unfolding run_one_action [OF w(1)] using w(3,4) pos(1) visible_insert_cases [of es "length docs", OF pos(2)]
    by (auto simp: checkSuccess_def insert_bulk_def sorted_insert_cases)
  with w(2) show ?thesis by blast
qed

subsection \<open>Failures of large batches\<close>

text \<open>A session that is not safe gets no result from a command without errors, and the first batch needs one.\<close>

lemma unsafe_batch_panics:
  assumes "env_acquire env s = (None, s1)" "2 \<le> env_wire env s1" "ms_safeOp sess = None" "batch_size < length docs"
    and "\<And>cmd. \<exists>r s2. env_run env cmd s1 = ((r, None), s2) \<and> wr_Errors r = [] \<and> fst (wr_ConcernError r) = 0"
  shows "writeOp env sess name (InsertOp coll docs flags) ordered s = Inl NilDereference"
proof -
  obtain r s2 where r: "env_run env (GD (write_cmd name None (InsertOp coll (take batch_size docs) flags) ordered @
      bypass_field (ms_bypassValidation sess))) s1 = ((r, None), s2)" "wr_Errors r = []" "fst (wr_ConcernError r) = 0"
    using assms(5) by blast
  have "docs \<noteq> []" using assms(4) by auto
  then have "insert_batches env name None ordered (ms_bypassValidation sess) coll flags 0 docs no_error s1 = Inl NilDereference"
    using r by (subst insert_batches.simps) (simp add: writeOpCommand_def command_result_def)
  then show ?thesis using assms(1-4) by (simp add: writeOp_def)
qed

text \<open>A command that fails without an error case, for example because the connection is gone.\<close>

definition failed_answer :: writeCmdResult where
  "failed_answer = \<lparr>wr_N = 0, wr_NModified = 0, wr_Upserted = [], wr_ConcernError = (0, []), wr_Errors = []\<rparr>"

lemma failed_command:
  "env_run env = (\<lambda>cmd s. ((failed_answer, Some err), s)) \<Longrightarrow>
   writeOpCommand env name safeOp wop ordered bypass s = ((Some (LastError [] 0 0 0 False None []), Some err), s)"
  by (simp add: writeOpCommand_def command_result_def failed_answer_def BulkErrorCases_def Let_def)

lemma failures_lost:
  assumes "env_run env = (\<lambda>cmd s. ((failed_answer, Some err), s))" "odd flags" "le_ecases lerr = []"
  shows "\<exists>l. insert_batches env name safeOp ordered bypass coll flags i docs lerr s = Inr ((Some l, None), s) \<and> le_ecases l = []"
  using assms(3)
proof (induction "length docs" arbitrary: docs i lerr rule: less_induct)
  case less
  show ?case
  proof (cases "docs = []")
    case True
    then show ?thesis using less.prems by (simp add: insert_batches.simps batches_end_def)
  next
    case False
    let ?lerr = "add_ecases (add_counts lerr (LastError [] 0 0 0 False None [])) (le_ecases (shift_ecases i (LastError [] 0 0 0 False None [])))"
    have "insert_batches env name safeOp ordered bypass coll flags i docs lerr s =
        insert_batches env name safeOp ordered bypass coll flags (i + batch_size) (drop batch_size docs) ?lerr s"
      using False assms(2) failed_command [OF assms(1)] by (subst insert_batches.simps) (simp add: Let_def)
    moreover have "le_ecases ?lerr = []" using less.prems by (simp add: add_ecases_def add_counts_def shift_ecases_def)
    moreover have "length (drop batch_size docs) < length docs" using False batch_size_pos by simp
    ultimately show ?thesis using less.hyps by metis
  qed
qed

end
