(* ===== verification/BsonDecode.thy ===== *)
theory BsonDecode
  imports BsonValue
begin

text \<open>
  \<open>bson/decode.go\<close>: reading a document into a \<open>bson.M\<close> or a \<open>bson.D\<close>, and documents inside it into
  values of the same type. The decoder is the bytes \<open>b\<close> and a position in them. The mutual recursion of
  \<open>readDocTo\<close> and \<open>readElemTo\<close> takes fuel; \<open>None\<close> is that it has run out, which \<open>Unmarshal_ends\<close> excludes.
  A map is the list of its pairs. What a map holds after an error is not tracked.
\<close>

subsection \<open>Parsers of base types\<close>

definition corrupted :: "'a go" where
  "corrupted = Inl (ExplicitPanic ''Document is corrupted'')"

definition readByte :: "bytes \<Rightarrow> nat \<Rightarrow> (byte \<times> nat) go" where
  "readByte b i = (if length b < i + 1 then corrupted else go_bind (go_at b i) (\<lambda>c. Inr (c, i + 1)))"

definition readBytes :: "bytes \<Rightarrow> 32 word \<Rightarrow> nat \<Rightarrow> (bytes \<times> nat) go" where
  "readBytes b n i =
     (if sint n < 0 then corrupted
      else let k = nat (sint n) in
        if length b < i + k then corrupted else Inr (take k (drop i b), i + k))"

definition readInt32 :: "bytes \<Rightarrow> nat \<Rightarrow> (32 word \<times> nat) go" where
  "readInt32 b i = go_bind (readBytes b 4 i) (\<lambda>(v, i). Inr (le_word v, i))"

definition readInt64 :: "bytes \<Rightarrow> nat \<Rightarrow> (64 word \<times> nat) go" where
  "readInt64 b i = go_bind (readBytes b 8 i) (\<lambda>(v, i). Inr (le_word v, i))"

definition read_bool :: "bytes \<Rightarrow> nat \<Rightarrow> (bool \<times> nat) go" where
  "read_bool b i = go_bind (readByte b i) (\<lambda>(c, i).
     if c = 0 then Inr (False, i) else if c = 1 then Inr (True, i)
     else Inl (ExplicitPanic (''encoded boolean must be 1 or 0, found '' @ strconv_Itoa (uint c))))"

definition readCStr :: "bytes \<Rightarrow> nat \<Rightarrow> (bytes \<times> nat) go" where
  "readCStr b i =
     (let s = takeWhile (\<lambda>c. c \<noteq> 0) (drop i b) in
      if length b < i + length s + 1 then corrupted else Inr (s, i + length s + 1))"

definition readStr :: "bytes \<Rightarrow> nat \<Rightarrow> (bytes \<times> nat) go" where
  "readStr b i =
     go_bind (readInt32 b i) (\<lambda>(l, i). go_bind (readBytes b (l - 1) i) (\<lambda>(s, i).
     go_bind (readByte b i) (\<lambda>(c, i). if c \<noteq> 0 then corrupted else Inr (s, i))))"

definition readBinary :: "bytes \<Rightarrow> nat \<Rightarrow> ((byte \<times> bytes) \<times> nat) go" where
  "readBinary b i =
     go_bind (readInt32 b i) (\<lambda>(l, i). go_bind (readByte b i) (\<lambda>(kind, i).
     if kind = BinaryBinaryOld \<and> 4 < sint l then
       go_bind (readInt32 b i) (\<lambda>(rl, i).
         if rl \<noteq> l - 4 then corrupted else go_bind (readBytes b rl i) (\<lambda>(v, i). Inr ((kind, v), i)))
     else go_bind (readBytes b l i) (\<lambda>(v, i). Inr ((kind, v), i))))"

definition readRegEx :: "bytes \<Rightarrow> nat \<Rightarrow> ((bytes \<times> bytes) \<times> nat) go" where
  "readRegEx b i = go_bind (readCStr b i) (\<lambda>(p, i). go_bind (readCStr b i) (\<lambda>(q, i). Inr ((p, q), i)))"

text \<open>The loop over the name of an array element, which is not read.\<close>

definition skip_name :: "bytes \<Rightarrow> nat \<Rightarrow> nat \<Rightarrow> nat go" where
  "skip_name b lim i =
     (let i = i + length (takeWhile (\<lambda>c. c \<noteq> 0) (take (lim - i) (drop i b))) in
      if lim \<le> i then corrupted else Inr (i + 1))"

text \<open>\<open>time.Unix(i/1e3, i%1e3*1e6)\<close>, normalised.\<close>

definition unix_time :: "int \<Rightarrow> int \<Rightarrow> go_value" where
  "unix_time sec nsec = GTime (sec + nsec div 10 ^ 9) (nsec mod 10 ^ 9)"

definition date_of :: "int \<Rightarrow> go_value" where
  "date_of i =
     (if i = - 62135596800000 then GTime (- 62135596800) 0
      else unix_time (trunc_div i 1000) (trunc_rem i 1000 * 1000000))"

definition unknown_kind :: "byte \<Rightarrow> string" where
  "unknown_kind kind =
     (let digit = (\<lambda>d. if d < 10 then char_of (48 + d) else char_of (55 + d :: nat)) in
      ''Unknown element kind (0x'' @ [digit (unat (drop_bit 4 kind)), digit (unat (kind AND 15))] @ '')'')"

subsection \<open>Values without elements\<close>

text \<open>The position behind the value, or \<open>None\<close> for a kind that this part of \<open>readElemTo\<close> does not read.\<close>

definition read_leaf :: "bytes \<Rightarrow> byte \<Rightarrow> nat \<Rightarrow> (go_value \<times> nat) go option" where
  "read_leaf b kind i =
     (if kind = ElementFloat64 then Some (go_bind (readInt64 b i) (\<lambda>(w, i). Inr (GFloat w, i)))
      else if kind = ElementString then Some (go_bind (readStr b i) (\<lambda>(s, i). Inr (GString s, i)))
      else if kind = ElementBinary then
        Some (go_bind (readBinary b i) (\<lambda>((k, v), i).
          Inr (if k = BinaryGeneric \<or> k = BinaryBinaryOld then GBytes v else GBinary k v, i)))
      else if kind = Element06 then Some (Inr (GUndefined, i))
      else if kind = ElementObjectId then Some (go_bind (readBytes b 12 i) (\<lambda>(s, i). Inr (GObjectId s, i)))
      else if kind = ElementBool then Some (go_bind (read_bool b i) (\<lambda>(v, i). Inr (GBool v, i)))
      else if kind = ElementDatetime then Some (go_bind (readInt64 b i) (\<lambda>(w, i). Inr (date_of (sint w), i)))
      else if kind = ElementNil then Some (Inr (GNil, i))
      else if kind = ElementRegEx then Some (go_bind (readRegEx b i) (\<lambda>((p, q), i). Inr (GRegEx p q, i)))
      else if kind = ElementDBPointer then
        Some (go_bind (readStr b i) (\<lambda>(ns, i). go_bind (readBytes b 12 i) (\<lambda>(oid, i). Inr (GDBPointer ns oid, i))))
      else if kind = ElementJavaScriptWithoutScope then
        Some (go_bind (readStr b i) (\<lambda>(s, i). Inr (GJavaScript s GNil, i)))
      else if kind = ElementSymbol then Some (go_bind (readStr b i) (\<lambda>(s, i). Inr (GSymbol s, i)))
      else if kind = ElementInt32 then Some (go_bind (readInt32 b i) (\<lambda>(w, i). Inr (GInt (scast w), i)))
      else if kind = ElementTimestamp then Some (go_bind (readInt64 b i) (\<lambda>(w, i). Inr (GTimestamp w, i)))
      else if kind = ElementInt64 then Some (go_bind (readInt64 b i) (\<lambda>(w, i). Inr (GInt64 w, i)))
      else if kind = ElementDecimal128 then
        Some (go_bind (readInt64 b i) (\<lambda>(l, i). go_bind (readInt64 b i) (\<lambda>(h, i). Inr (GDecimal h l, i))))
      else if kind = ElementMaxKey then Some (Inr (GMaxKey, i))
      else if kind = ElementMinKey then Some (Inr (GMinKey, i))
      else None)"

subsection \<open>Documents\<close>

datatype doc_type = AsM | AsD

text \<open>\<open>SetMapIndex\<close>.\<close>

fun map_set :: "bytes \<Rightarrow> go_value \<Rightarrow> (bytes \<times> go_value) list \<Rightarrow> (bytes \<times> go_value) list" where
  "map_set k v [] = [(k, v)]"
| "map_set k v ((k', v') # m) = (if k = k' then (k, v) # m else (k', v') # map_set k v m)"

fun put :: "doc_type \<Rightarrow> bytes \<Rightarrow> go_value \<Rightarrow> (bytes \<times> go_value) list \<Rightarrow> (bytes \<times> go_value) list" where
  "put AsM k v d = map_set k v d"
| "put AsD k v d = d @ [(k, v)]"

fun doc_of :: "doc_type \<Rightarrow> (bytes \<times> go_value) list \<Rightarrow> go_value" where
  "doc_of AsM d = GMap d"
| "doc_of AsD d = GD d"

text \<open>The end of a document that begins at \<open>i\<close>, and the position of its first element.\<close>

definition doc_end :: "bytes \<Rightarrow> nat \<Rightarrow> (nat \<times> nat) go" where
  "doc_end b i = go_bind (readInt32 b i) (\<lambda>(l, i).
     let lim = sint l + int i - 4 in
     if lim \<le> int i \<or> int (length b) < lim then corrupted
     else go_bind (go_at b (nat lim - 1)) (\<lambda>c. if c \<noteq> 0 then corrupted else Inr (nat lim, i)))"

text \<open>Behind the zero byte at \<open>i\<close>.\<close>

definition doc_closed :: "nat \<Rightarrow> nat \<Rightarrow> 'a \<Rightarrow> ('a \<times> nat) go" where
  "doc_closed lim i x = (if i + 1 \<noteq> lim then corrupted else Inr (x, i + 1))"

function (sequential) read_doc :: "nat \<Rightarrow> doc_type \<Rightarrow> bytes \<Rightarrow> nat \<Rightarrow> (go_value \<times> nat) go option"
  and read_elems :: "nat \<Rightarrow> doc_type \<Rightarrow> bytes \<Rightarrow> nat \<Rightarrow> (bytes \<times> go_value) list \<Rightarrow> nat \<Rightarrow>
    ((bytes \<times> go_value) list \<times> nat) go option"
  and read_items :: "nat \<Rightarrow> doc_type \<Rightarrow> bytes \<Rightarrow> nat \<Rightarrow> go_value list \<Rightarrow> nat \<Rightarrow> (go_value list \<times> nat) go option"
  and readElemTo :: "nat \<Rightarrow> doc_type \<Rightarrow> bytes \<Rightarrow> byte \<Rightarrow> nat \<Rightarrow> (go_value \<times> nat) go option"
where
  "read_doc 0 dt b i = None"
| "read_doc (Suc n) dt b i =
     then_ret (doc_end b i) (\<lambda>(lim, i).
     ret_bind (read_elems n dt b lim [] i) (\<lambda>(d, i). Some (Inr (doc_of dt d, i))))"
| "read_elems 0 dt b lim d i = None"
| "read_elems (Suc n) dt b lim d i =
     then_ret (go_at b i) (\<lambda>c.
     if c = 0 then Some (doc_closed lim i d)
     else
       then_ret (readByte b i) (\<lambda>(kind, i). then_ret (readCStr b i) (\<lambda>(name, i).
       if lim \<le> i then Some corrupted
       else ret_bind (readElemTo n dt b kind i) (\<lambda>(v, i).
         if lim \<le> i then Some corrupted else read_elems n dt b lim (put dt name v d) i))))"
| "read_items 0 dt b lim xs i = None"
| "read_items (Suc n) dt b lim xs i =
     then_ret (go_at b i) (\<lambda>c.
     if c = 0 then Some (doc_closed lim i xs)
     else
       then_ret (readByte b i) (\<lambda>(kind, i). then_ret (skip_name b lim i) (\<lambda>i.
       ret_bind (readElemTo n dt b kind i) (\<lambda>(v, i).
         if lim \<le> i then Some corrupted else read_items n dt b lim (xs @ [v]) i))))"
| "readElemTo 0 dt b kind i = None"
| "readElemTo (Suc n) dt b kind i =
     (case read_leaf b kind i of
        Some r \<Rightarrow> Some r
      | None \<Rightarrow>
          if kind = ElementDocument then read_doc n dt b i
          else if kind = ElementArray then
            then_ret (doc_end b i) (\<lambda>(lim, i).
            ret_bind (read_items n dt b lim [] i) (\<lambda>(xs, i). Some (Inr (GSlice xs, i))))
          else if kind = ElementJavaScriptWithScope then
            then_ret (readInt32 b i) (\<lambda>(l, j). then_ret (readStr b j) (\<lambda>(code, j).
            ret_bind (read_doc n AsM b j) (\<lambda>(scope, j).
              if int j \<noteq> int i + sint l then Some corrupted else Some (Inr (GJavaScript code scope, j)))))
          else Some (Inl (ExplicitPanic (unknown_kind kind))))"
  by pat_completeness auto
termination
  by (relation "measure (\<lambda>x. case x of Inl (Inl p) \<Rightarrow> fst p | Inl (Inr p) \<Rightarrow> fst p | Inr (Inl p) \<Rightarrow> fst p | Inr (Inr p) \<Rightarrow> fst p)")
    auto

declare read_doc.simps [simp del] read_elems.simps [simp del] read_items.simps [simp del] readElemTo.simps [simp del]

definition Unmarshal :: "doc_type \<Rightarrow> bytes \<Rightarrow> (string + go_value) go option" where
  "Unmarshal dt b =
     (case read_doc (length b + 1) dt b 0 of
        None \<Rightarrow> None
      | Some r \<Rightarrow>
          Some (handleErr (go_bind r (\<lambda>(v, i).
            if i < length b then Inl (ExplicitPanic ''document is corrupted'') else Inr v))))"

subsection \<open>The sizes of elements\<close>

text \<open>\<open>getSize\<close>: the length of a value as an unsigned number.\<close>

definition getSize :: "nat \<Rightarrow> bytes \<Rightarrow> (string + int) go" where
  "getSize offset buffer =
     (if length buffer < offset + 4 then Inr (Inl ''unexpected EOF'')
      else go_bind (go_slice buffer offset (offset + 4)) (\<lambda>s. Inr (Inr (uint (le_word s :: 32 word)))))"

text \<open>Behind the next zero byte, or one behind the end of the buffer.\<close>

definition cstr_end :: "nat \<Rightarrow> bytes \<Rightarrow> nat" where
  "cstr_end i buffer = i + length (takeWhile (\<lambda>c. c \<noteq> 0) (drop i buffer)) + 1"

definition sized :: "nat \<Rightarrow> bytes \<Rightarrow> (int \<Rightarrow> (string + int) go) \<Rightarrow> (string + int) go" where
  "sized offset buffer f =
     go_bind (getSize offset buffer) (\<lambda>r. case r of Inl e \<Rightarrow> Inr (Inl e) | Inr sz \<Rightarrow> f sz)"

definition BSONElementSize :: "byte \<Rightarrow> nat \<Rightarrow> bytes \<Rightarrow> (string + int) go" where
  "BSONElementSize kind offset buffer =
     (if kind = ElementFloat64 then Inr (Inr 8)
      else if kind \<in> set [ElementJavaScriptWithoutScope, ElementSymbol, ElementString] then
        sized offset buffer (\<lambda>sz.
          if sz < 1 then Inr (Inl ''String size can't be less then one byte'')
          else let sz = sz + 4 in
            if int (length buffer) < int offset + sz then Inr (Inl ''unexpected EOF'')
            else go_bind (go_at buffer (nat (int offset + sz - 1))) (\<lambda>c.
              if c \<noteq> 0 then Inr (Inl ''Invalid string: non zero-terminated'') else Inr (Inr sz)))
      else if kind \<in> set [ElementArray, ElementDocument] then
        sized offset buffer (\<lambda>sz.
          if sz < 5 then Inr (Inl ''Declared document size is too small'') else Inr (Inr sz))
      else if kind = ElementBinary then
        sized offset buffer (\<lambda>sz.
          if sz < 0 then Inr (Inl ''Binary data size can't be negative'') else Inr (Inr (sz + 5)))
      else if kind = Element06 then Inr (Inr 0)
      else if kind = ElementObjectId then Inr (Inr 12)
      else if kind = ElementBool then Inr (Inr 1)
      else if kind = ElementDatetime then Inr (Inr 8)
      else if kind = ElementNil then Inr (Inr 0)
      else if kind = ElementRegEx then
        (let lim = cstr_end (cstr_end offset buffer) buffer
         in if length buffer < lim then Inr (Inl ''unexpected EOF'') else Inr (Inr (int lim - int offset)))
      else if kind = ElementDBPointer then
        sized offset buffer (\<lambda>sz.
          if sz < 1 then Inr (Inl ''String size can't be less then one byte'') else Inr (Inr (sz + 12 + 4)))
      else if kind = ElementJavaScriptWithScope then
        sized offset buffer (\<lambda>sz.
          if sz < 4 + 5 + 5 then Inr (Inl ''Declared document element is too small'') else Inr (Inr sz))
      else if kind = ElementInt32 then Inr (Inr 4)
      else if kind = ElementTimestamp then Inr (Inr 8)
      else if kind = ElementInt64 then Inr (Inr 8)
      else if kind = ElementDecimal128 then Inr (Inr 16)
      else if kind = ElementMaxKey then Inr (Inr 0)
      else if kind = ElementMinKey then Inr (Inr 0)
      else Inr (Inl (unknown_kind kind)))"

text \<open>\<open>readRaw\<close> and \<open>dropElem\<close>.\<close>

definition readRaw :: "bytes \<Rightarrow> byte \<Rightarrow> nat \<Rightarrow> (go_value \<times> nat) go" where
  "readRaw b kind i =
     go_bind (BSONElementSize kind i b) (\<lambda>r.
       case r of
         Inl e \<Rightarrow> corrupted
       | Inr sz \<Rightarrow>
           if int (length b) < int i + sz then corrupted
           else Inr (GRaw kind (take (nat sz) (drop i b)), i + nat sz))"

end
