(* ===== verification/BsonCodec.thy ===== *)
theory BsonCodec
  imports BsonDecode
begin

text \<open>
  What the codec promises: reading ends, without a panic of the run time, for every byte string; what the
  encoder writes is read back, with the types that BSON keeps; and an element is skipped exactly.
\<close>

subsection \<open>Reading ends and does not panic\<close>

definition fine :: "bytes \<Rightarrow> nat \<Rightarrow> ('a \<times> nat) go \<Rightarrow> bool" where
  "fine b i r \<longleftrightarrow>
     (case r of
        Inl (ExplicitPanic _) \<Rightarrow> True
      | Inl _ \<Rightarrow> False
      | Inr (_, j) \<Rightarrow> i \<le> j \<and> j \<le> length b)"

named_theorems fine_intros

lemma fine_corrupted [fine_intros]: "fine b i corrupted"
  and fine_message [fine_intros]: "fine b i (Inl (ExplicitPanic msg))"
  by (simp_all add: fine_def corrupted_def)

lemma fine_Inr: "fine b i (Inr (x, j)) \<longleftrightarrow> i \<le> j \<and> j \<le> length b"
  by (simp add: fine_def)

lemma fine_less: "fine b j r \<Longrightarrow> i \<le> j \<Longrightarrow> fine b i r"
  by (auto simp: fine_def split: sum.splits go_panic.splits)

lemma fine_bind:
  assumes "fine b i m" "\<And>x j. i \<le> j \<Longrightarrow> j \<le> length b \<Longrightarrow> fine b j (f x j)"
  shows "fine b i (go_bind m (\<lambda>(x, j). f x j))"
proof (cases m)
  case (Inl p)
  then show ?thesis using assms(1) by (cases p) (simp_all add: fine_def)
next
  case (Inr y)
  obtain x j where "y = (x, j)" by (cases y)
  with Inr assms(1) have "i \<le> j" "j \<le> length b" "m = Inr (x, j)" by (simp_all add: fine_def)
  then show ?thesis using fine_less [OF assms(2)] by simp
qed

lemma fine_readByte [fine_intros]: "i \<le> length b \<Longrightarrow> fine b i (readByte b i)"
  by (simp add: readByte_def fine_Inr fine_intros)

lemma fine_readBytes [fine_intros]: "i \<le> length b \<Longrightarrow> fine b i (readBytes b n i)"
  by (simp add: readBytes_def fine_Inr fine_intros Let_def)

lemma fine_readInt32 [fine_intros]: "i \<le> length b \<Longrightarrow> fine b i (readInt32 b i)"
  unfolding readInt32_def by (intro fine_bind fine_intros) (simp_all add: fine_Inr)

lemma fine_readInt64 [fine_intros]: "i \<le> length b \<Longrightarrow> fine b i (readInt64 b i)"
  unfolding readInt64_def by (intro fine_bind fine_intros) (simp_all add: fine_Inr)

lemma fine_read_bool [fine_intros]: "i \<le> length b \<Longrightarrow> fine b i (read_bool b i)"
  unfolding read_bool_def by (intro fine_bind fine_intros) (simp_all add: fine_Inr fine_intros)

lemma fine_readCStr [fine_intros]: "i \<le> length b \<Longrightarrow> fine b i (readCStr b i)"
  by (simp add: readCStr_def fine_Inr fine_intros Let_def)

lemma fine_readStr [fine_intros]: "i \<le> length b \<Longrightarrow> fine b i (readStr b i)"
  unfolding readStr_def by (intro fine_bind fine_intros) (simp_all add: fine_Inr fine_intros)

lemma fine_readBinary [fine_intros]: "i \<le> length b \<Longrightarrow> fine b i (readBinary b i)"
  unfolding readBinary_def
  by (intro fine_bind fine_intros) (auto intro!: fine_bind fine_intros simp: fine_Inr)

lemma fine_readRegEx [fine_intros]: "i \<le> length b \<Longrightarrow> fine b i (readRegEx b i)"
  unfolding readRegEx_def by (intro fine_bind fine_intros) (simp_all add: fine_Inr)

lemma fine_read_leaf:
  assumes "i \<le> length b" "read_leaf b kind i = Some r" shows "fine b i r"
proof -
  have "fine b i r" if "Some r = read_leaf b kind i"
    using that assms(1) unfolding read_leaf_def
    by (auto split: if_splits intro!: fine_bind fine_intros simp: fine_Inr)
  with assms(2) show ?thesis by simp
qed

lemma fine_doc_closed [fine_intros]: "i < length b \<Longrightarrow> fine b i (doc_closed lim i x)"
  by (simp add: doc_closed_def fine_Inr fine_intros)

text \<open>A document that begins at \<open>i\<close> ends behind its length and within the bytes.\<close>

lemma doc_end_cases:
  assumes "i \<le> length b"
  shows "(\<exists>msg. doc_end b i = Inl (ExplicitPanic msg)) \<or>
    (\<exists>lim. doc_end b i = Inr (lim, i + 4) \<and> i + 4 < lim \<and> lim \<le> length b)"
proof (cases "readInt32 b i")
  case (Inl p)
  then show ?thesis using fine_readInt32 [OF assms] by (cases p) (simp_all add: fine_def doc_end_def)
next
  case (Inr y)
  then obtain l where y: "y = (l, i + 4)" "i + 4 \<le> length b"
    by (auto simp: readInt32_def readBytes_def corrupted_def go_bind_eq_Inr Let_def split: if_splits)
  then show ?thesis
    using Inr by (auto simp: doc_end_def corrupted_def Let_def nat_less_iff zless_nat_eq_int_zless)
qed

lemma skip_name_cases:
  assumes "i \<le> lim" "lim \<le> length b"
  shows "skip_name b lim i = corrupted \<or> (\<exists>j. skip_name b lim i = Inr j \<and> i < j \<and> j \<le> lim)"
  by (auto simp: skip_name_def Let_def)

definition ends_fine :: "bytes \<Rightarrow> nat \<Rightarrow> ('a \<times> nat) go option \<Rightarrow> bool" where
  "ends_fine b i m \<longleftrightarrow> (\<exists>r. m = Some r \<and> fine b i r)"

lemma ends_fine_Some [simp]: "ends_fine b i (Some r) \<longleftrightarrow> fine b i r"
  by (simp add: ends_fine_def)

lemma ends_fine_less: "ends_fine b j r \<Longrightarrow> i \<le> j \<Longrightarrow> ends_fine b i r"
  using fine_less by (auto simp: ends_fine_def)

lemma ends_fine_bind:
  assumes "ends_fine b i m" "\<And>x j. i \<le> j \<Longrightarrow> j \<le> length b \<Longrightarrow> ends_fine b j (f x j)"
  shows "ends_fine b i (ret_bind m (\<lambda>(x, j). f x j))"
proof -
  obtain r where r: "m = Some r" "fine b i r" using assms(1) by (auto simp: ends_fine_def)
  show ?thesis
  proof (cases r)
    case (Inl p)
    then show ?thesis using r by (cases p) (simp_all add: fine_def)
  next
    case (Inr y)
    obtain x j where "y = (x, j)" by (cases y)
    with Inr r have "i \<le> j" "j \<le> length b" "m = Some (Inr (x, j))" by (simp_all add: fine_def)
    then show ?thesis using ends_fine_less [OF assms(2)] by simp
  qed
qed

lemma fine_readByte_next: "i < length b \<Longrightarrow> fine b (i + 1) (readByte b i)"
  by (simp add: readByte_def fine_Inr)

lemma fine_readCStr_next: "fine b (i + 1) (readCStr b i)"
  by (simp add: readCStr_def fine_Inr fine_intros Let_def)

lemma ends_fine_bind_next:
  assumes "fine b (i + 1) m" "\<And>x j. i + 1 \<le> j \<Longrightarrow> j \<le> length b \<Longrightarrow> ends_fine b j (f x j)"
  shows "ends_fine b i (then_ret m (\<lambda>(x, j). f x j))"
  by (rule ends_fine_less [of _ "i + 1"], rule ends_fine_bind) (use assms in simp_all)

text \<open>
  Every element takes a byte for its kind and one behind its name, so fuel for the bytes that are left is
  enough.
\<close>

lemma reading_ends:
  "i \<le> length b \<Longrightarrow> length b < i + n \<Longrightarrow> ends_fine b i (read_doc n dt b i)"
  "i < length b \<Longrightarrow> lim \<le> length b \<Longrightarrow> i < lim \<Longrightarrow> length b < i + n \<Longrightarrow> ends_fine b i (read_elems n dt b lim d i)"
  "i < length b \<Longrightarrow> lim \<le> length b \<Longrightarrow> i < lim \<Longrightarrow> length b < i + n \<Longrightarrow> ends_fine b i (read_items n dt b lim xs i)"
  "i \<le> length b \<Longrightarrow> length b + 1 < i + n \<Longrightarrow> ends_fine b i (readElemTo n dt b kind i)"
proof (induction n arbitrary: dt i lim d xs kind rule: nat.induct)
  case zero
  { case 1 then show ?case by simp
  next case 2 then show ?case by simp
  next case 3 then show ?case by simp
  next case 4 then show ?case by simp }
next
  case (Suc n)
  { case 1
    from doc_end_cases [OF 1(1)] show ?case
    proof (elim disjE exE conjE)
      fix lim assume e: "doc_end b i = Inr (lim, i + 4)" "i + 4 < lim" "lim \<le> length b"
      have "ends_fine b (i + 4) (read_elems n dt b lim [] (i + 4))"
        using e 1 by (intro Suc.IH(2)) auto
      then have "ends_fine b (i + 4) (ret_bind (read_elems n dt b lim [] (i + 4)) (\<lambda>(d, i). Some (Inr (doc_of dt d, i))))"
        by (rule ends_fine_bind) (simp add: fine_Inr)
      then have "ends_fine b i (ret_bind (read_elems n dt b lim [] (i + 4)) (\<lambda>(d, i). Some (Inr (doc_of dt d, i))))"
        by (rule ends_fine_less) simp
      then show ?thesis by (simp add: e(1) read_doc.simps)
    qed (simp add: read_doc.simps fine_intros)
  next
    case 2
    have "ends_fine b i (then_ret (readByte b i) (\<lambda>(kind, i). then_ret (readCStr b i) (\<lambda>(name, i).
       if lim \<le> i then Some corrupted
       else ret_bind (readElemTo n dt b kind i) (\<lambda>(v, i).
         if lim \<le> i then Some corrupted else read_elems n dt b lim (put dt name v d) i))))"
    proof (intro ends_fine_bind_next)
      fix kind j name k assume j: "i + 1 \<le> j" "j \<le> length b" "j + 1 \<le> k" "k \<le> length b"
      have "ends_fine b k (ret_bind (readElemTo n dt b kind k) (\<lambda>(v, i).
          if lim \<le> i then Some corrupted else read_elems n dt b lim (put dt name v d) i))" if "k < lim"
        using 2 j that
        by (intro ends_fine_bind Suc.IH(4)) (auto intro!: Suc.IH(2) simp: fine_intros)
      then show "ends_fine b k (if lim \<le> k then Some corrupted
          else ret_bind (readElemTo n dt b kind k) (\<lambda>(v, i).
            if lim \<le> i then Some corrupted else read_elems n dt b lim (put dt name v d) i))"
        by (simp add: fine_intros)
    qed (use 2 in \<open>simp_all add: fine_readByte_next [simplified] fine_readCStr_next [simplified]\<close>)
    then show ?case using 2 by (auto simp: read_elems.simps fine_intros)
  next
    case 3
    have "ends_fine b i (then_ret (readByte b i) (\<lambda>(kind, i). then_ret (skip_name b lim i) (\<lambda>i.
       ret_bind (readElemTo n dt b kind i) (\<lambda>(v, i).
         if lim \<le> i then Some corrupted else read_items n dt b lim (xs @ [v]) i))))"
    proof (intro ends_fine_bind_next)
      fix kind j assume j: "i + 1 \<le> j" "j \<le> length b"
      have next_item: "ends_fine b k (ret_bind (readElemTo n dt b kind k) (\<lambda>(v, i).
          if lim \<le> i then Some corrupted else read_items n dt b lim (xs @ [v]) i))" if "j < k" "k \<le> lim" for k
        using 3 j that
        by (intro ends_fine_bind Suc.IH(4)) (auto intro!: Suc.IH(3) simp: fine_intros)
      show "ends_fine b j (then_ret (skip_name b lim j) (\<lambda>i.
          ret_bind (readElemTo n dt b kind i) (\<lambda>(v, i).
            if lim \<le> i then Some corrupted else read_items n dt b lim (xs @ [v]) i)))"
      proof (cases "j \<le> lim")
        case True
        with skip_name_cases [of j lim b] 3 consider "skip_name b lim j = corrupted"
          | k where "skip_name b lim j = Inr k" "j < k" "k \<le> lim" by auto
        then show ?thesis
          by cases (use next_item ends_fine_less in \<open>fastforce simp: corrupted_def fine_intros\<close>)+
      next
        case False
        then have "skip_name b lim j = corrupted" by (simp add: skip_name_def)
        then show ?thesis by (simp add: corrupted_def fine_intros)
      qed
    qed (use 3 in \<open>simp_all add: fine_readByte_next [simplified]\<close>)
    then show ?case using 3 by (auto simp: read_items.simps fine_intros)
  next
    case 4
    show ?case
    proof (cases "read_leaf b kind i")
      case None
      have array: "ends_fine b i (then_ret (doc_end b i) (\<lambda>(lim, i).
            ret_bind (read_items n dt b lim [] i) (\<lambda>(xs, i). Some (Inr (GSlice xs, i)))))"
        using doc_end_cases [OF 4(1)]
      proof (elim disjE exE conjE)
        fix lim assume e: "doc_end b i = Inr (lim, i + 4)" "i + 4 < lim" "lim \<le> length b"
        have "ends_fine b (i + 4) (ret_bind (read_items n dt b lim [] (i + 4)) (\<lambda>(xs, i). Some (Inr (GSlice xs, i))))"
          using e 4 by (intro ends_fine_bind Suc.IH(3)) (auto simp: fine_Inr)
        then show ?thesis by (simp add: e(1) ends_fine_less)
      qed (simp add: fine_intros)
      have scoped: "ends_fine b i (then_ret (readInt32 b i) (\<lambda>(l, j). then_ret (readStr b j) (\<lambda>(code, j).
            ret_bind (read_doc n AsM b j) (\<lambda>(scope, j).
              if int j \<noteq> int i + sint l then Some corrupted else Some (Inr (GJavaScript code scope, j))))))"
        using 4 by (intro ends_fine_bind Suc.IH(1)) (auto intro: fine_intros simp: fine_Inr)
      have "ends_fine b i (read_doc n dt b i)" using 4 by (intro Suc.IH(1)) auto
      with array scoped None show ?thesis by (simp add: readElemTo.simps fine_intros)
    next
      case (Some r)
      then show ?thesis using fine_read_leaf [OF 4(1) Some] by (simp add: readElemTo.simps)
    qed }
qed

lemma Unmarshal_ends: "\<exists>r. Unmarshal dt b = Some (Inr r)"
proof -
  have "ends_fine b 0 (read_doc (length b + 1) dt b 0)" by (rule reading_ends(1)) simp_all
  then obtain r where "read_doc (length b + 1) dt b 0 = Some r" "fine b 0 r" by (auto simp: ends_fine_def)
  then show ?thesis
    by (auto simp: Unmarshal_def handleErr_def fine_def split: sum.splits go_panic.splits if_splits)
qed

end
