(* ===== verification/BsonRoundTrip.thy ===== *)
theory BsonRoundTrip
  imports BsonCodec
begin

text \<open>
  What the encoder writes is read back: \<open>decoded\<close> is the value that comes out, with the types that BSON
  keeps.
\<close>

subsection \<open>Bytes at a position\<close>

definition holds :: "bytes \<Rightarrow> nat \<Rightarrow> bytes \<Rightarrow> bool" where
  "holds b i v \<longleftrightarrow> i \<le> length b \<and> (\<exists>rest. drop i b = v @ rest)"

lemma holds_append: "holds b i (x @ y) \<Longrightarrow> holds b i x \<and> holds b (i + length x) y"
proof -
  assume h: "holds b i (x @ y)"
  then obtain r where r: "drop i b = x @ y @ r" "i \<le> length b" by (auto simp: holds_def)
  then have "drop (i + length x) b = y @ r"
    by (metis add.commute append_eq_conv_conj drop_drop)
  moreover have "i + length x \<le> length b" using r by (metis add_le_cancel_left le_add1 le_add_diff_inverse length_append length_drop)
  ultimately show ?thesis using r by (auto simp: holds_def)
qed

lemma holds_length: "holds b i v \<Longrightarrow> i + length v \<le> length b"
  using holds_append [of b i v "[]"] by (simp add: holds_def)

lemma holds_take: "holds b i v \<Longrightarrow> take (length v) (drop i b) = v"
  by (auto simp: holds_def)

lemma holds_nth: "holds b i (c # v) \<Longrightarrow> b ! i = c \<and> i < length b"
proof -
  assume h: "holds b i (c # v)"
  then obtain r where "drop i b = c # v @ r" by (auto simp: holds_def)
  then show ?thesis using holds_length [OF h] nth_via_drop by fastforce
qed

lemma readByte_at: "holds b i (c # v) \<Longrightarrow> readByte b i = Inr (c, i + 1)"
  using holds_nth [of b i c v] by (simp add: readByte_def)

lemma readBytes_at: "holds b i v \<Longrightarrow> sint n = int (length v) \<Longrightarrow> readBytes b n i = Inr (v, i + length v)"
  using holds_length [of b i v] holds_take [of b i v] by (simp add: readBytes_def)

lemma readInt32_at: "holds b i (enc_int32 w) \<Longrightarrow> readInt32 b i = Inr (w, i + 4)"
  using readBytes_at [of b i "enc_int32 w" 4]
  by (simp add: readInt32_def enc_int32_def le_word_le_bytes take_bit_word_eq_self)

lemma readInt64_at: "holds b i (enc_int64 w) \<Longrightarrow> readInt64 b i = Inr (w, i + 8)"
  using readBytes_at [of b i "enc_int64 w" 8]
  by (simp add: readInt64_def enc_int64_def le_word_le_bytes take_bit_word_eq_self)

lemma takeWhile_at:
  assumes "holds b i (s @ [0])" "0 \<notin> set s"
  shows "takeWhile (\<lambda>c. c \<noteq> 0) (drop i b) = s"
proof -
  obtain r where "drop i b = s @ 0 # r" using assms(1) by (auto simp: holds_def)
  moreover have "takeWhile (\<lambda>c. c \<noteq> 0) (s @ 0 # r) = s @ takeWhile (\<lambda>c. c \<noteq> 0) (0 # r)"
    using assms(2) by (intro takeWhile_append2) auto
  ultimately show ?thesis by simp
qed

lemma readCStr_at: "holds b i (addCStr s) \<Longrightarrow> 0 \<notin> set s \<Longrightarrow> readCStr b i = Inr (s, i + length s + 1)"
  using holds_length [of b i "s @ [0]"] takeWhile_at [of b i s] by (simp add: readCStr_def addCStr_def Let_def)

lemma sint_length: "int k < 2 ^ 31 \<Longrightarrow> sint (word_of_nat k :: 32 word) = int k"
proof -
  assume k: "int k < 2 ^ 31"
  then have "uint (word_of_nat k :: 32 word) = int k" by (simp add: uint_nat unat_of_nat)
  then show ?thesis using k by (simp add: sint_uint signed_take_bit_int_eq_self)
qed

lemma sint_length_diff: "int k < 2 ^ 31 \<Longrightarrow> sint (word_of_nat (k + 1) - 1 :: 32 word) = int k"
  using sint_length [of k] by simp

lemma holds_str:
  assumes "holds b i (len32 (length s + 1) @ s @ [0])" "int (length s) + 1 < 2 ^ 31"
  shows "readStr b i = Inr (s, i + length (addStr s))"
proof -
  have h: "holds b i (len32 (length s + 1))" "holds b (i + 4) s" "holds b (i + 4 + length s) [0]"
    using holds_append [OF assms(1)] holds_append [of b "i + 4" s "[0]"] by (simp_all add: enc_int32_def)
  have "readBytes b (word_of_nat (length s + 1) - 1) (i + 4) = Inr (s, i + 4 + length s)"
    using h(2) assms(2) by (intro readBytes_at sint_length_diff) simp_all
  then show ?thesis
    using readInt32_at [OF h(1)] readByte_at [OF h(3)]
    by (simp add: readStr_def addStr_def addCStr_def enc_int32_def)
qed

lemma readStr_at: "holds b i (addStr s) \<Longrightarrow> length (addStr s) < 2 ^ 31 \<Longrightarrow> readStr b i = Inr (s, i + length (addStr s))"
  by (rule holds_str) (simp_all add: addStr_def addCStr_def)

lemma readBinary_at:
  assumes "holds b i (addBinary kind v)" "length (addBinary kind v) < 2 ^ 31" "kind \<noteq> 2 \<or> v \<noteq> []"
  shows "readBinary b i = Inr ((kind, v), i + length (addBinary kind v))"
proof (cases "kind = 2")
  case False
  let ?l = "word_of_nat (length v) :: 32 word"
  have "holds b i (enc_int32 ?l @ [kind] @ v)" using assms(1) False by (simp add: addBinary_def)
  from holds_append [OF this] holds_append [of b "i + 4" "[kind]" v]
  have h: "holds b i (enc_int32 ?l)" "holds b (i + 4) [kind]" "holds b (5 + i) v"
    by (simp_all add: enc_int32_def add.commute)
  have "sint ?l = int (length v)" using assms(2) False by (intro sint_length) (simp add: addBinary_def enc_int32_def)
  with readInt32_at [OF h(1)] readByte_at [OF h(2)] readBytes_at [OF h(3)] False show ?thesis
    by (simp add: readBinary_def BinaryBinaryOld_def addBinary_def enc_int32_def)
next
  case True
  let ?l = "word_of_nat (length v + 4) :: 32 word" and ?r = "word_of_nat (length v) :: 32 word"
  have "holds b i (enc_int32 ?l @ [2] @ enc_int32 ?r @ v)" using assms(1) True by (simp add: addBinary_def)
  from holds_append [OF this] holds_append [of b "i + 4" "[2]" "enc_int32 ?r @ v"] holds_append [of b "i + 5" "enc_int32 ?r" v]
  have h: "holds b i (enc_int32 ?l)" "holds b (i + 4) [2]" "holds b (5 + i) (enc_int32 ?r)" "holds b (9 + i) v"
    by (simp_all add: enc_int32_def add.commute)
  have "length v + 9 < 2 ^ 31" using assms(2) True by (simp add: addBinary_def enc_int32_def)
  then have "sint ?l = int (length v + 4)" "sint ?r = int (length v)" by (intro sint_length; simp)+
  moreover have "?r = ?l - 4" by simp
  moreover have "0 < length v" using assms(3) True by simp
  ultimately show ?thesis
    using readInt32_at [OF h(1)] readByte_at [OF h(2)] readInt32_at [OF h(3)] readBytes_at [OF h(4), of ?r] True
    by (simp add: readBinary_def BinaryBinaryOld_def addBinary_def enc_int32_def del: of_nat_add)
qed

subsection \<open>The value that comes out\<close>

text \<open>Whether a value is read back at all, and which value it is; \<open>op\<close> for the name of an array operator.\<close>

primrec storable :: "go_value \<Rightarrow> bool" where
  "storable GNil = True"
| "storable (GString s) = True"
| "storable (GObjectId s) = True"
| "storable (GSymbol s) = True"
| "storable (GFloat w) = True"
| "storable (GUint u) = True"
| "storable (GUint64 u) = True"
| "storable (GInt i) = True"
| "storable (GInt64 i) = True"
| "storable (GTimestamp w) = True"
| "storable GMinKey = True"
| "storable GMaxKey = True"
| "storable (GDuration w) = True"
| "storable (GBool v) = True"
| "storable (GBytes v) = True"
| "storable (GBinary kind v) = (kind \<noteq> 2 \<or> v \<noteq> [])"
| "storable (GRaw kind v) = False"
| "storable (GDecimal h l) = True"
| "storable (GDBPointer ns oid) = True"
| "storable (GRegEx pattern options) = (0 \<notin> set pattern \<and> (\<forall>c \<in> set options. 0 < c \<and> c < 0x80))"
| "storable (GJavaScript code scope) =
     (storable scope \<and> (case scope of GNil \<Rightarrow> True | GMap _ \<Rightarrow> True | GD _ \<Rightarrow> True | _ \<Rightarrow> False))"
| "storable (GTime sec nsec) =
     (0 \<le> nsec \<and> nsec < 10 ^ 9 \<and> - (2 ^ 63) \<le> sec * 1000 \<and> sec * 1000 + 999 < 2 ^ 63)"
| "storable GUndefined = True"
| "storable (GMap d) = list_all (\<lambda>(k, s). 0 \<notin> set k \<and> s) (map (map_prod id storable) d)"
| "storable (GD d) = list_all (\<lambda>(k, s). 0 \<notin> set k \<and> s) (map (map_prod id storable) d)"
| "storable (GSlice xs) = list_all (\<lambda>s. s) (map storable xs)"

text \<open>
  What is read back, in terms of BSON and not of the reader: integers by their size, times by their milliseconds,
  the binary subtypes 0 and 2 as plain bytes, the options of a regular expression sorted. A list of pairs keeps its
  elements; in a map the last element of a name wins.
\<close>

definition last_wins :: "(bytes \<times> 'v) list \<Rightarrow> (bytes \<times> 'v) list" where
  "last_wins es = map (\<lambda>k. (k, the (map_of (rev es) k))) (rev (remdups (rev (map fst es))))"

fun document_as :: "doc_type \<Rightarrow> (bytes \<times> go_value) list \<Rightarrow> go_value" where
  "document_as AsM es = GMap (last_wins es)"
| "document_as AsD es = GD es"

definition array_operators :: "bytes set" where
  "array_operators = set [bytes_of_string ''$in'', bytes_of_string ''$nin'', bytes_of_string ''$all'']"

primrec decoded :: "go_value \<Rightarrow> doc_type \<Rightarrow> bool \<Rightarrow> go_value" where
  "decoded GNil = (\<lambda>dt op. GNil)"
| "decoded (GString s) = (\<lambda>dt op. GString s)"
| "decoded (GObjectId s) = (\<lambda>dt op. GObjectId s)"
| "decoded (GSymbol s) = (\<lambda>dt op. GSymbol s)"
| "decoded (GFloat w) = (\<lambda>dt op. GFloat w)"
| "decoded (GUint u) = (\<lambda>dt op. if uint u \<le> 2 ^ 31 - 1 then GInt u else GInt64 u)"
| "decoded (GUint64 u) = (\<lambda>dt op. GInt64 u)"
| "decoded (GInt i) = (\<lambda>dt op. if - (2 ^ 31) \<le> sint i \<and> sint i \<le> 2 ^ 31 - 1 then GInt i else GInt64 i)"
| "decoded (GInt64 i) = (\<lambda>dt op. GInt64 i)"
| "decoded (GTimestamp w) = (\<lambda>dt op. GTimestamp w)"
| "decoded GMinKey = (\<lambda>dt op. GMinKey)"
| "decoded GMaxKey = (\<lambda>dt op. GMaxKey)"
| "decoded (GDuration w) = (\<lambda>dt op. GInt64 (word_of_int (trunc_div (sint w) 1000000)))"
| "decoded (GBool v) = (\<lambda>dt op. GBool v)"
| "decoded (GBytes v) = (\<lambda>dt op. if op then GSlice (map (\<lambda>x. GInt (ucast x)) v) else GBytes v)"
| "decoded (GBinary kind v) = (\<lambda>dt op. if kind = 0 \<or> kind = 2 then GBytes v else GBinary kind v)"
| "decoded (GRaw kind v) = (\<lambda>dt op. GRaw kind v)"
| "decoded (GDecimal h l) = (\<lambda>dt op. GDecimal h l)"
| "decoded (GDBPointer ns oid) = (\<lambda>dt op. GDBPointer ns oid)"
| "decoded (GRegEx pattern options) = (\<lambda>dt op. GRegEx pattern (sort options))"
| "decoded (GJavaScript code scope) = (\<lambda>dt op. GJavaScript code (decoded scope AsM False))"
| "decoded (GTime sec nsec) = (\<lambda>dt op. GTime sec (nsec div 1000000 * 1000000))"
| "decoded GUndefined = (\<lambda>dt op. GUndefined)"
| "decoded (GMap d) = (\<lambda>dt op. document_as dt
     (map (\<lambda>(k, f). (k, f dt (k \<in> array_operators))) (map (map_prod id decoded) d)))"
| "decoded (GD d) = (\<lambda>dt op. document_as dt
     (map (\<lambda>(k, f). (k, f dt (k \<in> array_operators))) (map (map_prod id decoded) d)))"
| "decoded (GSlice xs) = (\<lambda>dt op. GSlice (map (\<lambda>f. f dt False) (map decoded xs)))"

text \<open>The reader fills its map or list one element after the other.\<close>

lemma array_operators_eq: "array_operators = arrayOps"
  by (simp add: array_operators_def arrayOps_def)

lemma rev_remdups_snoc:
  "rev (remdups (rev (ks @ [k]))) = (if k \<in> set ks then rev (remdups (rev ks)) else rev (remdups (rev ks)) @ [k])"
  by simp

lemma map_set_keys:
  "distinct ks \<Longrightarrow> map_set k v (map (\<lambda>x. (x, f x)) ks) =
    (if k \<in> set ks then map (\<lambda>x. (x, (f(k := v)) x)) ks else map (\<lambda>x. (x, (f(k := v)) x)) ks @ [(k, v)])"
  by (induction ks) auto

lemma fold_map_set: "fold (\<lambda>(k, v). map_set k v) es [] = last_wins es"
proof (induction es rule: rev_induct)
  case (snoc e es)
  obtain k v where e: "e = (k, v)" by (cases e)
  let ?f = "\<lambda>k. the (map_of (rev es) k)"
  have "last_wins (es @ [e]) = map (\<lambda>x. (x, (?f(k := v)) x)) (rev (remdups (rev (map fst es @ [k]))))"
    by (auto simp: last_wins_def e)
  moreover have "fold (\<lambda>(k, v). map_set k v) (es @ [e]) [] = map_set k v (map (\<lambda>x. (x, ?f x)) (rev (remdups (rev (map fst es)))))"
    using snoc by (simp add: e last_wins_def)
  ultimately show ?case using map_set_keys [of "rev (remdups (rev (map fst es)))" k v ?f] by (simp add: rev_remdups_snoc)
qed (simp add: last_wins_def)

lemma document_filled:
  "doc_of dt (fold (\<lambda>(k, f). put dt k (f dt (k \<in> arrayOps))) fs []) =
   document_as dt (map (\<lambda>(k, f). (k, f dt (k \<in> array_operators))) fs)"
proof (cases dt)
  case AsM
  have "fold (\<lambda>(k, f). put AsM k (f AsM (k \<in> arrayOps))) fs m =
      fold (\<lambda>(k, v). map_set k v) (map (\<lambda>(k, f). (k, f AsM (k \<in> arrayOps))) fs) m" for m
    by (induction fs arbitrary: m) auto
  then show ?thesis using AsM by (simp add: fold_map_set array_operators_eq)
next
  case AsD
  have "fold (\<lambda>(k, f). put AsD k (f AsD (k \<in> arrayOps))) fs m = m @ map (\<lambda>(k, f). (k, f AsD (k \<in> arrayOps))) fs" for m
    by (induction fs arbitrary: m) auto
  then show ?thesis using AsD by (simp add: array_operators_eq)
qed

text \<open>Options of ASCII letters are sorted as bytes.\<close>

lemma runes_ascii: "\<forall>c \<in> set s. c < 0x80 \<Longrightarrow> runes_of s = map unat s"
  by (induction s) (simp_all add: runes_of.simps decode_rune_def)

lemma encode_ascii: "c < 0x80 \<Longrightarrow> encode_rune (unat c) = [c]" for c :: byte
  by (simp add: encode_rune_def word_less_nat_alt)

lemma sorted_options_ascii:
  assumes "\<forall>c \<in> set s. c < 0x80" shows "sorted_options s = sort s"
proof -
  have "insort (unat x) (map unat ys) = map unat (insort x ys)" for x :: byte and ys
    by (induction ys) (auto simp: word_le_nat_alt)
  then have "sort (map unat s) = map unat (sort s)" by (induction s) simp_all
  moreover have "concat (map encode_rune (map unat xs)) = xs" if "\<forall>c \<in> set xs. c < 0x80" for xs :: bytes
    using that by (induction xs) (simp_all add: encode_ascii)
  ultimately show ?thesis using assms by (simp add: sorted_options_def runes_ascii)
qed

subsection \<open>Values without elements\<close>

lemma scast_fits:
  fixes i :: "64 word"
  assumes "fits_int32 i" shows "scast (ucast i :: 32 word) = i"
proof -
  have "signed_take_bit 31 (sint i) = sint i"
    using assms by (intro signed_take_bit_int_eq_self) (auto simp: fits_int32_def)
  then have "sint (ucast i :: 32 word) = sint i"
    by (simp add: sint_uint unsigned_ucast_eq signed_take_bit_take_bit)
  then have "scast (ucast i :: 32 word) = (word_of_int (sint i) :: 64 word)" by (simp only: scast_eq)
  then show ?thesis by simp
qed


text \<open>What an element is read back as, wherever its value stands.\<close>

definition reads_back :: "byte \<Rightarrow> bytes \<Rightarrow> go_value \<Rightarrow> bool" where
  "reads_back kind body v \<longleftrightarrow>
     (\<forall>b i. holds b i body \<longrightarrow> read_leaf b kind i = Some (Inr (v, i + length body)))"

lemma read_leaf_int32:
  "holds b i (enc_int32 w) \<Longrightarrow> read_leaf b ElementInt32 i = Some (Inr (GInt (scast w), i + 4))"
  by (simp add: read_leaf_def element_kinds readInt32_at)

lemma read_leaf_int64:
  "holds b i (enc_int64 w) \<Longrightarrow> read_leaf b ElementInt64 i = Some (Inr (GInt64 w, i + 8))"
  by (simp add: read_leaf_def element_kinds readInt64_at)

lemma enc_int_reads:
  "\<exists>kind body. enc_int small name i = addElemName kind name @ body \<and> kind \<noteq> 0 \<and>
     reads_back kind body (if small \<and> fits_int32 i then GInt i else GInt64 i)"
proof (cases "small \<and> fits_int32 i")
  case True
  then show ?thesis
    by (intro exI [of _ ElementInt32] exI [of _ "enc_int32 (ucast i)"])
      (simp add: enc_int_def reads_back_def read_leaf_int32 scast_fits ElementInt32_def [symmetric], simp add: ElementInt32_def)
next
  case False
  then show ?thesis
    by (intro exI [of _ ElementInt64] exI [of _ "enc_int64 i"])
      (auto simp: enc_int_def reads_back_def read_leaf_int64, simp_all add: ElementInt64_def)
qed

lemma small_uint_fits: "0 \<le> sint u \<Longrightarrow> uint u \<le> 2 ^ 31 - 1 \<Longrightarrow> fits_int32 u" for u :: "64 word"
proof -
  assume "0 \<le> sint u" "uint u \<le> 2 ^ 31 - 1"
  moreover from \<open>uint u \<le> 2 ^ 31 - 1\<close> have "sint u = uint u"
    unfolding sint_uint
    by (intro signed_take_bit_int_eq_self) (auto intro: order_trans [OF _ uint_ge_0])
  moreover have "0 \<le> uint u" by simp
  ultimately have "- (2 ^ 31) \<le> uint u" by linarith
  with \<open>sint u = uint u\<close> \<open>uint u \<le> 2 ^ 31 - 1\<close> show ?thesis by (simp only: fits_int32_def)
qed

lemma enc_uint_reads:
  assumes "enc_uint small name u = Inr out"
  shows "\<exists>kind body. out = addElemName kind name @ body \<and> kind \<noteq> 0 \<and>
     reads_back kind body (if small \<and> uint u \<le> 2 ^ 31 - 1 then GInt u else GInt64 u)"
proof (cases "uint u \<le> 2 ^ 31 - 1 \<and> small")
  case True
  moreover have "0 \<le> sint u" using assms by (simp add: enc_uint_def not_less split: if_splits)
  ultimately have "fits_int32 u" using small_uint_fits by simp
  with True assms show ?thesis
    by (intro exI [of _ ElementInt32] exI [of _ "enc_int32 (ucast u)"])
      (auto simp: enc_uint_def reads_back_def read_leaf_int32 scast_fits split: if_splits, simp_all add: ElementInt32_def)
next
  case False
  with assms show ?thesis
    by (intro exI [of _ ElementInt64] exI [of _ "enc_int64 u"])
      (auto simp: enc_uint_def reads_back_def read_leaf_int64 split: if_splits, simp_all add: ElementInt64_def)
qed

lemma date_of_ms:
  assumes "0 \<le> nsec" "nsec < 10 ^ 9"
  shows "date_of (sec * 1000 + nsec div 1000000) = GTime sec (nsec div 1000000 * 1000000)"
proof -
  define m where "m = nsec div 1000000"
  have m: "0 \<le> m" "m < 1000" using assms by (auto simp: m_def)
  let ?i = "sec * 1000 + m"
  have zero: "?i = - 62135596800000 \<longleftrightarrow> sec = - 62135596800 \<and> m = 0"
  proof
    assume i: "?i = - 62135596800000"
    moreover have "?i mod 1000 = m" using m by simp
    ultimately have "m = 0" by simp
    with i show "sec = - 62135596800 \<and> m = 0" by simp
  qed simp
  let ?q = "trunc_div ?i 1000" and ?r = "trunc_rem ?i 1000"
  have "(?q = sec \<and> ?r = m) \<or> (?q = sec + 1 \<and> ?r = m - 1000)"
  proof (cases "0 \<le> ?i")
    case True
    then show ?thesis using m by (simp add: trunc_rem_def)
  next
    case False
    then have q: "?q = - ((- ?i) div 1000)" by (simp add: trunc_div_def)
    show ?thesis
    proof (cases "m = 0")
      case True
      then have "?q = sec" using q by simp
      then show ?thesis by (simp add: trunc_rem_def)
    next
      case False
      have "- ?i = (1000 - m) + (- sec - 1) * 1000" by simp
      then have "(- ?i) div 1000 = (- sec - 1) + (1000 - m) div 1000" by (simp only: div_mult_self1)
      moreover have "(1000 - m) div 1000 = 0" using m False by simp
      ultimately have "(- ?i) div 1000 = - sec - 1" by simp
      then show ?thesis by (simp add: q trunc_rem_def)
    qed
  qed
  moreover have "sec + (m * 1000000) div 10 ^ 9 = sec" "(m * 1000000) mod 10 ^ 9 = m * 1000000" using m by auto
  moreover have "sec + 1 + ((m - 1000) * 1000000) div 10 ^ 9 = sec" "((m - 1000) * 1000000) mod 10 ^ 9 = m * 1000000"
    if "?r = m - 1000"
  proof -
    have eq: "(m - 1000) * 1000000 = m * 1000000 + - 1 * 10 ^ 9" by simp
    have "((m - 1000) * 1000000) div 10 ^ 9 = - 1 + (m * 1000000) div 10 ^ 9"
      "((m - 1000) * 1000000) mod 10 ^ 9 = (m * 1000000) mod 10 ^ 9"
      unfolding eq using div_mult_self1 [of "10 ^ 9 :: int" "m * 1000000" "- 1"]
      by (simp_all only: mod_mult_self1) simp
    moreover have "(m * 1000000) div 10 ^ 9 = 0" "(m * 1000000) mod 10 ^ 9 = m * 1000000" using m by simp_all
    ultimately have "((m - 1000) * 1000000) div 10 ^ 9 = - 1" "((m - 1000) * 1000000) mod 10 ^ 9 = m * 1000000"
      by simp_all
    then show "sec + 1 + ((m - 1000) * 1000000) div 10 ^ 9 = sec" "((m - 1000) * 1000000) mod 10 ^ 9 = m * 1000000"
      by simp_all
  qed
  ultimately have "unix_time ?q (?r * 1000000) = GTime sec (m * 1000000)"
    by (auto simp: unix_time_def)
  then show ?thesis using zero m_def by (auto simp: date_of_def)
qed


text \<open>An element is its kind, its name and a body, which is read back as \<open>v\<close> by a reader with enough fuel.\<close>

definition elem_reads :: "byte \<Rightarrow> bytes \<Rightarrow> (doc_type \<Rightarrow> go_value) \<Rightarrow> bool" where
  "elem_reads kind body v \<longleftrightarrow>
     (\<forall>b i n dt. holds b i body \<longrightarrow> length body + 1 < n \<longrightarrow>
        readElemTo n dt b kind i = Some (Inr (v dt, i + length body)))"

definition stored_as :: "bytes \<Rightarrow> bytes \<Rightarrow> (doc_type \<Rightarrow> go_value) \<Rightarrow> bool" where
  "stored_as name out v \<longleftrightarrow>
     (\<exists>kind body. out = addElemName kind name @ body \<and> kind \<noteq> 0 \<and> elem_reads kind body v)"

lemma reads_back_elem: "reads_back kind body v \<Longrightarrow> elem_reads kind body (\<lambda>dt. v)"
  unfolding elem_reads_def reads_back_def
proof (intro allI impI)
  fix b i n and dt :: doc_type
  assume "\<forall>b i. holds b i body \<longrightarrow> read_leaf b kind i = Some (Inr (v, i + length body))"
    and "holds b i body" "length body + 1 < n"
  then show "readElemTo n dt b kind i = Some (Inr (v, i + length body))"
    by (cases n) (simp_all add: readElemTo.simps)
qed

lemma stored_leaf:
  "reads_back kind body v \<Longrightarrow> kind \<noteq> 0 \<Longrightarrow> stored_as name (addElemName kind name @ body) (\<lambda>dt. v)"
  unfolding stored_as_def by (intro exI [of _ kind] exI [of _ body]) (simp add: reads_back_elem)

lemma stored_int: "stored_as name (enc_int small name i) (\<lambda>dt. if small \<and> fits_int32 i then GInt i else GInt64 i)"
  using enc_int_reads [of small name i] stored_leaf by metis

lemma stored_uint:
  "enc_uint small name u = Inr out \<Longrightarrow>
   stored_as name out (\<lambda>dt. if small \<and> uint u \<le> 2 ^ 31 - 1 then GInt u else GInt64 u)"
  using enc_uint_reads [of small name u out] stored_leaf by metis

lemma reads_back_str:
  "length (addStr s) < 2 ^ 31 \<Longrightarrow> reads_back ElementString (addStr s) (GString s)"
  "length (addStr s) < 2 ^ 31 \<Longrightarrow> reads_back ElementSymbol (addStr s) (GSymbol s)"
  "length (addStr s) < 2 ^ 31 \<Longrightarrow> reads_back ElementJavaScriptWithoutScope (addStr s) (GJavaScript s GNil)"
  by (simp_all add: reads_back_def read_leaf_def element_kinds readStr_at)

lemma reads_back_word:
  "reads_back ElementFloat64 (enc_int64 w) (GFloat w)" "reads_back ElementTimestamp (enc_int64 w) (GTimestamp w)"
  "reads_back ElementInt64 (enc_int64 w) (GInt64 w)" "reads_back ElementDatetime (enc_int64 w) (date_of (sint w))"
  "reads_back ElementNil [] GNil" "reads_back ElementMinKey [] GMinKey" "reads_back ElementMaxKey [] GMaxKey"
  "reads_back Element06 [] GUndefined"
  by (simp_all add: reads_back_def read_leaf_def element_kinds readInt64_at)

lemma reads_back_bool: "reads_back ElementBool [if v then 1 else 0] (GBool v)"
  by (simp add: reads_back_def read_leaf_def element_kinds read_bool_def readByte_at)

lemma reads_back_id: "length s = 12 \<Longrightarrow> reads_back ElementObjectId s (GObjectId s)"
  using readBytes_at [of _ _ s 12] by (simp add: reads_back_def read_leaf_def element_kinds)

lemma reads_back_binary:
  "length (addBinary kind v) < 2 ^ 31 \<Longrightarrow> kind \<noteq> 2 \<or> v \<noteq> [] \<Longrightarrow>
   reads_back ElementBinary (addBinary kind v) (if kind = BinaryGeneric \<or> kind = BinaryBinaryOld then GBytes v else GBinary kind v)"
  by (simp add: reads_back_def read_leaf_def element_kinds readBinary_at)

lemma reads_back_decimal: "reads_back ElementDecimal128 (enc_int64 l @ enc_int64 h) (GDecimal h l)"
  by (auto simp: reads_back_def read_leaf_def element_kinds readInt64_at dest!: holds_append)

lemma reads_back_pointer:
  "length (addStr ns) < 2 ^ 31 \<Longrightarrow> length oid = 12 \<Longrightarrow> reads_back ElementDBPointer (addStr ns @ oid) (GDBPointer ns oid)"
  using readBytes_at [of _ _ oid 12]
  by (auto simp: reads_back_def read_leaf_def element_kinds readStr_at dest!: holds_append)

lemma reads_back_regex:
  "0 \<notin> set p \<Longrightarrow> 0 \<notin> set q \<Longrightarrow> reads_back ElementRegEx (addCStr p @ addCStr q) (GRegEx p q)"
  by (auto simp: reads_back_def read_leaf_def element_kinds readRegEx_def readCStr_at addCStr_def [symmetric]
      dest!: holds_append) (simp add: addCStr_def readCStr_at [unfolded addCStr_def])

definition has_elements :: "bytes \<Rightarrow> go_value \<Rightarrow> bool" where
  "has_elements name v =
     (case v of
        GMap _ \<Rightarrow> True | GD _ \<Rightarrow> True | GSlice _ \<Rightarrow> True | GJavaScript _ _ \<Rightarrow> True
      | GBytes _ \<Rightarrow> name \<in> arrayOps | _ \<Rightarrow> False)"

lemma sint_word_of_int:
  assumes "- (2 ^ 63) \<le> x" "x < 2 ^ 63" shows "sint (word_of_int x :: 64 word) = x"
proof -
  have "sint (word_of_int x :: 64 word) = signed_take_bit 63 x"
    by (simp add: sint_uint uint_word_of_int_eq signed_take_bit_take_bit)
  then show ?thesis using assms by (simp only: signed_take_bit_int_eq_self)
qed

lemmas stored_numbers =
  stored_int [of _ True, simplified] stored_int [of _ False, simplified]
  stored_uint [of True, simplified] stored_uint [of False, simplified]

lemmas leaves_read_back =
  reads_back_str reads_back_word reads_back_bool reads_back_id reads_back_binary reads_back_decimal
  reads_back_pointer reads_back_regex

lemma stored_empty: "reads_back kind [] v \<Longrightarrow> kind \<noteq> 0 \<Longrightarrow> stored_as name (addElemName kind name) (\<lambda>dt. v)"
  using stored_leaf [of kind "[]" v name] by simp

lemma kinds_not_zero [simp]:
  "ElementFloat64 \<noteq> 0" "ElementString \<noteq> 0" "ElementDocument \<noteq> 0" "ElementArray \<noteq> 0" "ElementBinary \<noteq> 0"
  "Element06 \<noteq> 0" "ElementObjectId \<noteq> 0" "ElementBool \<noteq> 0" "ElementDatetime \<noteq> 0" "ElementNil \<noteq> 0"
  "ElementRegEx \<noteq> 0" "ElementDBPointer \<noteq> 0" "ElementJavaScriptWithoutScope \<noteq> 0" "ElementSymbol \<noteq> 0"
  "ElementJavaScriptWithScope \<noteq> 0" "ElementInt32 \<noteq> 0" "ElementTimestamp \<noteq> 0" "ElementInt64 \<noteq> 0"
  "ElementDecimal128 \<noteq> 0" "ElementMinKey \<noteq> 0" "ElementMaxKey \<noteq> 0"
  by (simp_all add: element_kinds)

lemma stored_time:
  assumes "storable (GTime sec nsec)" "enc_leaf False name (GTime sec nsec) = Inr out"
  shows "stored_as name out (\<lambda>dt. decoded (GTime sec nsec) dt op)"
proof -
  have r: "0 \<le> nsec" "nsec < 10 ^ 9" "- (2 ^ 63) \<le> sec * 1000" "sec * 1000 + 999 < 2 ^ 63"
    using assms(1) by simp_all
  define ms where "ms = sec * 1000 + nsec div 1000000"
  have "0 \<le> nsec div 1000000" "nsec div 1000000 \<le> 999" using r(1,2) by auto
  then have "- (2 ^ 63) \<le> ms" "ms < 2 ^ 63" using r(3,4) by (auto simp: ms_def)
  then have s: "sint (word_of_int ms :: 64 word) = ms" by (rule sint_word_of_int)
  have "trunc_div nsec 1000000 = nsec div 1000000" using r(1) by (simp add: trunc_div_nonneg)
  then have "enc_leaf False name (GTime sec nsec) = Inr (addElemName ElementDatetime name @ enc_int64 (word_of_int ms))"
    by (simp only: enc_leaf.simps ms_def)
  then have out: "out = addElemName ElementDatetime name @ enc_int64 (word_of_int ms)" using assms(2) by simp
  have v: "date_of ms = GTime sec (nsec div 1000000 * 1000000)" unfolding ms_def by (rule date_of_ms [OF r(1,2)])
  have "reads_back ElementDatetime (enc_int64 (word_of_int ms)) (date_of (sint (word_of_int ms :: 64 word)))"
    by (rule reads_back_word(4))
  then have "stored_as name out (\<lambda>dt. date_of ms)" unfolding out s by (rule stored_leaf) simp
  then show ?thesis by (simp add: v)
qed

lemma stored_enc_leaf:
  assumes "enc_leaf False name v = Inr out" "storable v" "length out < 2 ^ 31" "\<not> has_elements name v"
  shows "stored_as name out (\<lambda>dt. decoded v dt (name \<in> arrayOps))"
proof (cases v)
  case (GTime sec nsec)
  then show ?thesis using stored_time assms(1,2) by simp
next
  case (GBinary kind data)
  have "stored_as name (addElemName ElementBinary name @ addBinary kind data)
    (\<lambda>dt. if kind = BinaryGeneric \<or> kind = BinaryBinaryOld then GBytes data else GBinary kind data)"
    using assms GBinary by (intro stored_leaf reads_back_binary) auto
  then show ?thesis using assms(1) GBinary by (simp add: BinaryGeneric_def BinaryBinaryOld_def)
next
  case (GBytes data)
  have "stored_as name (addElemName ElementBinary name @ addBinary 0 data)
    (\<lambda>dt. if (0 :: byte) = BinaryGeneric \<or> (0 :: byte) = BinaryBinaryOld then GBytes data else GBinary 0 data)"
    using assms GBytes by (intro stored_leaf reads_back_binary) (auto simp: has_elements_def)
  then show ?thesis using assms GBytes by (simp add: BinaryGeneric_def has_elements_def)
next
  case (GDuration w)
  then show ?thesis using assms(1) by (auto intro!: stored_leaf reads_back_word)
next
  case (GUint u)
  then show ?thesis using assms(1) stored_numbers(3) [of name u out] by simp
next
  case (GInt i)
  then show ?thesis using assms(1) stored_numbers(1) [of name i] by (auto simp: fits_int32_def)
next
  case (GRegEx pattern options)
  then have "0 \<notin> set (sort options)" "0 \<notin> set pattern" "sorted_options options = sort options"
    using assms(2) by (auto simp: sorted_options_ascii)
  then show ?thesis using GRegEx assms(1) by (auto intro!: stored_leaf reads_back_regex)
next
  case (GBool v)
  then show ?thesis
    using assms(1) stored_leaf [OF reads_back_bool [of v], of name] by auto
qed (use assms in \<open>auto simp: has_elements_def id_length_def go_bind_eq_Inr simp del: append.simps
    intro!: stored_leaf stored_empty leaves_read_back stored_numbers split: if_splits\<close>)

end
