(* ===== verification/BsonDocuments.thy ===== *)
theory BsonDocuments
  imports BsonRoundTrip
begin

text \<open>
  Documents and arrays are read back: every value that \<open>storable\<close> admits comes out of \<open>Unmarshal\<close> as
  \<open>decoded\<close> describes it.
\<close>

subsection \<open>Names\<close>

lemma set_index_name: "c \<in> set (index_name i) \<Longrightarrow> 48 \<le> c \<and> c \<le> 57"
proof -
  assume "c \<in> set (index_name i)"
  then obtain d where d: "is_digit d" "c = word_of_nat (of_char d)"
    by (auto simp: index_name_def strconv_Itoa_def bytes_of_string_def dest: decimal_digits)
  then have "48 \<le> unat c \<and> unat c \<le> 57" by (simp add: is_digit_def unat_of_nat)
  then show ?thesis by (simp add: word_le_nat_alt)
qed

lemma index_name_no_zero: "0 \<notin> set (index_name i)"
  using set_index_name [of 0 i] by auto

lemma index_name_plain: "index_name i \<notin> arrayOps"
  using set_index_name [of 36 i] by (auto simp: arrayOps_def bytes_of_string_def)

subsection \<open>Elements in a row\<close>

text \<open>The bytes of an element with its name and the value that it is read back as.\<close>

definition chunk :: "bytes \<Rightarrow> bytes \<times> (doc_type \<Rightarrow> go_value) \<Rightarrow> bool" where
  "chunk c e \<longleftrightarrow> 0 \<notin> set (fst e) \<and> stored_as (fst e) c (snd e)"

lemma chunk_cases:
  assumes "chunk c (name, v)" "holds b i (c @ rest)"
  obtains kind body where "c = addElemName kind name @ body" "kind \<noteq> 0" "elem_reads kind body v"
    and "go_at b i = Inr kind" "readByte b i = Inr (kind, i + 1)" "holds b (i + 1) (name @ [0])"
    and "holds b (i + length name + 2) body" "holds b (i + length c) rest" "0 \<notin> set name"
proof -
  obtain kind body where k: "c = addElemName kind name @ body" "kind \<noteq> 0" "elem_reads kind body v" "0 \<notin> set name"
    using assms(1) by (auto simp: chunk_def stored_as_def)
  have h: "holds b i (kind # (name @ [0]) @ body @ rest)" using assms(2) k(1) by (simp add: addElemName_def)
  have "holds b i ([kind] @ (name @ [0]) @ body @ rest)" using h by simp
  from holds_append [OF this] have h1: "holds b (i + 1) ((name @ [0]) @ body @ rest)" by simp
  from holds_append [OF this] have h2: "holds b (i + 1) (name @ [0])" "holds b (i + length name + 2) (body @ rest)"
    by (simp_all add: add.commute add.left_commute)
  have "go_at b i = Inr kind" using holds_nth [OF h] by (simp add: go_at_def)
  moreover have "holds b (i + length c) rest" using holds_append [OF assms(2)] by simp
  moreover have "holds b (i + length name + 2) body" using holds_append [OF h2(2)] by simp
  ultimately show thesis using that k readByte_at [OF h] h2(1) by blast
qed

lemma reads_elements:
  assumes "list_all2 chunk cs es" "holds b i (concat cs @ [0])" "length (concat cs) + 1 < n"
  shows "read_elems n dt b (i + length (concat cs) + 1) d i =
    Some (Inr (fold (\<lambda>(k, f). put dt k (f dt)) es d, i + length (concat cs) + 1))"
  using assms
proof (induction arbitrary: i n d rule: list_all2_induct)
  case Nil
  then obtain m where "n = Suc m" by (cases n) auto
  then show ?case using holds_nth [of b i 0 "[]"] Nil by (simp add: read_elems.simps go_at_def doc_closed_def)
next
  case (Cons c cs e es)
  obtain name v where e: "e = (name, v)" by (cases e)
  obtain m where n: "n = Suc m" using Cons.prems by (cases n) auto
  have "holds b i (c @ concat cs @ [0])" using Cons.prems(1) by simp
  from chunk_cases [OF Cons.hyps(1) [unfolded e] this] obtain kind body where
    k: "c = addElemName kind name @ body" "kind \<noteq> 0" "elem_reads kind body v"
       "go_at b i = Inr kind" "readByte b i = Inr (kind, i + 1)" "holds b (i + 1) (name @ [0])"
       "holds b (i + length name + 2) body" "holds b (i + length c) (concat cs @ [0])" "0 \<notin> set name"
    by blast
  have len: "length c = length name + 2 + length body" using k(1) by (simp add: addElemName_def)
  have name: "readCStr b (i + 1) = Inr (name, i + length name + 2)"
    using readCStr_at [of b "i + 1" name] k(6,9) by (simp add: addCStr_def)
  have "readElemTo m dt b kind (i + length name + 2) = Some (Inr (v dt, i + length c))"
    using k(3,7) Cons.prems(2) n len by (simp add: elem_reads_def)
  moreover have "read_elems m dt b (i + length c + length (concat cs) + 1) (put dt name (v dt) d) (i + length c) =
    Some (Inr (fold (\<lambda>(k, f). put dt k (f dt)) es (put dt name (v dt) d), i + length c + length (concat cs) + 1))"
    using Cons.prems(2) n len by (intro Cons.IH k(8)) simp
  ultimately show ?case using k(2,4,5) name len by (simp add: n e read_elems.simps add.assoc)
qed

lemma skip_name_at:
  assumes "holds b i (name @ [0])" "0 \<notin> set name" "i + length name < lim"
  shows "skip_name b lim i = Inr (i + length name + 1)"
proof -
  obtain r where r: "drop i b = name @ 0 # r" using assms(1) by (auto simp: holds_def)
  obtain k where k: "lim - i = length name + Suc k"
    using assms(3) by (metis add.commute add_Suc_right less_diff_conv less_imp_Suc_add)
  then have "takeWhile (\<lambda>c. c \<noteq> 0) (take (lim - i) (drop i b)) = takeWhile (\<lambda>c. c \<noteq> 0) (name @ 0 # take k r)"
    by (simp add: r)
  also have "\<dots> = name @ takeWhile (\<lambda>c. c \<noteq> 0) (0 # take k r)"
    using assms(2) by (intro takeWhile_append2) auto
  finally show ?thesis using assms(3) by (simp add: skip_name_def)
qed

lemma reads_items:
  assumes "list_all2 chunk cs es" "holds b i (concat cs @ [0])" "length (concat cs) + 1 < n"
  shows "read_items n dt b (i + length (concat cs) + 1) xs i =
    Some (Inr (xs @ map (\<lambda>e. snd e dt) es, i + length (concat cs) + 1))"
  using assms
proof (induction arbitrary: i n xs rule: list_all2_induct)
  case Nil
  then obtain m where "n = Suc m" by (cases n) auto
  then show ?case using holds_nth [of b i 0 "[]"] Nil by (simp add: read_items.simps go_at_def doc_closed_def)
next
  case (Cons c cs e es)
  obtain name v where e: "e = (name, v)" by (cases e)
  obtain m where n: "n = Suc m" using Cons.prems by (cases n) auto
  have "holds b i (c @ concat cs @ [0])" using Cons.prems(1) by simp
  from chunk_cases [OF Cons.hyps(1) [unfolded e] this] obtain kind body where
    k: "c = addElemName kind name @ body" "kind \<noteq> 0" "elem_reads kind body v"
       "go_at b i = Inr kind" "readByte b i = Inr (kind, i + 1)" "holds b (i + 1) (name @ [0])"
       "holds b (i + length name + 2) body" "holds b (i + length c) (concat cs @ [0])" "0 \<notin> set name"
    by blast
  have len: "length c = length name + 2 + length body" using k(1) by (simp add: addElemName_def)
  have name: "skip_name b (i + length c + length (concat cs) + 1) (i + 1) = Inr (i + length name + 2)"
    using skip_name_at [OF k(6,9), of "i + length c + length (concat cs) + 1"] len by simp
  have "readElemTo m dt b kind (i + length name + 2) = Some (Inr (v dt, i + length c))"
    using k(3,7) Cons.prems(2) n len by (simp add: elem_reads_def)
  moreover have "read_items m dt b (i + length c + length (concat cs) + 1) (xs @ [v dt]) (i + length c) =
    Some (Inr ((xs @ [v dt]) @ map (\<lambda>e. snd e dt) es, i + length c + length (concat cs) + 1))"
    using Cons.prems(2) n len by (intro Cons.IH k(8)) simp
  ultimately show ?case using k(2,4,5) name len by (simp add: n e read_items.simps add.assoc)
qed

subsection \<open>Documents\<close>

lemma wrap_doc_Inr: "wrap_doc m = Inr out \<longleftrightarrow> (\<exists>c. m = Inr c \<and> out = len32 (length c + 5) @ c @ [0])"
  by (auto simp: wrap_doc_def go_bind_eq_Inr)

lemma doc_end_at:
  assumes "holds b i (len32 (length c + 5) @ c @ [0])" "length c + 5 < 2 ^ 31"
  shows "doc_end b i = Inr (i + 4 + length c + 1, i + 4)" "holds b (i + 4) (c @ [0])"
proof -
  show h: "holds b (i + 4) (c @ [0])" using holds_append [OF assms(1)] by simp
  have "readInt32 b i = Inr (word_of_nat (length c + 5), i + 4)"
    using holds_append [OF assms(1)] by (intro readInt32_at) simp
  moreover have "sint (word_of_nat (length c + 5) :: 32 word) = int (length c + 5)"
    using assms(2) by (intro sint_length) simp
  moreover have "holds b (i + 4 + length c) [0]" using holds_append [OF h] by simp
  then have "b ! (4 + (i + length c)) = 0" "4 + (i + length c) < length b"
    using holds_nth by (fastforce simp: ac_simps)+
  moreover have "int (length c + 5) + int (i + 4) - 4 = int (i + 4 + length c + 1)" by simp
  ultimately show "doc_end b i = Inr (i + 4 + length c + 1, i + 4)"
    by (simp only: doc_end_def Let_def go_bind_simps prod.case nat_int) (simp add: go_at_def)
qed

lemma document_reads:
  assumes "list_all2 chunk cs es" "length (concat cs) + 5 < 2 ^ 31"
    and "holds b i (len32 (length (concat cs) + 5) @ concat cs @ [0])" "length (concat cs) + 2 < n"
  shows "read_doc n dt b i =
    Some (Inr (doc_of dt (fold (\<lambda>(k, f). put dt k (f dt)) es []), i + length (concat cs) + 5))"
proof -
  obtain m where n: "n = Suc m" using assms(4) by (cases n) auto
  from doc_end_at [OF assms(3,2)] reads_elements [OF assms(1), of b "i + 4" m dt "[]"] assms(4) n
  show ?thesis by (simp add: read_doc.simps add.commute add.left_commute)
qed

lemma stored_document:
  assumes "list_all2 chunk cs es" "length (concat cs) + 5 < 2 ^ 31"
  shows "stored_as name (addElemName ElementDocument name @ len32 (length (concat cs) + 5) @ concat cs @ [0])
    (\<lambda>dt. doc_of dt (fold (\<lambda>(k, f). put dt k (f dt)) es []))"
  unfolding stored_as_def elem_reads_def
proof (intro exI [of _ ElementDocument] exI [of _ "len32 (length (concat cs) + 5) @ concat cs @ [0]"] conjI allI impI)
  fix b i n and dt :: doc_type
  let ?body = "len32 (length (concat cs) + 5) @ concat cs @ [0]"
  assume h: "holds b i ?body" "length ?body + 1 < n"
  obtain m where n: "n = Suc m" using h(2) by (cases n) auto
  have "read_doc m dt b i =
    Some (Inr (doc_of dt (fold (\<lambda>(k, f). put dt k (f dt)) es []), i + length (concat cs) + 5))"
    using h n by (intro document_reads assms) simp_all
  then show "readElemTo n dt b ElementDocument i =
    Some (Inr (doc_of dt (fold (\<lambda>(k, f). put dt k (f dt)) es []), i + length ?body))"
    by (simp add: n readElemTo.simps read_leaf_def element_kinds)
qed simp_all

lemma stored_array:
  assumes "list_all2 chunk cs es" "length (concat cs) + 5 < 2 ^ 31"
  shows "stored_as name (addElemName ElementArray name @ len32 (length (concat cs) + 5) @ concat cs @ [0])
    (\<lambda>dt. GSlice (map (\<lambda>e. snd e dt) es))"
  unfolding stored_as_def elem_reads_def
proof (intro exI [of _ ElementArray] exI [of _ "len32 (length (concat cs) + 5) @ concat cs @ [0]"] conjI allI impI)
  fix b i n and dt :: doc_type
  let ?body = "len32 (length (concat cs) + 5) @ concat cs @ [0]"
  assume h: "holds b i ?body" "length ?body + 1 < n"
  obtain m where n: "n = Suc m" using h(2) by (cases n) auto
  have "length (concat cs) + 1 < m" using h(2) n by simp
  from reads_items [OF assms(1) doc_end_at(2) [OF h(1) assms(2)] this, of dt "[]"]
  have items: "read_items m dt b (i + 4 + length (concat cs) + 1) [] (i + 4) =
    Some (Inr (map (\<lambda>e. snd e dt) es, i + 4 + length (concat cs) + 1))" by simp
  have len: "i + length ?body = i + 4 + length (concat cs) + 1" by simp
  show "readElemTo n dt b ElementArray i = Some (Inr (GSlice (map (\<lambda>e. snd e dt) es), i + length ?body))"
    unfolding len using doc_end_at(1) [OF h(1) assms(2)] items
    by (simp only: n readElemTo.simps) (simp add: read_leaf_def element_kinds)
qed simp_all

subsection \<open>What the encoder writes\<close>

definition round_trips :: "go_value \<Rightarrow> bool" where
  "round_trips v \<longleftrightarrow>
     (\<forall>name out. addElem False name v = Inr out \<longrightarrow> storable v \<longrightarrow> length out < 2 ^ 31 \<longrightarrow>
        stored_as name out (\<lambda>dt. decoded v dt (name \<in> arrayOps)))"

definition pairs_of :: "(bytes \<times> go_value) list \<Rightarrow> (bytes \<times> (doc_type \<Rightarrow> go_value)) list" where
  "pairs_of d = map (\<lambda>(k, v). (k, \<lambda>dt. decoded v dt (k \<in> arrayOps))) d"

definition items_of :: "nat \<Rightarrow> go_value list \<Rightarrow> (bytes \<times> (doc_type \<Rightarrow> go_value)) list" where
  "items_of i xs = map (\<lambda>(j, v). (index_name j, \<lambda>dt. decoded v dt False)) (enumerate i xs)"

lemma addElems_chunks:
  assumes "addElems d = Inr c" "\<And>k v. (k, v) \<in> set d \<Longrightarrow> round_trips v \<and> 0 \<notin> set k \<and> storable v" "length c < 2 ^ 31"
  shows "\<exists>cs. c = concat cs \<and> list_all2 chunk cs (pairs_of d)"
  using assms
proof (induction d arbitrary: c)
  case (Cons p d)
  obtain k v where p: "p = (k, v)" by (cases p)
  from Cons.prems(1) p obtain a c' where a: "addElem False k v = Inr a" "addElems d = Inr c'" "c = a @ c'"
    by (auto simp: go_bind_eq_Inr)
  obtain cs where cs: "c' = concat cs" "list_all2 chunk cs (pairs_of d)"
    using Cons.IH [OF a(2)] Cons.prems a(3) by fastforce
  have "round_trips v \<and> 0 \<notin> set k \<and> storable v" using Cons.prems(2) [of k v] p by simp
  then have "chunk a (k, \<lambda>dt. decoded v dt (k \<in> arrayOps))"
    using a Cons.prems(3) by (auto simp: chunk_def round_trips_def)
  with cs a(3) p show ?case by (intro exI [of _ "a # cs"]) (simp add: pairs_of_def)
qed (simp add: pairs_of_def)

lemma addItems_chunks:
  assumes "addItems i xs = Inr c" "\<And>v. v \<in> set xs \<Longrightarrow> round_trips v \<and> storable v" "length c < 2 ^ 31"
  shows "\<exists>cs. c = concat cs \<and> list_all2 chunk cs (items_of i xs)"
  using assms
proof (induction xs arbitrary: i c)
  case (Cons v xs)
  from Cons.prems(1) obtain a c' where a: "addElem False (index_name i) v = Inr a" "addItems (Suc i) xs = Inr c'" "c = a @ c'"
    by (auto simp: go_bind_eq_Inr)
  obtain cs where cs: "c' = concat cs" "list_all2 chunk cs (items_of (Suc i) xs)"
    using Cons.IH [OF a(2)] Cons.prems a(3) by fastforce
  have "round_trips v \<and> storable v" using Cons.prems(2) [of v] by simp
  then have "stored_as (index_name i) a (\<lambda>dt. decoded v dt (index_name i \<in> arrayOps))"
    using a Cons.prems(3) by (auto simp: round_trips_def)
  then have "chunk a (index_name i, \<lambda>dt. decoded v dt False)"
    by (simp add: chunk_def index_name_no_zero index_name_plain)
  with cs a(3) show ?case by (intro exI [of _ "a # cs"]) (simp add: items_of_def)
qed (simp add: items_of_def)

lemma byte_array_chunks:
  fixes v :: bytes
  shows "\<exists>cs. concat (map (\<lambda>(i, b). addElemName ElementInt32 (index_name i) @ enc_int32 (ucast b)) (enumerate k v)) = concat cs \<and>
     list_all2 chunk cs (map (\<lambda>(j, b). (index_name j, \<lambda>dt. GInt (ucast b))) (enumerate k v))"
proof (induction v arbitrary: k)
  case (Cons b v)
  obtain cs where cs:
    "concat (map (\<lambda>(i, b). addElemName ElementInt32 (index_name i) @ enc_int32 (ucast b)) (enumerate (Suc k) v)) = concat cs"
    "list_all2 chunk cs (map (\<lambda>(j, b). (index_name j, \<lambda>dt. GInt (ucast b))) (enumerate (Suc k) v))"
    using Cons.IH by blast
  have "scast (ucast b :: 32 word) = (ucast b :: 64 word)"
    by (rule bit_word_eqI) (auto simp: bit_simps min_def dest: bit_imp_le_length [where 'a = 8])
  then have "reads_back ElementInt32 (enc_int32 (ucast b)) (GInt (ucast b))"
    by (simp add: reads_back_def read_leaf_int32)
  then have "chunk (addElemName ElementInt32 (index_name k) @ enc_int32 (ucast b)) (index_name k, \<lambda>dt. GInt (ucast b))"
    using stored_leaf by (simp add: chunk_def index_name_no_zero)
  with cs show ?case
    by (intro exI [of _ "(addElemName ElementInt32 (index_name k) @ enc_int32 (ucast b)) # cs"]) simp
qed simp

lemma fold_pairs:
  "fold (\<lambda>(k, f). put dt k (f dt (k \<in> arrayOps))) (map (map_prod id decoded) d) m =
   fold (\<lambda>(k, f). put dt k (f dt)) (pairs_of d) m"
  by (induction d arbitrary: m) (auto simp: pairs_of_def)

lemma map_items: "map (\<lambda>e. snd e dt) (items_of i xs) = map (\<lambda>f. f dt False) (map decoded xs)"
  by (induction xs arbitrary: i) (auto simp: items_of_def)

subsection \<open>Every value is read back\<close>

lemma stored_elements:
  assumes "addElems d = Inr c" "list_all (\<lambda>(k, s). 0 \<notin> set k \<and> s) (map (map_prod id storable) d)"
    and "\<And>p v. p \<in> set d \<Longrightarrow> v \<in> Basic_BNFs.snds p \<Longrightarrow> round_trips v" "length c + 5 < 2 ^ 31"
  shows "stored_as name (addElemName ElementDocument name @ len32 (length c + 5) @ c @ [0])
    (\<lambda>dt. doc_of dt (fold (\<lambda>(k, f). put dt k (f dt (k \<in> arrayOps))) (map (map_prod id decoded) d) []))"
proof -
  have "round_trips v \<and> 0 \<notin> set k \<and> storable v" if "(k, v) \<in> set d" for k v
    using that assms(2) assms(3) [OF that, of v] by (auto simp: list_all_iff)
  then obtain cs where cs: "c = concat cs" "list_all2 chunk cs (pairs_of d)"
    using addElems_chunks [OF assms(1)] assms(4) by fastforce
  then show ?thesis using stored_document [OF cs(2), of name] assms(4) by (simp add: fold_pairs)
qed

lemma round_trips_document:
  assumes "\<And>p v. p \<in> set d \<Longrightarrow> v \<in> Basic_BNFs.snds p \<Longrightarrow> round_trips v"
  shows "round_trips (GMap d)" "round_trips (GD d)"
proof -
  have *: "stored_as name out
      (\<lambda>dt. doc_of dt (fold (\<lambda>(k, f). put dt k (f dt (k \<in> arrayOps))) (map (map_prod id decoded) d) []))"
    if out: "go_bind (wrap_doc (addElems d)) (\<lambda>b. Inr (addElemName ElementDocument name @ b)) = Inr out"
      and s: "list_all (\<lambda>(k, s). 0 \<notin> set k \<and> s) (map (map_prod id storable) d)" "length out < 2 ^ 31" for name out
  proof -
    from out obtain c where c: "addElems d = Inr c" "out = addElemName ElementDocument name @ len32 (length c + 5) @ c @ [0]"
      by (auto simp: go_bind_eq_Inr wrap_doc_Inr)
    have "length c + 5 < 2 ^ 31" using c(2) s(2) by simp
    then show ?thesis unfolding c(2) by (intro stored_elements c(1) s(1) assms)
  qed
  show "round_trips (GMap d)" "round_trips (GD d)"
    unfolding round_trips_def using * by (simp_all only: addElem.simps go_value.case storable.simps decoded.simps document_filled) blast+
qed

lemma round_trips_array:
  assumes "\<And>v. v \<in> set xs \<Longrightarrow> round_trips v"
  shows "round_trips (GSlice xs)"
  unfolding round_trips_def
proof (intro allI impI)
  fix name out assume out: "addElem False name (GSlice xs) = Inr out" and s: "storable (GSlice xs)" "length out < 2 ^ 31"
  from out obtain c where c: "addItems 0 xs = Inr c" "out = addElemName ElementArray name @ len32 (length c + 5) @ c @ [0]"
    by (auto simp: addElem.simps go_bind_eq_Inr wrap_doc_Inr)
  have len: "length c + 5 < 2 ^ 31" using c(2) s(2) by simp
  have "round_trips v \<and> storable v" if "v \<in> set xs" for v
    using that assms [OF that] s(1) by (auto simp: list_all_iff)
  then obtain cs where cs: "c = concat cs" "list_all2 chunk cs (items_of 0 xs)"
    using addItems_chunks [OF c(1)] len by fastforce
  show "stored_as name out (\<lambda>dt. decoded (GSlice xs) dt (name \<in> arrayOps))"
    using stored_array [OF cs(2), of name] len c(2) cs(1) by (simp add: map_items)
qed

lemma round_trips_bytes: "round_trips (GBytes v)"
  unfolding round_trips_def
proof (intro allI impI)
  fix name out assume out: "addElem False name (GBytes v) = Inr out" and s: "storable (GBytes v)" "length out < 2 ^ 31"
  show "stored_as name out (\<lambda>dt. decoded (GBytes v) dt (name \<in> arrayOps))"
  proof (cases "name \<in> arrayOps")
    case False
    then show ?thesis
      using out s by (intro stored_enc_leaf) (simp_all add: addElem.simps has_elements_def)
  next
    case True
    obtain cs where cs:
      "concat (map (\<lambda>(i, b). addElemName ElementInt32 (index_name i) @ enc_int32 (ucast b)) (enumerate 0 v)) = concat cs"
      "list_all2 chunk cs (map (\<lambda>(j, b). (index_name j, \<lambda>dt. GInt (ucast b))) (enumerate 0 v))"
      using byte_array_chunks by blast
    have "enc_byte_array v = Inr (len32 (length (concat cs) + 5) @ concat cs @ [0])"
      unfolding enc_byte_array_def cs(1) by (simp add: wrap_doc_def)
    then have o: "out = addElemName ElementArray name @ len32 (length (concat cs) + 5) @ concat cs @ [0]"
      using out True by (simp add: addElem.simps)
    then have "length (concat cs) + 5 < 2 ^ 31" using s(2) by simp
    from stored_array [OF cs(2) this, of name] o
    have "stored_as name out (\<lambda>dt. GSlice (map (\<lambda>e. snd e dt) (map (\<lambda>(j, b). (index_name j, \<lambda>dt. GInt (ucast b))) (enumerate 0 v))))"
      by simp
    moreover have "map (\<lambda>e. snd e dt) (map (\<lambda>(j, b). (index_name j, \<lambda>dt. GInt (ucast b))) (enumerate i v)) =
      map (\<lambda>x. GInt (ucast x)) v" for i and dt :: doc_type
      by (induction v arbitrary: i) auto
    ultimately show ?thesis using True by simp
  qed
qed

lemma round_trips_code:
  assumes "round_trips scope"
  shows "round_trips (GJavaScript code scope)"
  unfolding round_trips_def
proof (intro allI impI)
  fix name out
  assume out: "addElem False name (GJavaScript code scope) = Inr out"
    and s: "storable (GJavaScript code scope)" "length out < 2 ^ 31"
  show "stored_as name out (\<lambda>dt. decoded (GJavaScript code scope) dt (name \<in> arrayOps))"
  proof (cases "scope = GNil")
    case True
    have "out = addElemName ElementJavaScriptWithoutScope name @ addStr code" using out True by (simp add: addElem.simps)
    moreover from this have "length (addStr code) < 2 ^ 31" using s(2) by simp
    ultimately show ?thesis using True stored_leaf [OF reads_back_str(3) [of code], of name] by simp
  next
    case False
    then obtain d where d: "scope = GMap d \<or> scope = GD d" using s(1) by (auto split: go_value.splits)
    from out False obtain c where c: "addElems d = Inr c"
      "out = addElemName ElementJavaScriptWithScope name @ len32 (4 + length (addStr code) + (length c + 5)) @
         addStr code @ len32 (length c + 5) @ c @ [0]"
      using d by (auto simp: addElem.simps addDoc.simps go_bind_eq_Inr wrap_doc_Inr)
    let ?doc = "len32 (length c + 5) @ c @ [0]"
    let ?body = "len32 (4 + length (addStr code) + (length c + 5)) @ addStr code @ ?doc"
    have len: "length ?body < 2 ^ 31" "length (addStr code) < 2 ^ 31" using c(2) s(2) by simp_all
    have "addElem False [] scope = Inr (addElemName ElementDocument [] @ ?doc)"
      using c(1) d by (auto simp: addElem.simps wrap_doc_def)
    moreover have "length (addElemName ElementDocument [] @ ?doc) < 2 ^ 31"
      using c(2) s(2) by (simp add: addElemName_def addStr_def)
    ultimately have "stored_as [] (addElemName ElementDocument [] @ ?doc) (\<lambda>dt. decoded scope dt ([] \<in> arrayOps))"
      using assms s(1) unfolding round_trips_def by simp
    moreover have "[] \<notin> arrayOps" by (simp add: arrayOps_def bytes_of_string_def)
    ultimately have doc: "elem_reads ElementDocument ?doc (\<lambda>dt. decoded scope dt False)"
      by (auto simp: stored_as_def addElemName_def)
    have "elem_reads ElementJavaScriptWithScope ?body (\<lambda>dt. GJavaScript code (decoded scope AsM False))"
      unfolding elem_reads_def
    proof (intro allI impI)
      fix b i n and dt :: doc_type
      assume h: "holds b i ?body" "length ?body + 1 < n"
      obtain m where n: "n = Suc m" using h(2) by (cases n) auto
      have l: "readInt32 b i = Inr (word_of_nat (4 + length (addStr code) + (length c + 5)), i + 4)"
        using holds_append [OF h(1)] by (intro readInt32_at) blast
      have rest: "holds b (i + 4) (addStr code @ ?doc)" using holds_append [OF h(1)] by simp
      have code: "readStr b (i + 4) = Inr (code, i + 4 + length (addStr code))"
        using holds_append [OF rest] len(2) by (intro readStr_at) blast+
      have "readElemTo (Suc m) AsM b ElementDocument (i + 4 + length (addStr code)) =
        Some (Inr (decoded scope AsM False, i + 4 + length (addStr code) + length ?doc))"
        using doc holds_append [OF rest] h(2) n unfolding elem_reads_def by simp
      then have d: "read_doc m AsM b (i + 4 + length (addStr code)) =
        Some (Inr (decoded scope AsM False, i + 4 + length (addStr code) + length ?doc))"
        by (simp add: readElemTo.simps read_leaf_def element_kinds)
      have "sint (word_of_nat (4 + length (addStr code) + (length c + 5)) :: 32 word) =
          int (4 + length (addStr code) + (length c + 5))"
        using len(1) by (intro sint_length) simp
      then have e: "int (i + 4 + length (addStr code) + length ?doc) =
          int i + sint (word_of_nat (4 + length (addStr code) + (length c + 5)) :: 32 word)"
        by (simp only: length_append length_enc) simp
      have "i + length ?body = i + 4 + length (addStr code) + length ?doc" by simp
      moreover have "readElemTo (Suc m) dt b ElementJavaScriptWithScope i =
          Some (Inr (GJavaScript code (decoded scope AsM False), i + 4 + length (addStr code) + length ?doc))"
        by (simp only: readElemTo.simps l code d go_bind_simps ret_bind_simps prod.case option.case e)
          (simp add: read_leaf_def element_kinds l code d)
      ultimately show "readElemTo n dt b ElementJavaScriptWithScope i =
          Some (Inr (GJavaScript code (decoded scope AsM False), i + length ?body))" by (simp only: n)
    qed
    then show ?thesis unfolding stored_as_def c(2)
      by (intro exI [of _ ElementJavaScriptWithScope] exI [of _ ?body]) simp
  qed
qed

lemma round_trips_leaf:
  assumes "\<And>name. addElem False name v = enc_leaf False name v" "\<And>name. \<not> has_elements name v"
  shows "round_trips v"
  using stored_enc_leaf assms unfolding round_trips_def by simp

lemma all_round_trip: "round_trips v"
proof (induction v)
  case (GJavaScript code scope)
  then show ?case by (rule round_trips_code)
next
  case (GMap d)
  then show ?case by (intro round_trips_document) blast
next
  case (GD d)
  then show ?case by (intro round_trips_document) blast
next
  case (GSlice xs)
  then show ?case by (rule round_trips_array)
next
  case (GBytes v)
  then show ?case by (rule round_trips_bytes)
qed (rule round_trips_leaf; simp add: has_elements_def addElem.simps)+

lemma documents_read_back:
  assumes "v = GMap d \<or> v = GD d" "storable v" "Marshal v = Inr (Inr b)" "length b < 2 ^ 31 - 2"
  shows "Unmarshal dt b = Some (Inr (Inr (decoded v dt False)))"
proof -
  obtain c where c: "addElems d = Inr c" "b = len32 (length c + 5) @ c @ [0]"
    using assms(1,3) by (auto simp: Marshal_def addDoc.simps handleErr_def wrap_doc_Inr split: sum.splits go_panic.splits)
  have "addElem False [] v = Inr (addElemName ElementDocument [] @ b)"
    using c assms(1) by (auto simp: addElem.simps wrap_doc_def)
  then have "stored_as [] (addElemName ElementDocument [] @ b) (\<lambda>dt. decoded v dt ([] \<in> arrayOps))"
    using assms all_round_trip [of v] unfolding round_trips_def by (simp add: addElemName_def)
  moreover have "[] \<notin> arrayOps" by (simp add: arrayOps_def bytes_of_string_def)
  ultimately have doc: "elem_reads ElementDocument b (\<lambda>dt. decoded v dt False)"
    by (auto simp: stored_as_def addElemName_def)
  have "holds b 0 b" by (simp add: holds_def)
  then have "readElemTo (Suc (length b + 1)) dt b ElementDocument 0 = Some (Inr (decoded v dt False, 0 + length b))"
    using doc unfolding elem_reads_def by blast
  then have "read_doc (length b + 1) dt b 0 = Some (Inr (decoded v dt False, length b))"
    by (simp add: readElemTo.simps read_leaf_def element_kinds)
  then show ?thesis by (simp add: Unmarshal_def handleErr_def)
qed

text \<open>A \<open>bson.D\<close> keeps its elements, and so does a map, whose names are distinct.\<close>

lemma last_wins_distinct: "distinct (map fst es) \<Longrightarrow> last_wins es = es"
proof -
  assume d: "distinct (map fst es)"
  have "map_of (rev es) k = Some v" if "(k, v) \<in> set es" for k v
    using that d by (simp add: rev_map [symmetric])
  then have "map (\<lambda>k. (k, the (map_of (rev es) k))) (map fst es) = es"
    unfolding map_map comp_def by (intro map_idI) (metis option.sel prod.collapse)
  moreover have "rev (remdups (rev (map fst es))) = map fst es"
    using d by (metis distinct_remdups_id distinct_rev rev_rev_ident)
  ultimately show ?thesis by (simp only: last_wins_def)
qed

lemma decoded_documents:
  "decoded (GD d) AsD op = GD (map (\<lambda>(k, v). (k, decoded v AsD (k \<in> array_operators))) d)"
  "distinct (map fst d) \<Longrightarrow>
   decoded (GMap d) AsM op = GMap (map (\<lambda>(k, v). (k, decoded v AsM (k \<in> array_operators))) d)"
proof -
  have "map (\<lambda>(k, f). (k, f dt (k \<in> array_operators))) (map (map_prod id decoded) d) =
      map (\<lambda>(k, v). (k, decoded v dt (k \<in> array_operators))) d" for dt
    by (simp add: case_prod_unfold)
  moreover have "map fst (map (\<lambda>(k, v). (k, decoded v dt (k \<in> array_operators))) d) = map fst d" for dt
    by (simp add: case_prod_unfold)
  ultimately show "decoded (GD d) AsD op = GD (map (\<lambda>(k, v). (k, decoded v AsD (k \<in> array_operators))) d)"
    "distinct (map fst d) \<Longrightarrow>
     decoded (GMap d) AsM op = GMap (map (\<lambda>(k, v). (k, decoded v AsM (k \<in> array_operators))) d)"
    by (simp_all only: decoded.simps document_as.simps last_wins_distinct)
qed

end
