(* ===== verification/MrteTypes.thy ===== *)
theory MrteTypes
  imports GoStrings
begin

text \<open>
  The data the collector passes around: \<open>bson.M\<close> documents as the source builds them, the
  request record of \<open>mrte/mongo_helper.go\<close>, and times.

  A \<open>bson.M\<close> literal is the list of its keys and values in the order written; its keys are
  distinct. The Go type of an integer value is kept by its constructor, as the wire encoding
  depends on it. A \<open>time.Time\<close> is a number of nanoseconds; the current time is an argument of
  every operation that calls \<open>time.Now\<close> or \<open>time.Since\<close>.
\<close>

datatype bson_value =
    BInt int             \<comment> \<open>a Go \<open>int\<close>\<close>
  | BInt32 int           \<comment> \<open>a Go \<open>int32\<close>\<close>
  | BString string
  | BNull                \<comment> \<open>a nil pointer\<close>
  | BDoc "(string \<times> bson_value) list"

type_synonym bson_M = "(string \<times> bson_value) list"

record MysqlRequest =
  AlreadyParsed :: bool
  SrcIp :: string
  SrcPort :: int         \<comment> \<open>a Go \<open>int32\<close>\<close>
  Data :: bytes
  CapturedAt :: int
  ParsedRequest :: "bson_M option"

definition to_int32 :: "int \<Rightarrow> int" where
  "to_int32 i = signed_take_bit 31 i"

definition to_int64 :: "int \<Rightarrow> int" where
  "to_int64 i = signed_take_bit 63 i"

lemma to_int32_id: "- (2 ^ 31) \<le> i \<Longrightarrow> i < 2 ^ 31 \<Longrightarrow> to_int32 i = i"
  by (simp add: to_int32_def signed_take_bit_int_eq_self)

lemma to_int64_id: "- (2 ^ 63) \<le> i \<Longrightarrow> i < 2 ^ 63 \<Longrightarrow> to_int64 i = i"
  by (simp add: to_int64_def signed_take_bit_int_eq_self)

lemma to_int32_range: "- (2 ^ 31) \<le> to_int32 i \<and> to_int32 i < 2 ^ 31"
  using signed_take_bit_int_greater_eq_minus_exp [of 31 i] signed_take_bit_int_less_exp [of 31 i]
  by (simp add: to_int32_def)

text \<open>\<open>int(d.Seconds())\<close> for a duration: the whole seconds, truncated towards zero.\<close>

definition whole_seconds :: "int \<Rightarrow> int" where
  "whole_seconds d = (if d < 0 then - ((- d) div 1000000000) else d div 1000000000)"

text \<open>Go's remainder has the sign of the dividend, and panics on a zero divisor.\<close>

definition go_rem :: "int \<Rightarrow> int \<Rightarrow> int go" where
  "go_rem a b = (if b = 0 then Inl DivideByZero else Inr (sgn a * (\<bar>a\<bar> mod \<bar>b\<bar>)))"

lemma go_rem_nonneg: "0 \<le> a \<Longrightarrow> 0 < b \<Longrightarrow> go_rem a b = Inr (a mod b)"
  by (cases "a = 0") (simp_all add: go_rem_def)

end
