(* ===== verification/MysqlProtocol.thy ===== *)
theory MysqlProtocol
  imports MrteTypes
begin

text \<open>
  \<open>mrte/mysql_protocol.go\<close>: \<open>ParsePacket\<close> turns the bytes of one MySQL client packet into
  the document stored in the queue, and \<open>isSelectStatement\<close> decides which statements are
  relayed when only reads are wanted.
\<close>

definition COM_QUIT :: int where "COM_QUIT = 0x01"
definition COM_INIT_DB :: int where "COM_INIT_DB = 0x02"
definition COM_QUERY :: int where "COM_QUERY = 0x03"
definition COM_SET_OPTION :: int where "COM_SET_OPTION = 0x1b"
definition COM_LOGIN :: int where "COM_LOGIN = 0x7e"
definition COM_UNKNOWN :: int where "COM_UNKNOWN = 0x7f"
definition SEQUENCE_FOR_LOGIN :: int where "SEQUENCE_FOR_LOGIN = 0x01"

lemmas com_defs [go_simps] = COM_QUIT_def COM_INIT_DB_def COM_QUERY_def COM_SET_OPTION_def
  COM_LOGIN_def COM_UNKNOWN_def SEQUENCE_FOR_LOGIN_def

subsection \<open>isSelectStatement\<close>

text \<open>
  The recursion is on the statement with one leading comment removed; \<open>depth\<close> counts the
  removals and stops it. Slicing past the end of the statement would panic.
\<close>

definition select_header :: "string \<Rightarrow> bool" where
  "select_header header \<longleftrightarrow>
     header = ''select'' \<or> has_prefix header ''desc'' \<or> has_prefix header ''show''"

function isSelectStatement :: "string \<Rightarrow> nat \<Rightarrow> bool go" where
  "isSelectStatement sql depth =
     (if 4 < depth then Inr False
      else
        let sql2 = strings_TrimSpace sql in
        if length sql2 < 6 then Inr False
        else
          go_bind (go_slice sql2 0 6) (\<lambda>h.
          let header = strings_ToLower h in
          if select_header header then Inr True
          else
            let singleLineComment = strings_Index header ''--'';
                multiLineComment = strings_Index header ''/*''
            in if singleLineComment = -1 \<and> multiLineComment = -1 then Inr False
               else if 0 \<le> singleLineComment then
                 let nl = strings_Index sql2 [CHR 0x0A];
                     endOfComment = (if nl = -1 then strings_Index sql2 [CHR 0x0D] else nl)
                 in if endOfComment = -1 then Inr False
                    else go_bind (go_slice_from sql2 (nat (endOfComment + 2)))
                           (\<lambda>rest. isSelectStatement rest (depth + 1))
               else if 0 \<le> multiLineComment then
                 let endOfComment = strings_Index sql2 ''*/''
                 in if endOfComment = -1 then Inr False
                    else go_bind (go_slice_from sql2 (nat (endOfComment + 2)))
                           (\<lambda>rest. isSelectStatement rest (depth + 1))
               else Inr False))"
  by pat_completeness auto
termination
  by (relation "measure (\<lambda>(sql, depth). 5 - depth)") auto

declare isSelectStatement.simps [simp del]

subsection \<open>ParsePacket\<close>

definition doc_cq :: "int \<Rightarrow> string \<Rightarrow> bson_M" where
  "doc_cq c q = [(''c'', BInt c), (''q'', BString q)]"

definition ParsePacket :: "bytes \<Rightarrow> bool \<Rightarrow> bson_M or_err go" where
  "ParsePacket data onlySelect =
     (if length data \<le> 4
      then Inr (Inl ''packet data is too short (must be length>4)'')
      else
        go_bind (go_at data 3) (\<lambda>b3.
        let sequence = uint b3 in
        if sequence = SEQUENCE_FOR_LOGIN then
          go_bind (go_slice_from data 4) (\<lambda>d. Inr (Inr (doc_cq COM_LOGIN (hex_encode d))))
        else if sequence = 0 then
          go_bind (go_at data 4) (\<lambda>b4.
          let command = uint b4 in
          if command = COM_QUIT then Inr (Inr (doc_cq command ''''))
          else if command = COM_INIT_DB \<or> command = COM_SET_OPTION then
            go_bind (go_slice_from data 5) (\<lambda>d. Inr (Inr (doc_cq command (string_of_bytes d))))
          else if command = COM_QUERY then
            go_bind (go_slice_from data 5) (\<lambda>d.
            let statement = string_of_bytes d in
            if onlySelect then
              go_bind (isSelectStatement statement 0) (\<lambda>isSelectQuery.
                if \<not> isSelectQuery then Inr (Inl ''this is not a select statement'')
                else Inr (Inr (doc_cq command statement)))
            else Inr (Inr (doc_cq command statement)))
          else Inr (Inl ''not interesting command''))
        else Inr (Inl ''not support for 'sequence>1', looks like retry auth for failed-login-auth'')))"

subsection \<open>One step of the classification\<close>

definition read_start :: "string \<Rightarrow> bool" where
  "read_start t \<longleftrightarrow> 6 \<le> length t \<and> select_header (strings_ToLower (take 6 t))"

definition after_comment :: "string \<Rightarrow> string option" where
  "after_comment t =
     (let header = strings_ToLower (take 6 t) in
      if length t < 6 then None
      else if str_index header ''--'' \<noteq> None then
        map_option (\<lambda>i. drop (i + 2) t)
          (case str_index t [CHR 0x0A] of None \<Rightarrow> str_index t [CHR 0x0D] | Some i \<Rightarrow> Some i)
      else if str_index header ''/*'' \<noteq> None then
        map_option (\<lambda>i. drop (i + 2) t) (str_index t ''*/'')
      else None)"

lemma after_comment_line:
  "str_index (strings_ToLower (take 6 t)) ''--'' \<noteq> None \<Longrightarrow>
   str_index t [CHR 0x0A] = Some i \<Longrightarrow> 6 \<le> length t \<Longrightarrow> after_comment t = Some (drop (i + 2) t)"
  by (simp add: after_comment_def Let_def)

lemma after_comment_block:
  "str_index (strings_ToLower (take 6 t)) ''--'' = None \<Longrightarrow>
   str_index (strings_ToLower (take 6 t)) ''/*'' \<noteq> None \<Longrightarrow>
   str_index t ''*/'' = Some i \<Longrightarrow> 6 \<le> length t \<Longrightarrow> after_comment t = Some (drop (i + 2) t)"
  by (simp add: after_comment_def Let_def)

lemma line_end_inside:
  assumes "str_index (strings_TrimSpace s) [c] = Some i" "c \<in> set ascii_spaces"
  shows "i + 2 \<le> length (strings_TrimSpace s)"
proof (rule ccontr)
  let ?t = "strings_TrimSpace s"
  assume "\<not> ?thesis"
  moreover from str_index_Some [OF assms(1)]
  have i: "i + 1 \<le> length ?t" "take 1 (drop i ?t) = [c]" by simp_all
  ultimately have "i = length ?t - 1" "?t \<noteq> []" by auto
  with i(2) have "last ?t = c"
    by (metis One_nat_def Suc_le_lessD add.commute i(1) last_ConsL last_drop plus_1_eq_Suc
        length_drop diff_diff_cancel length_greater_0_conv take_all_iff le_refl Suc_leI)
  with TrimSpace_last [OF \<open>?t \<noteq> []\<close>] assms(2) show False by simp
qed

lemma newline_space: "CHR 0x0A \<in> set ascii_spaces" "CHR 0x0D \<in> set ascii_spaces"
  by (simp_all add: ascii_spaces_def)

lemma isSelectStatement_step:
  "isSelectStatement sql depth =
     (let t = strings_TrimSpace sql in
      if 4 < depth then Inr False
      else if read_start t then Inr True
      else case after_comment t of None \<Rightarrow> Inr False | Some rest \<Rightarrow> isSelectStatement rest (depth + 1))"
proof -
  let ?t = "strings_TrimSpace sql"
  have nl: "str_index ?t [CHR 0x0A] = Some i \<Longrightarrow> i + 2 \<le> length ?t"
    and cr: "str_index ?t [CHR 0x0D] = Some i \<Longrightarrow> i + 2 \<le> length ?t" for i
    using line_end_inside newline_space by blast+
  have ml: "str_index ?t ''*/'' = Some i \<Longrightarrow> i + 2 \<le> length ?t" for i
    using str_index_Some by fastforce
  show ?thesis
    unfolding Let_def
    by (subst isSelectStatement.simps)
      (auto simp: Let_def read_start_def after_comment_def strings_Index_def nat_add_distrib
        dest: nl cr ml split: option.splits)
qed

lemma isSelectStatement_comment:
  "strings_TrimSpace s = s \<Longrightarrow> \<not> read_start s \<Longrightarrow> depth \<le> 4 \<Longrightarrow> after_comment s = Some r \<Longrightarrow>
   isSelectStatement s depth = isSelectStatement r (depth + 1)"
  by (subst isSelectStatement_step) (simp add: Let_def)

lemma isSelectStatement_total: "\<exists>b. isSelectStatement sql depth = Inr b"
proof (induction "5 - depth" arbitrary: sql depth)
  case 0
  then show ?case by (subst isSelectStatement_step) (auto simp: Let_def)
next
  case (Suc n)
  then have "n = 5 - (depth + 1)" by simp
  from Suc.hyps(1) [OF this] show ?case
    by (subst isSelectStatement_step) (auto simp: Let_def split: option.splits)
qed

text \<open>
  Removing \<open>k\<close> leading comments, with the white space around the rest. The statement is
  classified as a read exactly when at most four removals uncover one of the read keywords.
\<close>

fun peel :: "nat \<Rightarrow> string \<Rightarrow> string option" where
  "peel 0 s = Some (strings_TrimSpace s)"
| "peel (Suc k) s =
     (case after_comment (strings_TrimSpace s) of None \<Rightarrow> None | Some r \<Rightarrow> peel k r)"

lemma isSelectStatement_iff:
  "isSelectStatement s depth = Inr True \<longleftrightarrow>
     (\<exists>k t. k + depth \<le> 4 \<and> peel k s = Some t \<and> read_start t)"
proof (induction "5 - depth" arbitrary: s depth)
  case 0
  then show ?case by (subst isSelectStatement_step) (simp add: Let_def)
next
  case (Suc n)
  let ?t = "strings_TrimSpace s"
  have IH: "isSelectStatement r (depth + 1) = Inr True \<longleftrightarrow>
      (\<exists>k t. k + (depth + 1) \<le> 4 \<and> peel k r = Some t \<and> read_start t)" for r
    using Suc.hyps(2) by (intro Suc.hyps(1)) simp
  have d: "depth \<le> 4" using Suc.hyps(2) by simp
  show ?case
  proof (cases "read_start ?t")
    case True
    with d show ?thesis
      by (subst isSelectStatement_step) (auto simp: Let_def intro!: exI [of _ 0])
  next
    case False
    have "(\<exists>k t. k + depth \<le> 4 \<and> peel k s = Some t \<and> read_start t) \<longleftrightarrow>
        (\<exists>k r t. Suc k + depth \<le> 4 \<and> after_comment ?t = Some r \<and> peel k r = Some t \<and> read_start t)"
      (is "?L = ?R")
    proof
      assume ?L
      then obtain k t where "k + depth \<le> 4" "peel k s = Some t" "read_start t" by blast
      with False show ?R by (cases k) (auto split: option.splits)
    next
      assume ?R
      then obtain k r t where "Suc k + depth \<le> 4" "after_comment ?t = Some r"
        "peel k r = Some t" "read_start t" by blast
      then show ?L by (intro exI [of _ "Suc k"] exI [of _ t]) simp
    qed
    with False d IH show ?thesis
      by (subst isSelectStatement_step) (auto simp: Let_def split: option.splits)
  qed
qed

text \<open>A read keyword at the start of the statement, in any letter case, is recognised.\<close>

lemma read_start_iff:
  "read_start t \<longleftrightarrow> 6 \<le> length t \<and>
     (strings_ToLower (take 6 t) = ''select'' \<or> strings_ToLower (take 4 t) = ''desc'' \<or>
      strings_ToLower (take 4 t) = ''show'')"
proof -
  let ?h = "strings_ToLower (take 6 t)"
  have "has_prefix ?h ''desc'' \<longleftrightarrow> 4 \<le> length ?h \<and> take 4 ?h = ''desc''"
    "has_prefix ?h ''show'' \<longleftrightarrow> 4 \<le> length ?h \<and> take 4 ?h = ''show''"
    by (simp_all add: has_prefix_def numeral_eq_Suc)
  moreover have "take 4 ?h = strings_ToLower (take 4 t)"
    by (simp add: strings_ToLower_def take_map)
  ultimately show ?thesis
    by (auto simp: read_start_def select_header_def)
qed

text \<open>A block comment in front of a trimmed statement costs one level of depth and nothing else.\<close>

lemma str_index_append:
  "str_index s sub = Some i \<Longrightarrow> str_index (s @ t) sub = Some i"
proof (induction s arbitrary: i)
  case Nil
  then show ?case by (cases t) (auto simp: has_prefix_def split: if_splits)
next
  case (Cons c s)
  from str_index_Some [OF Cons.prems] have "length sub \<le> length (c # s)" by simp
  then have "has_prefix (c # s @ t) sub \<longleftrightarrow> has_prefix (c # s) sub"
    by (simp add: has_prefix_def) (metis append_Cons length_Cons take_append take_eq_Nil diff_is_0_eq append_Nil2)
  with Cons show ?case by (auto split: if_splits)
qed

definition comment_lead :: "char \<Rightarrow> bool" where
  "comment_lead b \<longleftrightarrow> b = CHR ''/'' \<or> b = CHR ''-''"

lemma trimmed_comment:
  assumes "comment_lead b" "trimmed rest" "3 \<le> length rest"
  shows "trimmed (b # p @ rest)"
  unfolding trimmed_def
proof (intro ballI conjI)
  fix w assume w: "w \<in> set go_spaces"
  have "list_all (\<lambda>w. w \<noteq> [] \<and> length w \<le> 3 \<and> \<not> comment_lead (hd w)) go_spaces"
    by (simp add: go_spaces_def ascii_spaces_def comment_lead_def)
  with w have cv: "w \<noteq> []" "\<not> comment_lead (hd w)" "length w \<le> 3"
    by (simp_all add: list_all_iff)
  with assms(1) show "\<not> has_prefix (b # p @ rest) w"
    by (cases w) (auto simp: has_prefix_iff)
  have "take (length w) (rev (b # p @ rest)) = take (length w) (rev rest)"
    using cv(3) assms(3) by simp
  moreover have "\<not> has_prefix (rev rest) (rev w)"
    using assms(2) w by (simp add: trimmed_def)
  ultimately show "\<not> has_prefix (rev (b # p @ rest)) (rev w)"
    using cv(3) assms(3) by (simp add: has_prefix_def)
qed

lemma ascii_lower_dash: "ascii_lower x = CHR ''-'' \<longleftrightarrow> x = CHR ''-''"
  by (auto simp: ascii_lower_def Let_def char_of_eq_iff take_bit_eq_mod)

lemma str_index_lower_dashes: "str_index (strings_ToLower u) ''--'' = str_index u ''--''"
proof (induction u)
  case (Cons x u)
  then show ?case
    by (cases u) (auto simp: strings_ToLower_def has_prefix_def ascii_lower_dash)
qed (simp add: strings_ToLower_def)

lemma str_index_char: "c \<notin> set a \<Longrightarrow> str_index (a @ c # b) [c] = Some (length a)"
  by (induction a) (auto simp: has_prefix_def)

lemma block_comment_skipped:
  assumes depth: "depth \<le> 4" and rest: "trimmed rest" "6 \<le> length rest"
    and c: "str_index (''/*'' @ c @ ''*/'') ''*/'' = Some (length c + 2)"
    and nd: "str_index (take 4 (c @ ''*/'' @ rest)) ''--'' = None"
  shows "isSelectStatement (''/*'' @ c @ ''*/'' @ rest) depth = isSelectStatement rest (depth + 1)"
proof -
  let ?s = "''/*'' @ c @ ''*/'' @ rest"
  let ?h = "strings_ToLower (take 6 ?s)"
  have trim: "strings_TrimSpace ?s = ?s"
    using trimmed_comment [of "CHR ''/''" rest "''*'' @ c @ ''*/''"] rest
    by (intro TrimSpace_id) (simp add: comment_lead_def)
  have h: "?h = ''/*'' @ strings_ToLower (take 4 (c @ ''*/'' @ rest))"
    by (simp add: strings_ToLower_def ascii_lower_def numeral_eq_Suc)
  then have nrs: "\<not> read_start ?s"
    by (simp add: read_start_def select_header_def has_prefix_def)
  have hidx: "str_index ?h ''--'' = None" "str_index ?h ''/*'' \<noteq> None"
    using nd unfolding h by (simp_all add: has_prefix_def str_index_lower_dashes)
  have "str_index ?s ''*/'' = Some (length c + 2)"
    using str_index_append [OF c, of rest] by simp
  then have "after_comment ?s = Some (drop (length c + 2 + 2) ?s)"
    using hidx by (intro after_comment_block) (use rest in auto)
  from isSelectStatement_comment [OF trim nrs depth this] show ?thesis by simp
qed

text \<open>
  After a line comment the scan resumes two bytes past the start of the line end, whatever the
  line end is: with a bare line feed the first byte of the statement is lost.
\<close>

lemma line_comment_skips_byte:
  assumes depth: "depth \<le> 4" and rest: "trimmed rest" "6 \<le> length rest"
    and c: "CHR 0x0A \<notin> set c"
  shows "isSelectStatement (''--'' @ c @ [CHR 0x0A, x] @ rest) depth = isSelectStatement rest (depth + 1)"
proof -
  let ?s = "''--'' @ c @ [CHR 0x0A, x] @ rest"
  let ?h = "strings_ToLower (take 6 ?s)"
  have trim: "strings_TrimSpace ?s = ?s"
    using trimmed_comment [of "CHR ''-''" rest "''-'' @ c @ [CHR 0x0A, x]"] rest
    by (intro TrimSpace_id) (simp add: comment_lead_def)
  have h: "?h = ''--'' @ strings_ToLower (take 4 (c @ [CHR 0x0A, x] @ rest))"
    by (simp add: strings_ToLower_def ascii_lower_def numeral_eq_Suc)
  then have nrs: "\<not> read_start ?s"
    by (simp add: read_start_def select_header_def has_prefix_def)
  have "str_index ?s [CHR 0x0A] = Some (length c + 2)"
    using str_index_char [of "CHR 0x0A" "''--'' @ c" "x # rest"] c by simp
  moreover have "str_index ?h ''--'' \<noteq> None"
    unfolding h by (simp add: has_prefix_def)
  ultimately have "after_comment ?s = Some (drop (length c + 2 + 2) ?s)"
    by (intro after_comment_line) (use rest in auto)
  from isSelectStatement_comment [OF trim nrs depth this] show ?thesis by simp
qed

subsection \<open>The documents ParsePacket produces\<close>

text \<open>One equation for every packet with a header and at least one byte of payload.\<close>

lemma ParsePacket_eq:
  assumes "4 < length data"
  shows "ParsePacket data onlySelect = Inr
     (if data ! 3 = 1 then Inr (doc_cq COM_LOGIN (hex_encode (drop 4 data)))
      else if data ! 3 \<noteq> 0 then
        Inl ''not support for 'sequence>1', looks like retry auth for failed-login-auth''
      else if data ! 4 = 1 then Inr (doc_cq COM_QUIT '''')
      else if data ! 4 = 2 \<or> data ! 4 = 0x1b then
        Inr (doc_cq (uint (data ! 4)) (string_of_bytes (drop 5 data)))
      else if data ! 4 = 3 then
        (if onlySelect \<and> isSelectStatement (string_of_bytes (drop 5 data)) 0 = Inr False
         then Inl ''this is not a select statement''
         else Inr (doc_cq COM_QUERY (string_of_bytes (drop 5 data))))
      else Inl ''not interesting command'')"
proof -
  obtain b where b: "isSelectStatement (string_of_bytes (drop 5 data)) 0 = Inr b"
    using isSelectStatement_total by blast
  have u: "uint w = 0 \<longleftrightarrow> w = 0" "uint w = 1 \<longleftrightarrow> w = 1" "uint w = 2 \<longleftrightarrow> w = 2"
    "uint w = 3 \<longleftrightarrow> w = 3" "uint w = 27 \<longleftrightarrow> w = 27" for w :: byte
    by (simp_all add: word_uint_eq_iff)
  show ?thesis
    using assms b by (auto simp: ParsePacket_def Let_def com_defs u)
qed

lemma ParsePacket_short: "length data \<le> 4 \<Longrightarrow> \<exists>e. ParsePacket data onlySelect = Inr (Inl e)"
  by (simp add: ParsePacket_def)

lemma ParsePacket_total: "\<exists>r. ParsePacket data onlySelect = Inr r"
  by (cases "4 < length data") (simp add: ParsePacket_eq, simp add: ParsePacket_def)

end
