(* ===== verification/MongoHelper.thy ===== *)
theory MongoHelper
  imports MysqlProtocol
begin

text \<open>
  \<open>mrte/mongo_helper.go\<close>: the queue collections and the batches written to them.

  The driver under these calls has its own theories, and \<open>MgoQueue\<close> puts the two together. Here a
  function that talks to the server returns the commands it issues, in order, and takes the answers
  its result depends on as arguments: \<open>None\<close> is success and \<open>Some\<close> the error. Each call works on
  its own clone of the session, so the commands of one call are all there is of its effect; errors
  that are only printed are not arguments.
\<close>

datatype mongo_cmd =
    DropCollection string string
  | CreateCapped string string int
  | InsertDocs string string "bson_M list"
  | BulkInsert string string "bson_M list"

definition fmt_03d :: "int \<Rightarrow> string" where
  "fmt_03d n =
     (let s = decimal (nat \<bar>n\<bar>); sign = (if n < 0 then ''-'' else '''')
      in sign @ replicate (3 - length sign - length s) (CHR ''0'') @ s)"

definition getCollectionName :: "string \<Rightarrow> int \<Rightarrow> string" where
  "getCollectionName pfx idx = pfx @ fmt_03d idx"

definition marker_doc :: bson_M where
  "marker_doc =
     [(''ip'', BString ''127.0.0.1''), (''port'', BInt 0),
      (''req'', BDoc (doc_cq COM_UNKNOWN ''Initial Marker for CappedCollection''))]"

definition reCreateCappedCollection :: "string \<Rightarrow> string \<Rightarrow> int \<Rightarrow> mongo_cmd list" where
  "reCreateCappedCollection dbName collectionName maxSize =
     [DropCollection dbName collectionName,
      CreateCapped dbName collectionName maxSize,
      InsertDocs dbName collectionName [marker_doc]]"

fun prepare_from :: "string \<Rightarrow> string \<Rightarrow> int \<Rightarrow> nat \<Rightarrow> int \<Rightarrow> mongo_cmd list" where
  "prepare_from dbName pfx maxSize 0 idx = []"
| "prepare_from dbName pfx maxSize (Suc left) idx =
     reCreateCappedCollection dbName (getCollectionName pfx idx) maxSize @
     prepare_from dbName pfx maxSize left (idx + 1)"

definition PrepareCollections :: "string \<Rightarrow> string \<Rightarrow> int \<Rightarrow> int \<Rightarrow> mongo_cmd list" where
  "PrepareCollections dbName pfx maxSize counter =
     prepare_from dbName pfx maxSize (nat counter) 0"

definition request_doc :: "MysqlRequest \<Rightarrow> bson_M" where
  "request_doc v =
     [(''ip'', BString (SrcIp v)), (''port'', BInt32 (SrcPort v)),
      (''req'', case ParsedRequest v of None \<Rightarrow> BNull | Some d \<Rightarrow> BDoc d)]"

text \<open>A nil entry of \<open>packets\<close> would be dereferenced.\<close>

fun request_docs :: "MysqlRequest option list \<Rightarrow> bson_M list go" where
  "request_docs [] = Inr []"
| "request_docs (None # vs) = Inl NilDereference"
| "request_docs (Some v # vs) = go_bind (request_docs vs) (\<lambda>ds. Inr (request_doc v # ds))"

definition InsertPackets ::
  "string \<Rightarrow> string \<Rightarrow> int \<Rightarrow> MysqlRequest option list \<Rightarrow> string option \<Rightarrow> (mongo_cmd \<times> nat) go" where
  "InsertPackets dbName collectionPrefix queueId packets answer =
     go_bind (request_docs packets) (\<lambda>p.
       Inr (InsertDocs dbName (getCollectionName collectionPrefix queueId) p,
            case answer of Some err \<Rightarrow> 0 | None \<Rightarrow> length packets))"

definition InsertBulkPackets ::
  "string \<Rightarrow> string \<Rightarrow> int \<Rightarrow> MysqlRequest option list \<Rightarrow> string option \<Rightarrow> (mongo_cmd \<times> nat) go" where
  "InsertBulkPackets dbName collectionPrefix queueId packets answer =
     go_bind (request_docs packets) (\<lambda>bulk.
       Inr (BulkInsert dbName (getCollectionName collectionPrefix queueId) bulk,
            case answer of Some err \<Rightarrow> 0 | None \<Rightarrow> length packets))"

subsection \<open>The names of the collections\<close>


lemma digits_value_zeros: "digits_value 0 (replicate k (CHR ''0'') @ s) = digits_value 0 s"
  by (induction k) (simp_all add: is_digit_def digit_value_def)

lemma fmt_03d_value: "0 \<le> n \<Longrightarrow> digits_value 0 (fmt_03d n) = Some (nat n)"
  by (simp add: fmt_03d_def Let_def digits_value_zeros digits_value_decimal_acc)

lemma getCollectionName_inject:
  assumes "0 \<le> i" "0 \<le> j"
  shows "getCollectionName pfx i = getCollectionName pfx j \<longleftrightarrow> i = j"
proof
  assume "getCollectionName pfx i = getCollectionName pfx j"
  then have "fmt_03d i = fmt_03d j" by (simp add: getCollectionName_def)
  then have "Some (nat i) = Some (nat j)"
    using fmt_03d_value assms by metis
  with assms show "i = j" by simp
qed simp

lemma length_fmt_03d: "0 \<le> n \<Longrightarrow> n < 1000 \<Longrightarrow> length (fmt_03d n) = 3"
proof -
  assume n: "0 \<le> n" "n < 1000"
  have "length (decimal k) \<le> 3" if "k < 1000" for k
  proof -
    have d: "length (decimal m) = 1" if "m < 10" for m
      using that by (simp add: decimal.simps [of m])
    have dd: "length (decimal m) \<le> 2" if "m < 100" for m
      using that d [of "m div 10"] by (cases "m < 10") (simp_all add: decimal.simps [of m])
    show ?thesis
      using that dd [of "k div 10"] by (cases "k < 10") (simp_all add: decimal.simps [of k])
  qed
  from this [of "nat n"] n show ?thesis
    by (simp add: fmt_03d_def Let_def)
qed

subsection \<open>Preparing the collections\<close>

lemma prepare_from_eq:
  "prepare_from dbName pfx maxSize n idx =
     concat (map (\<lambda>k. reCreateCappedCollection dbName (getCollectionName pfx (idx + int k)) maxSize)
       [0..<n])"
proof (induction n arbitrary: idx)
  case (Suc n)
  have "map (\<lambda>k. reCreateCappedCollection dbName (getCollectionName pfx (idx + int k)) maxSize) [0..<Suc n]
      = reCreateCappedCollection dbName (getCollectionName pfx idx) maxSize #
        map (\<lambda>k. reCreateCappedCollection dbName (getCollectionName pfx (idx + 1 + int k)) maxSize) [0..<n]"
    by (simp only: map_upt_Suc) (simp add: algebra_simps)
  with Suc show ?case by simp
qed simp

text \<open>What a collection holds after a list of commands that all succeed, starting from \<open>st\<close>.\<close>

fun apply_cmd :: "mongo_cmd \<Rightarrow> (string \<times> string \<Rightarrow> bson_M list option) \<Rightarrow>
    (string \<times> string \<Rightarrow> bson_M list option)" where
  "apply_cmd (DropCollection db c) st = st((db, c) := None)"
| "apply_cmd (CreateCapped db c m) st = st((db, c) := Some [])"
| "apply_cmd (InsertDocs db c ds) st =
     st((db, c) := Some ((case st (db, c) of None \<Rightarrow> [] | Some old \<Rightarrow> old) @ ds))"
| "apply_cmd (BulkInsert db c ds) st =
     st((db, c) := Some ((case st (db, c) of None \<Rightarrow> [] | Some old \<Rightarrow> old) @ ds))"

lemma fold_recreate:
  "fold apply_cmd (reCreateCappedCollection db c m) st = st((db, c) := Some [marker_doc])"
  by (simp add: reCreateCappedCollection_def)

lemma fold_prepare:
  "0 \<le> idx \<Longrightarrow> fold apply_cmd (prepare_from db pfx m n idx) st =
     (\<lambda>(d, c). if d = db \<and> (\<exists>k < n. c = getCollectionName pfx (idx + int k))
        then Some [marker_doc] else st (d, c))"
proof (induction n arbitrary: idx st)
  case (Suc n)
  have "(\<exists>k < Suc n. c = getCollectionName pfx (idx + int k)) \<longleftrightarrow>
      c = getCollectionName pfx idx \<or> (\<exists>k < n. c = getCollectionName pfx (idx + 1 + int k))" for c
    by (simp only: Ex_less_Suc2) (simp add: algebra_simps)
  with Suc show ?case
    by (auto simp: fold_recreate fun_eq_iff)
qed auto

subsection \<open>Writing a batch\<close>

lemma request_docs_Some: "request_docs (map Some vs) = Inr (map request_doc vs)"
  by (induction vs) auto

lemma InsertBulkPackets_ok:
  "InsertBulkPackets db pfx q (map Some vs) answer =
     Inr (BulkInsert db (getCollectionName pfx q) (map request_doc vs),
          if answer = None then length vs else 0)"
  by (simp add: InsertBulkPackets_def request_docs_Some split: option.splits)

end
