(* ===== verification/MgoQueue.thy ===== *)
theory MgoQueue
  imports MgoRun BsonDocuments MongoHelper
begin

text \<open>
  The batches of the collector (\<open>mrte/mongo_helper.go\<close>) as the driver executes them: the documents on the wire, and
  what is stored and counted.
\<close>

subsection \<open>Documents\<close>

text \<open>The values of the collector's \<open>bson.M\<close>s as the encoder takes them; a nil \<open>*bson.M\<close> is nil for it.\<close>

primrec bson_go :: "bson_value \<Rightarrow> go_value" where
  "bson_go (BInt i) = GInt (word_of_int i)"
| "bson_go (BInt32 i) = GInt (word_of_int i)"
| "bson_go (BString s) = GString (bytes_of_string s)"
| "bson_go BNull = GNil"
| "bson_go (BDoc d) = GMap (map (map_prod bytes_of_string bson_go) d)"

abbreviation go_doc :: "bson_M \<Rightarrow> go_value" where
  "go_doc d \<equiv> bson_go (BDoc d)"

text \<open>
  The payload as a reader of the queue finds it, by the names \<open>req\<close>, \<open>c\<close> and \<open>q\<close>: the player's
  \<open>MysqlRequest.java\<close> asks for the same names, and takes \<open>q\<close> for hexadecimal when \<open>c\<close> is 0x7e.
\<close>

definition stored_payload :: "go_value \<Rightarrow> bytes option" where
  "stored_payload u =
     (case u of
        GMap d \<Rightarrow>
          (case map_of d (bytes_of_string ''req'') of
             Some (GMap r) \<Rightarrow>
               (case map_of r (bytes_of_string ''c'') of
                  Some (GInt c) \<Rightarrow>
                    (case map_of r (bytes_of_string ''q'') of
                       Some (GString q) \<Rightarrow>
                         Some (if sint c = 0x7e then hex_decode (string_of_bytes q) else ucast c # q)
                     | _ \<Rightarrow> None)
                | _ \<Rightarrow> None)
           | _ \<Rightarrow> None)
      | _ \<Rightarrow> None)"

lemma fits_small: "0 \<le> i \<Longrightarrow> i < 2 ^ 31 \<Longrightarrow> - (2 ^ 31) \<le> sint (word_of_int i :: 64 word) \<and> sint (word_of_int i :: 64 word) \<le> 2 ^ 31 - 1"
  by (simp add: sint_word_of_int)

text \<open>Go iterates over a map in any order; what is written and read back is the map again.\<close>

definition plain_element :: "bytes \<times> go_value \<Rightarrow> bool" where
  "plain_element e \<longleftrightarrow> 0 \<notin> set (fst e) \<and> storable (snd e) \<and> (\<exists>b. addElem False (fst e) (snd e) = Inr b) \<and>
     decoded (snd e) AsM (fst e \<in> array_operators) = snd e"

lemma plain_map:
  assumes "distinct (map fst d)" "\<forall>e \<in> set d. plain_element e"
  shows "storable (GMap d)" "decoded (GMap d) AsM op = GMap d" "\<exists>b. addElems d = Inr b"
proof -
  show "storable (GMap d)" using assms(2) by (auto simp: list_all_iff plain_element_def)
  have "map (\<lambda>(k, v). (k, decoded v AsM (k \<in> array_operators))) d = d"
    using assms(2) by (intro map_idI) (auto simp: plain_element_def)
  then show "decoded (GMap d) AsM op = GMap d" using decoded_documents(2) [OF assms(1), of op] by simp
  show "\<exists>b. addElems d = Inr b"
    using assms(2) by (induction d) (auto simp: plain_element_def)
qed

lemma plain_map_element:
  assumes "distinct (map fst d)" "\<forall>e \<in> set d. plain_element e" "0 \<notin> set k"
  shows "plain_element (k, GMap d)"
  using plain_map [OF assms(1,2)] assms(3) by (auto simp: plain_element_def addElem.simps wrap_doc_def)

lemma plain_map_back:
  assumes "distinct (map fst d)" "\<forall>e \<in> set d. plain_element e"
  shows "\<exists>b. Marshal (GMap d) = Inr (Inr b) \<and> (length b < 2 ^ 31 - 2 \<longrightarrow> Unmarshal AsM b = Some (Inr (Inr (GMap d))))"
proof -
  from plain_map(3) [OF assms] obtain b where b: "Marshal (GMap d) = Inr (Inr b)"
    by (auto simp: Marshal_def addDoc.simps wrap_doc_def handleErr_def)
  then show ?thesis
    using documents_read_back [of "GMap d" d b AsM] plain_map(1) [OF assms] plain_map(2) [OF assms, of False] by auto
qed

text \<open>The document of a request, with its elements and those of its inner map in any order.\<close>

definition written_request :: "MysqlRequest \<Rightarrow> bson_M \<Rightarrow> (bytes \<times> go_value) list \<Rightarrow> bool" where
  "written_request v doc d \<longleftrightarrow>
     (\<exists>r. mset r = mset (map (map_prod bytes_of_string bson_go) doc) \<and>
        mset d = mset (map (\<lambda>(k, x). (bytes_of_string k, if k = ''req'' then GMap r else bson_go x)) (request_doc v)))"

lemma request_names:
  "distinct (map bytes_of_string [''ip'', ''port'', ''req''])" "distinct (map bytes_of_string [''c'', ''q''])"
  "\<forall>k \<in> set [''ip'', ''port'', ''req'', ''c'', ''q'']. 0 \<notin> set (bytes_of_string k) \<and> bytes_of_string k \<notin> array_operators"
  by (simp_all add: bytes_of_string_def array_operators_def)

lemma same_elements: "mset d = mset es \<Longrightarrow> set d = set es \<and> (distinct (map fst d) \<longleftrightarrow> distinct (map fst es))"
  by (metis mset_eq_imp_distinct_iff mset_map set_mset_mset)

lemma plain_values:
  "0 \<notin> set k \<Longrightarrow> plain_element (k, GString s)"
  "0 \<notin> set k \<Longrightarrow> 0 \<le> i \<Longrightarrow> i < 2 ^ 31 \<Longrightarrow> plain_element (k, GInt (word_of_int i))"
  using fits_small [of i] by (simp_all add: plain_element_def addElem.simps)

lemma request_document_back:
  assumes "written_request v (doc_cq c q) d" "0 \<le> c" "c < 2 ^ 31" "0 \<le> SrcPort v" "SrcPort v < 2 ^ 31"
  shows "\<exists>b. Marshal (GMap d) = Inr (Inr b) \<and> (length b < 2 ^ 31 - 2 \<longrightarrow> Unmarshal AsM b = Some (Inr (Inr (GMap d))))"
    and "stored_payload (GMap d) = Some (if c = 0x7e then hex_decode q else word_of_int c # bytes_of_string q)"
proof -
  let ?n = bytes_of_string
  have names: "0 \<notin> set (?n ''ip'')" "0 \<notin> set (?n ''port'')" "0 \<notin> set (?n ''req'')" "0 \<notin> set (?n ''c'')" "0 \<notin> set (?n ''q'')"
    using request_names(3) by simp_all
  obtain r where r: "mset r = mset [(?n ''c'', GInt (word_of_int c)), (?n ''q'', GString (?n q))]"
    and "mset d = mset [(?n ''ip'', GString (?n (SrcIp v))), (?n ''port'', GInt (word_of_int (SrcPort v))), (?n ''req'', GMap r)]"
    using assms(1) by (auto simp: written_request_def doc_cq_def request_doc_def)
  note d = same_elements [OF this(2)] and r = same_elements [OF this(1)]
  have dist: "distinct (map fst r)" "distinct (map fst d)" using r d request_names(1,2) by simp_all
  have plain: "\<forall>e \<in> set r. plain_element e" using r names plain_values assms(2,3) by auto
  have "\<forall>e \<in> set d. plain_element e"
    using d names plain_values assms(4,5) plain_map_element [OF dist(1) plain] by auto
  then show "\<exists>b. Marshal (GMap d) = Inr (Inr b) \<and> (length b < 2 ^ 31 - 2 \<longrightarrow> Unmarshal AsM b = Some (Inr (Inr (GMap d))))"
    by (rule plain_map_back [OF dist(2)])
  have "map_of d (?n ''req'') = Some (GMap r)" "map_of r (?n ''c'') = Some (GInt (word_of_int c))"
    "map_of r (?n ''q'') = Some (GString (?n q))"
    using d r dist by simp_all
  moreover have "sint (word_of_int c :: 64 word) = c" using assms(2,3) by (intro sint_word_of_int) simp_all
  moreover have "(ucast (word_of_int c :: 64 word) :: byte) = word_of_int c"
    by (rule bit_word_eqI) (auto simp: bit_simps)
  ultimately show "stored_payload (GMap d) = Some (if c = 0x7e then hex_decode q else word_of_int c # bytes_of_string q)"
    by (simp add: stored_payload_def)
qed

lemma parsed_document:
  assumes "ParsePacket data only = Inr (Inr doc)"
  shows "\<exists>c q. doc = doc_cq c q \<and> 0 \<le> c \<and> c < 2 ^ 31 \<and>
    (if c = 0x7e then hex_decode q else word_of_int c # bytes_of_string q) =
      (if data ! 3 = 0 \<and> data ! 4 = 1 then [1] else drop 4 data)"
proof -
  have len: "4 < length data"
  proof (rule ccontr)
    assume "\<not> 4 < length data"
    with assms(1) show False by (simp add: ParsePacket_def)
  qed
  then have d: "drop 4 data = data ! 4 # drop 5 data" using Cons_nth_drop_Suc [of 4 data] by simp
  note eq = assms(1) [unfolded ParsePacket_eq [OF len]]
  show ?thesis
  proof (cases "data ! 3 = 1")
    case True
    then have "doc = doc_cq COM_LOGIN (hex_encode (drop 4 data))" using eq by simp
    then show ?thesis
      using True by (intro exI [of _ COM_LOGIN] exI [of _ "hex_encode (drop 4 data)"]) (simp add: com_defs)
  next
    case False
    then have three: "data ! 3 = 0" using eq by (simp split: if_splits)
    show ?thesis
    proof (cases "data ! 4 = 1")
      case True
      then show ?thesis using eq three
        by (intro exI [of _ COM_QUIT] exI [of _ "[]"]) (simp add: com_defs bytes_of_string_def)
    next
      case False
      with eq three have c: "data ! 4 = 2 \<or> data ! 4 = 0x1b \<or> data ! 4 = 3"
        "doc = doc_cq (uint (data ! 4)) (string_of_bytes (drop 5 data))"
        by (auto simp: COM_QUERY_def split: if_splits)
      then have u: "0 \<le> uint (data ! 4)" "uint (data ! 4) < 2 ^ 31" "uint (data ! 4) \<noteq> 0x7e"
        by (elim disjE; simp)+
      then show ?thesis
        using False by (intro exI [of _ "uint (data ! 4)"] exI [of _ "string_of_bytes (drop 5 data)"]) (simp add: d c(2))
    qed
  qed
qed

subsection \<open>Batches\<close>

definition stored_count :: "nat \<Rightarrow> 'e option \<Rightarrow> nat" where
  "stored_count n err = (case err of None \<Rightarrow> n | Some e \<Rightarrow> 0)"

text \<open>\<open>InsertPackets\<close> and \<open>InsertBulkPackets\<close> with the driver under them.\<close>

definition insert_packets ::
  "'s mongo_env \<Rightarrow> mongo_session \<Rightarrow> string \<Rightarrow> string \<Rightarrow> MysqlRequest option list \<Rightarrow> 's \<Rightarrow> (nat \<times> 's) go" where
  "insert_packets env sess fullname name packets s =
     go_bind (request_docs packets) (\<lambda>p.
     go_bind (collection_Insert env sess fullname name (map go_doc p) s) (\<lambda>(err, s).
     Inr (stored_count (length packets) err, s)))"

definition insert_bulk_packets ::
  "'s mongo_env \<Rightarrow> mongo_session \<Rightarrow> string \<Rightarrow> string \<Rightarrow> MysqlRequest option list \<Rightarrow> 's \<Rightarrow> (nat \<times> 's) go" where
  "insert_bulk_packets env sess fullname name packets s =
     go_bind (request_docs packets) (\<lambda>p.
     go_bind (bulk_Run env sess name (fold (\<lambda>d. bulk_Insert [d]) (map go_doc p) (collection_Bulk fullname)) s) (\<lambda>(r, s).
     Inr (case r of Inl berr \<Rightarrow> 0 | Inr res \<Rightarrow> length packets, s)))"

lemma request_docs_all: "request_docs (map Some vs) = Inr (map request_doc vs)"
  by (induction vs) simp_all

lemma stored_all:
  assumes "server_insert store ordered i docs c = (c', n, es)" "es = []" shows "n = length docs"
  using assms
proof (induction docs arbitrary: i c n)
  case (Cons d ds)
  then show ?case by (auto simp: Let_def split: sum.splits prod.splits if_splits)
qed simp

lemma bulk_packets_stored:
  assumes "inserts_into contents store name (ms_safeOp sess) (ms_bypassValidation sess) env" "ms_safeOp sess \<noteq> None"
    and "server_insert store True 0 (map (go_doc \<circ> request_doc) vs) (contents s) = (c, n, es)" "vs \<noteq> []"
  shows "\<exists>s'. insert_bulk_packets env sess fullname name (map Some vs) s = Inr (if es = [] then n else 0, s') \<and> contents s' = c"
    and "\<exists>s'. insert_packets env sess fullname name (map Some vs) s = Inr (if es = [] then n else 0, s') \<and> contents s' = c"
proof -
  let ?docs = "map go_doc (map request_doc vs)"
  have si: "server_insert store True 0 ?docs (contents s) = (c, n, es)" "?docs \<noteq> []" using assms(3,4) by simp_all
  have n: "es = [] \<Longrightarrow> n = length vs" using stored_all [OF assms(3)] by simp
  obtain s' where "bulk_Run env sess name (insert_bulk fullname True ?docs) s =
      Inr (if es = [] then Inr \<lparr>br_Matched = 0, br_Modified = 0\<rparr> else Inl (insert_cases es), s')" "contents s' = c"
    using run_inserts [OF assms(1,2) si] by blast
  then show "\<exists>s'. insert_bulk_packets env sess fullname name (map Some vs) s = Inr (if es = [] then n else 0, s') \<and> contents s' = c"
    unfolding insert_bulk_packets_def request_docs_all using insert_one_by_one(1) [OF si(2), of fullname] n by auto
  have "server_insert store (even (0 :: nat)) 0 ?docs (contents s) = (c, n, es)" using si(1) by simp
  from writeOp_insert [OF assms(1,2) this si(2), of fullname True] obtain s' l err where
    "writeOp env sess name (InsertOp fullname (map ArgDoc ?docs) 0) True s = Inr ((Some l, err), s')" "contents s' = c"
    "err = None \<longleftrightarrow> es = []" by blast
  then show "\<exists>s'. insert_packets env sess fullname name (map Some vs) s = Inr (if es = [] then n else 0, s') \<and> contents s' = c"
    unfolding insert_packets_def request_docs_all collection_Insert_def go_bind_simps
    using n by (simp only: go_bind_simps prod.case) (auto simp: stored_count_def)
qed

end
