(* ===== verification/MgoSocket.thy ===== *)
theory MgoSocket
  imports MgoWrite "HOL-Library.AList"
begin

text \<open>
  \<open>socket.go\<close>: requests as bytes on the connection, the numbers that tie replies to them, and the goroutine that
  reads the replies. A reply function is a token \<open>'f\<close>, and a call of it a \<open>reply_call\<close>. The replies are the bytes
  that the connection will deliver and the error behind them. A request is sent, and a reply is read, in one step, as
  the lock of the socket and its one reader make them. Deadlines, statistics, the references to a socket and the
  documents that \<open>finalQuery\<close> builds and \<open>flushLogout\<close> prepends are not modelled.
\<close>

subsection \<open>Bytes\<close>

definition addHeader :: "bytes \<Rightarrow> nat \<Rightarrow> bytes" where
  "addHeader b opcode = b @ replicate 12 0 @ [word_of_nat opcode, word_of_nat (opcode div 256), 0, 0]"

abbreviation addInt32 :: "bytes \<Rightarrow> 32 word \<Rightarrow> bytes" where "addInt32 b i \<equiv> b @ enc_int32 i"
abbreviation addInt64 :: "bytes \<Rightarrow> 64 word \<Rightarrow> bytes" where "addInt64 b i \<equiv> b @ enc_int64 i"
abbreviation addCString :: "bytes \<Rightarrow> string \<Rightarrow> bytes" where "addCString b s \<equiv> b @ bytes_of_string s @ [0]"

definition setInt32 :: "bytes \<Rightarrow> nat \<Rightarrow> 32 word \<Rightarrow> bytes" where
  "setInt32 b pos i = take pos b @ enc_int32 i @ drop (pos + 4) b"

definition getInt32 :: "bytes \<Rightarrow> nat \<Rightarrow> 32 word" where
  "getInt32 b pos = le_word (take 4 (drop pos b))"

definition getInt64 :: "bytes \<Rightarrow> nat \<Rightarrow> 64 word" where
  "getInt64 b pos = le_word (take 8 (drop pos b))"

text \<open>\<open>addBSON\<close>: the result keeps the bytes before the document.\<close>

definition addBSON :: "bytes \<Rightarrow> go_value \<Rightarrow> (string + bytes) go" where
  "addBSON b doc =
     (if doc = GNil then Inr (Inr (b @ [5, 0, 0, 0, 0]))
      else go_bind (Marshal doc) (\<lambda>r. Inr (case r of Inl e \<Rightarrow> Inl e | Inr d \<Rightarrow> Inr (b @ d))))"

fun addBSONs :: "bytes \<Rightarrow> go_value list \<Rightarrow> (string + bytes) go" where
  "addBSONs b [] = Inr (Inr b)"
| "addBSONs b (d # ds) = or_fail (addBSON b d) (\<lambda>b. addBSONs b ds)"

subsection \<open>Requests\<close>

record 'f query_op =
  qo_flags :: "32 word"
  qo_collection :: string
  qo_skip :: "32 word"
  qo_limit :: "32 word"
  qo_final :: go_value                       \<comment> \<open>what \<open>finalQuery\<close> returns\<close>
  qo_selector :: go_value
  qo_replyFunc :: "'f option"

datatype 'f wire_op =
    WireUpdate update_op
  | WireInsert string "go_value list" "32 word"
  | WireQuery "'f query_op"
  | WireGetMore string "32 word" "64 word" "'f option"
  | WireDelete delete_op
  | WireKillCursors "64 word list"

fun opcode_of :: "'f wire_op \<Rightarrow> nat" where
  "opcode_of (WireUpdate u) = 2001"
| "opcode_of (WireInsert c ds f) = 2002"
| "opcode_of (WireQuery q) = 2004"
| "opcode_of (WireGetMore c l k f) = 2005"
| "opcode_of (WireDelete d) = 2006"
| "opcode_of (WireKillCursors ids) = 2007"

text \<open>Behind the header.\<close>

fun add_fields :: "bytes \<Rightarrow> 'f wire_op \<Rightarrow> (string + bytes) go" where
  "add_fields b (WireUpdate u) =
     or_fail (addBSON (addInt32 (addCString (addInt32 b 0) (up_Collection u)) (word_of_nat (up_Flags u))) (up_Selector u))
       (\<lambda>b. addBSON b (up_Update u))"
| "add_fields b (WireInsert coll docs flags) = addBSONs (addCString (addInt32 b flags) coll) docs"
| "add_fields b (WireQuery q) =
     or_fail (addBSON (addInt32 (addInt32 (addCString (addInt32 b (qo_flags q)) (qo_collection q)) (qo_skip q)) (qo_limit q)) (qo_final q))
       (\<lambda>b. if qo_selector q = GNil then Inr (Inr b) else addBSON b (qo_selector q))"
| "add_fields b (WireGetMore coll limit cursorId f) =
     Inr (Inr (addInt64 (addInt32 (addCString (addInt32 b 0) coll) limit) cursorId))"
| "add_fields b (WireDelete d) =
     addBSON (addInt32 (addCString (addInt32 b 0) (del_Collection d)) (word_of_nat (del_Flags d))) (del_Selector d)"
| "add_fields b (WireKillCursors ids) =
     Inr (Inr (fold (\<lambda>i b. addInt64 b i) ids (addInt32 (addInt32 b 0) (word_of_nat (length ids)))))"

fun reply_func :: "'f wire_op \<Rightarrow> 'f option" where
  "reply_func (WireQuery q) = qo_replyFunc q"
| "reply_func (WireGetMore c l k f) = f"
| "reply_func _ = None"

text \<open>The buffer, and where in it the requests with a reply begin.\<close>

fun serialize :: "bytes \<Rightarrow> 'f wire_op list \<Rightarrow> (string + bytes \<times> (nat \<times> 'f) list) go" where
  "serialize b [] = Inr (Inr (b, []))"
| "serialize b (w # ws) =
     or_fail (add_fields (addHeader b (opcode_of w)) w) (\<lambda>b'.
     or_fail (serialize (setInt32 b' (length b) (word_of_nat (length b' - length b))) ws) (\<lambda>(b'', reqs).
     Inr (Inr (b'', (case reply_func w of None \<Rightarrow> reqs | Some f \<Rightarrow> (length b, f) # reqs)))))"

record 'f mgo_socket =
  sk_nextRequestId :: "32 word"
  sk_replyFuncs :: "(32 word \<times> 'f) list"
  sk_dead :: "string option"
  sk_sent :: "bytes list"

record reply_op =
  rp_flags :: "32 word"
  rp_cursorId :: "64 word"
  rp_firstDoc :: "32 word"
  rp_replyDocs :: "32 word"

datatype 'f reply_call =
    ReplyError 'f string
  | ReplyEmpty 'f reply_op
  | ReplyDoc 'f reply_op nat bytes

fun number_requests :: "32 word \<Rightarrow> (nat \<times> 'f) list \<Rightarrow> bytes \<Rightarrow> (32 word \<times> 'f) list \<Rightarrow> bytes \<times> (32 word \<times> 'f) list" where
  "number_requests i [] b fs = (b, fs)"
| "number_requests i ((pos, f) # reqs) b fs = number_requests (i + 1) reqs (setInt32 b (pos + 4) i) (AList.update i f fs)"

definition first_request_id :: "32 word \<Rightarrow> 32 word" where
  "first_request_id i = (if i + 1 = 0 then 1 else i + 1)"

text \<open>\<open>Query\<close>; \<open>answer\<close> is what writing to the connection returns.\<close>

definition socket_Query ::
  "string option \<Rightarrow> 'f wire_op list \<Rightarrow> 'f mgo_socket \<Rightarrow> (string option \<times> 'f mgo_socket \<times> 'f reply_call list) go" where
  "socket_Query answer ops s =
     go_bind (serialize [] ops) (\<lambda>r.
       case r of
         Inl e \<Rightarrow> Inr (Some e, s, [])
       | Inr (b, reqs) \<Rightarrow>
           (case sk_dead s of
              Some e \<Rightarrow> Inr (Some e, s, map (\<lambda>(pos, f). ReplyError f e) reqs)
            | None \<Rightarrow>
                (let i = first_request_id (sk_nextRequestId s);
                     (b, fs) = number_requests i reqs b (sk_replyFuncs s)
                 in Inr (answer, s\<lparr>sk_nextRequestId := i + word_of_nat (length reqs), sk_replyFuncs := fs,
                      sk_sent := sk_sent s @ [b]\<rparr>, []))))"

subsection \<open>Replies\<close>

definition socket_kill :: "string \<Rightarrow> 'f mgo_socket \<Rightarrow> 'f mgo_socket \<times> 'f reply_call list" where
  "socket_kill e s =
     (if sk_dead s \<noteq> None then (s, [])
      else (s\<lparr>sk_dead := Some e, sk_replyFuncs := []\<rparr>, map (\<lambda>(i, f). ReplyError f e) (sk_replyFuncs s)))"

text \<open>
  The documents of a reply, from the \<open>i\<close>th on: the calls, and the bytes behind them or that reading failed. A buffer
  of a negative length cannot be made, and the length is copied into one of fewer than four bytes.
\<close>

function read_docs ::
  "'f option \<Rightarrow> reply_op \<Rightarrow> string \<Rightarrow> int \<Rightarrow> bytes \<Rightarrow> ('f reply_call list \<times> bytes option) go" where
  "read_docs f reply e i st =
     (if i = sint (rp_replyDocs reply) then Inr ([], Some st)
      else if length st < 4 then Inr ((case f of None \<Rightarrow> [] | Some g \<Rightarrow> [ReplyError g e]), None)
      else
        (let l = sint (getInt32 st 0) in
         if l < 0 then Inl SliceOutOfRange
         else if l < 4 then Inl IndexOutOfRange
         else if length st < nat l then Inr ((case f of None \<Rightarrow> [] | Some g \<Rightarrow> [ReplyError g e]), None)
         else
           go_bind (read_docs f reply e (i + 1) (drop (nat l) st)) (\<lambda>(calls, r).
             Inr ((case f of None \<Rightarrow> [] | Some g \<Rightarrow> [ReplyDoc g reply (nat i) (take (nat l) st)]) @ calls, r))))"
  by pat_completeness auto
termination
  by (relation "measure (\<lambda>(f, reply, e, i, st). length st)") auto

declare read_docs.simps [simp del]

definition reply_of :: "bytes \<Rightarrow> reply_op" where
  "reply_of p = \<lparr>rp_flags = getInt32 p 16, rp_cursorId = getInt64 p 20, rp_firstDoc = getInt32 p 28, rp_replyDocs = getInt32 p 32\<rparr>"

definition killed :: "string \<Rightarrow> 'f reply_call list \<Rightarrow> 'f mgo_socket \<Rightarrow> ('f mgo_socket \<times> 'f reply_call list \<times> bytes option) go" where
  "killed e calls s = (let (s, cs) = socket_kill e s in Inr (s, calls @ cs, None))"

text \<open>One turn of \<open>readLoop\<close>: the bytes that are left, or \<open>None\<close> when it has ended.\<close>

definition read_reply :: "string \<Rightarrow> bytes \<Rightarrow> 'f mgo_socket \<Rightarrow> ('f mgo_socket \<times> 'f reply_call list \<times> bytes option) go" where
  "read_reply e st s =
     (if length st < 36 then killed e [] s
      else if getInt32 st 12 \<noteq> 1 then killed ''opcode != 1, corrupted data?'' [] s
      else
        (let reply = reply_of (take 36 st); f = map_of (sk_replyFuncs s) (getInt32 st 8);
             s = s\<lparr>sk_replyFuncs := AList.delete (getInt32 st 8) (sk_replyFuncs s)\<rparr>
         in if f \<noteq> None \<and> rp_replyDocs reply = 0 then Inr (s, [ReplyEmpty (the f) reply], Some (drop 36 st))
            else
              go_bind (read_docs f reply e 0 (drop 36 st)) (\<lambda>(calls, r).
                case r of None \<Rightarrow> killed e calls s | Some st \<Rightarrow> Inr (s, calls, Some st))))"

lemma read_docs_shorter: "read_docs f reply e i st = Inr (calls, Some st') \<Longrightarrow> length st' \<le> length st"
proof (induction f reply e i st arbitrary: calls rule: read_docs.induct)
  case (1 f reply e i st)
  show ?case
  proof (cases "i = sint (rp_replyDocs reply) \<or> length st < 4 \<or> sint (getInt32 st 0) < 4 \<or> length st < nat (sint (getInt32 st 0))")
    case True
    then show ?thesis using 1(2) by (subst (asm) read_docs.simps) (auto simp: Let_def split: if_splits)
  next
    case False
    then obtain cs where "read_docs f reply e (i + 1) (drop (nat (sint (getInt32 st 0))) st) = Inr (cs, Some st')"
      using 1(2) by (subst (asm) read_docs.simps) (auto simp: Let_def go_bind_eq_Inr split: if_splits)
    from 1(1) [OF _ _ refl _ _ _ this] False show ?thesis by simp
  qed
qed

lemma killed_ends: "killed e calls s \<noteq> Inr (s', cs, Some st)"
  by (simp add: killed_def case_prod_unfold Let_def)

lemma read_reply_eq:
  assumes "36 \<le> length st" "getInt32 st 12 = 1"
    and "map_of (sk_replyFuncs s) (getInt32 st 8) = None \<or> rp_replyDocs (reply_of (take 36 st)) \<noteq> 0"
  shows "read_reply e st s =
    go_bind (read_docs (map_of (sk_replyFuncs s) (getInt32 st 8)) (reply_of (take 36 st)) e 0 (drop 36 st)) (\<lambda>(calls, r).
        case r of None \<Rightarrow> killed e calls (s\<lparr>sk_replyFuncs := AList.delete (getInt32 st 8) (sk_replyFuncs s)\<rparr>)
        | Some rest \<Rightarrow> Inr (s\<lparr>sk_replyFuncs := AList.delete (getInt32 st 8) (sk_replyFuncs s)\<rparr>, calls, Some rest))"
proof -
  have "\<not> length st < 36" "\<not> getInt32 st 12 \<noteq> 1"
    "\<not> (map_of (sk_replyFuncs s) (getInt32 st 8) \<noteq> None \<and> rp_replyDocs (reply_of (take 36 st)) = 0)"
    using assms by auto
  then show ?thesis unfolding read_reply_def Let_def by (simp only: if_False)
qed

lemma read_reply_shorter:
  assumes "read_reply e st s = Inr (s', calls, Some st')"
  shows "length st' < length st"
proof -
  have h: "36 \<le> length st" "getInt32 st 12 = 1"
    using assms killed_ends by (fastforce simp: read_reply_def split: if_splits)+
  let ?f = "map_of (sk_replyFuncs s) (getInt32 st 8)" and ?r = "reply_of (take 36 st)"
  have "st' = drop 36 st \<or> (\<exists>cs. read_docs ?f ?r e 0 (drop 36 st) = Inr (cs, Some st'))"
  proof (cases "?f \<noteq> None \<and> rp_replyDocs ?r = 0")
    case True
    then show ?thesis using assms h by (auto simp: read_reply_def Let_def)
  next
    case False
    then have n: "?f = None \<or> rp_replyDocs ?r \<noteq> 0" by blast
    have "go_bind (read_docs ?f ?r e 0 (drop 36 st)) (\<lambda>(calls, r).
        case r of None \<Rightarrow> killed e calls (s\<lparr>sk_replyFuncs := AList.delete (getInt32 st 8) (sk_replyFuncs s)\<rparr>)
        | Some rest \<Rightarrow> Inr (s\<lparr>sk_replyFuncs := AList.delete (getInt32 st 8) (sk_replyFuncs s)\<rparr>, calls, Some rest)) =
        Inr (s', calls, Some st')"
      using assms unfolding read_reply_eq [OF h n] .
    then show ?thesis
      by (auto simp: go_bind_eq_Inr killed_ends split: option.splits)
  qed
  then have "length st' \<le> length (drop 36 st)" using read_docs_shorter by blast
  then show ?thesis using h(1) by simp
qed

text \<open>\<open>readLoop\<close> with nothing sent between: the calls, in order, until the connection is given up.\<close>

function readLoop :: "string \<Rightarrow> bytes \<Rightarrow> 'f mgo_socket \<Rightarrow> ('f mgo_socket \<times> 'f reply_call list) go" where
  "readLoop e st s =
     (case read_reply e st s of
        Inl p \<Rightarrow> Inl p
      | Inr (s, calls, None) \<Rightarrow> Inr (s, calls)
      | Inr (s, calls, Some st) \<Rightarrow> go_bind (readLoop e st s) (\<lambda>(s, cs). Inr (s, calls @ cs)))"
  by pat_completeness auto
termination
  by (relation "measure (\<lambda>(e, st, s). length st)") (auto dest: read_reply_shorter)

declare readLoop.simps [simp del]

end
