(* ===== verification/MgoReplies.thy ===== *)
theory MgoReplies
  imports MgoSocket
begin

text \<open>
  What the socket promises: the bytes of a request split into its operations again, the numbers of outstanding
  requests are distinct, and every reply function is called, with the documents of its reply or with the error that
  ends the connection.
\<close>

subsection \<open>Messages\<close>

definition lift_bytes :: "bytes \<Rightarrow> (string + bytes) go \<Rightarrow> (string + bytes) go" where
  "lift_bytes b m = or_fail m (\<lambda>f. Inr (Inr (b @ f)))"

lemma addBSON_lift: "addBSON (a @ b) doc = lift_bytes a (addBSON b doc)"
  by (cases "Marshal doc") (auto simp: addBSON_def lift_bytes_def split: sum.splits)

lemma or_fail_lift:
  "(\<And>b. g (a @ b) = lift_bytes a (g b)) \<Longrightarrow> or_fail (lift_bytes a m) g = lift_bytes a (or_fail m g)"
  by (cases m) (auto simp: lift_bytes_def or_fail_def split: sum.splits)

lemma addBSONs_lift: "addBSONs (a @ b) ds = lift_bytes a (addBSONs b ds)"
proof (induction ds arbitrary: b)
  case (Cons d ds)
  then show ?case by (simp add: addBSON_lift or_fail_lift)
qed (simp add: lift_bytes_def)

lemma fold_addInt64: "fold (\<lambda>i b. addInt64 b i) ids b = b @ concat (map enc_int64 ids)"
  by (induction ids arbitrary: b) simp_all

lemma add_fields_lift: "add_fields (a @ b) w = lift_bytes a (add_fields b w)"
proof (cases w)
  case (WireUpdate u)
  then show ?thesis by (simp add: addBSON_lift or_fail_lift)
next
  case (WireInsert coll docs flags)
  then show ?thesis by (simp add: addBSONs_lift)
next
  case (WireQuery q)
  have "(if qo_selector q = GNil then Inr (Inr (a @ b)) else addBSON (a @ b) (qo_selector q)) =
      lift_bytes a (if qo_selector q = GNil then Inr (Inr b) else addBSON b (qo_selector q))" for b
    by (simp add: addBSON_lift) (simp add: lift_bytes_def)
  then show ?thesis using WireQuery by (simp add: addBSON_lift or_fail_lift)
next
  case (WireDelete d)
  then show ?thesis by (simp add: addBSON_lift)
qed (simp_all add: lift_bytes_def fold_addInt64)

text \<open>The message of an operation, with no number yet.\<close>

definition message :: "'f wire_op \<Rightarrow> bytes \<Rightarrow> bytes \<Rightarrow> bool" where
  "message w f m \<longleftrightarrow> add_fields [] w = Inr (Inr f) \<and>
     m = len32 (16 + length f) @ replicate 8 0 @ [word_of_nat (opcode_of w), word_of_nat (opcode_of w div 256), 0, 0] @ f"

lemma length_message: "message w f m \<Longrightarrow> length m = 16 + length f"
  by (simp add: message_def enc_int32_def)

fun positions :: "nat \<Rightarrow> ('f wire_op \<times> bytes) list \<Rightarrow> (nat \<times> 'f) list" where
  "positions p [] = []"
| "positions p ((w, m) # ms) =
     (case reply_func w of None \<Rightarrow> positions (p + length m) ms | Some f \<Rightarrow> (p, f) # positions (p + length m) ms)"

definition messages :: "'f wire_op list \<Rightarrow> ('f wire_op \<times> bytes) list \<Rightarrow> bool" where
  "messages ws ms \<longleftrightarrow> map fst ms = ws \<and> (\<forall>(w, m) \<in> set ms. \<exists>f. message w f m)"

lemma setInt32_at: "length p = k \<Longrightarrow> 4 \<le> length q \<Longrightarrow> setInt32 (p @ q) k i = p @ enc_int32 i @ drop 4 q"
  by (simp add: setInt32_def)

lemma serialize_messages:
  assumes "serialize b ws = Inr (Inr (b', reqs))"
  shows "\<exists>ms. messages ws ms \<and> b' = b @ concat (map snd ms) \<and> reqs = positions (length b) ms"
  using assms
proof (induction ws arbitrary: b b' reqs)
  case Nil
  then show ?case by (auto simp: messages_def)
next
  case (Cons w ws)
  from Cons.prems obtain b1 reqs1 where b1: "add_fields (addHeader b (opcode_of w)) w = Inr (Inr b1)"
    "serialize (setInt32 b1 (length b) (word_of_nat (length b1 - length b))) ws = Inr (Inr (b', reqs1))"
    "reqs = (case reply_func w of None \<Rightarrow> reqs1 | Some f \<Rightarrow> (length b, f) # reqs1)"
    by (auto simp: or_fail_eq)
  have "add_fields (addHeader b (opcode_of w) @ []) w = lift_bytes (addHeader b (opcode_of w)) (add_fields [] w)"
    by (rule add_fields_lift)
  then have "lift_bytes (addHeader b (opcode_of w)) (add_fields [] w) = Inr (Inr b1)" using b1(1) by simp
  then obtain f where f: "add_fields [] w = Inr (Inr f)" "b1 = addHeader b (opcode_of w) @ f"
    by (auto simp: lift_bytes_def or_fail_eq)
  let ?m = "len32 (16 + length f) @ replicate 8 0 @ [word_of_nat (opcode_of w), word_of_nat (opcode_of w div 256), 0, 0] @ f"
  have h: "b1 = b @ (replicate 12 0 @ [word_of_nat (opcode_of w), word_of_nat (opcode_of w div 256), 0, 0] @ f)"
    by (simp add: f(2) addHeader_def)
  have "setInt32 b1 (length b) (word_of_nat (length b1 - length b)) = b @ ?m"
    unfolding h by (subst setInt32_at) (simp_all add: drop_append)
  with b1(2) have "serialize (b @ ?m) ws = Inr (Inr (b', reqs1))" by simp
  from Cons.IH [OF this] obtain ms where ms: "messages ws ms" "b' = (b @ ?m) @ concat (map snd ms)"
    "reqs1 = positions (length (b @ ?m)) ms" by blast
  have "message w f ?m" using f(1) by (simp add: message_def)
  then have "messages (w # ws) ((w, ?m) # ms)" using ms(1) by (auto simp: messages_def)
  moreover have "reqs = positions (length b) ((w, ?m) # ms)" using b1(3) ms(3) by (cases "reply_func w") simp_all
  ultimately show ?case using ms(2) by (intro exI [of _ "(w, ?m) # ms"]) simp
qed

subsection \<open>Numbers\<close>

definition set_id :: "32 word \<Rightarrow> bytes \<Rightarrow> bytes" where
  "set_id i m = take 4 m @ enc_int32 i @ drop 8 m"

fun numbered :: "32 word \<Rightarrow> ('f wire_op \<times> bytes) list \<Rightarrow> bytes list" where
  "numbered i [] = []"
| "numbered i ((w, m) # ms) =
     (case reply_func w of None \<Rightarrow> m # numbered i ms | Some f \<Rightarrow> set_id i m # numbered (i + 1) ms)"

fun registered :: "32 word \<Rightarrow> 'f wire_op list \<Rightarrow> (32 word \<times> 'f) list" where
  "registered i [] = []"
| "registered i (w # ws) =
     (case reply_func w of None \<Rightarrow> registered i ws | Some f \<Rightarrow> (i, f) # registered (i + 1) ws)"

lemma number_messages:
  assumes "\<forall>(w, m) \<in> set ms. 8 \<le> length m"
  shows "number_requests i (positions (length b) ms) (b @ concat (map snd ms)) fs =
    (b @ concat (numbered i ms), fold (\<lambda>(k, f). AList.update k f) (registered i (map fst ms)) fs)"
  using assms
proof (induction ms arbitrary: b i fs)
  case (Cons wm ms)
  obtain w m where wm: "wm = (w, m)" by (cases wm)
  have ms: "\<forall>(w, m) \<in> set ms. 8 \<le> length m" and m: "8 \<le> length m" using Cons.prems wm by auto
  show ?case
  proof (cases "reply_func w")
    case None
    then show ?thesis using Cons.IH [OF ms, of i "b @ m"] by (simp add: wm)
  next
    case (Some f)
    let ?c = "concat (map snd ms)"
    have split: "b @ m @ ?c = (b @ take 4 m) @ (drop 4 m @ ?c)" by (metis append.assoc append_take_drop_id)
    have "setInt32 (b @ m @ ?c) (length b + 4) i = b @ set_id i m @ ?c"
      unfolding split using m by (subst setInt32_at) (simp_all add: set_id_def)
    moreover have "length (set_id i m) = length m" using m by (simp add: set_id_def enc_int32_def)
    ultimately show ?thesis
      using Cons.IH [OF ms, of "i + 1" "b @ set_id i m" "AList.update i f fs"] Some by (simp add: wm)
  qed
qed simp

text \<open>Splitting the bytes again: number, operation and fields of each message.\<close>

function read_messages :: "bytes \<Rightarrow> (32 word \<times> 32 word \<times> bytes) list option" where
  "read_messages b =
     (if b = [] then Some []
      else
        (let n = unat (getInt32 b 0) in
         if length b < 16 \<or> n < 16 \<or> length b < n then None
         else map_option (Cons (getInt32 b 4, getInt32 b 12, take (n - 16) (drop 16 b))) (read_messages (drop n b))))"
  by pat_completeness auto
termination
  by (relation "measure length") auto

declare read_messages.simps [simp del]

fun numbers :: "32 word \<Rightarrow> 'f wire_op list \<Rightarrow> 32 word list" where
  "numbers i [] = []"
| "numbers i (w # ws) = (case reply_func w of None \<Rightarrow> 0 # numbers i ws | Some f \<Rightarrow> i # numbers (i + 1) ws)"

lemma getInt32_at: "getInt32 (p @ enc_int32 i @ q) (length p) = i"
  by (simp add: getInt32_def enc_int32_def le_word_le_bytes take_bit_word_eq_self)

definition body_of :: "'f wire_op \<Rightarrow> bytes" where
  "body_of w = (case add_fields [] w of Inr (Inr f) \<Rightarrow> f | _ \<Rightarrow> [])"

lemma opcode_word: "getInt32 (p @ [word_of_nat (opcode_of w), word_of_nat (opcode_of w div 256), 0, 0] @ f) (length p) = word_of_nat (opcode_of w)"
  by (cases w) (simp_all add: getInt32_def)

lemma read_message:
  assumes "message w f m" "length m < 2 ^ 32"
  shows "read_messages (set_id i m @ rest) = map_option (Cons (i, word_of_nat (opcode_of w), f)) (read_messages rest)"
    and "set_id 0 m = m"
proof -
  let ?op = "[word_of_nat (opcode_of w), word_of_nat (opcode_of w div 256), 0, 0] :: bytes"
  have m: "m = len32 (16 + length f) @ replicate 8 0 @ ?op @ f" "length m = 16 + length f"
    using assms(1) length_message by (auto simp: message_def)
  have set: "set_id i m = len32 (16 + length f) @ enc_int32 i @ replicate 4 0 @ ?op @ f" for i
    unfolding m(1) by (simp add: set_id_def enc_int32_def)
  have zero: "enc_int32 0 = replicate 4 0" by (simp add: enc_int32_def numeral_eq_Suc)
  show "set_id 0 m = m" unfolding set zero unfolding m(1) by (simp flip: append_assoc replicate_add)
  let ?b = "set_id i m @ rest"
  have "getInt32 ?b 0 = word_of_nat (16 + length f)"
    using getInt32_at [of "[]"] by (simp add: set)
  then have n: "unat (getInt32 ?b 0) = length m"
    using assms(2) m(2) by (simp add: unat_of_nat del: of_nat_add)
  have l: "length (set_id i m) = length m" by (simp add: set m(2) enc_int32_def)
  have i: "getInt32 ?b 4 = i"
    using getInt32_at [of "len32 (16 + length f)" i "replicate 4 0 @ ?op @ f @ rest"] by (simp add: set enc_int32_def)
  have o: "getInt32 ?b 12 = word_of_nat (opcode_of w)"
    using opcode_word [of "len32 (16 + length f) @ enc_int32 i @ replicate 4 0" w "f @ rest"]
    by (simp add: set enc_int32_def del: replicate.simps)
  have front: "drop 16 (p @ q) = q" if "length p = 16" for p q :: bytes using that by simp
  have b: "?b = (len32 (16 + length f) @ enc_int32 i @ replicate 4 0 @ ?op) @ f @ rest" by (simp add: set)
  have "drop 16 ?b = f @ rest" unfolding b by (rule front) simp
  then have "take (length m - 16) (drop 16 ?b) = f" by (simp add: m(2))
  moreover have "drop (length m) ?b = rest" by (simp add: l)
  moreover have "?b \<noteq> []" "16 \<le> length m" using l m(2) by auto
  ultimately show "read_messages ?b = map_option (Cons (i, word_of_nat (opcode_of w), f)) (read_messages rest)"
    using n i o l m(2) by (subst read_messages.simps) (auto simp: Let_def)
qed

lemma read_numbered:
  assumes "messages ws ms" "\<forall>m \<in> set (map snd ms). length m < 2 ^ 32"
  shows "read_messages (concat (numbered i ms)) = Some (zip (numbers i ws) (map (\<lambda>w. (word_of_nat (opcode_of w), body_of w)) ws))"
  using assms
proof (induction ms arbitrary: i ws)
  case Nil
  then show ?case by (simp add: messages_def read_messages.simps)
next
  case (Cons wm ms)
  obtain w m where wm: "wm = (w, m)" by (cases wm)
  obtain ws' f where w: "ws = w # ws'" "messages ws' ms" "message w f m"
    using Cons.prems(1) wm by (auto simp: messages_def)
  have f: "f = body_of w" using w(3) by (simp add: message_def body_of_def)
  have len: "length m < 2 ^ 32" using Cons.prems(2) wm by simp
  note IH = Cons.IH [OF w(2)]
  show ?case
    using IH Cons.prems(2) read_message(1) [OF w(3) len] read_message(1) [OF w(3) len, of 0, unfolded read_message(2) [OF w(3) len]]
    by (cases "reply_func w") (simp_all add: wm w(1) f)
qed

subsection \<open>Outstanding requests\<close>

text \<open>With \<open>t\<close> numbers given out so far, all below 2^32, the outstanding ones are among them and distinct.\<close>

definition socket_inv :: "nat \<Rightarrow> 'f mgo_socket \<Rightarrow> bool" where
  "socket_inv t s \<longleftrightarrow>
     t < 2 ^ 32 \<and> sk_nextRequestId s = word_of_nat t \<and> distinct (map fst (sk_replyFuncs s)) \<and>
     (\<forall>k \<in> fst ` set (sk_replyFuncs s). 0 < unat k \<and> unat k \<le> t)"

definition request_count :: "'f wire_op list \<Rightarrow> nat" where
  "request_count ws = length (filter (\<lambda>w. reply_func w \<noteq> None) ws)"

lemma request_count_simps [simp]:
  "request_count [] = 0"
  "request_count (w # ws) = (case reply_func w of None \<Rightarrow> request_count ws | Some f \<Rightarrow> Suc (request_count ws))"
  by (auto simp: request_count_def split: option.splits)

lemma length_positions: "length (positions p ms) = request_count (map fst ms)"
  by (induction ms arbitrary: p) (auto split: option.splits)

lemma registered_keys:
  assumes "t + request_count ws < 2 ^ 32"
  shows "distinct (map fst (registered (word_of_nat (Suc t)) ws)) \<and>
    (\<forall>k \<in> fst ` set (registered (word_of_nat (Suc t)) ws). t < unat k \<and> unat k \<le> t + request_count ws)"
  using assms
proof (induction ws arbitrary: t)
  case (Cons w ws)
  show ?case
  proof (cases "reply_func w")
    case None
    then show ?thesis using Cons.IH [of t] Cons.prems by simp
  next
    case (Some f)
    have "unat (word_of_nat (Suc t) :: 32 word) = Suc t" using Cons.prems Some by (simp add: unat_of_nat del: of_nat_Suc)
    moreover have "(word_of_nat (Suc t) :: 32 word) + 1 = word_of_nat (Suc (Suc t))" by simp
    moreover have "Suc t + request_count ws < 2 ^ 32" using Cons.prems Some by simp
    note Cons.IH [OF this]
    ultimately show ?thesis using Some by (fastforce simp del: of_nat_Suc)
  qed
qed simp

lemma fold_update_new:
  "distinct (map fst al @ map fst new) \<Longrightarrow> fold (\<lambda>(k, f). AList.update k f) new al = al @ new"
proof (induction new arbitrary: al)
  case (Cons e new)
  obtain k f where e: "e = (k, f)" by (cases e)
  have "k \<notin> fst ` set al" using Cons.prems e by auto
  then have "AList.update k f al = al @ [(k, f)]" by (induction al) auto
  then show ?case using Cons.IH [of "al @ [(k, f)]"] Cons.prems e by simp
qed simp

lemma first_request_id_nat: "t + 1 < 2 ^ 32 \<Longrightarrow> first_request_id (word_of_nat t) = word_of_nat (Suc t)"
proof -
  assume t: "t + 1 < 2 ^ 32"
  have "unat (word_of_nat (Suc t) :: 32 word) = Suc t" using t by (simp add: unat_of_nat del: of_nat_Suc)
  then have "(word_of_nat t :: 32 word) + 1 \<noteq> 0" by (metis of_nat_Suc add.commute unat_0 nat.distinct(1))
  then show ?thesis by (simp add: first_request_id_def add.commute)
qed

text \<open>A request on a socket that is alive.\<close>

definition after_request :: "nat \<Rightarrow> 'f wire_op list \<Rightarrow> ('f wire_op \<times> bytes) list \<Rightarrow> 'f mgo_socket \<Rightarrow> 'f mgo_socket" where
  "after_request t ws ms s =
     s\<lparr>sk_nextRequestId := word_of_nat (t + request_count ws + 1),
       sk_replyFuncs := sk_replyFuncs s @ registered (word_of_nat (Suc t)) ws,
       sk_sent := sk_sent s @ [concat (numbered (word_of_nat (Suc t)) ms)]\<rparr>"

lemma request_sent:
  assumes "socket_inv t s" "sk_dead s = None" "serialize [] ws = Inr (Inr (b, reqs))"
    and "t + request_count ws + 1 < 2 ^ 32"
  obtains ms where "messages ws ms" "b = concat (map snd ms)"
    and "\<And>answer. socket_Query answer ws s = Inr (answer, after_request t ws ms s, [])"
    and "socket_inv (t + request_count ws + 1) (after_request t ws ms s)"
proof -
  obtain ms where ms: "messages ws ms" "b = concat (map snd ms)" "reqs = positions 0 ms"
    using serialize_messages [OF assms(3)] by auto
  have fst: "map fst ms = ws" using ms(1) by (simp add: messages_def)
  have "\<forall>(w, m) \<in> set ms. 8 \<le> length m" using ms(1) length_message by (fastforce simp: messages_def)
  from number_messages [OF this, of "word_of_nat (Suc t)" "[]" "sk_replyFuncs s"] fst
  have num: "number_requests (word_of_nat (Suc t)) reqs b (sk_replyFuncs s) =
    (concat (numbered (word_of_nat (Suc t)) ms), fold (\<lambda>(k, f). AList.update k f) (registered (word_of_nat (Suc t)) ws) (sk_replyFuncs s))"
    by (simp add: ms(2,3) del: of_nat_Suc)
  have keys: "distinct (map fst (registered (word_of_nat (Suc t)) ws))"
    "\<And>k. k \<in> fst ` set (registered (word_of_nat (Suc t)) ws) \<Longrightarrow> t < unat k \<and> unat k \<le> t + request_count ws"
    using registered_keys [of t ws] assms(4) by auto
  have old: "\<And>k. k \<in> fst ` set (sk_replyFuncs s) \<Longrightarrow> 0 < unat k \<and> unat k \<le> t"
    using assms(1) by (auto simp: socket_inv_def)
  have dist: "distinct (map fst (sk_replyFuncs s) @ map fst (registered (word_of_nat (Suc t)) ws))"
    using assms(1) keys old by (fastforce simp: socket_inv_def)
  have next_id: "word_of_nat (Suc t) + word_of_nat (length reqs) = (word_of_nat (t + request_count ws + 1) :: 32 word)"
    by (simp add: ms(3) length_positions fst)
  have first: "first_request_id (sk_nextRequestId s) = word_of_nat (Suc t)"
    using assms(1,4) first_request_id_nat [of t] by (simp add: socket_inv_def del: of_nat_Suc)
  have q: "socket_Query answer ws s = Inr (answer, after_request t ws ms s, [])" for answer
    unfolding socket_Query_def assms(3) go_bind_simps sum.case prod.case assms(2) option.case Let_def first num
      fold_update_new [OF dist] next_id after_request_def by simp
  have "socket_inv (t + request_count ws + 1) (after_request t ws ms s)"
    unfolding socket_inv_def after_request_def using assms(4) dist keys(2) old by fastforce
  then show thesis using that ms(1,2) q by blast
qed

subsection \<open>Replies\<close>

text \<open>A document as replies carry it, and the bytes of a reply.\<close>

definition framed :: "bytes \<Rightarrow> bool" where
  "framed d \<longleftrightarrow> 4 \<le> length d \<and> length d < 2 ^ 31 \<and> getInt32 d 0 = word_of_nat (length d)"

definition reply_message :: "32 word \<Rightarrow> 32 word \<Rightarrow> 32 word \<Rightarrow> 64 word \<Rightarrow> 32 word \<Rightarrow> bytes list \<Rightarrow> bytes" where
  "reply_message reqid i flags cursor firstDoc docs =
     len32 (36 + length (concat docs)) @ enc_int32 reqid @ enc_int32 i @ enc_int32 1 @ enc_int32 flags @ enc_int64 cursor @
       enc_int32 firstDoc @ len32 (length docs) @ concat docs"

lemma marshalled_framed:
  assumes "Marshal v = Inr (Inr d)" "v = GMap es \<or> v = GD es" "length d < 2 ^ 31"
  shows "framed d"
proof -
  from assms(1,2) obtain c where c: "d = len32 (length c + 5) @ c @ [0]"
    by (auto simp: Marshal_def addDoc.simps handleErr_def wrap_doc_def go_bind_def split: sum.splits go_panic.splits)
  have "getInt32 d 0 = word_of_nat (length c + 5)" using getInt32_at [of "[]" _ "c @ [0]"] by (simp add: c)
  then show ?thesis using assms(3) by (simp add: framed_def c)
qed

definition doc_calls :: "'f option \<Rightarrow> reply_op \<Rightarrow> nat \<Rightarrow> bytes list \<Rightarrow> 'f reply_call list" where
  "doc_calls f reply i docs = (case f of None \<Rightarrow> [] | Some g \<Rightarrow> map (\<lambda>(k, d). ReplyDoc g reply k d) (enumerate i docs))"

lemma sint_of_nat: "int k < 2 ^ 31 \<Longrightarrow> sint (word_of_nat k :: 32 word) = int k"
proof -
  assume k: "int k < 2 ^ 31"
  then have "uint (word_of_nat k :: 32 word) = int k" by (simp add: uint_nat unat_of_nat)
  then show ?thesis using k by (simp add: sint_uint signed_take_bit_int_eq_self)
qed

lemma read_docs_all:
  assumes "sint (rp_replyDocs reply) = int (i + length docs)" "\<forall>d \<in> set docs. framed d"
  shows "read_docs f reply e (int i) (concat docs @ rest) = Inr (doc_calls f reply i docs, Some rest)"
  using assms
proof (induction docs arbitrary: i)
  case Nil
  then show ?case by (simp add: read_docs.simps doc_calls_def split: option.splits)
next
  case (Cons d docs)
  let ?st = "d @ concat docs @ rest"
  have d: "4 \<le> length d" "length d < 2 ^ 31" "getInt32 d 0 = word_of_nat (length d)"
    using Cons.prems(2) by (simp_all add: framed_def)
  have "getInt32 ?st 0 = getInt32 d 0" using d(1) by (simp add: getInt32_def)
  then have l: "sint (getInt32 ?st 0) = int (length d)" using d by (simp add: sint_of_nat)
  have "read_docs f reply e (int (Suc i)) (concat docs @ rest) = Inr (doc_calls f reply (Suc i) docs, Some rest)"
    using Cons.prems by (intro Cons.IH) simp_all
  then show ?case
    using d l Cons.prems(1) by (subst read_docs.simps) (simp add: Let_def doc_calls_def add.commute split: option.splits)
qed

text \<open>One reply, whatever comes behind it.\<close>

definition reply_calls :: "'f option \<Rightarrow> reply_op \<Rightarrow> bytes list \<Rightarrow> 'f reply_call list" where
  "reply_calls f reply docs =
     (if docs = [] then (case f of None \<Rightarrow> [] | Some g \<Rightarrow> [ReplyEmpty g reply]) else doc_calls f reply 0 docs)"

definition reply_head :: "32 word \<Rightarrow> 64 word \<Rightarrow> 32 word \<Rightarrow> bytes list \<Rightarrow> reply_op" where
  "reply_head flags cursor firstDoc docs =
     \<lparr>rp_flags = flags, rp_cursorId = cursor, rp_firstDoc = firstDoc, rp_replyDocs = word_of_nat (length docs)\<rparr>"

lemma read_one_reply:
  assumes "\<forall>d \<in> set docs. framed d" "length docs < 2 ^ 31"
  shows "read_reply e (reply_message reqid i flags cursor firstDoc docs @ rest) s =
    Inr (s\<lparr>sk_replyFuncs := AList.delete i (sk_replyFuncs s)\<rparr>,
      reply_calls (map_of (sk_replyFuncs s) i) (reply_head flags cursor firstDoc docs) docs, Some rest)"
proof -
  let ?st = "reply_message reqid i flags cursor firstDoc docs @ rest"
  let ?f = "map_of (sk_replyFuncs s) i" and ?r = "reply_head flags cursor firstDoc docs"
  let ?len = "len32 (36 + length (concat docs))"
  have at: "getInt32 ?st (length p) = v" if "?st = p @ enc_int32 v @ q" for p v q using getInt32_at that by metis
  have op: "getInt32 ?st 12 = 1"
    using at [of "?len @ enc_int32 reqid @ enc_int32 i" 1] by (simp add: reply_message_def)
  have id: "getInt32 ?st 8 = i"
    using at [of "?len @ enc_int32 reqid" i] by (simp add: reply_message_def)
  let ?front = "?len @ enc_int32 reqid @ enc_int32 i @ enc_int32 1 @ enc_int32 flags @ enc_int64 cursor @ enc_int32 firstDoc @ len32 (length docs)"
  have st: "?st = ?front @ concat docs @ rest" by (simp add: reply_message_def)
  have front: "take 36 (p @ q) = p" "drop 36 (p @ q) = q" if "length p = 36" for p q :: bytes using that by simp_all
  have l: "length ?front = 36" by simp
  have d: "drop 36 ?st = concat docs @ rest" "take 36 ?st = ?front" unfolding st using front [OF l] by blast+
  have fat: "getInt32 ?front (length p) = v" if "?front = p @ enc_int32 v @ q" for p v q using getInt32_at that by metis
  have at64: "getInt64 (p @ enc_int64 v @ q) (length p) = v" for p v q
    by (simp add: getInt64_def enc_int64_def le_word_le_bytes take_bit_word_eq_self)
  have r: "reply_of (take 36 ?st) = ?r"
    unfolding d(2) reply_of_def reply_head_def
    using fat [of "?len @ enc_int32 reqid @ enc_int32 i @ enc_int32 1" flags]
      at64 [of "?len @ enc_int32 reqid @ enc_int32 i @ enc_int32 1 @ enc_int32 flags" cursor "enc_int32 firstDoc @ len32 (length docs)"]
      fat [of "?len @ enc_int32 reqid @ enc_int32 i @ enc_int32 1 @ enc_int32 flags @ enc_int64 cursor" firstDoc]
      fat [of "?len @ enc_int32 reqid @ enc_int32 i @ enc_int32 1 @ enc_int32 flags @ enc_int64 cursor @ enc_int32 firstDoc" "word_of_nat (length docs)" "[]"]
    by simp
  have n: "sint (rp_replyDocs ?r) = int (0 + length docs)" using assms(2) by (simp add: reply_head_def sint_of_nat)
  have len: "36 \<le> length ?st" by (simp add: st)
  show ?thesis
  proof (cases "?f \<noteq> None \<and> docs = []")
    case True
    then show ?thesis
      using len op id r d(1) by (auto simp: read_reply_def Let_def reply_calls_def reply_head_def)
  next
    case False
    have "rp_replyDocs ?r \<noteq> 0" if "docs \<noteq> []"
    proof
      assume "rp_replyDocs ?r = 0"
      then have "sint (rp_replyDocs ?r) = 0" by simp
      with n that show False by simp
    qed
    then have cond: "map_of (sk_replyFuncs s) (getInt32 ?st 8) = None \<or> rp_replyDocs (reply_of (take 36 ?st)) \<noteq> 0"
      using False unfolding id r by blast
    have "read_docs ?f ?r e 0 (concat docs @ rest) = Inr (doc_calls ?f ?r 0 docs, Some rest)"
      using read_docs_all [OF n assms(1)] by simp
    then show ?thesis
      using False unfolding read_reply_eq [OF len op cond] id r d(1)
      by (auto simp: reply_calls_def doc_calls_def split: option.splits)
  qed
qed

end
