(* ===== verification/MgoExchange.thy ===== *)
theory MgoExchange
  imports MgoReplies
begin

text \<open>
  Requests and replies in any order on one socket: the number on the wire leads the reply to the function of its
  request, no function is forgotten, and a reply that is not framed as it should be stops the reader with a panic.
\<close>

subsection \<open>A request and its reply\<close>

lemma registered_number:
  "k < length ws \<Longrightarrow> reply_func (ws ! k) = Some f \<Longrightarrow> (numbers i ws ! k, f) \<in> set (registered i ws)"
proof (induction ws arbitrary: i k)
  case (Cons w ws)
  then show ?case by (cases k) (auto split: option.splits)
qed simp

lemma length_numbers: "length (numbers i ws) = length ws"
  by (induction ws arbitrary: i) (auto split: option.splits)

lemma reply_reaches:
  assumes "socket_inv t s" "sk_dead s = None" "serialize [] ws = Inr (Inr (b, reqs))" "length b < 2 ^ 32"
    and "t + request_count ws + 1 < 2 ^ 32" "k < length ws" "reply_func (ws ! k) = Some f"
    and "\<forall>d \<in> set docs. framed d" "length docs < 2 ^ 31"
  shows "\<exists>s' sent i s''. socket_Query answer ws s = Inr (answer, s', []) \<and> sk_sent s' = sk_sent s @ [sent] \<and>
    socket_inv (t + request_count ws + 1) s' \<and>
    (\<exists>ms. read_messages sent = Some ms \<and> ms ! k = (i, word_of_nat (opcode_of (ws ! k)), body_of (ws ! k))) \<and>
    read_reply e (reply_message reqid i flags cursor firstDoc docs @ rest) s' =
      Inr (s'', reply_calls (Some f) (reply_head flags cursor firstDoc docs) docs, Some rest)"
proof -
  let ?i = "word_of_nat (Suc t) :: 32 word"
  obtain ms where ms: "messages ws ms" "b = concat (map snd ms)"
    and q: "\<And>answer. socket_Query answer ws s = Inr (answer, after_request t ws ms s, [])"
    and inv: "socket_inv (t + request_count ws + 1) (after_request t ws ms s)"
    using request_sent [OF assms(1-3,5)] by blast
  have "\<forall>m \<in> set (map snd ms). length m < 2 ^ 32"
  proof
    fix m assume "m \<in> set (map snd ms)"
    then have "length m \<in> set (map length (map snd ms))" by auto
    then have "length m \<le> length b" unfolding ms(2) length_concat by (rule member_le_sum_list) simp_all
    then show "length m < 2 ^ 32" using assms(4) by simp
  qed
  note read = read_numbered [OF ms(1) this, of ?i]
  let ?n = "numbers ?i ws ! k" and ?s = "after_request t ws ms s"
  have "distinct (map fst (sk_replyFuncs ?s))" using inv unfolding socket_inv_def by blast
  moreover have "(?n, f) \<in> set (sk_replyFuncs ?s)"
    using registered_number [OF assms(6,7), of ?i] by (simp add: after_request_def)
  ultimately have "map_of (sk_replyFuncs ?s) ?n = Some f" by (simp only: map_of_eq_Some_iff)
  with read_one_reply [OF assms(8,9), of e reqid ?n flags cursor firstDoc rest ?s]
  have "read_reply e (reply_message reqid ?n flags cursor firstDoc docs @ rest) ?s =
      Inr (?s\<lparr>sk_replyFuncs := AList.delete ?n (sk_replyFuncs ?s)\<rparr>,
        reply_calls (Some f) (reply_head flags cursor firstDoc docs) docs, Some rest)" by simp
  moreover have "zip (numbers ?i ws) (map (\<lambda>w. (word_of_nat (opcode_of w), body_of w)) ws) ! k =
      (?n, word_of_nat (opcode_of (ws ! k)), body_of (ws ! k))"
    using assms(6) by (simp add: length_numbers)
  moreover have "sk_sent ?s = sk_sent s @ [concat (numbered ?i ms)]" by (simp add: after_request_def)
  ultimately show ?thesis using q inv read by blast
qed

subsection \<open>No function is forgotten\<close>

fun callee :: "'f reply_call \<Rightarrow> 'f" where
  "callee (ReplyError f e) = f"
| "callee (ReplyEmpty f r) = f"
| "callee (ReplyDoc f r i d) = f"

definition funcs_of :: "'f wire_op list \<Rightarrow> 'f list" where
  "funcs_of ws = List.map_filter reply_func ws"

text \<open>What can have happened on a socket: \<open>t\<close> numbers given out, the functions asked for, and the calls made.\<close>

inductive socket_run :: "string \<Rightarrow> nat \<Rightarrow> 'f mgo_socket \<Rightarrow> 'f list \<Rightarrow> 'f reply_call list \<Rightarrow> bool" for e where
  started: "sk_nextRequestId s = 0 \<Longrightarrow> sk_replyFuncs s = [] \<Longrightarrow> sk_dead s = None \<Longrightarrow> socket_run e 0 s [] []"
| requested: "socket_run e t s asked calls \<Longrightarrow> serialize [] ws = Inr (Inr r) \<Longrightarrow> sk_dead s = None \<Longrightarrow> t + request_count ws + 1 < 2 ^ 32 \<Longrightarrow>
    socket_Query answer ws s = Inr (err, s', cs) \<Longrightarrow>
    socket_run e (t + request_count ws + 1) s' (asked @ funcs_of ws) (calls @ cs)"
| late: "socket_run e t s asked calls \<Longrightarrow> serialize [] ws = Inr (Inr r) \<Longrightarrow> sk_dead s \<noteq> None \<Longrightarrow>
    socket_Query answer ws s = Inr (err, s', cs) \<Longrightarrow> socket_run e t s' (asked @ funcs_of ws) (calls @ cs)"
| refused: "socket_run e t s asked calls \<Longrightarrow> serialize [] ws = Inr (Inl msg) \<Longrightarrow>
    socket_Query answer ws s = Inr (err, s', cs) \<Longrightarrow> socket_run e t s' asked (calls @ cs)"
| replied: "socket_run e t s asked calls \<Longrightarrow> read_reply e st s = Inr (s', cs, r) \<Longrightarrow> socket_run e t s' asked (calls @ cs)"
| killed_by: "socket_run e t s asked calls \<Longrightarrow> socket_kill msg s = (s', cs) \<Longrightarrow> socket_run e t s' asked (calls @ cs)"

definition accounted :: "'f mgo_socket \<Rightarrow> 'f list \<Rightarrow> 'f reply_call list \<Rightarrow> bool" where
  "accounted s asked calls \<longleftrightarrow>
     set asked \<subseteq> snd ` set (sk_replyFuncs s) \<union> callee ` set calls \<and> (sk_dead s \<noteq> None \<longrightarrow> sk_replyFuncs s = [])"

lemma read_docs_calls:
  assumes "read_docs (Some g) reply e i st = Inr (calls, r)" "i \<noteq> sint (rp_replyDocs reply)"
  shows "g \<in> callee ` set calls"
  using assms
  by (subst (asm) read_docs.simps) (auto simp: Let_def go_bind_eq_Inr split: if_splits)

lemma kill_accounts: "accounted s asked calls \<Longrightarrow> socket_kill msg s = (s', cs) \<Longrightarrow> accounted s' asked (calls @ cs)"
  by (force simp: accounted_def socket_kill_def split: if_splits)

lemma killed_eq: "killed e calls s = Inr (s', cs, r) \<longleftrightarrow> (\<exists>cs'. socket_kill e s = (s', cs') \<and> cs = calls @ cs' \<and> r = None)"
  by (auto simp: killed_def Let_def split: prod.splits)

lemma inv_delete: "socket_inv t s \<Longrightarrow> socket_inv t (s\<lparr>sk_replyFuncs := AList.delete i (sk_replyFuncs s)\<rparr>)"
  by (auto simp: socket_inv_def AList.delete_eq distinct_map_filter intro: distinct_map_filter)

lemma inv_kill: "socket_inv t s \<Longrightarrow> socket_kill msg s = (s', cs) \<Longrightarrow> socket_inv t s'"
  by (auto simp: socket_inv_def socket_kill_def split: if_splits)

text \<open>The function whose request is answered leaves the table and is called.\<close>

lemma answered_accounts:
  assumes "accounted s asked calls" "distinct (map fst (sk_replyFuncs s))"
    and "\<And>g. map_of (sk_replyFuncs s) i = Some g \<Longrightarrow> g \<in> callee ` set cs"
  shows "accounted (s\<lparr>sk_replyFuncs := AList.delete i (sk_replyFuncs s)\<rparr>) asked (calls @ cs)"
proof -
  have "snd ` set (sk_replyFuncs s) \<subseteq> snd ` set (AList.delete i (sk_replyFuncs s)) \<union> callee ` set cs"
  proof
    fix g assume "g \<in> snd ` set (sk_replyFuncs s)"
    then obtain j where j: "(j, g) \<in> set (sk_replyFuncs s)" by auto
    show "g \<in> snd ` set (AList.delete i (sk_replyFuncs s)) \<union> callee ` set cs"
    proof (cases "j = i")
      case True
      then show ?thesis using assms(2,3) j by simp
    next
      case False
      then show ?thesis using j by (force simp: AList.delete_eq)
    qed
  qed
  then show ?thesis using assms(1) by (simp add: accounted_def image_Un) blast
qed

lemma reply_accounts:
  assumes "socket_inv t s" "accounted s asked calls" "read_reply e st s = Inr (s', cs, r)"
  shows "socket_inv t s' \<and> accounted s' asked (calls @ cs)"
proof (cases "length st < 36 \<or> getInt32 st 12 \<noteq> 1")
  case True
  then obtain msg where "killed msg [] s = Inr (s', cs, r)" using assms(3) by (auto simp: read_reply_def split: if_splits)
  then show ?thesis using kill_accounts inv_kill assms(1,2) by (fastforce simp: killed_eq)
next
  case False
  let ?i = "getInt32 st 8" and ?f = "map_of (sk_replyFuncs s) (getInt32 st 8)" and ?r = "reply_of (take 36 st)"
  let ?s = "s\<lparr>sk_replyFuncs := AList.delete ?i (sk_replyFuncs s)\<rparr>"
  have dist: "distinct (map fst (sk_replyFuncs s))" using assms(1) by (simp add: socket_inv_def)
  have inv: "socket_inv t ?s" using assms(1) by (rule inv_delete)
  show ?thesis
  proof (cases "?f \<noteq> None \<and> rp_replyDocs ?r = 0")
    case True
    then have "s' = ?s" "cs = [ReplyEmpty (the ?f) ?r]" using assms(3) False by (auto simp: read_reply_def Let_def)
    then show ?thesis using answered_accounts [OF assms(2) dist, of ?i cs] inv by auto
  next
    case n: False
    have len: "36 \<le> length st" "getInt32 st 12 = 1" using False by auto
    have n': "?f = None \<or> rp_replyDocs ?r \<noteq> 0" using n by blast
    obtain ds r' where ds: "read_docs ?f ?r e 0 (drop 36 st) = Inr (ds, r')"
      and k: "(case r' of None \<Rightarrow> killed e ds ?s | Some rest \<Rightarrow> Inr (?s, ds, Some rest)) = Inr (s', cs, r)"
      using assms(3) unfolding read_reply_eq [OF len n'] by (auto simp: go_bind_eq_Inr)
    have "accounted ?s asked (calls @ ds)"
    proof (rule answered_accounts [OF assms(2) dist])
      fix g assume g: "?f = Some g"
      then have "rp_replyDocs ?r \<noteq> 0" using n' by auto
      then have "0 \<noteq> sint (rp_replyDocs ?r)" by (metis sint_0 signed_word_eqI)
      then show "g \<in> callee ` set ds" using read_docs_calls ds g by fastforce
    qed
    then show ?thesis using k inv
      by (auto simp: killed_eq dest: kill_accounts inv_kill split: option.splits)
  qed
qed

lemma reply_func_registered: "funcs_of ws = map snd (registered i ws)"
  by (induction ws arbitrary: i) (auto simp: funcs_of_def map_filter_simps split: option.splits)

lemma positions_funcs: "map snd (positions p ms) = funcs_of (map fst ms)"
  by (induction ms arbitrary: p) (auto simp: funcs_of_def map_filter_simps split: option.splits)

lemma run_accounts: "socket_run e t s asked calls \<Longrightarrow> socket_inv t s \<and> accounted s asked calls"
proof (induction rule: socket_run.induct)
  case (started s)
  then show ?case by (simp add: socket_inv_def accounted_def)
next
  case (requested t s asked calls ws r answer err s' cs)
  obtain b reqs where r: "r = (b, reqs)" by (cases r)
  have inv0: "socket_inv t s" and acc0: "accounted s asked calls" using requested.IH by blast+
  obtain ms where q: "\<And>answer. socket_Query answer ws s = Inr (answer, after_request t ws ms s, [])"
    and inv: "socket_inv (t + request_count ws + 1) (after_request t ws ms s)"
    using request_sent [OF inv0 requested(3) requested(2) [unfolded r] requested(4)] by blast
  then have s': "cs = []" "s' = after_request t ws ms s" using requested(5) by auto
  have "accounted s' (asked @ funcs_of ws) (calls @ cs)"
    using acc0 s' requested(3) reply_func_registered [of ws "word_of_nat (Suc t)"]
    by (auto simp: accounted_def after_request_def)
  then show ?case using inv s'(2) by blast
next
  case (late t s asked calls ws r answer err s' cs)
  obtain b reqs where r: "r = (b, reqs)" by (cases r)
  obtain d where "sk_dead s = Some d" using late(3) by auto
  then have q: "s' = s" "cs = map (\<lambda>(pos, f). ReplyError f d) reqs"
    using late(2,4) r by (auto simp: socket_Query_def)
  obtain ms where ms: "messages ws ms" "reqs = positions 0 ms" using serialize_messages [OF late(2) [unfolded r]] by auto
  then have "funcs_of ws = map snd reqs" using positions_funcs [of 0 ms] by (simp add: messages_def)
  moreover have "callee ` set cs = snd ` set reqs" by (simp add: q(2) image_image case_prod_unfold)
  moreover have "accounted s asked calls" using late.IH by blast
  ultimately have "accounted s (asked @ funcs_of ws) (calls @ cs)" by (simp add: accounted_def image_Un) blast
  then show ?case using late.IH unfolding q(1) by blast
next
  case (refused t s asked calls ws msg answer err s' cs)
  then show ?case by (auto simp: socket_Query_def)
next
  case (replied t s asked calls st s' cs r)
  then show ?case using reply_accounts by blast
next
  case (killed_by t s asked calls msg s' cs)
  then show ?case using kill_accounts inv_kill by blast
qed

subsection \<open>Replies that are not framed\<close>

lemma short_document:
  assumes "40 \<le> length st" "getInt32 st 12 = 1" "getInt32 st 32 \<noteq> 0" "sint (getInt32 st 36) < 4"
  shows "read_reply e st s = Inl (if sint (getInt32 st 36) < 0 then SliceOutOfRange else IndexOutOfRange)"
proof -
  have l: "getInt32 (drop 36 st) 0 = getInt32 st 36" by (simp add: getInt32_def)
  have r: "rp_replyDocs (reply_of (take 36 st)) = getInt32 st 32"
    by (simp add: reply_of_def getInt32_def drop_take)
  then have n: "map_of (sk_replyFuncs s) (getInt32 st 8) = None \<or> rp_replyDocs (reply_of (take 36 st)) \<noteq> 0"
    using assms(3) by simp
  have zero: "0 \<noteq> sint (rp_replyDocs (reply_of (take 36 st)))"
    using assms(3) unfolding r by (metis sint_0 signed_word_eqI)
  have len: "36 \<le> length st" using assms(1) by simp
  have four: "\<not> length (drop 36 st) < 4" using assms(1) by simp
  have "read_docs (map_of (sk_replyFuncs s) (getInt32 st 8)) (reply_of (take 36 st)) e 0 (drop 36 st) =
      Inl (if sint (getInt32 st 36) < 0 then SliceOutOfRange else IndexOutOfRange)"
    using zero four assms(4) by (subst read_docs.simps) (simp only: if_not_P if_False Let_def l not_less, simp)
  then show ?thesis unfolding read_reply_eq [OF len assms(2) n] by simp
qed

text \<open>The number 0, kept for messages without a reply, goes to a second request that stands behind the largest number.\<close>

lemma number_zero_given:
  assumes "sk_nextRequestId s = 2 ^ 32 - 2" "sk_dead s = None" "serialize [] ws = Inr (Inr (b, [(p, f), (q, g)]))"
  shows "\<exists>s'. socket_Query answer ws s = Inr (answer, s', []) \<and> map_of (sk_replyFuncs s') 0 = Some g"
proof -
  have "first_request_id (2 ^ 32 - 2) = 2 ^ 32 - 1" by (simp add: first_request_id_def)
  then show ?thesis
    using assms by (simp add: socket_Query_def Let_def update_conv)
qed

end
