(* ===== verification/BsonSizes.thy ===== *)
theory BsonSizes
  imports BsonCodec
begin

text \<open>
  An element is skipped exactly: what \<open>readElemTo\<close> reads has the size that \<open>BSONElementSize\<close> computes
  without reading it.
\<close>

lemma readBytes_Inr: "readBytes b n i = Inr (v, j) \<Longrightarrow> j = i + nat (sint n) \<and> j \<le> length b \<and> 0 \<le> sint n \<and> v = take (nat (sint n)) (drop i b)"
  by (auto simp: readBytes_def corrupted_def Let_def split: if_splits)

lemma readByte_Inr: "readByte b i = Inr (c, j) \<Longrightarrow> j = i + 1 \<and> j \<le> length b \<and> c = b ! i"
  by (auto simp: readByte_def corrupted_def go_at_def split: if_splits)

lemma readInt32_Inr: "readInt32 b i = Inr (l, j) \<Longrightarrow> j = i + 4 \<and> j \<le> length b \<and> getSize i b = Inr (Inr (uint l))"
  by (auto simp: readInt32_def getSize_def go_slice_def go_bind_eq_Inr dest!: readBytes_Inr)

lemma readInt64_Inr: "readInt64 b i = Inr (l, j) \<Longrightarrow> j = i + 8"
  by (auto simp: readInt64_def go_bind_eq_Inr dest!: readBytes_Inr)

lemma read_bool_Inr: "read_bool b i = Inr (l, j) \<Longrightarrow> j = i + 1"
  by (auto simp: read_bool_def go_bind_eq_Inr dest!: readByte_Inr split: if_splits)

lemma sint_nonneg:
  fixes l :: "32 word"
  assumes "0 \<le> sint l" shows "sint l = uint l"
proof -
  have s: "sint l < 2 ^ 31" using sint_less [of l] by simp
  have "uint (word_of_int (sint l) :: 32 word) = take_bit 32 (sint l)" by (simp only: uint_word_of_int_eq) simp
  also have "\<dots> = sint l" using assms s by (intro take_bit_int_eq_self) simp_all
  finally show ?thesis by simp
qed

lemma readStr_Inr:
  assumes "readStr b i = Inr (s, j)"
  shows "\<exists>l. getSize i b = Inr (Inr (uint l)) \<and> 1 \<le> uint (l :: 32 word) \<and> int j = int i + 4 + uint l \<and> j \<le> length b \<and>
    b ! (j - 1) = 0"
proof -
  from assms obtain l k where l: "readInt32 b i = Inr (l, i + 4)" "readBytes b (l - 1) (i + 4) = Inr (s, k)"
    "readByte b k = Inr (0, j)"
    by (auto simp: readStr_def go_bind_eq_Inr corrupted_def dest: readInt32_Inr split: if_splits)
  have k: "k = i + 4 + nat (sint (l - 1))" "0 \<le> sint (l - 1)" using readBytes_Inr [OF l(2)] by (simp_all only:)
  have u: "sint (l - 1) = uint (l - 1)" using k(2) by (rule sint_nonneg)
  have "uint (l - 1 + 1) = uint (l - 1) + 1"
    using sint_less [of "l - 1"] u by (subst uint_word_ariths) simp
  then have "uint l = uint (l - 1) + 1" by simp
  moreover have "0 \<le> uint (l - 1)" by simp
  moreover have "j = k + 1" "j \<le> length b" "b ! (j - 1) = 0" using readByte_Inr [OF l(3)] by auto
  ultimately show ?thesis using readInt32_Inr [OF l(1)] k u by (intro exI [of _ l]) auto
qed

lemma readBinary_Inr:
  assumes "readBinary b i = Inr (v, j)"
  shows "\<exists>l. getSize i b = Inr (Inr (uint l)) \<and> int j = int i + 5 + uint (l :: 32 word) \<and> j \<le> length b"
proof -
  from assms obtain l kind where l: "readInt32 b i = Inr (l, i + 4)"
    and r: "(if kind = BinaryBinaryOld \<and> 4 < sint l then
       go_bind (readInt32 b (i + 5)) (\<lambda>(rl, i).
         if rl \<noteq> l - 4 then corrupted else go_bind (readBytes b rl i) (\<lambda>(v, i). Inr ((kind, v), i)))
     else go_bind (readBytes b l (i + 5)) (\<lambda>(v, i). Inr ((kind, v), i))) = Inr (v, j)"
  proof -
    from assms obtain l i4 kind i5 where w: "readInt32 b i = Inr (l, i4)" "readByte b i4 = Inr (kind, i5)"
      and r: "(if kind = BinaryBinaryOld \<and> 4 < sint l then
         go_bind (readInt32 b i5) (\<lambda>(rl, i).
           if rl \<noteq> l - 4 then corrupted else go_bind (readBytes b rl i) (\<lambda>(v, i). Inr ((kind, v), i)))
       else go_bind (readBytes b l i5) (\<lambda>(v, i). Inr ((kind, v), i))) = Inr (v, j)"
      by (auto simp: readBinary_def go_bind_eq_Inr simp del: if_split)
    have "i4 = i + 4" "i5 = i + 5" using readInt32_Inr [OF w(1)] readByte_Inr [OF w(2)] by simp_all
    with w(1) r show thesis by (intro that [of l kind]) (simp_all only:)
  qed
  have "int j = int i + 5 + sint l \<and> 0 \<le> sint l \<and> j \<le> length b"
  proof (cases "kind = BinaryBinaryOld \<and> 4 < sint l")
    case True
    with r have b: "readBytes b (l - 4) (9 + i) = Inr (snd v, j)"
      by (auto simp: go_bind_eq_Inr corrupted_def dest!: readInt32_Inr split: if_splits)
    have "sint l = uint l" using True by (intro sint_nonneg) simp
    then have "uint (l - 4) = sint l - 4" using True uint_lt2p [of l] by (subst uint_word_ariths) simp
    moreover have "sint (l - 4) = uint (l - 4)" using readBytes_Inr [OF b] by (intro sint_nonneg) simp
    ultimately show ?thesis using readBytes_Inr [OF b] True by simp
  next
    case False
    with r have "readBytes b l (i + 5) = Inr (snd v, j)" by (auto simp: go_bind_eq_Inr)
    from readBytes_Inr [OF this] show ?thesis by simp
  qed
  then show ?thesis using readInt32_Inr [OF l] sint_nonneg [of l] by (intro exI [of _ l]) simp
qed

lemma readCStr_Inr: "readCStr b i = Inr (s, j) \<Longrightarrow> j = cstr_end i b \<and> j \<le> length b"
  by (auto simp: readCStr_def corrupted_def cstr_end_def Let_def split: if_splits)

lemma read_leaf_size:
  assumes "read_leaf b kind i = Some (Inr (v, j))"
  shows "BSONElementSize kind i b = Inr (Inr (int j - int i))"
proof -
  consider (str) "kind \<in> set [ElementJavaScriptWithoutScope, ElementSymbol, ElementString]"
    | (bin) "kind = ElementBinary" | (regex) "kind = ElementRegEx" | (pointer) "kind = ElementDBPointer"
    | (fixed) "kind \<notin> set [ElementJavaScriptWithoutScope, ElementSymbol, ElementString, ElementBinary, ElementRegEx, ElementDBPointer]"
    by auto
  then show ?thesis
  proof cases
    case str
    then obtain s where "readStr b i = Inr (s, j)"
      using assms by (auto simp: read_leaf_def element_kinds go_bind_eq_Inr)
    from readStr_Inr [OF this] obtain l where l: "getSize i b = Inr (Inr (uint (l :: 32 word)))" "1 \<le> uint l"
      "int j = int i + 4 + uint l" "j \<le> length b" "b ! (j - 1) = 0" by blast
    have "nat (int i + (uint l + 4) - 1) = j - 1" "\<not> int (length b) < int i + (uint l + 4)" "j - 1 < length b"
      using l(2-4) by linarith+
    then show ?thesis
      using str l(1,2,3,5) by (auto simp: BSONElementSize_def sized_def element_kinds Let_def go_at_def)
  next
    case bin
    then obtain w where "readBinary b i = Inr (w, j)"
      using assms by (auto simp: read_leaf_def element_kinds go_bind_eq_Inr)
    from readBinary_Inr [OF this] show ?thesis
      using bin by (auto simp: BSONElementSize_def sized_def element_kinds)
  next
    case regex
    then obtain p k q where "readCStr b i = Inr (p, k)" "readCStr b k = Inr (q, j)"
      using assms by (auto simp: read_leaf_def readRegEx_def element_kinds go_bind_eq_Inr)
    then show ?thesis
      using regex by (auto simp: BSONElementSize_def element_kinds Let_def dest!: readCStr_Inr)
  next
    case pointer
    then obtain s k oid where k: "readStr b i = Inr (s, k)" "readBytes b 12 k = Inr (oid, j)"
      using assms by (auto simp: read_leaf_def element_kinds go_bind_eq_Inr)
    from readStr_Inr [OF k(1)] readBytes_Inr [OF k(2)] show ?thesis
      using pointer by (auto simp: BSONElementSize_def sized_def element_kinds)
  next
    case fixed
    then show ?thesis using assms unfolding read_leaf_def BSONElementSize_def
      by (auto simp: go_bind_eq_Inr sized_def element_kinds split: if_splits
          dest!: readInt64_Inr readInt32_Inr read_bool_Inr readBytes_Inr)
  qed
qed

subsection \<open>Documents and arrays\<close>

lemma doc_closed_Inr: "doc_closed lim i x = Inr (y, j) \<Longrightarrow> j = lim"
  by (auto simp: doc_closed_def corrupted_def split: if_splits)

lemma ret_bind_eq: "ret_bind m f = Some (Inr y) \<longleftrightarrow> (\<exists>x. m = Some (Inr x) \<and> f x = Some (Inr y))"
  by (auto simp: ret_bind_def split: option.splits sum.splits)

lemma read_elems_ends_at: "read_elems n dt b lim d i = Some (Inr (d', j)) \<Longrightarrow> j = lim"
proof (induction n arbitrary: d i)
  case (Suc n)
  from Suc.prems consider "doc_closed lim i d = Inr (d', j)" | d2 i2 where "read_elems n dt b lim d2 i2 = Some (Inr (d', j))"
    by (auto simp: read_elems.simps corrupted_def ret_bind_eq split: if_splits)
  then show ?case by cases (auto dest: doc_closed_Inr Suc.IH)
qed (simp add: read_elems.simps)

lemma read_items_ends_at: "read_items n dt b lim d i = Some (Inr (d', j)) \<Longrightarrow> j = lim"
proof (induction n arbitrary: d i)
  case (Suc n)
  from Suc.prems consider "doc_closed lim i d = Inr (d', j)" | d2 i2 where "read_items n dt b lim d2 i2 = Some (Inr (d', j))"
    by (auto simp: read_items.simps corrupted_def ret_bind_eq split: if_splits)
  then show ?case by cases (auto dest: doc_closed_Inr Suc.IH)
qed (simp add: read_items.simps)

lemma doc_end_Inr:
  assumes "doc_end b i = Inr (lim, k)"
  shows "\<exists>l. getSize i b = Inr (Inr (uint (l :: 32 word))) \<and> int lim = int i + uint l \<and> 5 \<le> uint l"
proof -
  from assms obtain l where l: "readInt32 b i = Inr (l, i + 4)" "lim = nat (sint l + int (i + 4) - 4)"
    "int (i + 4) < sint l + int (i + 4) - 4"
    by (auto simp: doc_end_def go_bind_eq_Inr corrupted_def Let_def dest: readInt32_Inr split: if_splits)
  then have "sint l = uint l" by (intro sint_nonneg) simp
  then show ?thesis using readInt32_Inr [OF l(1)] l by (intro exI [of _ l]) simp
qed

lemma skipped_exactly:
  assumes "readElemTo n dt b kind i = Some (Inr (v, j))"
  shows "BSONElementSize kind i b = Inr (Inr (int j - int i))"
proof (cases "read_leaf b kind i")
  case (Some r)
  obtain m where "n = Suc m" using assms by (cases n) (auto simp: readElemTo.simps)
  then have "r = Inr (v, j)" using assms Some by (simp add: readElemTo.simps)
  then show ?thesis using read_leaf_size Some by simp
next
  case None
  obtain m where n: "n = Suc m" using assms by (cases n) (auto simp: readElemTo.simps)
  consider (doc) "kind = ElementDocument" | (array) "kind = ElementArray" | (scope) "kind = ElementJavaScriptWithScope"
    using assms None n by (auto simp: readElemTo.simps split: if_splits)
  then show ?thesis
  proof cases
    case doc
    then have r: "read_doc m dt b i = Some (Inr (v, j))" using assms None n by (simp add: readElemTo.simps)
    then obtain m' where "m = Suc m'" by (cases m) (auto simp: read_doc.simps)
    with r obtain lim k d where "doc_end b i = Inr (lim, k)" "read_elems m' dt b lim [] k = Some (Inr (d, j))"
      by (auto simp: read_doc.simps ret_bind_eq)
    then show ?thesis using doc
      by (auto dest!: doc_end_Inr read_elems_ends_at simp: BSONElementSize_def sized_def element_kinds)
  next
    case array
    then obtain lim k xs where "doc_end b i = Inr (lim, k)" "read_items m dt b lim [] k = Some (Inr (xs, j))"
      using assms None n by (auto simp: readElemTo.simps ret_bind_eq element_kinds)
    then show ?thesis using array
      by (auto dest!: doc_end_Inr read_items_ends_at simp: BSONElementSize_def sized_def element_kinds)
  next
    case scope
    then obtain l k c k' s where r: "readInt32 b i = Inr (l, i + 4)" "readStr b (i + 4) = Inr (c, k)"
      "read_doc m AsM b k = Some (Inr (s, j))" "int j = int i + sint l"
      using assms None n
      by (auto simp: readElemTo.simps ret_bind_eq element_kinds corrupted_def dest: readInt32_Inr split: if_splits)
    from r(3) obtain m' where "m = Suc m'" by (cases m) (auto simp: read_doc.simps)
    with r(3) obtain lim k2 d where d: "doc_end b k = Inr (lim, k2)" "read_elems m' AsM b lim [] k2 = Some (Inr (d, j))"
      by (auto simp: read_doc.simps ret_bind_eq)
    then have "int k + 5 \<le> int j" by (auto dest!: doc_end_Inr read_elems_ends_at)
    moreover have "int i + 9 \<le> int k" using readStr_Inr [OF r(2)] by auto
    ultimately have "14 \<le> sint l" using r(4) by linarith
    moreover from this have "sint l = uint l" by (intro sint_nonneg) simp
    ultimately show ?thesis using scope readInt32_Inr [OF r(1)] r(4)
      by (simp add: BSONElementSize_def sized_def element_kinds)
  qed
qed

end
