(* ===== verification/PropsMongo.thy ===== *)
theory PropsMongo
  imports MgoQueue MgoExchange BsonSizes
begin

text \<open>
  The properties of the MongoDB driver: documents and their bytes, requests and replies on a socket, and the write
  operations that fill the queue collections.
\<close>

subsection \<open>Documents\<close>

definition sample_elements :: "(bytes \<times> go_value) list" where
  "sample_elements =
     [(bytes_of_string ''q'', GString (bytes_of_string ''SELECT 1'')), (bytes_of_string ''n'', GInt 7),
      (bytes_of_string ''l'', GSlice [GBool True, GMap [(bytes_of_string ''x'', GNil)]])]"

abbreviation sample_doc :: go_value where
  "sample_doc \<equiv> GD sample_elements"

definition sample_doc_bytes :: bytes where
  "sample_doc_bytes = (case Marshal sample_doc of Inr (Inr b) \<Rightarrow> b | _ \<Rightarrow> [])"

lemma sample_doc_marshalled: "Marshal sample_doc = Inr (Inr sample_doc_bytes)" "length sample_doc_bytes = 51"
  by code_simp+

text \<open>C6: A document that is encoded is read back, whatever its depth, with the types that BSON keeps: \<open>decoded\<close> says which,
  as a list of pairs or as a map in which the last element of a name wins. Excluded by \<open>storable\<close> are raw elements, zero
  bytes in names and patterns, options of a regular expression that are not ASCII, an empty binary of the old subtype, a scope
  that is no document, and times whose milliseconds are no \<open>int64\<close>; the bytes are fewer than the two gigabytes that their
  length field can tell.\<close>

theorem bson_round_trip:
  assumes "v = GMap d \<or> v = GD d" "storable v" "Marshal v = Inr (Inr b)" "length b < 2 ^ 31 - 2"
  shows "Unmarshal dt b = Some (Inr (Inr (decoded v dt False)))"
  by (rule documents_read_back [OF assms])

theorem bson_round_trip_witness:
  "Unmarshal AsD sample_doc_bytes = Some (Inr (Inr (decoded sample_doc AsD False))) \<and>
   decoded sample_doc AsD False = GD
     [(bytes_of_string ''q'', GString (bytes_of_string ''SELECT 1'')), (bytes_of_string ''n'', GInt 7),
      (bytes_of_string ''l'', GSlice [GBool True, GD [(bytes_of_string ''x'', GNil)]])]"
proof
  show "Unmarshal AsD sample_doc_bytes = Some (Inr (Inr (decoded sample_doc AsD False)))"
  proof (rule bson_round_trip [where d = sample_elements])
    show "storable sample_doc" by code_simp
  qed (use sample_doc_marshalled in simp_all)
  show "decoded sample_doc AsD False = GD
     [(bytes_of_string ''q'', GString (bytes_of_string ''SELECT 1'')), (bytes_of_string ''n'', GInt 7),
      (bytes_of_string ''l'', GSlice [GBool True, GD [(bytes_of_string ''x'', GNil)]])]"
    by code_simp
qed

text \<open>C19: Reading any bytes as a document ends, and it ends with a value or an error: no panic of the run time leaves
  \<open>Unmarshal\<close>.\<close>

theorem unmarshal_ends: "\<exists>r. Unmarshal dt b = Some (Inr r)"
  by (rule Unmarshal_ends)

text \<open>C23: An element that is read has exactly the size that \<open>BSONElementSize\<close> computes without reading it, so that an
  element that is skipped or taken raw ends where one that is read ends.\<close>

theorem element_size_is_read:
  assumes "readElemTo n dt b kind i = Some (Inr (v, j))"
  shows "BSONElementSize kind i b = Inr (Inr (int j - int i))"
  by (rule skipped_exactly [OF assms])

theorem element_size_is_read_witness:
  "BSONElementSize ElementDocument 0 sample_doc_bytes = Inr (Inr (int 51 - int 0))"
proof (rule element_size_is_read)
  show "readElemTo 60 AsD sample_doc_bytes ElementDocument 0 =
    Some (Inr (GD
     [(bytes_of_string ''q'', GString (bytes_of_string ''SELECT 1'')), (bytes_of_string ''n'', GInt 7),
      (bytes_of_string ''l'', GSlice [GBool True, GD [(bytes_of_string ''x'', GNil)]])], 51))"
    by code_simp
qed

text \<open>C7: The document of a request is always encoded, whatever order Go gives the elements of its maps, and who reads its
  bytes finds by the names of its elements the payload of the captured packet, for a login, database, option or query
  packet; of a quit packet it finds the command byte. The source port is one, and the document is shorter than the two
  gigabytes that its length field can tell.\<close>

theorem payload_survives_storage:
  assumes "ParsePacket data only = Inr (Inr doc)" "ParsedRequest v = Some doc" "0 \<le> SrcPort v" "SrcPort v < 2 ^ 31"
    and "written_request v doc d"
  shows "\<exists>b. Marshal (GMap d) = Inr (Inr b) \<and>
    (length b < 2 ^ 31 - 2 \<longrightarrow> (\<exists>u. Unmarshal AsM b = Some (Inr (Inr u)) \<and>
      stored_payload u = Some (if data ! 3 = 0 \<and> data ! 4 = 1 then [1] else drop 4 data)))"
proof -
  obtain c q where c: "doc = doc_cq c q" "0 \<le> c" "c < 2 ^ 31"
    "(if c = 0x7e then hex_decode q else word_of_int c # bytes_of_string q) =
      (if data ! 3 = 0 \<and> data ! 4 = 1 then [1] else drop 4 data)"
    using parsed_document [OF assms(1)] by blast
  have "written_request v (doc_cq c q) d" using assms(5) c(1) by simp
  note read = request_document_back [OF this c(2,3) assms(3,4)]
  from read(1) obtain b where "Marshal (GMap d) = Inr (Inr b)"
    "length b < 2 ^ 31 - 2 \<longrightarrow> Unmarshal AsM b = Some (Inr (Inr (GMap d)))" by blast
  then show ?thesis using read(2) unfolding c(4) by blast
qed

definition sample_query :: bytes where
  "sample_query = [9, 0, 0, 0, 3] @ bytes_of_string ''SELECT 1''"

definition sample_request :: MysqlRequest where
  "sample_request = \<lparr>AlreadyParsed = True, SrcIp = ''10.0.0.1'', SrcPort = 50000, Data = [], CapturedAt = 0,
     ParsedRequest = Some (doc_cq COM_QUERY ''SELECT 1'')\<rparr>"

text \<open>With the elements of both maps the other way round.\<close>

definition sample_written :: "(bytes \<times> go_value) list" where
  "sample_written =
     [(bytes_of_string ''req'', GMap [(bytes_of_string ''q'', GString (bytes_of_string ''SELECT 1'')), (bytes_of_string ''c'', GInt 3)]),
      (bytes_of_string ''port'', GInt 50000), (bytes_of_string ''ip'', GString (bytes_of_string ''10.0.0.1''))]"

theorem payload_survives_storage_witness:
  "\<exists>b. Marshal (GMap sample_written) = Inr (Inr b) \<and>
    (length b < 2 ^ 31 - 2 \<longrightarrow> (\<exists>u. Unmarshal AsM b = Some (Inr (Inr u)) \<and>
      stored_payload u = Some (if sample_query ! 3 = 0 \<and> sample_query ! 4 = 1 then [1] else drop 4 sample_query)))"
proof (rule payload_survives_storage)
  show "ParsePacket sample_query False = Inr (Inr (doc_cq COM_QUERY ''SELECT 1''))" by code_simp
  show "written_request sample_request (doc_cq COM_QUERY ''SELECT 1'') sample_written"
    unfolding written_request_def
    by (rule exI [of _ "[(bytes_of_string ''q'', GString (bytes_of_string ''SELECT 1'')), (bytes_of_string ''c'', GInt 3)]"])
      (simp add: sample_written_def sample_request_def doc_cq_def request_doc_def COM_QUERY_def)
qed (simp_all add: sample_request_def)

subsection \<open>Write operations\<close>

text \<open>A server that refuses a document that it has already.\<close>

definition sample_store :: "go_value \<Rightarrow> go_value list \<Rightarrow> (int \<times> string) + go_value list" where
  "sample_store d c = (if d \<in> set c then Inl (11000, ''duplicate key'') else Inr (c @ [d]))"

definition sample_env :: "go_value list mongo_env" where
  "sample_env =
     \<lparr>env_acquire = (\<lambda>s. (None, s)), env_wire = (\<lambda>s. 5),
      env_run = (\<lambda>cmd s. case cmd of
          GD ((_, _) # (_, GSlice docs) # _ # (_, GBool ordered) # _) \<Rightarrow>
            (let (c, n, es) = server_insert sample_store ordered 0 docs s in ((insert_answer n es, None), c))
        | _ \<Rightarrow> ((failed_answer, None), s)),
      env_send = (\<lambda>w s. (None, s)), env_gle = (\<lambda>w s. (Inr no_error, s))\<rparr>"

definition sample_session :: mongo_session where
  "sample_session = SetSafe (Some \<lparr>safe_W = 0, safe_WMode = [], safe_RMode = [], safe_WTimeout = 0, safe_FSync = False, safe_J = False\<rparr>)
     \<lparr>ms_safeOp = None, ms_bypassValidation = False, ms_readConcern = []\<rparr>"

lemma sample_inserts: "inserts_into (\<lambda>s. s) sample_store name (ms_safeOp sample_session) (ms_bypassValidation sample_session) sample_env"
  by (simp add: inserts_into_def sample_env_def comp_def)

lemma sample_safe: "ms_safeOp sample_session \<noteq> None"
  by (simp add: sample_session_def SetSafe_def ensureSafe_def)

text \<open>C4: Documents queued for insertion one by one, however many, are stored as the server would store them one after the
  other, up to the first refusal when the bulk is ordered, and the error names exactly the documents refused, by their
  positions in the queue: the batches of 1000 cannot be seen.\<close>

theorem bulk_insert_exact:
  assumes "inserts_into contents store name (ms_safeOp sess) (ms_bypassValidation sess) env" "ms_safeOp sess \<noteq> None"
    and "server_insert store ordered 0 docs (contents s) = (c, n, es)" "docs \<noteq> []"
    and "b = fold (\<lambda>d. bulk_Insert [d]) docs ((if ordered then (\<lambda>b. b) else Unordered) (collection_Bulk fullname))"
  shows "\<exists>s'. contents s' = c \<and> bulk_Run env sess name b s =
      Inr (if es = [] then Inr \<lparr>br_Matched = 0, br_Modified = 0\<rparr>
        else Inl (map (\<lambda>(i, code, msg). (int i, QueryError code msg False)) es), s')"
  using run_inserts [OF assms(1-4), of fullname] insert_one_by_one [OF assms(4), of fullname] assms(5)
  by (cases ordered) (auto simp: insert_cases_def)

theorem bulk_insert_exact_witness:
  "\<exists>s'. s' = [GInt 1, GInt 2] \<and>
    bulk_Run sample_env sample_session ''q'' (fold (\<lambda>d. bulk_Insert [d]) [GInt 1, GInt 1, GInt 2] (Unordered (collection_Bulk ''db.q''))) [] =
      Inr (if [(1 :: nat, 11000 :: int, ''duplicate key'')] = [] then Inr \<lparr>br_Matched = 0, br_Modified = 0\<rparr>
        else Inl (map (\<lambda>(i, code, msg). (int i, QueryError code msg False)) [(1, 11000, ''duplicate key'')]), s')"
proof (rule bulk_insert_exact [OF sample_inserts sample_safe, where ordered = False])
  show "server_insert sample_store False 0 [GInt 1, GInt 1, GInt 2] [] = ([GInt 1, GInt 2], 2, [(1, 11000, ''duplicate key'')])"
    by (simp add: sample_store_def)
qed simp_all

text \<open>C5: What the collector counts is what is stored: \<open>InsertBulkPackets\<close> and \<open>InsertPackets\<close> leave the same documents in
  the collection, those before the first that the server refuses, and return the number of all requests when none is
  refused and 0 otherwise.\<close>

theorem batch_counted_if_stored:
  assumes "inserts_into contents store name (ms_safeOp sess) (ms_bypassValidation sess) env" "ms_safeOp sess \<noteq> None"
    and "server_insert store True 0 (map (go_doc \<circ> request_doc) vs) (contents s) = (c, n, es)" "vs \<noteq> []"
  shows "(\<exists>s'. contents s' = c \<and> insert_bulk_packets env sess fullname name (map Some vs) s = Inr (if es = [] then length vs else 0, s')) \<and>
    (\<exists>s'. contents s' = c \<and> insert_packets env sess fullname name (map Some vs) s = Inr (if es = [] then length vs else 0, s'))"
  using bulk_packets_stored [OF assms] stored_all [OF assms(3)] by (cases "es = []") fastforce+

theorem batch_counted_if_stored_witness:
  "(\<exists>s'. s' = [go_doc (request_doc sample_request)] \<and>
      insert_bulk_packets sample_env sample_session ''db.q'' ''q'' (map Some [sample_request]) [] =
        Inr (if [] = ([] :: (nat \<times> int \<times> string) list) then length [sample_request] else 0, s')) \<and>
   (\<exists>s'. s' = [go_doc (request_doc sample_request)] \<and>
      insert_packets sample_env sample_session ''db.q'' ''q'' (map Some [sample_request]) [] =
        Inr (if [] = ([] :: (nat \<times> int \<times> string) list) then length [sample_request] else 0, s'))"
proof (rule batch_counted_if_stored [OF sample_inserts sample_safe])
  show "server_insert sample_store True 0 (map (go_doc \<circ> request_doc) [sample_request]) [] =
      ([go_doc (request_doc sample_request)], 1, [])"
    by (simp add: sample_store_def)
qed simp

text \<open>C26: An ordered bulk is the queue of the operations given to it, with their positions; an unordered one holds the same
  operations at the same positions, those of one kind in order.\<close>

theorem bulk_is_a_queue:
  "queue_ops (queue_all calls (collection_Bulk fullname)) = enumerate 0 (all_ops calls) \<and>
   mset (queue_ops (queue_all calls (Unordered (collection_Bulk fullname)))) = mset (enumerate 0 (all_ops calls)) \<and>
   filter (\<lambda>(i, k, d). k = kind) (queue_ops (queue_all calls (Unordered (collection_Bulk fullname)))) =
     filter (\<lambda>(i, k, d). k = kind) (enumerate 0 (all_ops calls))"
proof -
  have new: "queue_ops (collection_Bulk fullname) = []" "bk_opcount (collection_Bulk fullname) = 0" "bk_ordered (collection_Bulk fullname)"
    "queue_ops (Unordered (collection_Bulk fullname)) = []" "bk_opcount (Unordered (collection_Bulk fullname)) = 0"
    "\<not> bk_ordered (Unordered (collection_Bulk fullname))"
    by (simp_all add: queue_ops_def collection_Bulk_def Unordered_def)
  show ?thesis
    using queue_all_ordered [OF queue_ok_new(1) new(3), of calls] queue_all_unordered [OF queue_ok_new(2) new(6), of calls] new
    by simp
qed

text \<open>In a session that is not safe, inserting more than 1000 documents into a server that takes them panics: the first
  batch has no result, and the loop reads it.\<close>

theorem unsafe_large_insert_panics:
  assumes "env_acquire env s = (None, start)" "2 \<le> env_wire env start" "ms_safeOp sess = None" "1000 < length docs"
    and "\<And>cmd. \<exists>r s2. env_run env cmd start = ((r, None), s2) \<and> wr_Errors r = [] \<and> fst (wr_ConcernError r) = 0"
  shows "collection_Insert env sess fullname name docs s = Inl NilDereference"
  using unsafe_batch_panics [OF assms(1-3) _ assms(5), of "map ArgDoc docs" name fullname 0 True] assms(4)
  by (simp add: collection_Insert_def batch_size_def)

definition taking_env :: "unit mongo_env" where
  "taking_env = \<lparr>env_acquire = (\<lambda>s. (None, s)), env_wire = (\<lambda>s. 5), env_run = (\<lambda>cmd s. ((insert_answer 0 [], None), s)),
     env_send = (\<lambda>w s. (None, s)), env_gle = (\<lambda>w s. (Inr no_error, s))\<rparr>"

theorem unsafe_large_insert_panics_witness:
  "collection_Insert taking_env (SetSafe None sample_session) ''db.q'' ''q'' (replicate 1001 (GInt 1)) () = Inl NilDereference"
  by (rule unsafe_large_insert_panics [where start = "()"])
    (simp_all add: taking_env_def SetSafe_def ensureSafe_def insert_answer_def)

text \<open>C30: In an unordered bulk of more than 1000 documents a command that fails without naming documents, as when the
  connection is lost, leaves no trace: when every command fails, \<open>Run\<close> still reports success.\<close>

theorem unordered_failures_lost:
  assumes "env_run env = (\<lambda>cmd s. ((failed_answer, Some err), s))" "env_acquire env = (\<lambda>s. (None, s))" "\<And>s. 2 \<le> env_wire env s"
    and "1000 < length docs"
  shows "bulk_Run env sess name (fold (\<lambda>d. bulk_Insert [d]) docs (Unordered (collection_Bulk fullname))) s =
    Inr (Inr \<lparr>br_Matched = 0, br_Modified = 0\<rparr>, s)"
proof -
  have "docs \<noteq> []" using assms(4) by auto
  note b = insert_one_by_one(2) [OF this, of fullname]
  obtain l where l: "insert_batches env name (ms_safeOp sess) False (ms_bypassValidation sess) fullname 1 0 (map ArgDoc docs) no_error s =
      Inr ((Some l, None), s)" "le_ecases l = []"
    using failures_lost [OF assms(1), where flags = 1 and lerr = no_error] by (fastforce simp: no_error_def)
  have "writeOp env sess name (InsertOp fullname (map ArgDoc docs) (if False then 0 else 1)) False s = Inr ((Some l, None), s)"
    using l(1) assms(2-4) by (simp add: writeOp_def batch_size_def)
  from run_one_action [OF this] show ?thesis unfolding b using l(2) by (simp add: checkSuccess_def)
qed

definition lost_env :: "unit mongo_env" where
  "lost_env = \<lparr>env_acquire = (\<lambda>s. (None, s)), env_wire = (\<lambda>s. 5), env_run = (\<lambda>cmd s. ((failed_answer, Some (PlainError ''EOF'')), s)),
     env_send = (\<lambda>w s. (None, s)), env_gle = (\<lambda>w s. (Inr no_error, s))\<rparr>"

theorem unordered_failures_lost_witness:
  "bulk_Run lost_env sample_session ''q'' (fold (\<lambda>d. bulk_Insert [d]) (replicate 1001 (GInt 1)) (Unordered (collection_Bulk ''db.q''))) () =
    Inr (Inr \<lparr>br_Matched = 0, br_Modified = 0\<rparr>, ())"
  by (rule unordered_failures_lost) (simp_all add: lost_env_def)

subsection \<open>Requests and replies\<close>

text \<open>C10: The bytes of a request split into its messages again, each with its operation and fields, and a reply that
  carries the number of a message calls the function of that operation, with every document of the reply in order.\<close>

theorem reply_reaches_request:
  assumes "socket_inv t s" "sk_dead s = None" "serialize [] ws = Inr (Inr (b, reqs))" "length b < 2 ^ 32"
    and "t + request_count ws + 1 < 2 ^ 32" "k < length ws" "reply_func (ws ! k) = Some f"
    and "\<forall>d \<in> set docs. framed d" "length docs < 2 ^ 31"
  shows "\<exists>s' sent i s''. socket_Query answer ws s = Inr (answer, s', []) \<and> sk_sent s' = sk_sent s @ [sent] \<and>
    socket_inv (t + request_count ws + 1) s' \<and>
    (\<exists>ms. read_messages sent = Some ms \<and> ms ! k = (i, word_of_nat (opcode_of (ws ! k)), body_of (ws ! k))) \<and>
    read_reply e (reply_message reqid i flags cursor firstDoc docs @ rest) s' =
      Inr (s'', reply_calls (Some f) (reply_head flags cursor firstDoc docs) docs, Some rest)"
  by (rule reply_reaches [OF assms])

definition fresh_socket :: "string mgo_socket" where
  "fresh_socket = \<lparr>sk_nextRequestId = 0, sk_replyFuncs = [], sk_dead = None, sk_sent = []\<rparr>"

definition sample_ops :: "string wire_op list" where
  "sample_ops =
     [WireInsert ''db.q'' [GMap [(bytes_of_string ''x'', GInt 1)]] 0,
      WireQuery \<lparr>qo_flags = 0, qo_collection = ''db.$cmd'', qo_skip = 0, qo_limit = - 1,
        qo_final = GD [(bytes_of_string ''getLastError'', GInt 1)], qo_selector = GNil, qo_replyFunc = Some ''lastError''\<rparr>]"

definition sample_ops_bytes :: "bytes \<times> (nat \<times> string) list" where
  "sample_ops_bytes = (case serialize [] sample_ops of Inr (Inr r) \<Rightarrow> r | _ \<Rightarrow> ([], []))"

theorem reply_reaches_request_witness:
  "\<exists>s' sent i s''. socket_Query None sample_ops fresh_socket = Inr (None, s', []) \<and> sk_sent s' = sk_sent fresh_socket @ [sent] \<and>
    socket_inv (0 + request_count sample_ops + 1) s' \<and>
    (\<exists>ms. read_messages sent = Some ms \<and> ms ! 1 = (i, word_of_nat (opcode_of (sample_ops ! 1)), body_of (sample_ops ! 1))) \<and>
    read_reply ''EOF'' (reply_message 7 i 0 0 0 [[5, 0, 0, 0, 0]] @ []) s' =
      Inr (s'', reply_calls (Some ''lastError'') (reply_head 0 0 0 [[5, 0, 0, 0, 0]]) [[5, 0, 0, 0, 0]], Some [])"
proof (rule reply_reaches_request)
  show "socket_inv 0 fresh_socket" by (simp add: socket_inv_def fresh_socket_def)
  show "serialize [] sample_ops = Inr (Inr (fst sample_ops_bytes, snd sample_ops_bytes))" by code_simp
  have "length (fst sample_ops_bytes) \<le> 200" by code_simp
  then show "length (fst sample_ops_bytes) < 2 ^ 32" by simp
  show "0 + request_count sample_ops + 1 < 2 ^ 32" by (simp add: sample_ops_def)
  show "\<forall>d \<in> set [[5, 0, 0, 0, 0 :: byte]]. framed d" by (simp add: framed_def getInt32_def)
  show "sk_dead fresh_socket = None" by (simp add: fresh_socket_def)
  show "1 < length sample_ops" by (simp add: sample_ops_def)
  show "reply_func (sample_ops ! 1) = Some ''lastError''" by (simp add: sample_ops_def)
  show "length [[5, 0, 0, 0, 0 :: byte]] < 2 ^ 31" by simp
qed

text \<open>C13: Whatever requests are sent on a socket, whatever replies arrive and whenever it is closed: the numbers of
  outstanding requests are distinct and never 0, every function asked for is outstanding or has been called, and on a
  socket that has died every one has been called, so that no caller waits for ever.\<close>

theorem no_request_forgotten:
  assumes "socket_run e t s asked calls"
  shows "distinct (map fst (sk_replyFuncs s)) \<and> 0 \<notin> fst ` set (sk_replyFuncs s) \<and>
    set asked \<subseteq> snd ` set (sk_replyFuncs s) \<union> callee ` set calls \<and>
    (sk_dead s = None \<or> set asked \<subseteq> callee ` set calls)"
  using run_accounts [OF assms] by (auto simp: socket_inv_def accounted_def)

lemma sample_serialized: "serialize [] sample_ops = Inr (Inr sample_ops_bytes)"
  by code_simp

lemma fresh_socket_inv: "socket_inv 0 fresh_socket" "sk_dead fresh_socket = None"
  by (simp_all add: socket_inv_def fresh_socket_def)

lemma sample_socket_run:
  "\<exists>t s calls. socket_run ''EOF'' t s (funcs_of sample_ops) calls \<and> sk_dead s \<noteq> None"
proof -
  have n: "0 + request_count sample_ops + 1 < 2 ^ 32" by (simp add: sample_ops_def)
  have ser: "serialize [] sample_ops = Inr (Inr (fst sample_ops_bytes, snd sample_ops_bytes))"
    using sample_serialized by simp
  obtain ms where q: "socket_Query None sample_ops fresh_socket = Inr (None, after_request 0 sample_ops ms fresh_socket, [])"
    using request_sent [OF fresh_socket_inv ser n] by metis
  have start: "socket_run ''EOF'' 0 fresh_socket [] []" by (rule started) (simp_all add: fresh_socket_def)
  have sent: "socket_run ''EOF'' (0 + request_count sample_ops + 1) (after_request 0 sample_ops ms fresh_socket) ([] @ funcs_of sample_ops) ([] @ [])"
    by (rule requested [OF start sample_serialized fresh_socket_inv(2) n q])
  obtain s' cs where k: "socket_kill ''closed'' (after_request 0 sample_ops ms fresh_socket) = (s', cs)" by fastforce
  then have "sk_dead s' \<noteq> None" by (auto simp: socket_kill_def split: if_splits)
  with killed_by [OF sent k] show ?thesis by auto
qed

theorem no_request_forgotten_witness:
  "\<exists>(s :: string mgo_socket) calls. sk_dead s \<noteq> None \<and> distinct (map fst (sk_replyFuncs s)) \<and> 0 \<notin> fst ` set (sk_replyFuncs s) \<and>
    set (funcs_of sample_ops) \<subseteq> snd ` set (sk_replyFuncs s) \<union> callee ` set calls \<and>
    (sk_dead s = None \<or> set (funcs_of sample_ops) \<subseteq> callee ` set calls)"
proof -
  obtain t s and calls :: "string reply_call list"
    where "socket_run ''EOF'' t s (funcs_of sample_ops) calls" "sk_dead s \<noteq> None"
    using sample_socket_run by blast
  with no_request_forgotten [OF this(1)] show ?thesis by (intro exI [of _ s] exI [of _ calls]) simp
qed

text \<open>C32: A reply whose first document claims fewer than four bytes makes the reader panic, and with it the program: the four
  bytes of the length are stored without a look at it.\<close>

theorem short_document_panics:
  assumes "40 \<le> length st" "getInt32 st 12 = 1" "getInt32 st 32 \<noteq> 0" "sint (getInt32 st 36) < 4"
  shows "readLoop e st s = Inl (if sint (getInt32 st 36) < 0 then SliceOutOfRange else IndexOutOfRange)"
  using short_document [OF assms, of e s] by (subst readLoop.simps) simp

theorem short_document_panics_witness:
  "readLoop ''EOF'' (replicate 12 0 @ [1, 0, 0, 0] @ replicate 16 0 @ [1, 0, 0, 0] @ [3, 0, 0, 0]) fresh_socket =
    Inl (if sint (getInt32 (replicate 12 0 @ [1, 0, 0, 0] @ replicate 16 0 @ [1, 0, 0, 0] @ [3, 0, 0, 0]) 36) < 0
      then SliceOutOfRange else IndexOutOfRange)"
  by (rule short_document_panics) code_simp+

end
