(* ===== verification/PacketParser.thy ===== *)
theory PacketParser
  imports MrteTypes
begin

text \<open>
  \<open>mrte/custom_packet_parser.go\<close>: the fast packet parser. \<open>GetPortNo\<close> looks the source port
  up without checking the packet, \<open>ParsePacketFast\<close> decodes the Ethernet, IPv4 and TCP headers
  and returns the request, \<open>ipToString\<close> and \<open>uitoa\<close> print the source address.
\<close>

subsection \<open>Constants\<close>

definition TYPE_IP :: int where "TYPE_IP = 0x0800"
definition TYPE_ARP :: int where "TYPE_ARP = 0x0806"
definition TYPE_IP6 :: int where "TYPE_IP6 = 0x86DD"
definition IP_ICMP :: byte where "IP_ICMP = 1"
definition IP_INIP :: byte where "IP_INIP = 4"
definition IP_TCP :: byte where "IP_TCP = 6"
definition IP_UDP :: byte where "IP_UDP = 17"

definition DLT_NULL :: int where "DLT_NULL = 0"
definition DLT_EN10MB :: int where "DLT_EN10MB = 1"
definition DLT_EN3MB :: int where "DLT_EN3MB = 2"
definition DLT_RAW :: int where "DLT_RAW = 12"
definition DLT_IPV4 :: int where "DLT_IPV4 = 228"
definition DLT_IPV6 :: int where "DLT_IPV6 = 229"

lemmas dlt_defs [go_simps] =
  DLT_NULL_def DLT_EN10MB_def DLT_EN3MB_def DLT_RAW_def DLT_IPV4_def DLT_IPV6_def
lemmas proto_defs [go_simps] =
  TYPE_IP_def TYPE_ARP_def TYPE_IP6_def IP_ICMP_def IP_INIP_def IP_TCP_def IP_UDP_def

subsection \<open>Printing an address\<close>

function uitoa_loop :: "nat \<Rightarrow> int \<Rightarrow> bytes \<Rightarrow> (nat \<times> int \<times> bytes) go" where
  "uitoa_loop val i buf =
     (if 10 \<le> val
      then go_bind (go_store buf i (word_of_nat (val mod 10 + 48)))
             (\<lambda>buf'. uitoa_loop (val div 10) (i - 1) buf')
      else Inr (val, i, buf))"
  by pat_completeness auto
termination
  by (relation "measure (\<lambda>(val, i, buf). val)") auto

declare uitoa_loop.simps [simp del]

definition uitoa :: "nat \<Rightarrow> string go" where
  "uitoa val =
     (let buf = replicate 32 (0 :: byte) in
      go_bind (uitoa_loop val (int (length buf) - 1) buf) (\<lambda>(val, i, buf).
      go_bind (go_store buf i (word_of_nat (val + 48))) (\<lambda>buf.
      go_bind (go_slice_from buf (nat i)) (\<lambda>s. Inr (string_of_bytes s)))))"

definition ipToString :: "bytes \<Rightarrow> string go" where
  "ipToString ip =
     (if length ip < 4 then Inr []
      else go_bind (go_at ip 0) (\<lambda>b0. go_bind (uitoa (unat b0)) (\<lambda>s0.
           go_bind (go_at ip 1) (\<lambda>b1. go_bind (uitoa (unat b1)) (\<lambda>s1.
           go_bind (go_at ip 2) (\<lambda>b2. go_bind (uitoa (unat b2)) (\<lambda>s2.
           go_bind (go_at ip 3) (\<lambda>b3. go_bind (uitoa (unat b3)) (\<lambda>s3.
             Inr (s0 @ ''.'' @ s1 @ ''.'' @ s2 @ ''.'' @ s3))))))))))"

text \<open>The loop fills the buffer from the right with the decimal digits of its argument.\<close>

lemma length_decimal_le: "0 < k \<Longrightarrow> n < 10 ^ k \<Longrightarrow> length (decimal n) \<le> k"
proof (induction n arbitrary: k rule: decimal.induct)
  case (1 n)
  show ?case
  proof (cases "n < 10")
    case True
    with 1 show ?thesis by (simp add: decimal.simps [of n])
  next
    case False
    from "1.prems" obtain j where k: "k = Suc j"
      by (cases k) auto
    with False "1.prems" have j: "k = Suc j" "0 < j"
      by (auto intro: gr0I)
    with False 1 have "length (decimal (n div 10)) \<le> j"
      by (simp add: less_mult_imp_div_less mult.commute)
    with False j show ?thesis by (simp add: decimal.simps [of n])
  qed
qed

lemma char_of_digit: "d < 10 \<Longrightarrow> char_of (unat (word_of_nat (d + 48) :: byte)) = digit_char d"
  by (simp add: digit_char_def unat_of_nat add.commute del: of_nat_add)

lemma uitoa_loop_fills:
  assumes "i < n" "length buf = n" "length (decimal val) \<le> Suc i"
  shows "\<exists>v j buf'. uitoa_loop val (int i) buf = Inr (v, int j, buf') \<and> v < 10 \<and> j \<le> i \<and>
    length buf' = n \<and>
    digit_char v # string_of_bytes (drop (Suc j) buf') =
      decimal val @ string_of_bytes (drop (Suc i) buf)"
  using assms
proof (induction val arbitrary: i buf rule: decimal.induct)
  case (1 val)
  show ?case
  proof (cases "val < 10")
    case True
    with 1 show ?thesis
      by (auto simp: uitoa_loop.simps [of val] decimal.simps [of val])
  next
    case False
    have len: "length (decimal (val div 10)) \<le> i"
      using "1.prems"(3) False by (simp add: decimal.simps [of val])
    then obtain k where i: "i = Suc k"
      by (cases i) auto
    then have ik: "int i - 1 = int k" by simp
    let ?buf = "buf[i := word_of_nat (val mod 10 + 48)]"
    have "drop (Suc k) ?buf = word_of_nat (val mod 10 + 48) # drop (Suc i) buf"
      using "1.prems" i by (simp add: drop_update_swap Cons_nth_drop_Suc [symmetric])
    then have tail: "string_of_bytes (drop (Suc k) ?buf) =
        digit_char (val mod 10) # string_of_bytes (drop (Suc i) buf)"
      using char_of_digit [of "val mod 10"] by (simp add: string_of_bytes_def)
    have "uitoa_loop val (int i) buf = uitoa_loop (val div 10) (int k) ?buf"
      using False "1.prems" by (simp add: uitoa_loop.simps [of val] go_store_def ik)
    moreover have "decimal val = decimal (val div 10) @ [digit_char (val mod 10)]"
      using False by (simp add: decimal.simps [of val])
    ultimately show ?thesis
      using "1.IH" [OF False, of k ?buf] "1.prems" i len tail by fastforce
  qed
qed

lemma uitoa_decimal:
  assumes "val < 2 ^ 64"
  shows "uitoa val = Inr (decimal val)"
proof -
  have "length (decimal val) \<le> 20"
    using assms by (intro length_decimal_le) simp_all
  then obtain v j buf where
    loop: "uitoa_loop val 31 (replicate 32 0) = Inr (v, int j, buf)" and
    v: "v < 10" "j \<le> 31" "length buf = 32"
      "digit_char v # string_of_bytes (drop (Suc j) buf) = decimal val"
    using uitoa_loop_fills [of 31 32 "replicate 32 0" val] by auto
  have "drop j (buf[j := word_of_nat (v + 48)]) = word_of_nat (v + 48) # drop (Suc j) buf"
    using v by (simp add: drop_update_swap Cons_nth_drop_Suc [symmetric])
  then have "string_of_bytes (drop j (buf[j := word_of_nat (v + 48)])) = decimal val"
    using v char_of_digit [of v] by (simp add: string_of_bytes_def)
  with loop v show ?thesis
    by (simp add: uitoa_def go_store_def)
qed

lemma uitoa_byte [simp]: "uitoa (unat (b :: byte)) = Inr (decimal (unat b))"
  using byte_lt_256 [of b] by (intro uitoa_decimal) simp

definition dotted :: "bytes \<Rightarrow> string" where
  "dotted ip = decimal (unat (ip ! 0)) @ ''.'' @ decimal (unat (ip ! 1)) @ ''.'' @
     decimal (unat (ip ! 2)) @ ''.'' @ decimal (unat (ip ! 3))"

lemma ipToString_dotted: "4 \<le> length ip \<Longrightarrow> ipToString ip = Inr (dotted ip)"
  by (auto simp: numeral_eq_Suc Suc_le_length_iff ipToString_def dotted_def go_at_def)

subsection \<open>GetPortNo\<close>

definition ethernet_header_length :: "int \<Rightarrow> nat" where
  "ethernet_header_length dlt = (if dlt = DLT_EN10MB \<or> dlt = DLT_EN3MB then 14 else 0)"

definition GetPortNo :: "bytes \<Rightarrow> int \<Rightarrow> 16 word go" where
  "GetPortNo data dlt =
     (let ethernetHeaderLength = ethernet_header_length dlt in
      go_bind (go_at data (ethernetHeaderLength + 0)) (\<lambda>b.
        let ipHeaderWordLength = b AND 0x0F;
            ipHeaderLength = unat ipHeaderWordLength * 4;
            portIdx = ethernetHeaderLength + ipHeaderLength
        in if length data < portIdx + 2 then Inr 0
           else go_bind (go_slice data portIdx (portIdx + 2)) be_uint16))"

subsection \<open>ParsePacketFast\<close>

text \<open>The TCP part: the segment, the source address and the capture time are given.\<close>

definition parse_tcp_part :: "bytes \<Rightarrow> bytes \<Rightarrow> int \<Rightarrow> MysqlRequest or_err go" where
  "parse_tcp_part payload srcIp now =
     (let pLenPayload = length payload in
      if pLenPayload < 20
      then Inr (Inl ''Packet is too small (less than tcp-header'')
      else
        go_bind (go_slice payload 0 2) (\<lambda>p. go_bind (be_uint16 p) (\<lambda>TcpSrcPort.
        go_bind (go_at payload 12) (\<lambda>b12.
        let TcpDataOffset = drop_bit 4 (b12 AND 0xF0);
            pDataOffset0 = unat (TcpDataOffset * 4);
            pDataOffset = (if pLenPayload < pDataOffset0 then pLenPayload else pDataOffset0)
        in go_bind (go_slice_from payload pDataOffset) (\<lambda>tcpPayload.
           go_bind (ipToString srcIp) (\<lambda>ip.
             Inr (Inr \<lparr>AlreadyParsed = False, SrcIp = ip,
                        SrcPort = to_int32 (uint TcpSrcPort), Data = tcpPayload,
                        CapturedAt = now, ParsedRequest = None\<rparr>)))))))"

text \<open>The IP part: the link header is stripped already.\<close>

definition parse_ip_part :: "bytes \<Rightarrow> int \<Rightarrow> MysqlRequest or_err go" where
  "parse_ip_part payload now =
     (if length payload < 20
      then Inr (Inl ''Packet is too small (less than ip-header'')
      else
        go_bind (go_at payload 0) (\<lambda>b0.
        let Ihl = b0 AND 0x0F in
        go_bind (go_slice payload 2 4) (\<lambda>l. go_bind (be_uint16 l) (\<lambda>ipLength.
        go_bind (go_at payload 9) (\<lambda>Protocol.
        go_bind (go_slice payload 12 16) (\<lambda>srcIp.
        let pEnd0 = unat ipLength;
            pEnd = (if length payload < pEnd0 then length payload else pEnd0);
            pIhl0 = unat Ihl * 4;
            pIhl = (if pEnd < pIhl0 then pEnd else pIhl0)
        in go_bind (go_slice payload pIhl pEnd) (\<lambda>payload.
           if Protocol = IP_TCP then parse_tcp_part payload srcIp now
           else Inr (Inl ''Not a tcp packet''))))))))"

definition ParsePacketFast :: "bytes \<Rightarrow> int \<Rightarrow> int \<Rightarrow> MysqlRequest or_err go" where
  "ParsePacketFast packetData dlt now =
     (if length packetData < 14
      then Inr (Inl ''Packet is too small (less than ethernet-header'')
      else
        go_bind
          (if dlt = DLT_EN10MB \<or> dlt = DLT_EN3MB
           then go_bind (go_slice packetData 12 14) (\<lambda>t. go_bind (be_uint16 t) (\<lambda>ty.
                go_bind (go_slice_from packetData 14) (\<lambda>payload. Inr (uint ty, payload))))
           else Inr (TYPE_IP, packetData))
        (\<lambda>(packetType, payload).
          if packetType = TYPE_IP then parse_ip_part payload now
          else Inr (Inl ''Not a ip packet'')))"

subsection \<open>What the parser computes\<close>

text \<open>
  The parts of a packet, as the two functions find them: the IP area after the link header, the
  IP header length it states, the TCP segment cut out by the IP total length, and the offset of
  the application data in the segment.
\<close>

definition u16_at :: "bytes \<Rightarrow> nat \<Rightarrow> nat" where
  "u16_at b i = 256 * unat (b ! i) + unat (b ! Suc i)"

definition ip_area :: "bytes \<Rightarrow> int \<Rightarrow> bytes" where
  "ip_area data dlt = drop (ethernet_header_length dlt) data"

definition ip_header_bytes :: "bytes \<Rightarrow> nat" where
  "ip_header_bytes ip = 4 * (unat (ip ! 0) mod 16)"

definition tcp_segment :: "bytes \<Rightarrow> bytes" where
  "tcp_segment ip = drop (ip_header_bytes ip) (take (u16_at ip 2) ip)"

definition tcp_data_offset :: "bytes \<Rightarrow> nat" where
  "tcp_data_offset seg = 4 * (unat (seg ! 12) div 16)"

lemma be_uint16_at:
  "Suc i < length b \<Longrightarrow> be_uint16 (take 2 (drop i b)) = Inr (word_of_nat (u16_at b i))"
proof -
  assume i: "Suc i < length b"
  then have "take 2 (drop i b) = [b ! i, b ! Suc i]"
    by (simp add: numeral_2_eq_2 take_Suc_conv_app_nth)
  then have eq: "be_uint16 (take 2 (drop i b)) =
      Inr (ucast (b ! Suc i) OR push_bit 8 (ucast (b ! i)))"
    by (simp add: be_uint16_def)
  have "(ucast (b ! Suc i) OR push_bit 8 (ucast (b ! i)) :: 16 word) = word_of_nat (u16_at b i)"
    unfolding u16_at_def be16_value [symmetric] by simp
  with eq show ?thesis by simp
qed

lemma u16_at_lt: "u16_at b i < 65536"
  using byte_lt_256 [of "b ! i"] byte_lt_256 [of "b ! Suc i"] by (simp add: u16_at_def)

lemma unat_u16_at [simp]: "unat (word_of_nat (u16_at b i) :: 16 word) = u16_at b i"
  using u16_at_lt [of b i] by (simp add: unat_of_nat)

lemma uint_u16_at [simp]: "uint (word_of_nat (u16_at b i) :: 16 word) = int (u16_at b i)"
  by (metis uint_nat unat_u16_at)

lemma to_int32_u16 [simp]: "to_int32 (int (u16_at b i)) = int (u16_at b i)"
  using u16_at_lt [of b i] by (intro to_int32_id) simp_all

lemma unat_and_15 [simp]: "unat ((w :: byte) AND 15) = unat w mod 16"
  by (rule nibbles)

lemma data_offset_value: "unat (drop_bit 4 ((w :: byte) AND 0xF0) * 4) = 4 * (unat w div 16)"
proof -
  have lt: "unat w div 16 < 16"
    using byte_lt_256 [of w] by simp
  have "drop_bit 4 (w AND 0xF0) = drop_bit 4 w AND 15"
    by (simp add: drop_bit_and)
  then have "unat (drop_bit 4 (w AND 0xF0)) = unat w div 16"
    using lt by (simp add: nibbles(1) del: drop_bit_numeral_minus_bit1)
  with lt show ?thesis
    by (simp add: unat_word_ariths)
qed

lemma data_offset_value' [simp]:
  "unat ((drop_bit 4 (w :: byte) AND 15) * 4) = 4 * (unat w div 16)"
  using data_offset_value [of w] by (simp add: drop_bit_and)

lemma length_ip_area [go_lens]: "length (ip_area data dlt) = length data - ethernet_header_length dlt"
  by (simp add: ip_area_def)

lemma slice_segment:
  "go_slice ip
     (if (if length ip < u16_at ip 2 then length ip else u16_at ip 2) < unat (ip ! 0) mod 16 * 4
      then (if length ip < u16_at ip 2 then length ip else u16_at ip 2)
      else unat (ip ! 0) mod 16 * 4)
     (if length ip < u16_at ip 2 then length ip else u16_at ip 2) = Inr (tcp_segment ip)"
  by (simp add: go_slice_def tcp_segment_def ip_header_bytes_def drop_take mult.commute)

lemma GetPortNo_eq:
  assumes "ethernet_header_length dlt < length data"
  shows "GetPortNo data dlt =
     (let ip = ip_area data dlt; i = ip_header_bytes ip in
      Inr (if i + 2 \<le> length ip then word_of_nat (u16_at ip i) else 0))"
proof -
  let ?h = "ethernet_header_length dlt"
  let ?i = "4 * (unat (data ! ?h) mod 16)"
  have "take 2 (drop (?h + ?i) data) = take 2 (drop ?i (drop ?h data))"
    by (simp add: add.commute)
  then have "be_uint16 (take 2 (drop (?h + ?i) data)) = Inr (word_of_nat (u16_at (drop ?h data) ?i))"
    if "?h + ?i + 2 \<le> length data"
    using be_uint16_at [of ?i "drop ?h data"] that by simp
  then show ?thesis
    using assms
    by (auto simp: GetPortNo_def Let_def ip_area_def ip_header_bytes_def mult.commute)
qed

lemma parse_tcp_part_eq:
  assumes "length srcIp = 4"
  shows "parse_tcp_part seg srcIp now =
     Inr (if length seg < 20 then Inl ''Packet is too small (less than tcp-header''
          else Inr \<lparr>AlreadyParsed = False, SrcIp = dotted srcIp, SrcPort = int (u16_at seg 0),
                     Data = drop (tcp_data_offset seg) seg, CapturedAt = now, ParsedRequest = None\<rparr>)"
proof (cases "length seg < 20")
  case False
  then have "be_uint16 (take 2 seg) = Inr (word_of_nat (u16_at seg 0))"
    using be_uint16_at [of 0 seg] by simp
  with False show ?thesis
    using assms
    by (simp add: parse_tcp_part_def Let_def data_offset_value ipToString_dotted tcp_data_offset_def)
qed (simp add: parse_tcp_part_def)

lemma parse_ip_part_eq:
  "parse_ip_part ip now =
     (let seg = tcp_segment ip in
      Inr (if length ip < 20 then Inl ''Packet is too small (less than ip-header''
           else if ip ! 9 \<noteq> IP_TCP then Inl ''Not a tcp packet''
           else if length seg < 20 then Inl ''Packet is too small (less than tcp-header''
           else Inr \<lparr>AlreadyParsed = False, SrcIp = dotted (take 4 (drop 12 ip)),
                      SrcPort = int (u16_at seg 0), Data = drop (tcp_data_offset seg) seg,
                      CapturedAt = now, ParsedRequest = None\<rparr>))"
proof (cases "length ip < 20")
  case False
  then have "be_uint16 (take 2 (drop 2 ip)) = Inr (word_of_nat (u16_at ip 2))"
    using be_uint16_at [of 2 ip] by simp
  moreover have "go_slice ip 2 4 = Inr (take 2 (drop 2 ip))" "go_slice ip 12 16 = Inr (take 4 (drop 12 ip))"
    "go_at ip 0 = Inr (ip ! 0)" "go_at ip 9 = Inr (ip ! 9)" "length (take 4 (drop 12 ip)) = 4"
    using False by (auto simp: go_at_def)
  ultimately show ?thesis
    using False
    by (simp add: parse_ip_part_def Let_def parse_tcp_part_eq slice_segment
        del: go_slice_in_range go_at_in_range split del: if_split cong: if_cong) simp
qed (simp add: parse_ip_part_def)

text \<open>
  The fast parser as one equation: the first check that fails decides the error, and otherwise
  the request is read off the headers.
\<close>

lemma ParsePacketFast_eq:
  "ParsePacketFast d dlt now =
     (let ip = ip_area d dlt; seg = tcp_segment ip in
      Inr (if length d < 14 then Inl ''Packet is too small (less than ethernet-header''
           else if ethernet_header_length dlt = 14 \<and> u16_at d 12 \<noteq> 0x0800 then Inl ''Not a ip packet''
           else if length ip < 20 then Inl ''Packet is too small (less than ip-header''
           else if ip ! 9 \<noteq> IP_TCP then Inl ''Not a tcp packet''
           else if length seg < 20 then Inl ''Packet is too small (less than tcp-header''
           else Inr \<lparr>AlreadyParsed = False, SrcIp = dotted (take 4 (drop 12 ip)),
                      SrcPort = int (u16_at seg 0), Data = drop (tcp_data_offset seg) seg,
                      CapturedAt = now, ParsedRequest = None\<rparr>))"
proof (cases "length d < 14")
  case False
  then have "be_uint16 (take 2 (drop 12 d)) = Inr (word_of_nat (u16_at d 12))"
    using be_uint16_at [of 12 d] by simp
  with False show ?thesis
    by (auto simp: ParsePacketFast_def Let_def parse_ip_part_eq ip_area_def
        ethernet_header_length_def TYPE_IP_def)
qed (simp add: ParsePacketFast_def)

lemma ParsePacketFast_total: "\<not> panics (ParsePacketFast d dlt now)"
  by (simp add: ParsePacketFast_eq Let_def)

lemma ParsePacketFast_ok:
  assumes "ParsePacketFast d dlt now = Inr (Inr r)"
  shows "14 \<le> length d" "ethernet_header_length dlt < length d"
    "20 \<le> length (ip_area d dlt)" "ip_area d dlt ! 9 = IP_TCP"
    "20 \<le> length (tcp_segment (ip_area d dlt))"
    "r = \<lparr>AlreadyParsed = False, SrcIp = dotted (take 4 (drop 12 (ip_area d dlt))),
          SrcPort = int (u16_at (tcp_segment (ip_area d dlt)) 0),
          Data = drop (tcp_data_offset (tcp_segment (ip_area d dlt))) (tcp_segment (ip_area d dlt)),
          CapturedAt = now, ParsedRequest = None\<rparr>"
  using assms
  by (auto simp: ParsePacketFast_eq Let_def go_lens split: if_splits)

text \<open>The port the dispatcher looks up is the port the parser reports.\<close>

lemma GetPortNo_agrees:
  assumes "ParsePacketFast d dlt now = Inr (Inr r)"
  shows "\<exists>p. GetPortNo d dlt = Inr p \<and> SrcPort r = uint p"
proof -
  let ?ip = "ip_area d dlt"
  let ?i = "ip_header_bytes ?ip"
  note ok = ParsePacketFast_ok [OF assms]
  from ok(5) have i: "?i + 20 \<le> length ?ip" "?i + 20 \<le> u16_at ?ip 2"
    by (simp_all add: tcp_segment_def)
  then have "u16_at (tcp_segment ?ip) 0 = u16_at ?ip ?i"
    by (simp add: u16_at_def tcp_segment_def)
  with ok i show ?thesis
    by (simp add: GetPortNo_eq Let_def)
qed

end
