(* ===== verification/DriverUtils.thy ===== *)
theory DriverUtils
  imports ByteOrder PacketParser
begin

text \<open>
  The vendored MySQL driver, \<open>go-sql-driver/mysql/utils.go\<close>: booleans, numbers and their text,
  length encoded integers and strings, and binary dates.
\<close>

definition readBool :: "string \<Rightarrow> bool \<times> bool" where
  "readBool input =
     (if input \<in> set [''1'', ''true'', ''TRUE'', ''True''] then (True, True)
      else if input \<in> set [''0'', ''false'', ''FALSE'', ''False''] then (False, True)
      else (False, False))"

subsection \<open>Numbers\<close>

definition uint64ToBytes :: "64 word \<Rightarrow> bytes" where
  "uint64ToBytes n =
     [ucast n, ucast (drop_bit 8 n), ucast (drop_bit 16 n), ucast (drop_bit 24 n),
      ucast (drop_bit 32 n), ucast (drop_bit 40 n), ucast (drop_bit 48 n), ucast (drop_bit 56 n)]"

function uint64_loop :: "nat \<Rightarrow> int \<Rightarrow> bytes \<Rightarrow> (nat \<times> int \<times> bytes) go" where
  "uint64_loop n i a =
     (if 10 \<le> n
      then let i' = i - 1; q = n div 10
           in go_bind (go_store a i' (word_of_nat (n - q * 10) + 0x30)) (\<lambda>a'. uint64_loop q i' a')
      else Inr (n, i, a))"
  by pat_completeness auto
termination
  by (relation "measure (\<lambda>(n, i, a). n)") auto

declare uint64_loop.simps [simp del]

definition uint64ToString :: "nat \<Rightarrow> bytes go" where
  "uint64ToString n =
     go_bind (uint64_loop n 20 (replicate 20 0)) (\<lambda>(n, i, a).
     go_bind (go_store a (i - 1) (word_of_nat n + 0x30)) (\<lambda>a. go_slice_from a (nat (i - 1))))"

definition stringToInt :: "bytes \<Rightarrow> int" where
  "stringToInt b = foldl (\<lambda>val c. to_int64 (to_int64 (val * 10) + uint (c - 0x30))) 0 b"

subsection \<open>Length encoded integers and strings\<close>

text \<open>The number, whether it is NULL, and the number of bytes read.\<close>

definition readLengthEncodedInteger :: "bytes \<Rightarrow> (64 word \<times> bool \<times> nat) go" where
  "readLengthEncodedInteger b =
     (if length b = 0 then Inr (0, True, 1)
      else
        go_bind (go_at b 0) (\<lambda>b0.
        if b0 = 0xfb then Inr (0, True, 1)
        else if b0 = 0xfc then
          go_bind (go_at b 1) (\<lambda>b1. go_bind (go_at b 2) (\<lambda>b2.
            Inr (ucast b1 OR push_bit 8 (ucast b2), False, 3)))
        else if b0 = 0xfd then
          go_bind (go_at b 1) (\<lambda>b1. go_bind (go_at b 2) (\<lambda>b2. go_bind (go_at b 3) (\<lambda>b3.
            Inr (ucast b1 OR push_bit 8 (ucast b2) OR push_bit 16 (ucast b3), False, 4))))
        else if b0 = 0xfe then
          go_bind (go_at b 1) (\<lambda>b1. go_bind (go_at b 2) (\<lambda>b2. go_bind (go_at b 3) (\<lambda>b3.
          go_bind (go_at b 4) (\<lambda>b4. go_bind (go_at b 5) (\<lambda>b5. go_bind (go_at b 6) (\<lambda>b6.
          go_bind (go_at b 7) (\<lambda>b7. go_bind (go_at b 8) (\<lambda>b8.
            Inr (ucast b1 OR push_bit 8 (ucast b2) OR push_bit 16 (ucast b3) OR
                 push_bit 24 (ucast b4) OR push_bit 32 (ucast b5) OR push_bit 40 (ucast b6) OR
                 push_bit 48 (ucast b7) OR push_bit 56 (ucast b8), False, 9)))))))))
        else Inr (ucast b0, False, 1)))"

definition appendLengthEncodedInteger :: "bytes \<Rightarrow> 64 word \<Rightarrow> bytes" where
  "appendLengthEncodedInteger b n =
     (if n \<le> 250 then b @ [ucast n]
      else if n \<le> 0xffff then b @ [0xfc, ucast n, ucast (drop_bit 8 n)]
      else if n \<le> 0xffffff then b @ [0xfd, ucast n, ucast (drop_bit 8 n), ucast (drop_bit 16 n)]
      else b @ [0xfe, ucast n, ucast (drop_bit 8 n), ucast (drop_bit 16 n), ucast (drop_bit 24 n),
                ucast (drop_bit 32 n), ucast (drop_bit 40 n), ucast (drop_bit 48 n),
                ucast (drop_bit 56 n)])"

text \<open>
  A Go slice ends before its backing array does, and \<open>x[i:j]\<close> is bounded by the capacity: a
  \<open>slice\<close> is its bytes and the bytes behind them. An index and the end of \<open>x[i:]\<close> are bounded by the
  length.
\<close>

type_synonym slice = "bytes \<times> bytes"

definition slice_int :: "slice \<Rightarrow> int \<Rightarrow> int \<Rightarrow> slice go" where
  "slice_int s i j =
     (let all = fst s @ snd s in
      if 0 \<le> i \<and> i \<le> j \<and> j \<le> int (length all)
      then Inr (take (nat (j - i)) (drop (nat i) all), drop (nat j) all)
      else Inl SliceOutOfRange)"

definition slice_rest :: "slice \<Rightarrow> int \<Rightarrow> slice go" where
  "slice_rest s i = slice_int s i (int (length (fst s)))"

text \<open>
  The bytes, whether they are NULL, and the number of bytes read, with \<open>io.EOF\<close> as the only error.
  The position is an \<open>int\<close> and \<open>int(num)\<close> may be negative.
\<close>

datatype eof_error = EofError

definition readLengthEncodedString :: "slice \<Rightarrow> (eof_error + bytes \<times> bool \<times> int) go" where
  "readLengthEncodedString s =
     go_bind (readLengthEncodedInteger (fst s)) (\<lambda>(num, isNull, n).
       if num < 1
       then go_bind (slice_int s (int n) (int n)) (\<lambda>v. Inr (Inr (fst v, isNull, int n)))
       else
         let k = to_int64 (uint num); m = to_int64 (int n + k)
         in if m \<le> int (length (fst s))
            then go_bind (slice_int s (to_int64 (m - k)) m) (\<lambda>v. Inr (Inr (fst v, False, m)))
            else Inr (Inl EofError))"

definition skipLengthEncodedString :: "bytes \<Rightarrow> (eof_error + int) go" where
  "skipLengthEncodedString b =
     go_bind (readLengthEncodedInteger b) (\<lambda>(num, isNull, n).
       if num < 1 then Inr (Inr (int n))
       else
         let m = to_int64 (int n + to_int64 (uint num))
         in Inr (if m \<le> int (length b) then Inr m else Inl EofError))"

lemma slice_int_mid:
  "d = pre @ mid @ post \<Longrightarrow> i = int (length pre) \<Longrightarrow> j = int (length pre) + int (length mid) \<Longrightarrow>
   slice_int (d, spare) i j = Inr (mid, post @ spare)"
  by (simp add: slice_int_def Let_def nat_add_distrib)

lemma slice_rest_drop: "k \<le> length d \<Longrightarrow> slice_rest (d, spare) (int k) = Inr (drop k d, spare)"
  by (simp add: slice_rest_def slice_int_def)

subsection \<open>The encodings are inverse\<close>

abbreviation lei :: "64 word \<Rightarrow> bytes" where
  "lei n \<equiv> appendLengthEncodedInteger [] n"

lemma append_lei: "appendLengthEncodedInteger b n = b @ lei n"
  by (simp add: appendLengthEncodedInteger_def)

lemma lei_forms:
  "lei n =
     (if n \<le> 250 then le_bytes 1 n
      else if n \<le> 0xffff then 0xfc # le_bytes 2 n
      else if n \<le> 0xffffff then 0xfd # le_bytes 3 n
      else 0xfe # le_bytes 8 n)"
  by (simp add: appendLengthEncodedInteger_def eval_nat_numeral drop_bit_drop_bit)

lemma read_lei_forms:
  "readLengthEncodedInteger [] = Inr (0, True, 1)"
  "readLengthEncodedInteger (0xfb # bs) = Inr (0, True, 1)"
  "2 \<le> length bs \<Longrightarrow> readLengthEncodedInteger (0xfc # bs) = Inr (le_word (take 2 bs), False, 3)"
  "3 \<le> length bs \<Longrightarrow> readLengthEncodedInteger (0xfd # bs) = Inr (le_word (take 3 bs), False, 4)"
  "8 \<le> length bs \<Longrightarrow> readLengthEncodedInteger (0xfe # bs) = Inr (le_word (take 8 bs), False, 9)"
  "b < 0xfb \<Longrightarrow> readLengthEncodedInteger (b # bs) = Inr (ucast b, False, 1)"
proof -
  show "readLengthEncodedInteger [] = Inr (0, True, 1)" "readLengthEncodedInteger (0xfb # bs) = Inr (0, True, 1)"
    by (simp_all add: readLengthEncodedInteger_def)
  show "b < 0xfb \<Longrightarrow> readLengthEncodedInteger (b # bs) = Inr (ucast b, False, 1)"
    by (auto simp: readLengthEncodedInteger_def)
next
  assume "2 \<le> length bs"
  then have "Suc (Suc 0) \<le> length bs" by simp
  then show "readLengthEncodedInteger (0xfc # bs) = Inr (le_word (take 2 bs), False, 3)"
    unfolding Suc_le_length_iff
    by (auto simp: readLengthEncodedInteger_def)
next
  assume "3 \<le> length bs"
  then have "Suc (Suc (Suc 0)) \<le> length bs" by simp
  then show "readLengthEncodedInteger (0xfd # bs) = Inr (le_word (take 3 bs), False, 4)"
    unfolding Suc_le_length_iff
    by (auto simp: readLengthEncodedInteger_def push_bit_or push_bit_push_bit ac_simps)
next
  assume "8 \<le> length bs"
  then have "Suc (Suc (Suc (Suc (Suc (Suc (Suc (Suc 0))))))) \<le> length bs" by simp
  then obtain b1 b2 b3 b4 b5 b6 b7 b8 cs where bs: "bs = b1 # b2 # b3 # b4 # b5 # b6 # b7 # b8 # cs"
    unfolding Suc_le_length_iff by blast
  have "(0xfe :: byte) \<noteq> 0xfb" "(0xfe :: byte) \<noteq> 0xfc" "(0xfe :: byte) \<noteq> 0xfd" by simp_all
  then show "readLengthEncodedInteger (0xfe # bs) = Inr (le_word (take 8 bs), False, 9)"
    unfolding bs
    by (simp add: readLengthEncodedInteger_def push_bit_or push_bit_push_bit ac_simps)
qed

lemma read_append_lei:
  "readLengthEncodedInteger (lei n @ rest) = Inr (n, False, length (lei n))"
proof -
  consider "n \<le> 250" | "250 < n" "n \<le> 0xffff" | "0xffff < n" "n \<le> 0xffffff" | "0xffffff < n"
    by (meson linorder_not_le)
  then show ?thesis
  proof cases
    case 1
    then have u: "unat n \<le> 250" by (simp add: word_le_nat_alt)
    then have "unat (ucast n :: byte) = unat n" by (simp add: unsigned_ucast_eq take_bit_eq_mod)
    then have "(ucast n :: byte) < 0xfb" using u by (simp add: word_less_nat_alt)
    moreover have "ucast (ucast n :: byte) = n"
      using le_word_le_bytes_id [of n 1] u by simp
    ultimately show ?thesis using 1 by (simp add: lei_forms read_lei_forms)
  next
    case 2
    then have "\<not> n \<le> 250" "le_word (le_bytes 2 n) = n"
      by (auto intro!: le_word_le_bytes_id simp: word_le_nat_alt word_less_nat_alt)
    with 2 show ?thesis by (simp add: lei_forms read_lei_forms)
  next
    case 3
    then have "\<not> n \<le> 250" "\<not> n \<le> 0xffff" "le_word (le_bytes 3 n) = n"
      by (auto intro!: le_word_le_bytes_id simp: word_le_nat_alt word_less_nat_alt)
    with 3 show ?thesis by (simp add: lei_forms read_lei_forms)
  next
    case 4
    have "le_word (le_bytes 8 n) = n"
      using unsigned_less [of n, where 'a = nat] by (intro le_word_le_bytes_id) simp
    moreover have "\<not> n \<le> 250" "\<not> n \<le> 0xffff" "\<not> n \<le> 0xffffff"
      using 4 by (auto simp: word_less_nat_alt word_le_nat_alt)
    ultimately show ?thesis by (simp add: lei_forms read_lei_forms)
  qed
qed


lemma length_lei:
  "length (lei n) = (if n \<le> 250 then 1 else if n \<le> 0xffff then 3 else if n \<le> 0xffffff then 4 else 9)"
  by (simp add: lei_forms)

text \<open>
  A first byte below \<open>0xfb\<close> is a number, and \<open>0xfb\<close>, \<open>0xff\<close> begin none: NULL and the error packet
  are told from numbers by one byte.
\<close>

lemma lei_head:
  "lei n \<noteq> []" "hd (lei n) \<noteq> 0xfb" "hd (lei n) \<noteq> 0xff" "hd (lei n) = 0xfe \<longleftrightarrow> 0xffffff < n"
proof -
  have "n \<le> 250 \<Longrightarrow> (ucast n :: byte) < 0xfb"
  proof -
    assume "n \<le> 250"
    then have "unat (ucast n :: byte) = unat n" "unat n \<le> 250"
      by (auto simp: unsigned_ucast_eq take_bit_eq_mod word_le_nat_alt)
    then show "(ucast n :: byte) < 0xfb" by (simp add: word_less_nat_alt)
  qed
  then have small: "n \<le> 250 \<Longrightarrow> (ucast n :: byte) \<noteq> 0xfb" "n \<le> 250 \<Longrightarrow> (ucast n :: byte) \<noteq> 0xff"
    "n \<le> 250 \<Longrightarrow> (ucast n :: byte) \<noteq> 0xfe"
    by auto
  show "lei n \<noteq> []" by (simp add: lei_forms)
  show "hd (lei n) \<noteq> 0xfb" "hd (lei n) \<noteq> 0xff"
    using small by (auto simp: lei_forms)
  have "n \<le> 250 \<Longrightarrow> n \<le> 0xffffff" "n \<le> 0xffff \<Longrightarrow> n \<le> 0xffffff"
    by (auto simp: word_le_nat_alt)
  with small show "hd (lei n) = 0xfe \<longleftrightarrow> 0xffffff < n"
    by (auto simp: lei_forms not_le [symmetric])
qed

subsection \<open>Strings\<close>

definition les :: "bytes \<Rightarrow> bytes" where
  "les v = lei (word_of_nat (length v)) @ v"

lemma to_int64_small: "int n < 2 ^ 63 \<Longrightarrow> to_int64 (int n) = int n"
  by (rule to_int64_id) (auto intro: order_trans [of _ 0])

lemma length_lei_le: "length (lei n) \<le> 9" "1 \<le> length (lei n)"
  by (simp_all add: length_lei)

lemma uint_length:
  "length v + 9 < 2 ^ 63 \<Longrightarrow> uint (word_of_nat (length v) :: 64 word) = int (length v)" for v :: bytes
  by (simp add: uint_nat unat_of_nat)

lemma les_num:
  "length v + 9 < 2 ^ 63 \<Longrightarrow> readLengthEncodedInteger (les v @ rest) =
     Inr (word_of_nat (length v), False, length (lei (word_of_nat (length v))))"
  by (simp add: les_def read_append_lei)

lemma les_num_0:
  fixes v :: bytes
  assumes "length v + 9 < 2 ^ 63" shows "(word_of_nat (length v) :: 64 word) = 0 \<longleftrightarrow> v = []"
proof -
  have "(word_of_nat (length v) :: 64 word) = 0 \<longleftrightarrow> uint (word_of_nat (length v) :: 64 word) = 0"
    by (metis uint_0_iff)
  then show ?thesis by (simp add: uint_length [OF assms])
qed

lemma les_end:
  "length v + 9 < 2 ^ 63 \<Longrightarrow>
   to_int64 (int (length (lei (word_of_nat (length v)))) + to_int64 (int (length v))) = int (length (les v))"
  using length_lei_le(1) [of "word_of_nat (length v)"]
  by (subst to_int64_small) (auto simp: les_def to_int64_small simp flip: of_nat_add)

lemma les_begin:
  "length v + 9 < 2 ^ 63 \<Longrightarrow>
   to_int64 (int (length (les v)) - to_int64 (int (length v))) = int (length (lei (word_of_nat (length v))))"
  using length_lei_le(1) [of "word_of_nat (length v)"]
  by (simp add: les_def to_int64_small)

lemmas les_facts = les_num les_num_0 uint_length les_end les_begin

lemma read_les:
  assumes "length v + 9 < 2 ^ 63"
  shows "readLengthEncodedString (les v @ rest, spare) = Inr (Inr (v, False, int (length (les v))))"
proof (cases "v = []")
  case True
  then show ?thesis
    using les_facts(1,2) [OF assms] length_lei_le(2) [of 0]
    by (simp add: readLengthEncodedString_def slice_int_def les_def)
next
  case False
  have "slice_int (les v @ rest, spare) (int (length (lei (word_of_nat (length v))))) (int (length (les v))) =
      Inr (v, rest @ spare)"
    by (simp add: slice_int_def les_def)
  with False show ?thesis
    by (simp add: readLengthEncodedString_def les_facts [OF assms] Let_def)
qed

lemma skip_les:
  assumes "length v + 9 < 2 ^ 63"
  shows "skipLengthEncodedString (les v @ rest) = Inr (Inr (int (length (les v))))"
proof (cases "v = []")
  case True
  then show ?thesis
    using les_num [OF assms, of rest] by (simp add: skipLengthEncodedString_def les_def)
next
  case False
  then show ?thesis
    by (simp add: skipLengthEncodedString_def les_facts [OF assms] Let_def)
qed

text \<open>
  The length of a string is read as an unsigned number and used as an \<open>int\<close>: from \<open>2^63\<close> on it is
  negative, the check of the data length passes and the slice is out of range.
\<close>

lemma to_int64_huge:
  assumes "2 ^ 63 \<le> uint (n :: 64 word)"
  shows "to_int64 (uint n) = uint n - 2 ^ 64"
proof -
  have "(uint n + 2 ^ 63) mod 2 ^ 64 = (uint n + 2 ^ 63 - 2 ^ 64) mod 2 ^ 64"
    by (rule minus_mod_self2 [symmetric])
  also have "\<dots> = uint n + 2 ^ 63 - 2 ^ 64"
    using assms unsigned_less [of n, where 'a = int] by (intro mod_pos_pos_trivial) simp_all
  finally show ?thesis
    by (simp add: to_int64_def signed_take_bit_eq_take_bit_shift take_bit_eq_mod)
qed

lemma read_huge_string:
  assumes "2 ^ 63 \<le> unat (n :: 64 word)"
  shows "readLengthEncodedString (lei n @ rest, spare) = Inl SliceOutOfRange"
proof -
  have u: "2 ^ 63 \<le> uint n" using assms by (metis of_nat_le_iff of_nat_numeral of_nat_power uint_nat)
  then have "\<not> n < 1" by (auto simp: word_less_def)
  have "n \<noteq> 0" using u by auto
  let ?l = "length (lei n)" and ?k = "uint n - 2 ^ 64"
  have k: "to_int64 (uint n) = ?k" "- (2 ^ 63) \<le> ?k" "?k < 0"
    using to_int64_huge [OF u] u unsigned_less [of n, where 'a = int] by simp_all
  have "to_int64 (int ?l + ?k) = int ?l + ?k"
    using k length_lei_le(1) [of n] by (intro to_int64_id) auto
  moreover have "to_int64 (int ?l) = int ?l"
    using length_lei_le(1) [of n] by (intro to_int64_small) auto
  moreover have "int ?l + ?k \<le> int (length (lei n @ rest))" using k(3) by simp
  moreover have "slice_int (lei n @ rest, spare) (int ?l) (int ?l + ?k) = Inl SliceOutOfRange"
    using k(3) by (simp add: slice_int_def)
  ultimately show ?thesis
    using \<open>n \<noteq> 0\<close> by (simp add: readLengthEncodedString_def read_append_lei k(1) Let_def)
qed

subsection \<open>Numbers and text\<close>

text \<open>\<open>uint64ToString\<close> is the digit loop of \<open>uitoa\<close> with the index moved by one.\<close>

lemma uint64_loop_uitoa:
  "uint64_loop n i a = go_bind (uitoa_loop n (i - 1) a) (\<lambda>(n, j, a). Inr (n, j + 1, a))"
proof (induction n arbitrary: i a rule: less_induct)
  case (less n)
  have digit: "word_of_nat (n - n div 10 * 10) + 0x30 = (word_of_nat (n mod 10 + 48) :: byte)"
    by (simp add: minus_div_mult_eq_mod)
  show ?case
  proof (cases "10 \<le> n")
    case True
    show ?thesis
    proof (cases "go_store a (i - 1) (word_of_nat (n mod 10 + 48) :: byte)")
      case (Inl e)
      with True digit show ?thesis
        by (simp add: uint64_loop.simps [of n] uitoa_loop.simps [of n] Let_def)
    next
      case (Inr a')
      have "uint64_loop (n div 10) (i - 1) a' =
          go_bind (uitoa_loop (n div 10) (i - 1 - 1) a') (\<lambda>(n, j, a). Inr (n, j + 1, a))"
        using True by (intro less.IH) simp
      with Inr True digit show ?thesis
        by (simp add: uint64_loop.simps [of n] uitoa_loop.simps [of n] Let_def)
    qed
  next
    case False
    then show ?thesis by (simp add: uint64_loop.simps [of n] uitoa_loop.simps [of n])
  qed
qed

lemma uint64ToString_decimal:
  assumes "n < 2 ^ 64"
  shows "\<exists>b. uint64ToString n = Inr b \<and> string_of_bytes b = decimal n"
proof -
  have "length (decimal n) \<le> 20"
    using assms by (intro length_decimal_le) simp_all
  then obtain v j buf where
    loop: "uitoa_loop n 19 (replicate 20 0) = Inr (v, int j, buf)" and
    v: "v < 10" "j \<le> 19" "length buf = 20"
      "digit_char v # string_of_bytes (drop (Suc j) buf) = decimal n"
    using uitoa_loop_fills [of 19 20 "replicate 20 0" n] by auto
  let ?d = "word_of_nat v + 0x30 :: byte"
  have "drop j (buf[j := ?d]) = ?d # drop (Suc j) buf"
    using v by (simp add: drop_update_swap Cons_nth_drop_Suc [symmetric])
  moreover have "char_of (unat ?d) = digit_char v"
    using char_of_digit [OF v(1)] by simp
  ultimately have "string_of_bytes (drop j (buf[j := ?d])) = decimal n"
    using v by (simp add: string_of_bytes_def)
  moreover have "uint64ToString n = Inr (drop j (buf[j := ?d]))"
    using loop v by (simp add: uint64ToString_def uint64_loop_uitoa go_store_def)
  ultimately show ?thesis by blast
qed

end
