(* ===== verification/DriverConn.thy ===== *)
theory DriverConn
  imports DriverUtils
begin

text \<open>
  The connection of the MySQL driver: \<open>buffer.go\<close>, the record \<open>mysqlConn\<close> of \<open>connection.go\<close>, and
  \<open>readPacket\<close>, \<open>writePacket\<close> of \<open>packets.go\<close>. An operation passes the connection on; an \<open>error\<close> is
  a value of \<open>driver_error\<close>, \<open>None\<close> for \<open>nil\<close>. The network connection is a script: the chunks that
  the coming calls of \<open>Read\<close> deliver, each with the error that follows its last byte, and the
  outcomes of the coming calls of \<open>Write\<close>.
\<close>

subsection \<open>Errors and constants\<close>

datatype driver_error =
    ErrInvalidConn | ErrMalformPkt | ErrNoTLS | ErrCleartextPassword | ErrNativePassword
  | ErrOldPassword | ErrUnknownPlugin | ErrOldProtocol | ErrPktSync | ErrPktSyncMul
  | ErrPktTooLarge | ErrBusyBuffer
  | BadConnNoWrite                \<comment> \<open>\<open>errBadConnNoWrite\<close>\<close>
  | ErrBadConn | ErrSkip          \<comment> \<open>of \<open>database/sql/driver\<close>\<close>
  | EOF | ErrUnexpectedEOF        \<comment> \<open>of \<open>io\<close>\<close>
  | MySQLError "16 word" bytes
  | NetError string
  | OtherError string

definition defaultBufSize :: nat where
  "defaultBufSize = 4096"

definition maxPacketSize :: nat where
  "maxPacketSize = 2 ^ 24 - 1"

lemma maxPacketSize_eq: "maxPacketSize = 16777215"
  by (simp add: maxPacketSize_def)

subsection \<open>The network connection\<close>

text \<open>What the coming calls of \<open>Read\<close> with a buffer of \<open>k\<close> bytes deliver.\<close>

type_synonym read_script = "(bytes \<times> driver_error option) list"

definition script_read :: "nat \<Rightarrow> read_script \<Rightarrow> (bytes \<times> driver_error option) \<times> read_script" where
  "script_read k script =
     (case script of
        [] \<Rightarrow> (([], Some EOF), [])
      | (c, e) # rest \<Rightarrow>
          if length c \<le> k then ((c, e), rest) else ((take k c, None), (drop k c, e) # rest))"

record net_conn =
  net_in :: read_script
  net_out :: bytes
  net_writes :: "(nat \<times> driver_error option) list"
  net_deadline :: "driver_error option"
  net_closed :: bool

definition conn_read :: "nat \<Rightarrow> net_conn \<Rightarrow> (bytes \<times> driver_error option) \<times> net_conn" where
  "conn_read k nc = (let (r, rest) = script_read k (net_in nc) in (r, nc\<lparr>net_in := rest\<rparr>))"

definition conn_write :: "bytes \<Rightarrow> net_conn \<Rightarrow> (nat \<times> driver_error option) \<times> net_conn" where
  "conn_write p nc =
     (case net_writes nc of
        [] \<Rightarrow> ((length p, None), nc\<lparr>net_out := net_out nc @ p\<rparr>)
      | (k, e) # ws \<Rightarrow>
          ((min k (length p), e), nc\<lparr>net_out := net_out nc @ take k p, net_writes := ws\<rparr>))"

definition deadline_error :: "int \<Rightarrow> net_conn \<Rightarrow> driver_error option" where
  "deadline_error timeout nc = (if 0 < timeout then net_deadline nc else None)"

definition script_bytes :: "read_script \<Rightarrow> nat" where
  "script_bytes script = (\<Sum>(c, e) \<leftarrow> script. length c)"

definition unread_bytes :: "net_conn \<Rightarrow> nat" where
  "unread_bytes nc = script_bytes (net_in nc)"

lemma script_read_bytes:
  "script_read k script = ((c, e), script') \<Longrightarrow> script_bytes script = length c + script_bytes script'"
  by (auto simp: script_read_def script_bytes_def split: list.splits prod.splits if_splits)

lemma script_read_progress:
  "script_read k script = ((c, None), script') \<Longrightarrow> 0 < k \<Longrightarrow>
   length script' + script_bytes script' < length script + script_bytes script"
  by (auto simp: script_read_def script_bytes_def split: list.splits prod.splits if_splits)

lemma conn_read_unread:
  "conn_read k nc = ((c, e), nc') \<Longrightarrow> unread_bytes nc = length c + unread_bytes nc'"
  by (auto simp: conn_read_def unread_bytes_def Let_def script_read_bytes split: prod.splits)

lemma conn_read_progress:
  "conn_read k nc = ((c, None), nc') \<Longrightarrow> 0 < k \<Longrightarrow>
   length (net_in nc') + unread_bytes nc' < length (net_in nc) + unread_bytes nc"
  by (auto simp: conn_read_def unread_bytes_def Let_def script_read_progress split: prod.splits)

lemma length_conn_read: "conn_read k nc = ((c, e), nc') \<Longrightarrow> length c \<le> k"
  by (auto simp: conn_read_def script_read_def Let_def split: list.splits prod.splits if_splits)

subsection \<open>buffer.go\<close>

record driver_buffer =
  buf_bytes :: bytes
  buf_idx :: nat
  buf_length :: nat
  buf_timeout :: int

definition newBuffer :: driver_buffer where
  "newBuffer = \<lparr>buf_bytes = replicate defaultBufSize 0, buf_idx = 0, buf_length = 0, buf_timeout = 0\<rparr>"

text \<open>
  The loop of \<open>fill\<close>, with \<open>n\<close> bytes in the buffer \<open>b\<close>. It reads into the free part of the buffer;
  \<open>fill\<close> calls it with \<open>need \<le> length b\<close> (\<open>grown_holds\<close>), so that this part is not empty while bytes
  are missing, and the guard of the recursion holds.
\<close>

definition read_into :: "bytes \<Rightarrow> nat \<Rightarrow> bytes \<Rightarrow> bytes" where
  "read_into b n c = take n b @ c @ drop (n + length c) b"

function fill_loop ::
  "int \<Rightarrow> nat \<Rightarrow> bytes \<Rightarrow> nat \<Rightarrow> net_conn \<Rightarrow> (driver_error option \<times> bytes \<times> nat \<times> net_conn) go"
where
  "fill_loop timeout need b n nc =
     (case deadline_error timeout nc of
        Some e \<Rightarrow> Inr (Some e, b, n, nc)
      | None \<Rightarrow>
          go_bind (go_slice_from b n) (\<lambda>free.
            case conn_read (length free) nc of
              ((c, err), nc') \<Rightarrow>
                let b' = read_into b n c; n' = n + length c in
                case err of
                  None \<Rightarrow>
                    if n' < need
                    then if need \<le> length b then fill_loop timeout need b' n' nc'
                      else Inl (ExplicitPanic ''fill: the buffer is full'')
                    else Inr (None, b', n', nc')
                | Some e \<Rightarrow>
                    if e = EOF
                    then if need \<le> n' then Inr (None, b', n', nc')
                      else Inr (Some ErrUnexpectedEOF, b', n', nc')
                    else Inr (Some e, b', n', nc')))"
  by pat_completeness auto
termination
proof (relation "measure (\<lambda>(timeout, need, b, n, nc). length (net_in nc) + unread_bytes nc)", goal_cases)
  case (2 timeout need b n nc free r nc' p c err)
  then have "0 < length free" by (auto simp: go_slice_from_eq_Inr)
  with 2 show ?case by (auto dest!: conn_read_progress [OF sym] simp: go_slice_from_eq_Inr)
qed simp

declare fill_loop.simps [simp del]

definition moved_to_front :: "driver_buffer \<Rightarrow> bytes" where
  "moved_to_front b =
     (if 0 < buf_length b \<and> 0 < buf_idx b
      then let moved = take (buf_length b) (drop (buf_idx b) (buf_bytes b))
           in moved @ drop (length moved) (buf_bytes b)
      else buf_bytes b)"

definition grown :: "nat \<Rightarrow> bytes \<Rightarrow> bytes" where
  "grown need b =
     (if length b < need
      then b @ replicate ((need div defaultBufSize + 1) * defaultBufSize - length b) 0
      else b)"

lemma grown_holds: "need \<le> length (grown need b)"
proof -
  have "need < (need div defaultBufSize + 1) * defaultBufSize"
    using dividend_less_div_times [of defaultBufSize need]
    by (simp add: defaultBufSize_def algebra_simps)
  then show ?thesis by (simp add: grown_def)
qed

definition fill ::
  "nat \<Rightarrow> driver_buffer \<Rightarrow> net_conn \<Rightarrow> (driver_error option \<times> driver_buffer \<times> net_conn) go"
where
  "fill need b nc =
     go_bind (fill_loop (buf_timeout b) need (grown need (moved_to_front b)) (buf_length b) nc)
       (\<lambda>(err, bytes, n, nc).
         let b = b\<lparr>buf_bytes := bytes, buf_idx := 0\<rparr>
         in Inr (if err = None then (None, b\<lparr>buf_length := n\<rparr>, nc) else (err, b, nc)))"

definition readNext ::
  "nat \<Rightarrow> driver_buffer \<Rightarrow> net_conn \<Rightarrow> ((driver_error + slice) \<times> driver_buffer \<times> net_conn) go"
where
  "readNext need b nc =
     go_bind (if buf_length b < need then fill need b nc else Inr (None, b, nc))
       (\<lambda>(err, b, nc).
         case err of
           Some e \<Rightarrow> Inr (Inl e, b, nc)
         | None \<Rightarrow>
             let offset = buf_idx b; b = b\<lparr>buf_idx := offset + need, buf_length := buf_length b - need\<rparr>
             in go_bind (slice_int (buf_bytes b, []) (int offset) (int (buf_idx b))) (\<lambda>s. Inr (Inr s, b, nc)))"

text \<open>The buffers to write into: \<open>None\<close> while unread bytes are left. The second component tells
  whether what is taken is a slice of \<open>b.buf\<close>.\<close>

definition takeBuffer :: "nat \<Rightarrow> driver_buffer \<Rightarrow> ((bytes \<times> bool) option \<times> driver_buffer) go" where
  "takeBuffer n b =
     (if 0 < buf_length b then Inr (None, b)
      else if n \<le> defaultBufSize \<or> n \<le> length (buf_bytes b)
      then go_bind (go_slice (buf_bytes b) 0 n) (\<lambda>d. Inr (Some (d, True), b))
      else if n < maxPacketSize
      then Inr (Some (replicate n 0, True), b\<lparr>buf_bytes := replicate n 0\<rparr>)
      else Inr (Some (replicate n 0, False), b))"

definition takeSmallBuffer :: "nat \<Rightarrow> driver_buffer \<Rightarrow> bytes option go" where
  "takeSmallBuffer n b =
     (if 0 < buf_length b then Inr None
      else go_bind (go_slice (buf_bytes b) 0 n) (\<lambda>d. Inr (Some d)))"

definition takeCompleteBuffer :: "driver_buffer \<Rightarrow> bytes option" where
  "takeCompleteBuffer b = (if 0 < buf_length b then None else Some (buf_bytes b))"

subsection \<open>The connection\<close>

text \<open>
  \<open>Config\<close> of \<open>dsn.go\<close>. RSA keys are of the type \<open>'key\<close>, a location is its name, a duration an
  \<open>int\<close> of nanoseconds, and \<open>Params\<close> the list of the map's entries in the order of their insertion. \<open>conn_append_spare\<close> is the memory that the
  runtime leaves behind the slice that \<open>append\<close> returns.
\<close>

record tls_config =
  tls_ServerName :: string
  tls_InsecureSkipVerify :: bool

record 'key conn_config =
  cf_User :: string
  cf_Passwd :: string
  cf_Net :: string
  cf_Addr :: string
  cf_DBName :: string
  cf_Params :: "(string \<times> string) list"
  cf_Collation :: string
  cf_Loc :: string
  cf_MaxAllowedPacket :: int
  cf_ServerPubKey :: string
  cf_pubKey :: "'key option"
  cf_TLSConfig :: string
  cf_tls :: "tls_config option"
  cf_Timeout :: int
  cf_ReadTimeout :: int
  cf_WriteTimeout :: int
  cf_AllowAllFiles :: bool
  cf_AllowCleartextPasswords :: bool
  cf_AllowNativePasswords :: bool
  cf_AllowOldPasswords :: bool
  cf_ClientFoundRows :: bool
  cf_ColumnsWithAlias :: bool
  cf_InterpolateParams :: bool
  cf_MultiStatements :: bool
  cf_ParseTime :: bool
  cf_RejectReadOnly :: bool

text \<open>
  The files and readers for LOAD DATA LOCAL INFILE: the registries of \<open>infile.go\<close> and the file
  system. A reader is its script, the error of its \<open>Close\<close> and, for a file, its size.
\<close>

record infile_reader =
  rd_script :: read_script
  rd_close :: "driver_error option"
  rd_size :: int

record infile_world =
  if_readers :: "bytes \<Rightarrow> infile_reader option option"
  if_registered :: "bytes \<Rightarrow> bool"
  if_open :: "bytes \<Rightarrow> driver_error + infile_reader"

record 'key mysqlConn =
  conn_buf :: driver_buffer
  conn_net :: net_conn
  conn_affectedRows :: "64 word"
  conn_insertId :: "64 word"
  conn_cfg :: "'key conn_config"
  conn_maxAllowedPacket :: int
  conn_maxWriteSize :: int
  conn_writeTimeout :: int
  conn_flags :: "32 word"
  conn_status :: "16 word"
  conn_sequence :: byte
  conn_parseTime :: bool
  conn_canceled :: "driver_error option"
  conn_closed :: bool
  conn_append_spare :: "bytes \<Rightarrow> bytes"
  conn_infile :: infile_world

definition cleanup :: "'key mysqlConn \<Rightarrow> 'key mysqlConn" where
  "cleanup mc =
     (if conn_closed mc then mc
      else mc\<lparr>conn_closed := True, conn_net := (conn_net mc)\<lparr>net_closed := True\<rparr>\<rparr>)"

definition conn_error :: "'key mysqlConn \<Rightarrow> driver_error option" where
  "conn_error mc =
     (if conn_closed mc
      then case conn_canceled mc of Some e \<Rightarrow> Some e | None \<Rightarrow> Some ErrInvalidConn
      else None)"

subsection \<open>writePacket\<close>

text \<open>
  The packet is written into the array it is in: the loop returns the array too. \<open>data\<close> is what is
  left of the array, its first four bytes the header of the coming packet.
\<close>

definition packet_header :: "nat \<Rightarrow> byte \<Rightarrow> bytes" where
  "packet_header pktLen sequence =
     (if maxPacketSize \<le> pktLen then [0xff, 0xff, 0xff, sequence]
      else [word_of_nat pktLen, word_of_nat (drop_bit 8 pktLen), word_of_nat (drop_bit 16 pktLen), sequence])"

definition store_header :: "bytes \<Rightarrow> bytes \<Rightarrow> bytes go" where
  "store_header data hdr = (if length data < 4 then Inl IndexOutOfRange else Inr (hdr @ drop 4 data))"

function write_loop ::
  "nat \<Rightarrow> bytes \<Rightarrow> 'key mysqlConn \<Rightarrow> (driver_error option \<times> bytes \<times> 'key mysqlConn) go"
where
  "write_loop pktLen data mc =
     (let size = min maxPacketSize pktLen in
      go_bind (store_header data (packet_header pktLen (conn_sequence mc))) (\<lambda>data.
      case deadline_error (conn_writeTimeout mc) (conn_net mc) of
        Some e \<Rightarrow> Inr (Some e, data, mc)
      | None \<Rightarrow>
        go_bind (go_slice data 0 (4 + size)) (\<lambda>p.
        case conn_write p (conn_net mc) of
          ((n, err), nc) \<Rightarrow>
            let mc = mc\<lparr>conn_net := nc\<rparr> in
            if err = None \<and> n = 4 + size then
              let mc = mc\<lparr>conn_sequence := conn_sequence mc + 1\<rparr> in
              if size \<noteq> maxPacketSize then Inr (None, data, mc)
              else
                go_bind (go_slice_from data size) (\<lambda>rest.
                go_bind (write_loop (pktLen - size) rest mc) (\<lambda>(e, rest, mc).
                  Inr (e, take size data @ rest, mc)))
            else
              case err of
                None \<Rightarrow> Inr (Some ErrInvalidConn, data, cleanup mc)
              | Some e \<Rightarrow>
                  case conn_canceled mc of
                    Some cerr \<Rightarrow> Inr (Some cerr, data, mc)
                  | None \<Rightarrow>
                      if n = 0 \<and> pktLen = length data - 4 then Inr (Some BadConnNoWrite, data, mc)
                      else Inr (Some ErrInvalidConn, data, cleanup mc))))"
  by pat_completeness auto
termination
  by (relation "measure (\<lambda>(pktLen, data, mc). pktLen)") (auto simp: maxPacketSize_eq min_def split: if_splits)

declare write_loop.simps [simp del]

definition writePacket ::
  "bytes \<Rightarrow> 'key mysqlConn \<Rightarrow> (driver_error option \<times> bytes \<times> 'key mysqlConn) go"
where
  "writePacket data mc =
     (let pktLen = length data - 4 in
      if conn_maxAllowedPacket mc < int pktLen then Inr (Some ErrPktTooLarge, data, mc)
      else write_loop pktLen data mc)"

text \<open>A packet built in the connection's buffer.\<close>

definition write_own :: "bytes \<Rightarrow> 'key mysqlConn \<Rightarrow> (driver_error option \<times> 'key mysqlConn) go" where
  "write_own data mc =
     go_bind (writePacket data mc) (\<lambda>(e, data, mc).
       let b = conn_buf mc
       in Inr (e, mc\<lparr>conn_buf := b\<lparr>buf_bytes := data @ drop (length data) (buf_bytes b)\<rparr>\<rparr>))"

text \<open>\<open>data[4] = command\<close> and what follows, behind four bytes for the header.\<close>

definition fill_packet :: "bytes \<Rightarrow> bytes \<Rightarrow> bytes go" where
  "fill_packet data content =
     (if length data < 4 + length content then Inl IndexOutOfRange
      else Inr (take 4 data @ content @ drop (4 + length content) data))"

definition writeCommandPacket :: "byte \<Rightarrow> 'key mysqlConn \<Rightarrow> (driver_error option \<times> 'key mysqlConn) go" where
  "writeCommandPacket command mc =
     (let mc = mc\<lparr>conn_sequence := 0\<rparr> in
      go_bind (takeSmallBuffer (4 + 1) (conn_buf mc)) (\<lambda>d.
        case d of
          None \<Rightarrow> Inr (Some BadConnNoWrite, mc)
        | Some data \<Rightarrow> go_bind (fill_packet data [command]) (\<lambda>data. write_own data mc)))"

definition writeCommandPacketStr ::
  "byte \<Rightarrow> bytes \<Rightarrow> 'key mysqlConn \<Rightarrow> (driver_error option \<times> 'key mysqlConn) go"
where
  "writeCommandPacketStr command arg mc =
     (let mc = mc\<lparr>conn_sequence := 0\<rparr>; pktLen = 1 + length arg in
      go_bind (takeBuffer (pktLen + 4) (conn_buf mc)) (\<lambda>(d, b).
        let mc = mc\<lparr>conn_buf := b\<rparr> in
        case d of
          None \<Rightarrow> Inr (Some BadConnNoWrite, mc)
        | Some (data, own) \<Rightarrow>
            go_bind (fill_packet data (command # arg)) (\<lambda>data.
              if own then write_own data mc
              else go_bind (writePacket data mc) (\<lambda>(e, _, mc). Inr (e, mc)))))"

definition writeCommandPacketUint32 ::
  "byte \<Rightarrow> 32 word \<Rightarrow> 'key mysqlConn \<Rightarrow> (driver_error option \<times> 'key mysqlConn) go"
where
  "writeCommandPacketUint32 command arg mc =
     (let mc = mc\<lparr>conn_sequence := 0\<rparr> in
      go_bind (takeSmallBuffer (4 + 1 + 4) (conn_buf mc)) (\<lambda>d.
        case d of
          None \<Rightarrow> Inr (Some BadConnNoWrite, mc)
        | Some data \<Rightarrow>
            go_bind (fill_packet data
              [command, ucast arg, ucast (drop_bit 8 arg), ucast (drop_bit 16 arg), ucast (drop_bit 24 arg)])
              (\<lambda>data. write_own data mc)))"

definition comQuit :: byte where "comQuit = 1"
definition comQuery :: byte where "comQuery = 3"
definition comPing :: byte where "comPing = 14"
definition comStmtPrepare :: byte where "comStmtPrepare = 22"
definition comStmtExecute :: byte where "comStmtExecute = 23"
definition comStmtSendLongData :: byte where "comStmtSendLongData = 24"
definition comStmtClose :: byte where "comStmtClose = 25"

definition conn_Close :: "'key mysqlConn \<Rightarrow> (driver_error option \<times> 'key mysqlConn) go" where
  "conn_Close mc =
     go_bind (if conn_closed mc then Inr (None, mc) else writeCommandPacket comQuit mc)
       (\<lambda>(err, mc). Inr (err, cleanup mc))"

subsection \<open>readPacket\<close>

text \<open>Every read takes its bytes off the stream: the buffer's and the network's.\<close>

definition stream_left :: "driver_buffer \<Rightarrow> net_conn \<Rightarrow> nat" where
  "stream_left b nc = buf_length b + unread_bytes nc"

lemma fill_loop_left:
  "fill_loop timeout need b n nc = Inr (None, b', n', nc') \<Longrightarrow>
   n' + unread_bytes nc' = n + unread_bytes nc \<and> need \<le> n'"
proof (induction timeout need b n nc rule: fill_loop.induct)
  case (1 timeout need b n nc)
  obtain c err nc1 where r: "conn_read (length b - n) nc = ((c, err), nc1)"
    by (metis surj_pair)
  have left: "unread_bytes nc = length c + unread_bytes nc1"
    using conn_read_unread [OF r] .
  from "1.prems" have d: "deadline_error timeout nc = None" and n: "n \<le> length b"
    by (auto simp: fill_loop.simps [of timeout need b n nc] go_eq_Inr split: option.splits)
  show ?case
  proof (cases "err = None \<and> n + length c < need")
    case True
    with "1.prems" d n r have "need \<le> length b"
      "fill_loop timeout need (read_into b n c) (n + length c) nc1 = Inr (None, b', n', nc')"
      by (auto simp: fill_loop.simps [of timeout need b n nc] Let_def split: if_splits)
    with "1.IH" [OF d, of "drop n b" "(c, err)" nc1 c err] d n r left True show ?thesis
      by (auto simp: go_slice_from_eq_Inr)
  next
    case False
    with "1.prems" d n r left show ?thesis
      by (auto simp: fill_loop.simps [of timeout need b n nc] Let_def split: if_splits option.splits)
  qed
qed

lemma fill_left:
  assumes "fill need b nc = Inr (None, b', nc')"
  shows "stream_left b' nc' = stream_left b nc \<and> need \<le> buf_length b'"
proof -
  obtain err bytes n nc1 where l: "fill_loop (buf_timeout b) need (grown need (moved_to_front b)) (buf_length b) nc =
      Inr (err, bytes, n, nc1)"
    using assms by (auto simp: fill_def go_bind_eq_Inr)
  with assms have "err = None" by (cases err) (simp_all add: fill_def)
  with assms l have "b' = b\<lparr>buf_bytes := bytes, buf_idx := 0, buf_length := n\<rparr>" "nc' = nc1"
    by (simp_all add: fill_def)
  with l \<open>err = None\<close> show ?thesis
    using fill_loop_left by (fastforce simp: stream_left_def)
qed

lemma readNext_left:
  assumes "readNext need b nc = Inr (Inr s, b', nc')"
  shows "stream_left b' nc' + need = stream_left b nc" "length (fst s) = need"
proof -
  from assms obtain b1 nc1 where f: "(if buf_length b < need then fill need b nc else Inr (None, b, nc)) = Inr (None, b1, nc1)"
    and b': "b' = b1\<lparr>buf_idx := buf_idx b1 + need, buf_length := buf_length b1 - need\<rparr>" "nc' = nc1"
    and s: "slice_int (buf_bytes b1, []) (int (buf_idx b1)) (int (buf_idx b1 + need)) = Inr s"
    by (auto simp: readNext_def go_bind_eq_Inr Let_def split: option.splits)
  have "stream_left b1 nc1 = stream_left b nc \<and> need \<le> buf_length b1"
    using f by (auto dest: fill_left split: if_splits)
  with b' show "stream_left b' nc' + need = stream_left b nc"
    by (simp add: stream_left_def)
  show "length (fst s) = need"
    using s by (auto simp: slice_int_def Let_def split: if_splits)
qed

definition broken_conn :: "'key mysqlConn \<Rightarrow> ((driver_error + slice) \<times> 'key mysqlConn) go" where
  "broken_conn mc = go_bind (conn_Close mc) (\<lambda>(_, mc). Inr (Inl ErrInvalidConn, mc))"

definition read_failed :: "'key mysqlConn \<Rightarrow> ((driver_error + slice) \<times> 'key mysqlConn) go" where
  "read_failed mc =
     (case conn_canceled mc of
        Some cerr \<Rightarrow> Inr (Inl cerr, mc)
      | None \<Rightarrow> broken_conn mc)"

text \<open>\<open>uint32(data[0]) | uint32(data[1])<<8 | uint32(data[2])<<16\<close>\<close>

definition packet_length :: "bytes \<Rightarrow> nat" where
  "packet_length data =
     unat (ucast (data ! 0) OR push_bit 8 (ucast (data ! 1)) OR push_bit 16 (ucast (data ! 2)) :: 32 word)"

function readPacket_loop ::
  "slice \<Rightarrow> 'key mysqlConn \<Rightarrow> ((driver_error + slice) \<times> 'key mysqlConn) go"
where
  "readPacket_loop prevData mc =
     go_bind (readNext 4 (conn_buf mc) (conn_net mc)) (\<lambda>(r, b, nc).
     let mc = mc\<lparr>conn_buf := b, conn_net := nc\<rparr> in
     case r of
       Inl err \<Rightarrow> read_failed mc
     | Inr (data, _) \<Rightarrow>
         let pktLen = packet_length data in
         if data ! 3 \<noteq> conn_sequence mc then
           Inr (Inl (if conn_sequence mc < data ! 3 then ErrPktSyncMul else ErrPktSync), mc)
         else
           let mc = mc\<lparr>conn_sequence := conn_sequence mc + 1\<rparr> in
           if pktLen = 0 then
             if fst prevData = [] then broken_conn mc else Inr (Inr prevData, mc)
           else
             go_bind (readNext pktLen b nc) (\<lambda>(r, b, nc).
             let mc = mc\<lparr>conn_buf := b, conn_net := nc\<rparr> in
             case r of
               Inl err \<Rightarrow> read_failed mc
             | Inr (data, spare) \<Rightarrow>
                 let joined = fst prevData @ data; all = (joined, conn_append_spare mc joined)
                 in
                 if pktLen < maxPacketSize
                 then Inr (Inr (if fst prevData = [] then (data, spare) else all), mc)
                 else readPacket_loop all mc))"
  by pat_completeness auto
termination
  by (relation "measure (\<lambda>(prevData, mc). stream_left (conn_buf mc) (conn_net mc))")
    (auto dest!: readNext_left(1))

declare readPacket_loop.simps [simp del]

definition readPacket :: "'key mysqlConn \<Rightarrow> ((driver_error + slice) \<times> 'key mysqlConn) go" where
  "readPacket mc = readPacket_loop ([], []) mc"

end
