(* ===== verification/DriverFrames.thy ===== *)
theory DriverFrames
  imports DriverConn
begin

text \<open>
  What \<open>readPacket\<close> and \<open>writePacket\<close> promise: a payload of any length travels as a sequence of
  frames, the last one shorter than the maximum, and is read back whatever the chunks are in which
  the network delivers the frames.
\<close>

subsection \<open>The frames of a payload\<close>

function frames :: "byte \<Rightarrow> bytes \<Rightarrow> bytes" where
  "frames sequence p =
     le_bytes 3 (word_of_nat (min maxPacketSize (length p)) :: 32 word) @ [sequence] @
     take maxPacketSize p @
     (if length p < maxPacketSize then [] else frames (sequence + 1) (drop maxPacketSize p))"
  by pat_completeness auto
termination
  by (relation "measure (\<lambda>(sequence, p). length p)") (auto simp: maxPacketSize_eq)

declare frames.simps [simp del]

definition frame_count :: "bytes \<Rightarrow> byte" where
  "frame_count p = word_of_nat (length p div maxPacketSize + 1)"

lemma frame_count_short: "length p < maxPacketSize \<Longrightarrow> frame_count p = 1"
  by (simp add: frame_count_def)

lemma frame_count_long: "\<not> length p < maxPacketSize \<Longrightarrow> frame_count p = frame_count (drop maxPacketSize p) + 1"
  by (simp add: frame_count_def le_div_geq maxPacketSize_eq not_less)

lemma packet_header_frame:
  "packet_header n s = le_bytes 3 (word_of_nat (min maxPacketSize n) :: 32 word) @ [s]"
proof (cases "maxPacketSize \<le> n")
  case True
  then show ?thesis
    by (simp add: packet_header_def min_def maxPacketSize_eq numeral_3_eq_3)
next
  case False
  have "(word_of_nat (drop_bit j n) :: byte) = ucast (drop_bit j (word_of_nat n :: 32 word))"
    if "j \<le> 16" for j
    using that by (intro bit_eqI) (auto simp: bit_simps)
  from this [of 0] this [of 8] this [of 16] False show ?thesis
    by (simp add: packet_header_def min_def drop_bit_drop_bit numeral_3_eq_3)
qed

subsection \<open>Writing\<close>

definition net_quiet :: "net_conn \<Rightarrow> bool" where
  "net_quiet nc \<longleftrightarrow> net_writes nc = [] \<and> net_deadline nc = None"

lemma deadline_quiet [simp]: "net_quiet nc \<Longrightarrow> deadline_error t nc = None"
  by (simp add: net_quiet_def deadline_error_def)

lemma write_quiet: "net_quiet nc \<Longrightarrow> conn_write p nc = ((length p, None), nc\<lparr>net_out := net_out nc @ p\<rparr>)"
  by (simp add: net_quiet_def conn_write_def)

definition sent :: "bytes \<Rightarrow> 'key mysqlConn \<Rightarrow> 'key mysqlConn" where
  "sent p mc = mc\<lparr>conn_net := (conn_net mc)\<lparr>net_out := net_out (conn_net mc) @ frames (conn_sequence mc) p\<rparr>,
     conn_sequence := conn_sequence mc + frame_count p\<rparr>"

lemma write_step:
  assumes quiet: "net_quiet (conn_net mc)" and len: "length data = pktLen + 4"
    and k: "min maxPacketSize pktLen = k"
    and D: "packet_header pktLen (conn_sequence mc) @ drop 4 data = D"
    and mc': "mc\<lparr>conn_net := (conn_net mc)\<lparr>net_out := net_out (conn_net mc) @ take (4 + k) D\<rparr>,
      conn_sequence := conn_sequence mc + 1\<rparr> = mc'"
  shows "write_loop pktLen data mc =
    (if k \<noteq> maxPacketSize then Inr (None, D, mc')
     else go_bind (write_loop (pktLen - k) (drop k D) mc')
       (\<lambda>(e, rest, mc). Inr (e, take k D @ rest, mc)))"
proof -
  have l: "length D = pktLen + 4"
    unfolding D [symmetric] using len by (simp add: packet_header_frame)
  have s: "k \<le> pktLen" using k by auto
  have "store_header data (packet_header pktLen (conn_sequence mc)) = Inr D"
    using len by (simp add: store_header_def D)
  with quiet l s show ?thesis
    by (simp add: write_loop.simps [of pktLen data mc] k write_quiet Let_def flip: mc')
qed

lemma write_loop_sends:
  assumes "net_quiet (conn_net mc)" "length data = pktLen + 4"
  shows "\<exists>data'. write_loop pktLen data mc = Inr (None, data', sent (drop 4 data) mc) \<and>
    length data' = length data"
  using assms
proof (induction pktLen arbitrary: data mc rule: less_induct)
  case (less pktLen)
  define D where "D = packet_header pktLen (conn_sequence mc) @ drop 4 data"
  have l: "length D = pktLen + 4" and d4: "drop 4 D = drop 4 data"
    unfolding D_def using less by (simp_all add: packet_header_frame)
  have t4: "take 4 D = packet_header pktLen (conn_sequence mc)"
    by (simp add: D_def packet_header_frame)
  have take4: "take (4 + k) D = packet_header pktLen (conn_sequence mc) @ take k (drop 4 data)" for k
    unfolding t4 [symmetric] d4 [symmetric] by (metis take_add)
  note step = write_step [OF less.prems refl D_def [symmetric] refl]
  show ?case
  proof (cases "pktLen < maxPacketSize")
    case True
    then show ?thesis
      using less.prems l
      by (simp add: step min_def take4 sent_def frame_count_short frames.simps [of _ "drop 4 data"]
          packet_header_frame)
  next
    case False
    then have long: "min maxPacketSize pktLen = maxPacketSize" by simp
    define mc' where "mc' = mc\<lparr>conn_net := (conn_net mc)\<lparr>net_out := net_out (conn_net mc) @ take (4 + maxPacketSize) D\<rparr>,
      conn_sequence := conn_sequence mc + 1\<rparr>"
    have "net_quiet (conn_net mc')" using less.prems by (simp add: mc'_def net_quiet_def)
    moreover have "pktLen - maxPacketSize < pktLen" using False by (simp add: maxPacketSize_eq)
    moreover have "length (drop maxPacketSize D) = (pktLen - maxPacketSize) + 4"
      using False l by simp
    ultimately obtain data' where
      rest: "write_loop (pktLen - maxPacketSize) (drop maxPacketSize D) mc' =
         Inr (None, data', sent (drop 4 (drop maxPacketSize D)) mc')"
      "length data' = length (drop maxPacketSize D)"
      using less.IH by blast
    have "drop 4 (drop maxPacketSize D) = drop maxPacketSize (drop 4 data)"
      by (simp add: add.commute flip: d4)
    moreover have "sent (drop maxPacketSize (drop 4 data)) mc' = sent (drop 4 data) mc"
      using less.prems False
      by (simp add: mc'_def sent_def frame_count_long frames.simps [of _ "drop 4 data"] take4
          packet_header_frame long)
    ultimately show ?thesis
      using rest l False less.prems(2) by (simp add: step long flip: mc'_def)
  qed
qed

lemma writePacket_sends:
  assumes "net_quiet (conn_net mc)" "length data = length p + 4" "drop 4 data = p"
    and "int (length p) \<le> conn_maxAllowedPacket mc"
  shows "\<exists>data'. writePacket data mc = Inr (None, data', sent p mc) \<and> length data' = length data"
  using assms write_loop_sends [of mc data "length p"]
  by (auto simp: writePacket_def Let_def)

subsection \<open>Reading\<close>

definition net_pending :: "net_conn \<Rightarrow> bytes" where
  "net_pending nc = concat (map fst (net_in nc))"

definition net_clean :: "net_conn \<Rightarrow> bool" where
  "net_clean nc \<longleftrightarrow> (\<forall>(c, e) \<in> set (net_in nc). e = None) \<and> net_deadline nc = None"

definition unread :: "driver_buffer \<Rightarrow> net_conn \<Rightarrow> bytes" where
  "unread b nc = take (buf_length b) (drop (buf_idx b) (buf_bytes b)) @ net_pending nc"

definition buffer_fits :: "driver_buffer \<Rightarrow> bool" where
  "buffer_fits b \<longleftrightarrow> buf_idx b + buf_length b \<le> length (buf_bytes b)"

lemma net_in_chain:
  "b = c\<lparr>net_in := x\<rparr> \<Longrightarrow> a = b\<lparr>net_in := net_in a\<rparr> \<Longrightarrow> a = c\<lparr>net_in := net_in a\<rparr>"
  by (simp del: net_conn.surjective)

lemma conn_read_clean:
  assumes "net_clean nc" "net_pending nc \<noteq> []"
  obtains c nc' where "conn_read k nc = ((c, None), nc')" "net_clean nc'"
    "net_pending nc = c @ net_pending nc'" "nc' = nc\<lparr>net_in := net_in nc'\<rparr>" "length c \<le> k"
proof -
  from assms obtain c rest where i: "net_in nc = (c, None) # rest"
    by (cases "net_in nc") (auto simp: net_pending_def net_clean_def)
  show thesis
  proof (cases "length c \<le> k")
    case True
    with i assms show thesis
      by (intro that [of c "nc\<lparr>net_in := rest\<rparr>"])
        (auto simp: conn_read_def script_read_def net_clean_def net_pending_def)
  next
    case False
    with i assms show thesis
      by (intro that [of "take k c" "nc\<lparr>net_in := (drop k c, None) # rest\<rparr>"])
        (auto simp: conn_read_def script_read_def net_clean_def net_pending_def)
  qed
qed

lemma take_read_into: "n \<le> length b \<Longrightarrow> take (n + length c) (read_into b n c) = take n b @ c"
  by (simp add: read_into_def)

lemma fill_loop_reads:
  assumes "net_clean nc" "n < need" "need \<le> length b" "need \<le> n + length (net_pending nc)"
  shows "\<exists>b' n' nc'. fill_loop timeout need b n nc = Inr (None, b', n', nc') \<and> net_clean nc' \<and>
    need \<le> n' \<and> n' \<le> length b' \<and> take n' b' @ net_pending nc' = take n b @ net_pending nc \<and>
    nc' = nc\<lparr>net_in := net_in nc'\<rparr>"
  using assms
proof (induction "length (net_in nc) + unread_bytes nc" arbitrary: nc n b rule: less_induct)
  case less
  have "net_pending nc \<noteq> []" using less.prems by auto
  then obtain c nc1 where r: "conn_read (length b - n) nc = ((c, None), nc1)"
    and nc1: "net_clean nc1" "net_pending nc = c @ net_pending nc1" "nc1 = nc\<lparr>net_in := net_in nc1\<rparr>"
    and c: "length c \<le> length b - n"
    using less.prems(1) conn_read_clean by blast
  have d: "deadline_error timeout nc = None"
    using less.prems(1) by (simp add: net_clean_def deadline_error_def)
  have len: "length (read_into b n c) = length b"
    using c less.prems by (simp add: read_into_def)
  have tk: "take (n + length c) (read_into b n c) = take n b @ c"
    using less.prems by (intro take_read_into) simp
  show ?case
  proof (cases "n + length c < need")
    case True
    have "length (net_in nc1) + unread_bytes nc1 < length (net_in nc) + unread_bytes nc"
      using conn_read_progress [OF r] less.prems by simp
    moreover have "need \<le> n + length c + length (net_pending nc1)"
      using less.prems nc1 by simp
    ultimately obtain b' n' nc' where
      "fill_loop timeout need (read_into b n c) (n + length c) nc1 = Inr (None, b', n', nc')"
      "net_clean nc'" "need \<le> n'" "n' \<le> length b'"
      "take n' b' @ net_pending nc' = take (n + length c) (read_into b n c) @ net_pending nc1"
      "nc' = nc1\<lparr>net_in := net_in nc'\<rparr>"
      using less.hyps [of nc1 "n + length c" "read_into b n c"] nc1 True less.prems len by auto
    moreover from this have "nc' = nc\<lparr>net_in := net_in nc'\<rparr>"
      using net_in_chain [OF nc1(3)] by blast
    ultimately show ?thesis
      using True less.prems d r nc1 tk
      by (simp add: fill_loop.simps [of timeout need b n nc] Let_def)
  next
    case False
    have "fill_loop timeout need b n nc = Inr (None, read_into b n c, n + length c, nc1)"
      using False less.prems d r
      by (simp add: fill_loop.simps [of timeout need b n nc] Let_def)
    with False nc1 tk len c less.prems show ?thesis by auto
  qed
qed

lemma take_grown: "n \<le> length b \<Longrightarrow> take n (grown need b) = take n b"
  by (simp add: grown_def)

lemma take_moved:
  "buffer_fits b \<Longrightarrow>
   take (buf_length b) (moved_to_front b) = take (buf_length b) (drop (buf_idx b) (buf_bytes b)) \<and>
   length (moved_to_front b) = length (buf_bytes b)"
  by (auto simp: moved_to_front_def buffer_fits_def Let_def)

lemma fill_reads:
  assumes "net_clean nc" "buffer_fits b" "buf_length b < need" "need \<le> length (unread b nc)"
  shows "\<exists>b' nc'. fill need b nc = Inr (None, b', nc') \<and> net_clean nc' \<and> buffer_fits b' \<and>
    need \<le> buf_length b' \<and> unread b' nc' = unread b nc \<and> nc' = nc\<lparr>net_in := net_in nc'\<rparr>"
proof -
  let ?b = "grown need (moved_to_front b)" and ?n = "buf_length b"
  have n: "?n \<le> length (moved_to_front b)" "need \<le> ?n + length (net_pending nc)"
    using assms take_moved [of b] by (auto simp: buffer_fits_def unread_def)
  then obtain bs n' nc' where
    l: "fill_loop (buf_timeout b) need ?b ?n nc = Inr (None, bs, n', nc')" and
    p: "net_clean nc'" "need \<le> n'" "n' \<le> length bs"
      "take n' bs @ net_pending nc' = take ?n ?b @ net_pending nc"
      "nc' = nc\<lparr>net_in := net_in nc'\<rparr>"
    using fill_loop_reads [OF assms(1,3) grown_holds n(2)] by blast
  have "unread (b\<lparr>buf_bytes := bs, buf_idx := 0, buf_length := n'\<rparr>) nc' = unread b nc"
    using p(4) n(1) take_moved [OF assms(2)] by (simp add: unread_def take_grown)
  with l p show ?thesis by (auto simp: fill_def buffer_fits_def Let_def)
qed

lemma readNext_reads:
  assumes "net_clean nc" "buffer_fits b" "need \<le> length (unread b nc)"
  shows "\<exists>spare b' nc'. readNext need b nc = Inr (Inr (take need (unread b nc), spare), b', nc') \<and>
    net_clean nc' \<and> buffer_fits b' \<and> unread b' nc' = drop need (unread b nc) \<and>
    nc' = nc\<lparr>net_in := net_in nc'\<rparr>"
proof -
  obtain b1 nc1 where
    f: "(if buf_length b < need then fill need b nc else Inr (None, b, nc)) = Inr (None, b1, nc1)" and
    p: "net_clean nc1" "buffer_fits b1" "need \<le> buf_length b1" "unread b1 nc1 = unread b nc"
      "nc1 = nc\<lparr>net_in := net_in nc1\<rparr>"
  proof (cases "buf_length b < need")
    case True
    then show thesis using fill_reads [OF assms(1,2) True assms(3)] that by auto
  next
    case False
    then show thesis using that [of b nc] assms by auto
  qed
  let ?b = "b1\<lparr>buf_idx := buf_idx b1 + need, buf_length := buf_length b1 - need\<rparr>"
  have t: "take need (drop (buf_idx b1) (buf_bytes b1)) = take need (unread b nc)"
    unfolding p(4) [symmetric] using p(2,3) by (auto simp: buffer_fits_def unread_def min_def)
  have "slice_int (buf_bytes b1, []) (int (buf_idx b1)) (int (buf_idx b1 + need)) =
      Inr (take need (unread b nc), drop (buf_idx b1 + need) (buf_bytes b1))"
    using p(2,3) t by (simp add: slice_int_def buffer_fits_def nat_add_distrib Let_def)
  moreover have "unread ?b nc1 = drop need (unread b nc)"
    unfolding p(4) [symmetric] using p(2,3)
    by (simp add: buffer_fits_def unread_def drop_take add.commute)
  moreover have "buffer_fits ?b" using p(2,3) by (simp add: buffer_fits_def)
  ultimately show ?thesis
    using f p by (auto simp: readNext_def Let_def)
qed

lemma header_value:
  assumes "k < 2 ^ 24" "h = le_bytes 3 (word_of_nat k :: 32 word) @ [s]"
  shows "packet_length h = k"
    and "h ! 3 = s"
proof -
  let ?w = "word_of_nat k :: 32 word"
  have "unat ?w = k" using assms by (simp add: unat_of_nat)
  then have "le_word (le_bytes 3 ?w) = ?w"
    using assms by (intro le_word_le_bytes_id) simp
  moreover have "ucast (h ! 0) OR push_bit 8 (ucast (h ! 1)) OR push_bit 16 (ucast (h ! 2)) =
      (le_word (le_bytes 3 ?w) :: 32 word)"
    using assms(2) by (simp add: numeral_3_eq_3 push_bit_or push_bit_push_bit)
  ultimately show "packet_length h = k"
    using \<open>unat ?w = k\<close> by (simp add: packet_length_def)
  show "h ! 3 = s" using assms(2) by (simp add: nth_append)
qed

definition reads_packet :: "'key mysqlConn \<Rightarrow> bytes \<Rightarrow> bytes \<Rightarrow> 'key mysqlConn \<Rightarrow> bool" where
  "reads_packet mc p rest mc' \<longleftrightarrow>
     mc' = mc\<lparr>conn_buf := conn_buf mc', conn_net := conn_net mc',
       conn_sequence := conn_sequence mc + frame_count p\<rparr> \<and>
     conn_net mc' = (conn_net mc)\<lparr>net_in := net_in (conn_net mc')\<rparr> \<and>
     net_clean (conn_net mc') \<and> buffer_fits (conn_buf mc') \<and>
     unread (conn_buf mc') (conn_net mc') = rest"

lemma readPacket_loop_reads:
  assumes "net_clean (conn_net mc)" "buffer_fits (conn_buf mc)"
    and "unread (conn_buf mc) (conn_net mc) = frames (conn_sequence mc) p @ rest"
    and "p \<noteq> [] \<or> fst prev \<noteq> []"
  shows "\<exists>spare mc'. readPacket_loop prev mc = Inr (Inr (fst prev @ p, spare), mc') \<and>
    reads_packet mc p rest mc'"
  using assms
proof (induction "length p" arbitrary: p prev mc rule: less_induct)
  case less
  let ?s = "conn_sequence mc" and ?k = "min maxPacketSize (length p)"
  let ?h = "le_bytes 3 (word_of_nat ?k :: 32 word) @ [?s]"
  let ?more = "if length p < maxPacketSize then [] else frames (?s + 1) (drop maxPacketSize p)"
  have k: "?k < 2 ^ 24" by (simp add: maxPacketSize_eq)
  have pend: "unread (conn_buf mc) (conn_net mc) = ?h @ take ?k p @ ?more @ rest"
    using less.prems(3) by (simp add: frames.simps [of _ p] min_def)
  then have "take 4 (unread (conn_buf mc) (conn_net mc)) = ?h"
    "drop 4 (unread (conn_buf mc) (conn_net mc)) = take ?k p @ ?more @ rest" by simp_all
  then obtain sp1 b1 nc1 where
    r1: "readNext 4 (conn_buf mc) (conn_net mc) = Inr (Inr (?h, sp1), b1, nc1)" and
    p1: "net_clean nc1" "buffer_fits b1" "unread b1 nc1 = take ?k p @ ?more @ rest"
      "nc1 = (conn_net mc)\<lparr>net_in := net_in nc1\<rparr>"
    using readNext_reads [OF less.prems(1,2), of 4] pend by auto
  note h = header_value [OF k refl, of ?s]
  let ?mc1 = "mc\<lparr>conn_buf := b1, conn_net := nc1, conn_sequence := ?s + 1\<rparr>"
  show ?case
  proof (cases "?k = 0")
    case True
    then have "p = []" by (simp add: maxPacketSize_eq min_def split: if_splits)
    with less.prems(4) p1 have "readPacket_loop prev mc = Inr (Inr (fst prev @ p, snd prev), ?mc1)"
      using h by (simp add: readPacket_loop.simps [of prev mc] r1 Let_def maxPacketSize_eq)
    moreover have "reads_packet mc p rest ?mc1"
      using p1 \<open>p = []\<close> by (simp add: reads_packet_def frame_count_def maxPacketSize_eq)
    ultimately show ?thesis by blast
  next
    case False
    obtain sp2 b2 nc2 where
      r2: "readNext ?k b1 nc1 = Inr (Inr (take ?k p, sp2), b2, nc2)" and
      p2: "net_clean nc2" "buffer_fits b2" "unread b2 nc2 = ?more @ rest" "nc2 = nc1\<lparr>net_in := net_in nc2\<rparr>"
      using readNext_reads [OF p1(1,2), of ?k] p1(3) by auto
    let ?mc2 = "mc\<lparr>conn_sequence := ?s + 1, conn_buf := b2, conn_net := nc2\<rparr>"
    have nc2: "nc2 = (conn_net mc)\<lparr>net_in := net_in nc2\<rparr>"
      using net_in_chain [OF p1(4) p2(4)] .
    show ?thesis
    proof (cases "length p < maxPacketSize")
      case True
      then have "\<exists>spare. readPacket_loop prev mc = Inr (Inr (fst prev @ p, spare), ?mc2)"
        using False h r2
        by (simp add: readPacket_loop.simps [of prev mc] r1 Let_def)
      moreover have "reads_packet mc p rest ?mc2"
        using True p2 nc2 by (simp add: reads_packet_def frame_count_short)
      ultimately show ?thesis by blast
    next
      case long: False
      let ?p = "drop maxPacketSize p" and ?prev = "(fst prev @ take ?k p, conn_append_spare mc (fst prev @ take ?k p))"
      have "length ?p < length p" using long by (simp add: maxPacketSize_eq)
      moreover have "unread (conn_buf ?mc2) (conn_net ?mc2) = frames (conn_sequence ?mc2) ?p @ rest"
        using p2(3) long by simp
      moreover have "fst ?prev \<noteq> []" using False by simp
      ultimately obtain spare mc' where
        rec: "readPacket_loop ?prev ?mc2 = Inr (Inr (fst ?prev @ ?p, spare), mc')" "reads_packet ?mc2 ?p rest mc'"
        using less.hyps [of ?p ?mc2 ?prev] p2(1,2) by auto
      have "readPacket_loop prev mc = readPacket_loop ?prev ?mc2"
        using False h r2 long
        by (simp add: readPacket_loop.simps [of prev mc] r1 Let_def min_def)
      moreover have "fst ?prev @ ?p = fst prev @ p" using long by (simp add: min_def)
      moreover have "reads_packet mc p rest mc'"
        using rec(2) long net_in_chain [OF nc2, of "conn_net mc'"]
        by (simp add: reads_packet_def frame_count_long ac_simps)
      ultimately show ?thesis using rec(1) by auto
    qed
  qed
qed

lemma readPacket_reads:
  assumes "net_clean (conn_net mc)" "buffer_fits (conn_buf mc)" "p \<noteq> []"
    and "unread (conn_buf mc) (conn_net mc) = frames (conn_sequence mc) p @ rest"
  shows "\<exists>spare mc'. readPacket mc = Inr (Inr (p, spare), mc') \<and> reads_packet mc p rest mc'"
  using readPacket_loop_reads [OF assms(1,2,4), of "([], [])"] assms(3)
  by (simp add: readPacket_def)

subsection \<open>Bytes left to read\<close>

text \<open>
  No operation puts bytes back: writing and closing leave the unread bytes as they are, reading
  takes some off, a packet at least four. The loops that read packet after packet end for this
  reason.
\<close>

definition left :: "'key mysqlConn \<Rightarrow> nat" where
  "left mc = stream_left (conn_buf mc) (conn_net mc)"

named_theorems left_simps \<open>operations that leave the unread bytes as they are\<close>

lemma left_update [left_simps]:
  "left (mc\<lparr>conn_sequence := s\<rparr>) = left mc"
  "left (mc\<lparr>conn_affectedRows := x\<rparr>) = left mc"
  "left (mc\<lparr>conn_insertId := y\<rparr>) = left mc"
  "left (mc\<lparr>conn_status := z\<rparr>) = left mc"
  "left (mc\<lparr>conn_buf := b, conn_net := nc\<rparr>) = stream_left b nc"
  "left (mc\<lparr>conn_sequence := s, conn_buf := b, conn_net := nc\<rparr>) = stream_left b nc"
  "left (mc\<lparr>conn_buf := b, conn_net := nc, conn_sequence := s\<rparr>) = stream_left b nc"
  by (simp_all add: left_def)

lemma left_cleanup [left_simps]: "left (cleanup mc) = left mc"
  by (simp add: cleanup_def left_def stream_left_def unread_bytes_def)

lemma conn_buf_cleanup [simp]: "conn_buf (cleanup mc) = conn_buf mc"
  by (simp add: cleanup_def)

lemma conn_write_left: "conn_write p nc = (r, nc') \<Longrightarrow> net_in nc' = net_in nc"
  by (auto simp: conn_write_def split: list.splits)

lemma write_loop_left:
  "write_loop pktLen data mc = Inr (e, data', mc') \<Longrightarrow>
   left mc' = left mc \<and> conn_buf mc' = conn_buf mc \<and> length data' = length data"
proof (induction pktLen arbitrary: data mc data' e mc' rule: less_induct)
  case (less pktLen)
  let ?k = "min maxPacketSize pktLen"
  obtain D where D: "store_header data (packet_header pktLen (conn_sequence mc)) = Inr D" "length D = length data"
    using less.prems
    by (auto simp: write_loop.simps [of pktLen data mc] go_bind_eq_Inr store_header_def packet_header_frame
        Let_def split: if_splits)
  show ?case
  proof (cases "deadline_error (conn_writeTimeout mc) (conn_net mc)")
    case (Some a)
    with less.prems D show ?thesis by (simp add: write_loop.simps [of pktLen data mc] Let_def)
  next
    case None
    from less.prems D None obtain p where p: "go_slice D 0 (4 + ?k) = Inr p"
      by (auto simp: write_loop.simps [of pktLen data mc] go_bind_eq_Inr Let_def)
    obtain n err nc where w: "conn_write p (conn_net mc) = ((n, err), nc)" by (metis surj_pair)
    have l: "left (mc\<lparr>conn_net := nc\<rparr>) = left mc" "left (mc\<lparr>conn_net := nc, conn_sequence := s\<rparr>) = left mc" for s
      using conn_write_left [OF w] by (simp_all add: left_def stream_left_def unread_bytes_def)
    show ?thesis
    proof (cases "err = None \<and> n = 4 + ?k \<and> ?k = maxPacketSize")
      case True
      let ?mc = "mc\<lparr>conn_net := nc, conn_sequence := conn_sequence mc + 1\<rparr>"
      from True less.prems D None p w obtain R R' where
        R: "go_slice_from D ?k = Inr R" "write_loop (pktLen - ?k) R ?mc = Inr (e, R', mc')" "data' = take ?k D @ R'"
        by (auto simp: write_loop.simps [of pktLen data mc] go_bind_eq_Inr Let_def)
      have "pktLen - ?k < pktLen" using True by (auto simp: min_def maxPacketSize_eq split: if_splits)
      from less.IH [OF this R(2)] R l D show ?thesis
        by (auto simp: go_slice_from_eq_Inr)
    next
      case False
      with less.prems D None p w l show ?thesis
        by (auto simp: write_loop.simps [of pktLen data mc] Let_def left_simps
            split: option.splits if_splits)
    qed
  qed
qed

lemma writePacket_left:
  "writePacket data mc = Inr (e, data', mc') \<Longrightarrow> left mc' = left mc \<and> conn_buf mc' = conn_buf mc \<and> length data' = length data"
  by (auto simp: writePacket_def Let_def dest: write_loop_left split: if_splits)

lemma write_own_left: "write_own data mc = Inr (e, mc') \<Longrightarrow> left mc' = left mc"
  by (auto simp: write_own_def go_bind_eq_Inr left_def stream_left_def Let_def dest!: writePacket_left)

lemma writeCommandPacket_left: "writeCommandPacket c mc = Inr (e, mc') \<Longrightarrow> left mc' = left mc"
  by (auto simp: writeCommandPacket_def go_bind_eq_Inr Let_def left_simps
      dest!: write_own_left split: option.splits)

lemma conn_Close_left: "conn_Close mc = Inr (e, mc') \<Longrightarrow> left mc' = left mc"
  by (auto simp: conn_Close_def go_bind_eq_Inr left_simps dest!: writeCommandPacket_left split: if_splits)

lemma fill_loop_left':
  "fill_loop timeout need b n nc = Inr (e, b', n', nc') \<Longrightarrow> unread_bytes nc' \<le> unread_bytes nc"
proof (induction timeout need b n nc rule: fill_loop.induct)
  case (1 timeout need b n nc)
  obtain c err nc1 where r: "conn_read (length b - n) nc = ((c, err), nc1)"
    by (metis surj_pair)
  have left: "unread_bytes nc1 \<le> unread_bytes nc"
    using conn_read_unread [OF r] by simp
  show ?case
  proof (cases "deadline_error timeout nc = None \<and> err = None \<and> n + length c < need \<and> need \<le> length b \<and> n \<le> length b")
    case True
    with "1.prems" r have
      "fill_loop timeout need (read_into b n c) (n + length c) nc1 = Inr (e, b', n', nc')"
      by (auto simp: fill_loop.simps [of timeout need b n nc] Let_def)
    with "1.IH" [of "drop n b" "(c, err)" nc1 c err "read_into b n c" "n + length c"] True r left
    show ?thesis by (auto simp: go_slice_from_eq_Inr)
  next
    case False
    with "1.prems" r left show ?thesis
      by (auto simp: fill_loop.simps [of timeout need b n nc] Let_def go_eq_Inr split: if_splits option.splits)
  qed
qed

lemma readNext_fail_left:
  "readNext need b nc = Inr (Inl e, b', nc') \<Longrightarrow> stream_left b' nc' \<le> stream_left b nc"
  by (auto simp: readNext_def go_bind_eq_Inr fill_def Let_def stream_left_def
      dest!: fill_loop_left' split: option.splits if_splits)

lemma read_failed_left: "read_failed mc = Inr (r, mc') \<Longrightarrow> left mc' = left mc \<and> (\<exists>e. r = Inl e)"
  by (auto simp: read_failed_def broken_conn_def go_bind_eq_Inr dest!: conn_Close_left split: option.splits)

lemma readPacket_loop_left:
  "readPacket_loop prev mc = Inr (r, mc') \<Longrightarrow>
   left mc' \<le> left mc \<and> (\<forall>s. r = Inr s \<longrightarrow> left mc' < left mc)"
proof (induction "left mc" arbitrary: prev mc rule: less_induct)
  case less
  from less.prems obtain r1 b1 nc1 where r1: "readNext 4 (conn_buf mc) (conn_net mc) = Inr (r1, b1, nc1)"
    by (auto simp: readPacket_loop.simps [of prev mc] go_bind_eq_Inr)
  let ?mc1 = "mc\<lparr>conn_buf := b1, conn_net := nc1\<rparr>"
  show ?case
  proof (cases r1)
    case (Inl err)
    with less.prems r1 show ?thesis
      using readNext_fail_left [of 4 "conn_buf mc" "conn_net mc" err b1 nc1]
      by (auto simp: readPacket_loop.simps [of prev mc] Let_def left_simps left_def [of mc] dest!: read_failed_left)
  next
    case (Inr s1)
    with r1 have l1: "left ?mc1 < left mc"
      using readNext_left(1) [of 4 "conn_buf mc" "conn_net mc"] by (simp add: left_simps left_def [of mc])
    show ?thesis
    proof (cases "left mc' \<le> left ?mc1")
      case True
      with l1 show ?thesis by simp
    next
      case False
      have cl: "broken_conn mc1 = Inr (r, mc') \<Longrightarrow> left mc' = left mc1"
        "read_failed mc1 = Inr (r, mc') \<Longrightarrow> left mc' = left mc1" for mc1
        by (auto simp: broken_conn_def go_bind_eq_Inr dest: read_failed_left conn_Close_left)
      obtain data spare where s1: "s1 = (data, spare)" by force
      let ?k = "packet_length data"
      from False less.prems r1 Inr s1 cl obtain r2 b2 nc2 where k: "?k \<noteq> 0" and
        r2: "readNext ?k b1 nc1 = Inr (r2, b2, nc2)" and
        rest: "(let mc = mc\<lparr>conn_sequence := conn_sequence mc + 1, conn_buf := b2, conn_net := nc2\<rparr> in
             case r2 of
               Inl err \<Rightarrow> read_failed mc
             | Inr (data, spare) \<Rightarrow>
                 let joined = fst prev @ data; all = (joined, conn_append_spare mc joined)
                 in
                 if ?k < maxPacketSize
                 then Inr (Inr (if fst prev = [] then (data, spare) else all), mc)
                 else readPacket_loop all mc) = Inr (r, mc')"
        by (auto simp: readPacket_loop.simps [of prev mc] Let_def go_bind_eq_Inr left_simps
            split: if_splits)
      show ?thesis
      proof (cases r2)
        case (Inl e)
        with rest cl(2) False readNext_fail_left [of ?k b1 nc1 e b2 nc2] r2 show ?thesis
          by (auto simp: left_simps Let_def)
      next
        case (Inr s2)
        with r2 k have l2: "stream_left b2 nc2 < stream_left b1 nc1"
          using readNext_left(1) by fastforce
        let ?mc2 = "mc\<lparr>conn_sequence := conn_sequence mc + 1, conn_buf := b2, conn_net := nc2\<rparr>"
        have mc2: "left ?mc2 < left mc" using l1 l2 by (simp add: left_simps)
        obtain d sp where s2: "s2 = (d, sp)" by force
        show ?thesis
        proof (cases "?k < maxPacketSize")
          case True
          with rest Inr s2 have "mc' = ?mc2" by (simp add: Let_def)
          with mc2 show ?thesis by simp
        next
          case False
          with rest Inr s2 obtain prev' where "readPacket_loop prev' ?mc2 = Inr (r, mc')"
            by (auto simp: Let_def)
          from less.hyps [OF mc2 this] mc2 show ?thesis by auto
        qed
      qed
    qed
  qed
qed

lemma readPacket_left:
  "readPacket mc = Inr (r, mc') \<Longrightarrow> left mc' \<le> left mc \<and> (\<forall>s. r = Inr s \<longrightarrow> left mc' < left mc)"
  unfolding readPacket_def by (rule readPacket_loop_left)

end
