(* ===== verification/DriverPackets.thy ===== *)
theory DriverPackets
  imports DriverFrames
begin

text \<open>
  \<open>packets.go\<close>: the packets of a result, from \<open>readResultOK\<close> to the rows of a text result, and
  \<open>handleInFileRequest\<close> of \<open>infile.go\<close>. An operation returns \<open>driver_error + 'a\<close> and the connection.
\<close>

type_synonym ('a, 'key) drv = "((driver_error + 'a) \<times> 'key mysqlConn) go"

text \<open>\<open>if err != nil { return err }\<close>\<close>

definition try_bind :: "('a, 'key) drv \<Rightarrow> ('a \<Rightarrow> 'key mysqlConn \<Rightarrow> ('b, 'key) drv) \<Rightarrow> ('b, 'key) drv" where
  "try_bind m f = go_bind m (\<lambda>(r, mc). case r of Inl e \<Rightarrow> Inr (Inl e, mc) | Inr x \<Rightarrow> f x mc)"

definition checked :: "(driver_error option \<times> 'key mysqlConn) go \<Rightarrow> (unit, 'key) drv" where
  "checked m = go_bind m (\<lambda>(e, mc). Inr (case e of Some err \<Rightarrow> Inl err | None \<Rightarrow> Inr (), mc))"

definition fails :: "(driver_error \<times> 'key mysqlConn) go \<Rightarrow> ('a, 'key) drv" where
  "fails m = go_bind m (\<lambda>(e, mc). Inr (Inl e, mc))"

lemma try_bind_simps [simp]:
  "try_bind (Inl p) f = Inl p"
  "try_bind (Inr (Inl e, mc)) f = Inr (Inl e, mc)"
  "try_bind (Inr (Inr x, mc)) f = f x mc"
  by (simp_all add: try_bind_def)

lemma try_bind_eq_Inr:
  "try_bind m f = Inr y \<longleftrightarrow>
   (\<exists>e mc. m = Inr (Inl e, mc) \<and> y = (Inl e, mc)) \<or> (\<exists>x mc. m = Inr (Inr x, mc) \<and> f x mc = Inr y)"
  by (cases m) (auto simp: try_bind_def split: sum.splits)

lemma try_bind_eq_ok: "try_bind m f = Inr (Inr y, mc') \<longleftrightarrow> (\<exists>x mc. m = Inr (Inr x, mc) \<and> f x mc = Inr (Inr y, mc'))"
  by (auto simp: try_bind_eq_Inr)

lemma try_bind_cong [fundef_cong]:
  "m = m' \<Longrightarrow> (\<And>x mc. m' = Inr (Inr x, mc) \<Longrightarrow> f x mc = g x mc) \<Longrightarrow> try_bind m f = try_bind m' g"
  by (auto simp: try_bind_def intro!: go_bind_cong split: sum.splits)

definition iOK :: byte where "iOK = 0x00"
definition iAuthMoreData :: byte where "iAuthMoreData = 0x01"
definition iLocalInFile :: byte where "iLocalInFile = 0xfb"
definition iEOF :: byte where "iEOF = 0xfe"
definition iERR :: byte where "iERR = 0xff"

definition statusMoreResultsExists :: "16 word" where "statusMoreResultsExists = push_bit 3 1"
definition statusNoBackslashEscapes :: "16 word" where "statusNoBackslashEscapes = push_bit 9 1"

subsection \<open>Error and OK packets\<close>

definition handleErrorPacket :: "slice \<Rightarrow> 'key mysqlConn \<Rightarrow> (driver_error \<times> 'key mysqlConn) go" where
  "handleErrorPacket data mc =
     go_bind (go_at (fst data) 0) (\<lambda>d0.
       if d0 \<noteq> iERR then Inr (ErrMalformPkt, mc)
       else
         go_bind (slice_int data 1 3) (\<lambda>num. go_bind (le_uint16 (fst num)) (\<lambda>errno.
           if (errno = 1792 \<or> errno = 1290) \<and> cf_RejectReadOnly (conn_cfg mc)
           then go_bind (conn_Close mc) (\<lambda>(_, mc). Inr (ErrBadConn, mc))
           else
             go_bind (go_at (fst data) 3) (\<lambda>d3.
               let pos = (if d3 = 0x23 then 9 else 3)
               in go_bind (slice_rest data pos) (\<lambda>msg. Inr (MySQLError errno (fst msg), mc))))))"

definition readStatus :: "bytes \<Rightarrow> 16 word go" where
  "readStatus b = go_bind (go_at b 0) (\<lambda>b0. go_bind (go_at b 1) (\<lambda>b1. Inr (ucast b0 OR push_bit 8 (ucast b1))))"

definition handleOkPacket :: "slice \<Rightarrow> 'key mysqlConn \<Rightarrow> 'key mysqlConn go" where
  "handleOkPacket data mc =
     go_bind (slice_rest data 1) (\<lambda>d. go_bind (readLengthEncodedInteger (fst d)) (\<lambda>(rows, _, n).
     go_bind (slice_rest data (int (1 + n))) (\<lambda>d. go_bind (readLengthEncodedInteger (fst d)) (\<lambda>(ins, _, m).
     go_bind (slice_int data (int (1 + n + m)) (int (1 + n + m + 2))) (\<lambda>d. go_bind (readStatus (fst d)) (\<lambda>status.
       Inr (mc\<lparr>conn_affectedRows := rows, conn_insertId := ins, conn_status := status\<rparr>)))))))"

definition ok_packet :: "slice \<Rightarrow> 'a \<Rightarrow> 'key mysqlConn \<Rightarrow> ('a, 'key) drv" where
  "ok_packet data x mc = go_bind (handleOkPacket data mc) (\<lambda>mc. Inr (Inr x, mc))"

definition readResultOK :: "'key mysqlConn \<Rightarrow> (unit, 'key) drv" where
  "readResultOK mc =
     try_bind (readPacket mc) (\<lambda>data mc.
       go_bind (go_at (fst data) 0) (\<lambda>d0.
         if d0 = iOK then ok_packet data () mc else fails (handleErrorPacket data mc)))"

subsection \<open>infile.go\<close>

definition bytes_index :: "bytes \<Rightarrow> bytes \<Rightarrow> int" where
  "bytes_index s sub = strings_Index (string_of_bytes s) (string_of_bytes sub)"

definition trim_quotes :: "bytes \<Rightarrow> bytes" where
  "trim_quotes s = rev (dropWhile (\<lambda>c. c = 0x22) (rev (dropWhile (\<lambda>c. c = 0x22) s)))"

text \<open>The reader for a name and its size: of a file the size limits the packets.\<close>

definition quoted_name :: "bytes \<Rightarrow> string" where
  "quoted_name name = CHR 0x27 # string_of_bytes name @ [CHR 0x27]"

definition open_infile :: "bytes \<Rightarrow> 'key mysqlConn \<Rightarrow> driver_error + infile_reader \<times> int option" where
  "open_infile name mc =
     (let idx = bytes_index name (bytes_of_string ''Reader::''); w = conn_infile mc in
      if idx = 0 \<or> (0 < idx \<and> name ! nat (idx - 1) = 0x2F) then
        let name = drop (nat idx + 8) name in
        case if_readers w name of
          Some (Some rdr) \<Rightarrow> Inr (rdr, None)
        | Some None \<Rightarrow> Inl (OtherError (''Reader '' @ quoted_name name @ '' is <nil>''))
        | None \<Rightarrow> Inl (OtherError (''Reader '' @ quoted_name name @ '' is not registered''))
      else
        let name = trim_quotes name in
        if cf_AllowAllFiles (conn_cfg mc) \<or> if_registered w name
        then map_sum id (\<lambda>rdr. (rdr, Some (rd_size rdr))) (if_open w name)
        else Inl (OtherError (''local file '' @ quoted_name name @ '' is not registered'')))"

text \<open>The content packets: the error is the reader's, or (\<open>Inl\<close>) the one of \<open>writePacket\<close>.\<close>

function send_content ::
  "nat \<Rightarrow> read_script \<Rightarrow> 'key mysqlConn \<Rightarrow> (driver_error, 'key) drv"
where
  "send_content packetSize script mc =
     (if packetSize = 0 then Inr (Inr EOF, mc)
      else case script_read packetSize script of
        ((c, err), script') \<Rightarrow>
          try_bind
            (if c = [] then Inr (Inr (), mc)
             else checked (go_bind (writePacket (replicate 4 0 @ c) mc) (\<lambda>(e, _, mc). Inr (e, mc))))
            (\<lambda>_ mc. case err of None \<Rightarrow> send_content packetSize script' mc | Some e \<Rightarrow> Inr (Inr e, mc)))"
  by pat_completeness auto
termination
  by (relation "measure (\<lambda>(packetSize, script, mc). length script + script_bytes script)")
    (auto dest!: script_read_progress [OF sym])

declare send_content.simps [simp del]

text \<open>Content, the empty packet that ends it, and the server's answer.\<close>

definition infile_dialogue ::
  "driver_error + infile_reader \<times> int option \<Rightarrow> int \<Rightarrow> 'key mysqlConn \<Rightarrow> (unit, 'key) drv"
where
  "infile_dialogue opened packetSize mc =
     try_bind
       (case opened of
          Inr (rdr, _) \<Rightarrow>
            if 0 < packetSize then send_content (nat packetSize) (rd_script rdr) mc else Inr (Inr EOF, mc)
        | Inl e \<Rightarrow> Inr (Inr e, mc))
       (\<lambda>err mc.
         try_bind (checked (go_bind (writePacket (replicate 4 0) mc) (\<lambda>(e, _, mc). Inr (e, mc))))
           (\<lambda>_ mc.
             if isl opened \<or> err \<noteq> EOF
             then go_bind (readPacket mc) (\<lambda>(_, mc). Inr (Inl err, mc))
             else readResultOK mc))"

definition handleInFileRequest :: "bytes \<Rightarrow> 'key mysqlConn \<Rightarrow> (unit, 'key) drv" where
  "handleInFileRequest name mc =
     (let packetSize = (if conn_maxWriteSize mc < 16 * 1024 then conn_maxWriteSize mc else 16 * 1024);
          opened = open_infile name mc;
          packetSize = (case opened of
              Inr (_, Some fileSize) \<Rightarrow> if fileSize < packetSize then fileSize else packetSize
            | _ \<Rightarrow> packetSize)
      in
        go_bind (infile_dialogue opened packetSize mc) (\<lambda>(r, mc).
          Inr (case (r, opened) of
              (Inr (), Inr (rdr, _)) \<Rightarrow> (case rd_close rdr of Some e \<Rightarrow> Inl e | None \<Rightarrow> Inr ())
            | _ \<Rightarrow> r, mc)))"

subsection \<open>Result set header\<close>

definition readResultSetHeaderPacket :: "'key mysqlConn \<Rightarrow> (int, 'key) drv" where
  "readResultSetHeaderPacket mc =
     try_bind (readPacket mc) (\<lambda>data mc.
       go_bind (go_at (fst data) 0) (\<lambda>d0.
         if d0 = iOK then ok_packet data 0 mc
         else if d0 = iERR then fails (handleErrorPacket data mc)
         else if d0 = iLocalInFile
         then go_bind (slice_rest data 1) (\<lambda>name.
           try_bind (handleInFileRequest (fst name) mc) (\<lambda>_ mc. Inr (Inr 0, mc)))
         else
           go_bind (readLengthEncodedInteger (fst data)) (\<lambda>(num, _, n).
             if n = length (fst data) then Inr (Inr (to_int64 (uint num)), mc)
             else Inr (Inl ErrMalformPkt, mc))))"

subsection \<open>Column definitions\<close>

record mysqlField =
  fd_tableName :: bytes
  fd_name :: bytes
  fd_length :: "32 word"
  fd_flags :: "16 word"
  fd_fieldType :: byte
  fd_decimals :: byte
  fd_charSet :: byte

definition mysqlField_zero :: mysqlField where
  "mysqlField_zero = \<lparr>fd_tableName = [], fd_name = [], fd_length = 0, fd_flags = 0, fd_fieldType = 0,
     fd_decimals = 0, fd_charSet = 0\<rparr>"

text \<open>The strings of a definition: the error, or the position behind the read one and its value.\<close>

definition skip_at :: "slice \<Rightarrow> int \<Rightarrow> (int \<Rightarrow> (driver_error + 'a) go) \<Rightarrow> (driver_error + 'a) go" where
  "skip_at data pos f =
     go_bind (slice_rest data pos) (\<lambda>d. go_bind (skipLengthEncodedString (fst d)) (\<lambda>r.
       case r of Inl EofError \<Rightarrow> Inr (Inl EOF) | Inr n \<Rightarrow> f (pos + n)))"

definition read_at :: "slice \<Rightarrow> int \<Rightarrow> (bytes \<Rightarrow> bool \<Rightarrow> int \<Rightarrow> (driver_error + 'a) go) \<Rightarrow> (driver_error + 'a) go" where
  "read_at data pos f =
     go_bind (slice_rest data pos) (\<lambda>d. go_bind (readLengthEncodedString d) (\<lambda>r.
       case r of Inl EofError \<Rightarrow> Inr (Inl EOF) | Inr (v, isNull, n) \<Rightarrow> f v isNull (pos + n)))"

definition store_column :: "mysqlField list \<Rightarrow> nat \<Rightarrow> (mysqlField \<Rightarrow> mysqlField) \<Rightarrow> mysqlField list go" where
  "store_column columns i f = go_bind (go_at columns i) (\<lambda>c. Inr (columns[i := f c]))"

definition column_fixed :: "slice \<Rightarrow> int \<Rightarrow> mysqlField \<Rightarrow> mysqlField go" where
  "column_fixed data pos column =
     go_bind (go_at (fst data) (nat pos)) (\<lambda>charSet.
     go_bind (slice_int data (pos + 2) (pos + 6)) (\<lambda>l. go_bind (le_uint32 (fst l)) (\<lambda>len.
     go_bind (go_at (fst data) (nat (pos + 6))) (\<lambda>typ.
     go_bind (slice_int data (pos + 7) (pos + 9)) (\<lambda>f. go_bind (le_uint16 (fst f)) (\<lambda>flags.
     go_bind (go_at (fst data) (nat (pos + 9))) (\<lambda>decimals.
       Inr (column\<lparr>fd_charSet := charSet, fd_length := len, fd_fieldType := typ, fd_flags := flags,
         fd_decimals := decimals\<rparr>))))))))"

definition read_column ::
  "bool \<Rightarrow> slice \<Rightarrow> nat \<Rightarrow> mysqlField list \<Rightarrow> (driver_error + mysqlField list) go"
where
  "read_column aliased data i columns =
     go_bind (skipLengthEncodedString (fst data)) (\<lambda>r. case r of Inl EofError \<Rightarrow> Inr (Inl EOF) | Inr pos \<Rightarrow>
     skip_at data pos (\<lambda>pos.
     (if aliased
      then (\<lambda>f. read_at data pos (\<lambda>v _ pos. go_bind (store_column columns i (\<lambda>c. c\<lparr>fd_tableName := v\<rparr>))
        (\<lambda>columns. f columns pos)))
      else (\<lambda>f. skip_at data pos (f columns))) (\<lambda>columns pos.
     skip_at data pos (\<lambda>pos.
     read_at data pos (\<lambda>v _ pos.
     go_bind (store_column columns i (\<lambda>c. c\<lparr>fd_name := v\<rparr>)) (\<lambda>columns.
     skip_at data pos (\<lambda>pos.
     go_bind (column_fixed data (pos + 1) (columns ! i)) (\<lambda>c. Inr (Inr (columns[i := c]))))))))))"

text \<open>
  The loop of \<open>readColumns\<close>: \<open>i\<close> definitions are read. Every packet takes bytes off the stream.
\<close>

function readColumns_loop ::
  "nat \<Rightarrow> nat \<Rightarrow> mysqlField list \<Rightarrow> 'key mysqlConn \<Rightarrow> (mysqlField list, 'key) drv"
where
  "readColumns_loop count i columns mc =
     try_bind (readPacket mc) (\<lambda>data mc.
       go_bind (go_at (fst data) 0) (\<lambda>d0.
         if d0 = iEOF \<and> (length (fst data) = 5 \<or> length (fst data) = 1)
         then if i = count then Inr (Inr columns, mc)
           else Inr (Inl (OtherError (''column count mismatch n:'' @ strconv_Itoa (int count) @ '' len:'' @
             strconv_Itoa (int (length columns)))), mc)
         else
           go_bind (read_column (cf_ColumnsWithAlias (conn_cfg mc)) data i columns) (\<lambda>r.
             case r of
               Inl e \<Rightarrow> Inr (Inl e, mc)
             | Inr columns \<Rightarrow> readColumns_loop count (i + 1) columns mc)))"
  by pat_completeness auto
termination
  by (relation "measure (\<lambda>(count, i, columns, mc). left mc)") (auto dest!: readPacket_left)

declare readColumns_loop.simps [simp del]

definition readColumns :: "int \<Rightarrow> 'key mysqlConn \<Rightarrow> (mysqlField list, 'key) drv" where
  "readColumns count mc =
     (if count < 0 then Inl (ExplicitPanic ''makeslice: len out of range'')
      else readColumns_loop (nat count) 0 (replicate (nat count) mysqlField_zero) mc)"

subsection \<open>Rows\<close>

text \<open>
  The values of a row. A \<open>time.Time\<close> is of the type \<open>'time\<close>, and what makes one of a text is the
  parameter \<open>parseDateTime\<close>. Floats are their bits.
\<close>

datatype 'time driver_value =
    VNull
  | VInt int
  | VFloat32 "32 word"
  | VFloat64 "64 word"
  | VBool bool
  | VBytes bytes
  | VNilBytes                         \<comment> \<open>\<open>[]byte(nil)\<close>\<close>
  | VString bytes
  | VTime 'time

record text_rows =
  rows_open :: bool                   \<comment> \<open>\<open>rows.mc != nil\<close>\<close>
  rows_columns :: "mysqlField list"
  rows_done :: bool

definition is_date_type :: "byte \<Rightarrow> bool" where
  "is_date_type t \<longleftrightarrow> t \<in> set [7, 12, 10, 14]"   \<comment> \<open>TIMESTAMP, DATETIME, DATE, NEWDATE\<close>

text \<open>The loop over \<open>dest\<close>, from position \<open>pos\<close> and column \<open>i\<close>, with \<open>k\<close> values still to read.\<close>

fun read_values ::
  "bool \<Rightarrow> (bytes \<Rightarrow> driver_error + 'time) \<Rightarrow> mysqlField list \<Rightarrow> slice \<Rightarrow> int \<Rightarrow> nat \<Rightarrow> nat \<Rightarrow>
   (driver_error + 'time driver_value list) go"
where
  "read_values parseTime parseDateTime columns data pos i 0 = Inr (Inr [])"
| "read_values parseTime parseDateTime columns data pos i (Suc k) =
     read_at data pos (\<lambda>v isNull pos.
       go_bind
         (if isNull then Inr (Inr VNull)
          else if \<not> parseTime then Inr (Inr (VBytes v))
          else go_bind (go_at columns i) (\<lambda>c.
            if is_date_type (fd_fieldType c) then Inr (map_sum id VTime (parseDateTime v))
            else Inr (Inr (VBytes v))))
         (\<lambda>r. case r of
            Inl e \<Rightarrow> Inr (Inl e)
          | Inr x \<Rightarrow>
              go_bind (read_values parseTime parseDateTime columns data pos (i + 1) k) (\<lambda>xs.
                Inr (map_sum id ((#) x) xs))))"

definition has_more_results :: "'key mysqlConn \<Rightarrow> bool" where
  "has_more_results mc \<longleftrightarrow> conn_status mc AND statusMoreResultsExists \<noteq> 0"

text \<open>
  \<open>textRows.readRow\<close> for \<open>n\<close> values: the values or an error, the rows and the connection. The
  end of the rows is the error \<open>EOF\<close>.
\<close>

definition readRow ::
  "(bytes \<Rightarrow> driver_error + 'time) \<Rightarrow> nat \<Rightarrow> text_rows \<Rightarrow> 'key mysqlConn \<Rightarrow>
   ((driver_error + 'time driver_value list) \<times> text_rows \<times> 'key mysqlConn) go"
where
  "readRow parseDateTime n rows mc =
     (if rows_done rows then Inr (Inl EOF, rows, mc)
      else
        go_bind (readPacket mc) (\<lambda>(r, mc).
          case r of
            Inl e \<Rightarrow> Inr (Inl e, rows, mc)
          | Inr data \<Rightarrow>
              go_bind (go_at (fst data) 0) (\<lambda>d0.
                if d0 = iEOF \<and> length (fst data) = 5 then
                  go_bind (slice_rest data 3) (\<lambda>d. go_bind (readStatus (fst d)) (\<lambda>status.
                    let mc = mc\<lparr>conn_status := status\<rparr>;
                        rows = rows\<lparr>rows_done := True, rows_open := rows_open rows \<and> has_more_results mc\<rparr>
                    in Inr (Inl EOF, rows, mc)))
                else if d0 = iERR then
                  go_bind (handleErrorPacket data mc) (\<lambda>(e, mc). Inr (Inl e, rows\<lparr>rows_open := False\<rparr>, mc))
                else
                  go_bind (read_values (conn_parseTime mc) parseDateTime (rows_columns rows) data 0 0 n)
                    (\<lambda>r. Inr (r, rows, mc)))))"

function readUntilEOF :: "'key mysqlConn \<Rightarrow> (unit, 'key) drv" where
  "readUntilEOF mc =
     try_bind (readPacket mc) (\<lambda>data mc.
       go_bind (go_at (fst data) 0) (\<lambda>d0.
         if d0 = iERR then fails (handleErrorPacket data mc)
         else if d0 = iEOF then
           if length (fst data) = 5
           then go_bind (slice_rest data 3) (\<lambda>d. go_bind (readStatus (fst d)) (\<lambda>status.
             Inr (Inr (), mc\<lparr>conn_status := status\<rparr>)))
           else Inr (Inr (), mc)
         else readUntilEOF mc))"
  by pat_completeness auto
termination
  by (relation "measure left") (auto dest!: readPacket_left)

declare readUntilEOF.simps [simp del]

subsection \<open>Bytes left\<close>

text \<open>\<open>bounded m k\<close>: if \<open>m\<close> returns, at most \<open>k\<close> bytes are left.\<close>

definition bounded :: "('r \<times> 'key mysqlConn) go \<Rightarrow> nat \<Rightarrow> bool" where
  "bounded m k \<longleftrightarrow> (\<forall>r mc. m = Inr (r, mc) \<longrightarrow> left mc \<le> k)"

lemma bounded_simps [simp]:
  "bounded (Inl p) k"
  "bounded (Inr (r, mc)) k \<longleftrightarrow> left mc \<le> k"
  by (simp_all add: bounded_def)

lemma boundedD: "bounded m k \<Longrightarrow> m = Inr (r, mc) \<Longrightarrow> left mc \<le> k"
  by (simp add: bounded_def)

lemma bounded_bind: "(\<And>x. m = Inr x \<Longrightarrow> bounded (f x) k) \<Longrightarrow> bounded (go_bind m f) k"
  by (cases m) simp_all

lemma bounded_try:
  "bounded m k \<Longrightarrow> (\<And>x mc. m = Inr (Inr x, mc) \<Longrightarrow> left mc \<le> k \<Longrightarrow> bounded (f x mc) k) \<Longrightarrow>
   bounded (try_bind m f) k"
  by (cases m) (auto simp: try_bind_def bounded_def split: sum.splits)

lemma bounded_trans: "bounded m j \<Longrightarrow> j \<le> k \<Longrightarrow> bounded m k"
  by (auto simp: bounded_def)

lemma handleOkPacket_left: "handleOkPacket data mc = Inr mc' \<Longrightarrow> left mc' = left mc"
  by (auto simp: handleOkPacket_def go_bind_eq_Inr left_def)

lemma handleErrorPacket_left: "handleErrorPacket data mc = Inr (e, mc') \<Longrightarrow> left mc' = left mc"
  by (auto simp: handleErrorPacket_def go_bind_eq_Inr Let_def dest!: conn_Close_left split: if_splits)

lemma ok_packet_bounded [intro]: "left mc \<le> k \<Longrightarrow> bounded (ok_packet data x mc) k"
  by (auto simp: ok_packet_def bounded_def go_bind_eq_Inr dest!: handleOkPacket_left)

lemma fails_bounded [intro]: "left mc \<le> k \<Longrightarrow> bounded (fails (handleErrorPacket data mc)) k"
  by (auto simp: fails_def bounded_def go_bind_eq_Inr dest!: handleErrorPacket_left)

lemma readPacket_bounded: "bounded (readPacket mc) (left mc)"
  by (auto simp: bounded_def dest: readPacket_left)

lemma checked_writePacket_bounded:
  "bounded (checked (go_bind (writePacket data mc) (\<lambda>(e, _, mc). Inr (e, mc)))) (left mc)"
  by (auto simp: checked_def bounded_def go_bind_eq_Inr dest!: writePacket_left)

lemma readResultOK_bounded: "bounded (readResultOK mc) (left mc)"
  unfolding readResultOK_def by (intro bounded_try readPacket_bounded bounded_bind) auto

lemma send_content_bounded: "bounded (send_content n script (mc :: 'key mysqlConn)) (left mc)"
proof (induction "length script + script_bytes script" arbitrary: script mc rule: less_induct)
  case less
  obtain c err script' where s: "script_read n script = ((c, err), script')" by (metis surj_pair)
  show ?case
  proof (cases "n = 0")
    case False
    have "bounded (send_content n script' mc1) (left mc)" if "err = None" "left mc1 \<le> left mc" for mc1 :: "'key mysqlConn"
      using that less.hyps [of script' mc1] script_read_progress [of n script c script'] False s
      by (auto intro: bounded_trans)
    with False s show ?thesis
      by (auto simp: send_content.simps [of n script] checked_writePacket_bounded
          intro!: bounded_try split: option.split)
  qed (simp add: send_content.simps [of 0])
qed

lemma infile_dialogue_bounded: "bounded (infile_dialogue opened n mc) (left mc)"
  unfolding infile_dialogue_def
  by (intro bounded_try)
    (auto split: sum.split simp: send_content_bounded
      intro: bounded_trans [OF checked_writePacket_bounded] bounded_trans [OF readResultOK_bounded]
      intro!: bounded_bind dest!: readPacket_left)

lemma handleInFileRequest_bounded: "bounded (handleInFileRequest name mc) (left mc)"
  unfolding handleInFileRequest_def Let_def
  by (auto intro!: bounded_bind dest!: boundedD [OF infile_dialogue_bounded])

lemma after_packet:
  assumes "try_bind (readPacket mc) f = Inr (r, mc')" "\<And>s mc1. bounded (f s mc1) (left mc1)"
  shows "left mc' \<le> left mc \<and> (\<forall>x. r = Inr x \<longrightarrow> left mc' < left mc)"
proof (cases "readPacket mc")
  case (Inr p)
  obtain r1 mc1 where p: "p = (r1, mc1)" by force
  show ?thesis
  proof (cases r1)
    case (Inl e)
    with assms \<open>readPacket mc = Inr p\<close> p show ?thesis by (auto dest: readPacket_left)
  next
    case r1: (Inr s)
    then have "left mc1 < left mc" using Inr p readPacket_left by blast
    moreover have "left mc' \<le> left mc1"
      using assms Inr p r1 boundedD [OF assms(2)] by auto
    ultimately show ?thesis by simp
  qed
qed (use assms in simp)

lemma readResultSetHeaderPacket_left:
  "readResultSetHeaderPacket mc = Inr (r, mc') \<Longrightarrow>
   left mc' \<le> left mc \<and> (\<forall>n. r = Inr n \<longrightarrow> left mc' < left mc)"
  unfolding readResultSetHeaderPacket_def
  by (erule after_packet)
    (auto intro!: bounded_bind bounded_try handleInFileRequest_bounded)

lemma readUntilEOF_left:
  "readUntilEOF mc = Inr (r, mc') \<Longrightarrow> left mc' \<le> left mc"
proof (induction "left mc" arbitrary: mc rule: less_induct)
  case less
  show ?case
  proof (cases "\<exists>s mc1. readPacket mc = Inr (Inr s, mc1)")
    case True
    then obtain s mc1 where p: "readPacket mc = Inr (Inr s, mc1)" by blast
    then have l: "left mc1 < left mc" using readPacket_left by blast
    have "readUntilEOF mc1 = Inr (r, mc') \<Longrightarrow> left mc' \<le> left mc1" using less.hyps l by blast
    with less.prems p l show ?thesis
      by (auto simp: readUntilEOF.simps [of mc] go_bind_eq_Inr left_simps
          dest!: boundedD [OF fails_bounded [OF order_refl]] split: if_splits)
  next
    case False
    with less.prems show ?thesis
      by (auto simp: readUntilEOF.simps [of mc] try_bind_eq_Inr dest: readPacket_left)
  qed
qed

end
