(* ===== verification/PrefixCodec.thy ===== *)
theory PrefixCodec
  imports GoBase
begin

text \<open>
  Encodings that end by themselves: what a decoder that reads an encoding off the front of a byte
  string gives for the encodings of values one after the other.
\<close>

locale prefix_codec =
  fixes enc :: "'a \<Rightarrow> 'b list"
    and dec :: "'b list \<Rightarrow> ('a \<times> nat) option"
    and ok :: "'a \<Rightarrow> bool"
  assumes dec_enc: "ok x \<Longrightarrow> dec (enc x @ rest) = Some (x, length (enc x))"
    and enc_nonempty: "ok x \<Longrightarrow> enc x \<noteq> []"
begin

lemma prefix_free:
  assumes "ok x" "ok y" "enc x @ r = enc y @ s"
  shows "x = y \<and> r = s"
proof -
  have "x = y" using dec_enc [OF assms(1), of r] dec_enc [OF assms(2), of s] assms(3) by simp
  with assms(3) show ?thesis by simp
qed

lemma enc_inj: "ok x \<Longrightarrow> ok y \<Longrightarrow> enc x = enc y \<Longrightarrow> x = y"
  using prefix_free [of x y "[]" "[]"] by simp

lemma sequence_inj:
  "list_all ok xs \<Longrightarrow> list_all ok ys \<Longrightarrow> concat (map enc xs) = concat (map enc ys) \<Longrightarrow> xs = ys"
proof (induction xs arbitrary: ys)
  case Nil
  then show ?case by (cases ys) (auto simp: enc_nonempty)
next
  case (Cons x xs)
  then obtain y ys' where ys: "ys = y # ys'" by (cases ys) (auto simp: enc_nonempty)
  with Cons.prems have "x = y \<and> concat (map enc xs) = concat (map enc ys')"
    by (intro prefix_free) auto
  with Cons ys show ?case by simp
qed

lemma sequence_prefix_free:
  "list_all ok xs \<Longrightarrow> list_all ok ys \<Longrightarrow> length xs = length ys \<Longrightarrow>
   concat (map enc xs) @ r = concat (map enc ys) @ s \<Longrightarrow> xs = ys \<and> r = s"
proof (induction xs ys rule: list_induct2')
  case (4 x xs y ys)
  then have "x = y \<and> concat (map enc xs) @ r = concat (map enc ys) @ s"
    by (intro prefix_free) auto
  with 4 show ?case by simp
qed auto

end

end
