(* ===== verification/DriverRows.thy ===== *)
theory DriverRows
  imports DriverPackets PrefixCodec
begin

text \<open>
  What the readers of \<open>packets.go\<close> make of a well-formed answer: the column definitions and rows as
  the server encodes them are read back, in any chunks, and the encodings are unambiguous.
\<close>

subsection \<open>The codes of the protocol\<close>

definition lei_decoder :: "bytes \<Rightarrow> (64 word \<times> nat) option" where
  "lei_decoder b =
     (case readLengthEncodedInteger b of Inr (num, False, n) \<Rightarrow> Some (num, n) | _ \<Rightarrow> None)"

interpretation lei_code: prefix_codec "appendLengthEncodedInteger []" lei_decoder "\<lambda>_. True"
  by unfold_locales (simp_all add: lei_decoder_def read_append_lei lei_head(1))

text \<open>A column of a text row: NULL is one byte that no length begins with.\<close>

fun column_bytes :: "bytes option \<Rightarrow> bytes" where
  "column_bytes None = [0xfb]"
| "column_bytes (Some v) = les v"

fun column_fits :: "bytes option \<Rightarrow> bool" where
  "column_fits None \<longleftrightarrow> True"
| "column_fits (Some v) \<longleftrightarrow> length v + 9 < 2 ^ 63"

fun column_value :: "bytes option \<Rightarrow> 'time driver_value" where
  "column_value None = VNull"
| "column_value (Some v) = VBytes v"

definition column_decoder :: "bytes \<Rightarrow> (bytes option \<times> nat) option" where
  "column_decoder b =
     (case readLengthEncodedString (b, []) of
        Inr (Inr (v, isNull, n)) \<Rightarrow> Some (if isNull then None else Some v, nat n)
      | _ \<Rightarrow> None)"

lemma read_null: "readLengthEncodedString (0xfb # bs, spare) = Inr (Inr ([], True, 1))"
  by (simp add: readLengthEncodedString_def read_lei_forms slice_int_def)

lemma read_column_bytes:
  "column_fits c \<Longrightarrow>
   readLengthEncodedString (column_bytes c @ rest, spare) =
     Inr (Inr (case c of None \<Rightarrow> [] | Some v \<Rightarrow> v, c = None, int (length (column_bytes c))))"
  by (cases c) (simp_all add: read_null read_les)

lemma les_not_Nil [simp]: "les v \<noteq> []"
  by (simp add: les_def lei_head(1))

interpretation column_code: prefix_codec column_bytes column_decoder column_fits
proof
  fix c rest
  assume ok: "column_fits c"
  show "column_decoder (column_bytes c @ rest) = Some (c, length (column_bytes c))"
    using ok by (cases c) (simp_all add: column_decoder_def read_null read_les)
  show "column_bytes c \<noteq> []" by (cases c) simp_all
qed

definition row_bytes :: "bytes option list \<Rightarrow> bytes" where
  "row_bytes cs = concat (map column_bytes cs)"

lemma row_bytes_simps [simp]:
  "row_bytes [] = []"
  "row_bytes (c # cs) = column_bytes c @ row_bytes cs"
  by (simp_all add: row_bytes_def)

subsection \<open>Reading a row\<close>

lemma slice_rest_append:
  "slice_rest (pre @ d, spare) (int (length pre)) = Inr (d, spare)"
  by (simp add: slice_rest_def slice_int_def)

lemma read_at_column:
  "column_fits c \<Longrightarrow>
   read_at (pre @ column_bytes c @ rest, spare) (int (length pre)) f =
     f (case c of None \<Rightarrow> [] | Some v \<Rightarrow> v) (c = None) (int (length pre) + int (length (column_bytes c)))"
  using read_column_bytes [of c rest spare] by (simp add: read_at_def slice_rest_append)

lemma read_values_row:
  assumes "list_all column_fits cs"
  shows "read_values False pdt columns (pre @ row_bytes cs @ rest, spare) (int (length pre)) i (length cs) =
    Inr (Inr (map column_value cs))"
  using assms
proof (induction cs arbitrary: pre i)
  case (Cons c cs)
  have "read_values False pdt columns ((pre @ column_bytes c) @ row_bytes cs @ rest, spare)
      (int (length (pre @ column_bytes c))) (i + 1) (length cs) = Inr (Inr (map column_value cs))"
    using Cons by (intro Cons.IH) simp
  then show ?case
    using Cons.prems by (simp add: read_at_column) (cases c; simp)
qed simp

text \<open>The packet of a row is not taken for the end of the rows or an error.\<close>

lemma length_les_big: "length v + 9 < 2 ^ 63 \<Longrightarrow> hd (les v) = 0xfe \<Longrightarrow> 5 < length (les v)"
proof -
  assume v: "length v + 9 < 2 ^ 63" "hd (les v) = 0xfe"
  then have "hd (lei (word_of_nat (length v))) = 0xfe"
    using lei_head(1) by (simp add: les_def)
  then have "(0xffffff :: 64 word) < word_of_nat (length v)"
    using lei_head(4) by simp
  then have "0xffffff < length v"
    using v(1) by (simp add: word_less_nat_alt unat_of_nat)
  then show ?thesis by (simp add: les_def)
qed

lemma row_packet:
  assumes "cs \<noteq> []" "list_all column_fits cs"
  shows "row_bytes cs \<noteq> []" "row_bytes cs ! 0 \<noteq> iERR"
    "\<not> (row_bytes cs ! 0 = iEOF \<and> length (row_bytes cs) = 5)"
proof -
  obtain c cs' where cs: "cs = c # cs'" using assms(1) by (cases cs) auto
  have ne: "column_bytes c \<noteq> []" by (cases c) simp_all
  then show "row_bytes cs \<noteq> []" by (simp add: cs)
  have h: "row_bytes cs ! 0 = hd (column_bytes c)"
    using ne by (simp add: cs nth_append hd_conv_nth)
  have "hd (column_bytes c) \<noteq> 0xff"
    using lei_head(1,3) by (cases c) (simp_all add: les_def)
  with h show "row_bytes cs ! 0 \<noteq> iERR" by (simp add: iERR_def)
  have "hd (column_bytes c) = 0xfe \<Longrightarrow> 5 < length (column_bytes c)"
    using assms(2) cs length_les_big by (cases c) simp_all
  with h show "\<not> (row_bytes cs ! 0 = iEOF \<and> length (row_bytes cs) = 5)"
    by (auto simp: iEOF_def cs)
qed

lemma reads_packet_keeps:
  assumes "reads_packet mc p rest mc'"
  shows "conn_parseTime mc' = conn_parseTime mc" "conn_cfg mc' = conn_cfg mc"
    "conn_sequence mc' = conn_sequence mc + frame_count p" "conn_closed mc' = conn_closed mc"
    "conn_canceled mc' = conn_canceled mc" "net_out (conn_net mc') = net_out (conn_net mc)"
proof -
  have eq: "mc' = mc\<lparr>conn_buf := conn_buf mc', conn_net := conn_net mc',
       conn_sequence := conn_sequence mc + frame_count p\<rparr>" (is "_ = ?u")
    using assms unfolding reads_packet_def by blast
  show "conn_parseTime mc' = conn_parseTime mc" "conn_cfg mc' = conn_cfg mc"
    "conn_sequence mc' = conn_sequence mc + frame_count p" "conn_closed mc' = conn_closed mc"
    "conn_canceled mc' = conn_canceled mc"
    by (subst eq, simp)+
  have "conn_net mc' = (conn_net mc)\<lparr>net_in := net_in (conn_net mc')\<rparr>"
    using assms unfolding reads_packet_def by blast
  then show "net_out (conn_net mc') = net_out (conn_net mc)"
    by (metis net_conn.select_convs(2) net_conn.surjective net_conn.update_convs(1))
qed

lemma readRow_row:
  assumes "cs \<noteq> []" "list_all column_fits cs" "\<not> rows_done rows" "\<not> conn_parseTime mc"
    and "net_clean (conn_net mc)" "buffer_fits (conn_buf mc)"
    and "unread (conn_buf mc) (conn_net mc) = frames (conn_sequence mc) (row_bytes cs) @ rest"
  shows "\<exists>mc'. readRow pdt (length cs) rows mc = Inr (Inr (map column_value cs), rows, mc') \<and>
    reads_packet mc (row_bytes cs) rest mc'"
proof -
  note row = row_packet [OF assms(1,2)]
  obtain spare mc' where r: "readPacket mc = Inr (Inr (row_bytes cs, spare), mc')"
    and p: "reads_packet mc (row_bytes cs) rest mc'"
    using readPacket_reads [OF assms(5,6) row(1) assms(7)] by blast
  note reads_packet_keeps(1) [OF p]
  then show ?thesis
    using r p row assms(3,4) read_values_row [OF assms(2), of pdt "rows_columns rows" "[]" "[]" spare 0]
    by (auto simp: readRow_def)
qed

text \<open>The packet that ends the rows.\<close>

definition eof_packet :: "16 word \<Rightarrow> 16 word \<Rightarrow> bytes" where
  "eof_packet warnings status = iEOF # le_bytes 2 warnings @ le_bytes 2 status"

lemma readStatus_le: "readStatus (le_bytes 2 status @ rest) = Inr status"
proof -
  have "le_word (le_bytes 2 status) = status"
    using unsigned_less [of status, where 'a = nat] by (intro le_word_le_bytes_id) simp
  then show ?thesis by (simp add: readStatus_def numeral_2_eq_2)
qed

lemma readRow_eof:
  assumes "\<not> rows_done rows" "net_clean (conn_net mc)" "buffer_fits (conn_buf mc)"
    and "unread (conn_buf mc) (conn_net mc) = frames (conn_sequence mc) (eof_packet warnings status) @ rest"
  shows "\<exists>mc1. reads_packet mc (eof_packet warnings status) rest mc1 \<and>
    readRow pdt n rows mc =
      Inr (Inl EOF, rows\<lparr>rows_done := True,
        rows_open := rows_open rows \<and> status AND statusMoreResultsExists \<noteq> 0\<rparr>, mc1\<lparr>conn_status := status\<rparr>)"
proof -
  let ?p = "eof_packet warnings status"
  have p: "?p \<noteq> []" "?p ! 0 = iEOF" "length ?p = 5" "drop 3 ?p = le_bytes 2 status"
    by (simp_all add: eof_packet_def)
  obtain spare mc1 where r: "readPacket mc = Inr (Inr (?p, spare), mc1)" and "reads_packet mc ?p rest mc1"
    using readPacket_reads [OF assms(2,3) p(1) assms(4)] by blast
  moreover have "slice_rest (?p, spare) 3 = Inr (le_bytes 2 status, spare)"
    using p by (simp add: slice_rest_def slice_int_def)
  ultimately show ?thesis
    using p assms(1) readStatus_le [of status "[]"]
    by (auto simp: readRow_def has_more_results_def Let_def)
qed

subsection \<open>Reading the rows\<close>

text \<open>The packets of an answer with their sequence numbers.\<close>

fun packets :: "byte \<Rightarrow> bytes list \<Rightarrow> bytes" where
  "packets s [] = []"
| "packets s (p # ps) = frames s p @ packets (s + frame_count p) ps"

lemma packets_append: "packets s (ps @ qs) = packets s ps @ packets (s + (\<Sum>p \<leftarrow> ps. frame_count p)) qs"
  by (induction ps arbitrary: s) (simp_all add: add.assoc)

lemma readRow_left:
  assumes "readRow pdt n rows mc = Inr (Inr vs, rows', mc')" shows "left mc' < left mc"
proof -
  from assms obtain r mc1 where p: "readPacket mc = Inr (r, mc1)"
    by (auto simp: readRow_def go_bind_eq_Inr split: if_splits)
  show ?thesis
  proof (cases r)
    case (Inr data)
    with assms p have "mc' = mc1"
      by (auto simp: readRow_def go_bind_eq_Inr Let_def split: if_splits)
    with p Inr readPacket_left show ?thesis by blast
  qed (use assms p in \<open>auto simp: readRow_def split: if_splits\<close>)
qed

text \<open>As \<open>database/sql\<close> does: \<open>Next\<close> until it returns an error.\<close>

function fetch_rows ::
  "(bytes \<Rightarrow> driver_error + 'time) \<Rightarrow> nat \<Rightarrow> text_rows \<Rightarrow> 'key mysqlConn \<Rightarrow>
   ('time driver_value list list \<times> driver_error \<times> text_rows \<times> 'key mysqlConn) go"
where
  "fetch_rows pdt n rows mc =
     go_bind (readRow pdt n rows mc) (\<lambda>(r, rows, mc).
       case r of
         Inl e \<Rightarrow> Inr ([], e, rows, mc)
       | Inr vs \<Rightarrow> go_bind (fetch_rows pdt n rows mc) (\<lambda>(vss, rest). Inr (vs # vss, rest)))"
  by pat_completeness auto
termination
  by (relation "measure (\<lambda>(pdt, n, rows, mc). left mc)")
    (auto dest: readRow_left)

declare fetch_rows.simps [simp del]

text \<open>Calling \<open>Next\<close> until it gives an error takes at most \<open>k\<close> calls.\<close>

fun rows_end_within :: "(bytes \<Rightarrow> driver_error + 'time) \<Rightarrow> nat \<Rightarrow> nat \<Rightarrow> text_rows \<Rightarrow> 'key mysqlConn \<Rightarrow> bool" where
  "rows_end_within pdt n 0 rows mc \<longleftrightarrow> False"
| "rows_end_within pdt n (Suc k) rows mc \<longleftrightarrow>
     (case readRow pdt n rows mc of
        Inl p \<Rightarrow> True
      | Inr (r, rows, mc) \<Rightarrow> (case r of Inl e \<Rightarrow> True | Inr vs \<Rightarrow> rows_end_within pdt n k rows mc))"

lemma rows_end_left: "left mc < k \<Longrightarrow> rows_end_within pdt n k rows mc"
proof (induction k arbitrary: rows mc)
  case (Suc k)
  have "rows_end_within pdt n k rows' mc'" if "readRow pdt n rows mc = Inr (Inr vs, rows', mc')" for vs rows' mc'
    using readRow_left [OF that] Suc by (intro Suc.IH) simp
  then show ?case by (auto split: sum.splits)
qed simp

lemma fetch_rows_all:
  assumes "n \<noteq> 0" "\<And>cs. cs \<in> set rs \<Longrightarrow> length cs = n \<and> list_all column_fits cs"
    and "\<not> rows_done rows" "\<not> conn_parseTime mc"
    and "net_clean (conn_net mc)" "buffer_fits (conn_buf mc)"
    and "unread (conn_buf mc) (conn_net mc) =
      packets (conn_sequence mc) (map row_bytes rs @ [eof_packet warnings status]) @ rest"
  shows "\<exists>rows' mc'. fetch_rows pdt n rows mc = Inr (map (map column_value) rs, EOF, rows', mc') \<and>
    rows_done rows' \<and> conn_status mc' = status \<and> unread (conn_buf mc') (conn_net mc') = rest"
  using assms(2-)
proof (induction rs arbitrary: mc)
  case Nil
  then obtain mc1 where "reads_packet mc (eof_packet warnings status) rest mc1"
    "readRow pdt n rows mc =
      Inr (Inl EOF, rows\<lparr>rows_done := True,
        rows_open := rows_open rows \<and> status AND statusMoreResultsExists \<noteq> 0\<rparr>, mc1\<lparr>conn_status := status\<rparr>)"
    using readRow_eof [of rows mc warnings status rest pdt n] by auto
  then show ?case by (auto simp: fetch_rows.simps [of pdt n rows mc] reads_packet_def)
next
  case (Cons cs rs)
  have cs: "cs \<noteq> []" "list_all column_fits cs" "length cs = n"
    using Cons.prems(1) [of cs] assms(1) by auto
  obtain mc1 where r: "readRow pdt n rows mc = Inr (Inr (map column_value cs), rows, mc1)"
    and p: "reads_packet mc (row_bytes cs) (packets (conn_sequence mc + frame_count (row_bytes cs))
      (map row_bytes rs @ [eof_packet warnings status]) @ rest) mc1"
    using readRow_row [OF cs(1,2) Cons.prems(2-5), of _ pdt] Cons.prems(6) cs(3) by auto
  from reads_packet_keeps [OF p] p Cons.prems obtain rows' mc' where
    "fetch_rows pdt n rows mc1 = Inr (map (map column_value) rs, EOF, rows', mc')"
    "rows_done rows' \<and> conn_status mc' = status \<and> unread (conn_buf mc') (conn_net mc') = rest"
    using Cons.IH [of mc1] by (auto simp: reads_packet_def)
  with r show ?case by (auto simp: fetch_rows.simps [of pdt n rows mc])
qed

end
