(* ===== verification/DriverColumns.thy ===== *)
theory DriverColumns
  imports DriverRows
begin

text \<open>
  The column definitions of an answer, as the server encodes them: \<open>readColumns\<close> reads them back,
  and a definition more than announced is written behind the end of the slice of columns.
\<close>

record column_def =
  cd_catalog :: bytes
  cd_schema :: bytes
  cd_table :: bytes
  cd_org_table :: bytes
  cd_name :: bytes
  cd_org_name :: bytes
  cd_charset :: "16 word"
  cd_length :: "32 word"
  cd_type :: byte
  cd_flags :: "16 word"
  cd_decimals :: byte

definition column_strings :: "column_def \<Rightarrow> bytes list" where
  "column_strings c = [cd_catalog c, cd_schema c, cd_table c, cd_org_table c, cd_name c, cd_org_name c]"

definition column_tail :: "column_def \<Rightarrow> bytes" where
  "column_tail c = 0x0c # le_bytes 2 (cd_charset c) @ le_bytes 4 (cd_length c) @ [cd_type c] @
     le_bytes 2 (cd_flags c) @ [cd_decimals c, 0, 0]"

definition column_packet :: "column_def \<Rightarrow> bytes" where
  "column_packet c = concat (map les (column_strings c)) @ column_tail c"

definition column_ok :: "column_def \<Rightarrow> bool" where
  "column_ok c \<longleftrightarrow> (\<forall>v \<in> set (column_strings c). length v + 9 < 2 ^ 63)"

definition field_of :: "bool \<Rightarrow> column_def \<Rightarrow> mysqlField \<Rightarrow> mysqlField" where
  "field_of aliased c f =
     (if aliased then f\<lparr>fd_tableName := cd_table c\<rparr> else f)
       \<lparr>fd_name := cd_name c, fd_charSet := ucast (cd_charset c), fd_length := cd_length c,
        fd_fieldType := cd_type c, fd_flags := cd_flags c, fd_decimals := cd_decimals c\<rparr>"

lemma skip_at_les:
  "length v + 9 < 2 ^ 63 \<Longrightarrow> data = pre @ les v @ rest \<Longrightarrow> pos = int (length pre) \<Longrightarrow>
   skip_at (data, spare) pos f = f (pos + int (length (les v)))"
  by (simp add: skip_at_def slice_rest_append skip_les)

lemma read_at_les:
  "length v + 9 < 2 ^ 63 \<Longrightarrow> data = pre @ les v @ rest \<Longrightarrow> pos = int (length pre) \<Longrightarrow>
   read_at (data, spare) pos f = f v False (pos + int (length (les v)))"
  by (simp add: read_at_def slice_rest_append read_les)

lemma le_uint16_le_bytes: "le_uint16 (le_bytes 2 w @ rest) = Inr w"
proof -
  have "le_word (le_bytes 2 w) = w"
    using unsigned_less [of w, where 'a = nat] by (intro le_word_le_bytes_id) simp
  then show ?thesis by (simp add: le_uint16_eq)
qed

lemma le_uint32_le_bytes: "le_uint32 (le_bytes 4 w @ rest) = Inr w"
proof -
  have "le_word (le_bytes 4 w) = w"
    using unsigned_less [of w, where 'a = nat] by (intro le_word_le_bytes_id) simp
  then show ?thesis by (simp add: le_uint32_eq)
qed

lemma column_fixed_tail:
  assumes "data = pre @ column_tail c" "pos = int (length pre) + 1"
  shows "column_fixed (data, spare) pos f =
    Inr (f\<lparr>fd_charSet := ucast (cd_charset c), fd_length := cd_length c, fd_fieldType := cd_type c,
      fd_flags := cd_flags c, fd_decimals := cd_decimals c\<rparr>)"
proof -
  have l: "length data = length pre + 13" using assms(1) by (simp add: column_tail_def)
  have drops: "drop (length pre + 1) data = le_bytes 2 (cd_charset c) @ le_bytes 4 (cd_length c) @ [cd_type c] @
      le_bytes 2 (cd_flags c) @ [cd_decimals c, 0, 0]"
    using assms(1) by (simp add: column_tail_def)
  have nth: "data ! (length pre + 1 + k) = drop (length pre + 1) data ! k" for k
    using l by (simp add: add.assoc)
  have len: "slice_int (data, spare) (pos + 2) (pos + 6) = Inr (le_bytes 4 (cd_length c), drop (7 + length pre) data @ spare)"
  proof -
    have "drop (3 + length pre) data = le_bytes 4 (cd_length c) @ [cd_type c] @ le_bytes 2 (cd_flags c) @ [cd_decimals c, 0, 0]"
      using assms(1) by (simp add: column_tail_def)
    then show ?thesis using l assms(2) by (simp add: slice_int_def nat_add_distrib Let_def)
  qed
  have flags: "slice_int (data, spare) (pos + 7) (pos + 9) = Inr (le_bytes 2 (cd_flags c), drop (10 + length pre) data @ spare)"
  proof -
    have "drop (8 + length pre) data = le_bytes 2 (cd_flags c) @ [cd_decimals c, 0, 0]"
      using assms(1) by (simp add: column_tail_def)
    then show ?thesis using l assms(2) by (simp add: slice_int_def nat_add_distrib Let_def)
  qed
  have pos: "nat pos = length pre + 1 + 0" "nat (pos + 6) = length pre + 1 + 6" "nat (pos + 9) = length pre + 1 + 9"
    using assms(2) by simp_all
  have at: "go_at data (nat pos) = Inr (ucast (cd_charset c))" "go_at data (nat (pos + 6)) = Inr (cd_type c)"
    "go_at data (nat (pos + 9)) = Inr (cd_decimals c)"
    unfolding pos using l by (simp_all only: go_at_in_range nth drops) (simp_all add: nth_append numeral_2_eq_2)
  show ?thesis
    using at len flags le_uint16_le_bytes [of "cd_flags c" "[]"] le_uint32_le_bytes [of "cd_length c" "[]"]
    by (simp add: column_fixed_def)
qed

lemma read_column_packet:
  assumes "column_ok c"
  shows "read_column aliased (column_packet c, spare) i columns =
    (if i < length columns then Inr (Inr (columns[i := field_of aliased c (columns ! i)]))
     else Inl IndexOutOfRange)"
proof -
  obtain s1 s2 s3 s4 s5 s6 where s: "cd_catalog c = s1" "cd_schema c = s2" "cd_table c = s3"
    "cd_org_table c = s4" "cd_name c = s5" "cd_org_name c = s6" by blast
  have fits: "length s1 + 9 < 2 ^ 63" "length s2 + 9 < 2 ^ 63" "length s3 + 9 < 2 ^ 63"
    "length s4 + 9 < 2 ^ 63" "length s5 + 9 < 2 ^ 63" "length s6 + 9 < 2 ^ 63"
    using assms s by (auto simp: column_ok_def column_strings_def)
  define D where "D = column_packet c"
  let ?t = "column_tail c"
  have d: "D = les s1 @ les s2 @ les s3 @ les s4 @ les s5 @ les s6 @ ?t"
    by (simp add: D_def column_packet_def column_strings_def s)
  then have d3: "D = (les s1 @ les s2) @ les s3 @ les s4 @ les s5 @ les s6 @ ?t"
    and d4: "D = (les s1 @ les s2 @ les s3) @ les s4 @ les s5 @ les s6 @ ?t"
    and d5: "D = (les s1 @ les s2 @ les s3 @ les s4) @ les s5 @ les s6 @ ?t"
    and d6: "D = (les s1 @ les s2 @ les s3 @ les s4 @ les s5) @ les s6 @ ?t"
    and dt: "D = (les s1 @ les s2 @ les s3 @ les s4 @ les s5 @ les s6) @ ?t"
    by simp_all
  note steps = skip_at_les [OF fits(2) d] read_at_les [OF fits(3) d3] skip_at_les [OF fits(3) d3]
    skip_at_les [OF fits(4) d4] read_at_les [OF fits(5) d5] skip_at_les [OF fits(6) d6]
    column_fixed_tail [OF dt]
  have first: "skipLengthEncodedString D = Inr (Inr (int (length (les s1))))"
    unfolding d by (rule skip_les [OF fits(1)])
  show ?thesis
    by (simp add: read_column_def first steps store_column_def field_of_def s go_at_def flip: D_def)
qed

lemma column_packet_head:
  assumes "column_ok c"
  shows "column_packet c \<noteq> []" "12 < length (column_packet c)" "column_packet c ! 0 \<noteq> iERR"
proof -
  have p: "column_packet c = lei (word_of_nat (length (cd_catalog c))) @
      (cd_catalog c @ concat (map les (tl (column_strings c))) @ column_tail c)"
    by (simp add: column_packet_def column_strings_def les_def)
  then show "column_packet c \<noteq> []" by (simp add: lei_head(1))
  show "12 < length (column_packet c)" by (simp add: column_packet_def column_tail_def)
  show "column_packet c ! 0 \<noteq> iERR"
    unfolding p using lei_head(1,3) by (simp add: nth_append hd_conv_nth iERR_def)
qed

subsection \<open>Reading all of them\<close>

lemma readColumns_loop_step:
  assumes "column_ok c" "i < length columns" "net_clean (conn_net mc)" "buffer_fits (conn_buf mc)"
    and "unread (conn_buf mc) (conn_net mc) = frames (conn_sequence mc) (column_packet c) @ rest"
  shows "\<exists>mc'. readColumns_loop count i columns mc =
      readColumns_loop count (i + 1)
        (columns[i := field_of (cf_ColumnsWithAlias (conn_cfg mc)) c (columns ! i)]) mc' \<and>
    reads_packet mc (column_packet c) rest mc'"
proof -
  let ?aliased = "cf_ColumnsWithAlias (conn_cfg mc)"
  note head = column_packet_head [OF assms(1)]
  obtain spare mc1 where r: "readPacket mc = Inr (Inr (column_packet c, spare), mc1)"
    and rp: "reads_packet mc (column_packet c) rest mc1"
    using readPacket_reads [OF assms(3,4) head(1) assms(5)] by blast
  note k = reads_packet_keeps(2) [OF rp]
  show ?thesis
    using r rp k head assms(2) read_column_packet [OF assms(1), of ?aliased spare i columns]
    by (auto simp: readColumns_loop.simps [of count i columns mc])
qed

lemma readColumns_loop_reads:
  assumes "list_all column_ok cs" "length columns = count" "i + length cs = count"
    and "net_clean (conn_net mc)" "buffer_fits (conn_buf mc)"
    and "unread (conn_buf mc) (conn_net mc) =
      packets (conn_sequence mc) (map column_packet cs @ [eof_packet warnings status]) @ rest"
  shows "\<exists>mc'. readColumns_loop count i columns mc =
      Inr (Inr (take i columns @
        map2 (field_of (cf_ColumnsWithAlias (conn_cfg mc))) cs (drop i columns)), mc') \<and>
    net_clean (conn_net mc') \<and> buffer_fits (conn_buf mc') \<and> unread (conn_buf mc') (conn_net mc') = rest \<and>
    conn_sequence mc' = conn_sequence mc + (\<Sum>c \<leftarrow> cs. frame_count (column_packet c)) + 1 \<and>
    conn_cfg mc' = conn_cfg mc \<and> conn_parseTime mc' = conn_parseTime mc \<and>
    net_out (conn_net mc') = net_out (conn_net mc)"
  using assms
proof (induction cs arbitrary: i columns mc)
  case Nil
  let ?p = "eof_packet warnings status"
  have p: "?p \<noteq> []" "?p ! 0 = iEOF" "length ?p = 5" by (simp_all add: eof_packet_def)
  obtain spare mc1 where r: "readPacket mc = Inr (Inr (?p, spare), mc1)" and rp: "reads_packet mc ?p rest mc1"
    using readPacket_reads [OF Nil.prems(4,5) p(1)] Nil.prems(6) by auto
  have "frame_count ?p = 1" using p by (intro frame_count_short) (simp add: maxPacketSize_eq)
  moreover have "readColumns_loop count i columns mc = Inr (Inr columns, mc1)"
    unfolding readColumns_loop.simps [of count i columns mc] using r p Nil.prems(3) by simp
  ultimately show ?case
    using rp Nil.prems(2,3) reads_packet_keeps [OF rp] unfolding reads_packet_def
    by (intro exI [of _ mc1]) simp
next
  case (Cons c cs)
  let ?aliased = "cf_ColumnsWithAlias (conn_cfg mc)"
  let ?columns = "columns[i := field_of ?aliased c (columns ! i)]"
  have i: "i < length columns" using Cons.prems(2,3) by simp
  obtain mc1 where step: "readColumns_loop count i columns mc = readColumns_loop count (i + 1) ?columns mc1"
    and rp: "reads_packet mc (column_packet c) (packets (conn_sequence mc + frame_count (column_packet c))
      (map column_packet cs @ [eof_packet warnings status]) @ rest) mc1"
    using readColumns_loop_step [OF _ i Cons.prems(4,5), of c] Cons.prems(1,6) by fastforce
  note k = reads_packet_keeps [OF rp]
  have "take (i + 1) ?columns @ map2 (field_of ?aliased) cs (drop (i + 1) ?columns) =
      take i columns @ map2 (field_of ?aliased) (c # cs) (drop i columns)"
    using i by (simp add: take_Suc_conv_app_nth Cons_nth_drop_Suc [symmetric])
  moreover have "net_clean (conn_net mc1)" "buffer_fits (conn_buf mc1)"
    "unread (conn_buf mc1) (conn_net mc1) = packets (conn_sequence mc1)
      (map column_packet cs @ [eof_packet warnings status]) @ rest"
    using rp k by (simp_all add: reads_packet_def)
  ultimately show ?case
    using Cons.IH [of ?columns "i + 1" mc1] Cons.prems k step by (auto simp: add.assoc)
qed

lemma readColumns_reads:
  assumes "list_all column_ok cs" "net_clean (conn_net mc)" "buffer_fits (conn_buf mc)"
    and "unread (conn_buf mc) (conn_net mc) =
      packets (conn_sequence mc) (map column_packet cs @ [eof_packet warnings status]) @ rest"
  shows "\<exists>mc'. readColumns (int (length cs)) mc =
      Inr (Inr (map (\<lambda>c. field_of (cf_ColumnsWithAlias (conn_cfg mc)) c mysqlField_zero) cs), mc') \<and>
    net_clean (conn_net mc') \<and> buffer_fits (conn_buf mc') \<and> unread (conn_buf mc') (conn_net mc') = rest \<and>
    conn_sequence mc' = conn_sequence mc + (\<Sum>c \<leftarrow> cs. frame_count (column_packet c)) + 1 \<and>
    conn_cfg mc' = conn_cfg mc \<and> conn_parseTime mc' = conn_parseTime mc \<and>
    net_out (conn_net mc') = net_out (conn_net mc)"
proof -
  have "map2 f cs (replicate (length cs) z) = map (\<lambda>c. f c z) cs" for f :: "column_def \<Rightarrow> mysqlField \<Rightarrow> mysqlField" and z
    by (induction cs) simp_all
  with readColumns_loop_reads [OF assms(1) _ _ assms(2-), of "replicate (length cs) mysqlField_zero" "length cs" 0]
  show ?thesis by (simp add: readColumns_def)
qed

text \<open>A definition more than the header announced.\<close>

lemma extra_column_panics:
  assumes "list_all column_ok cs" "length columns < i + length cs" "i \<le> length columns"
    and "net_clean (conn_net mc)" "buffer_fits (conn_buf mc)"
    and "unread (conn_buf mc) (conn_net mc) = packets (conn_sequence mc) (map column_packet cs) @ rest"
  shows "readColumns_loop count i columns mc = Inl IndexOutOfRange"
  using assms
proof (induction cs arbitrary: i columns mc)
  case (Cons c cs)
  have c: "column_ok c" "unread (conn_buf mc) (conn_net mc) = frames (conn_sequence mc) (column_packet c) @
      packets (conn_sequence mc + frame_count (column_packet c)) (map column_packet cs) @ rest"
    using Cons.prems(1,6) by simp_all
  show ?case
  proof (cases "i < length columns")
    case True
    then obtain mc1 where step: "readColumns_loop count i columns mc = readColumns_loop count (i + 1)
        (columns[i := field_of (cf_ColumnsWithAlias (conn_cfg mc)) c (columns ! i)]) mc1"
      and rp: "reads_packet mc (column_packet c)
        (packets (conn_sequence mc + frame_count (column_packet c)) (map column_packet cs) @ rest) mc1"
      using readColumns_loop_step [OF c(1) _ Cons.prems(4,5) c(2)] by blast
    note k = reads_packet_keeps [OF rp]
    have "readColumns_loop count (i + 1)
        (columns[i := field_of (cf_ColumnsWithAlias (conn_cfg mc)) c (columns ! i)]) mc1 = Inl IndexOutOfRange"
      using Cons.prems(1,2) True rp k by (intro Cons.IH) (simp_all add: reads_packet_def)
    with step show ?thesis by simp
  next
    case False
    note head = column_packet_head [OF c(1)]
    obtain spare mc1 where "readPacket mc = Inr (Inr (column_packet c, spare), mc1)"
      using readPacket_reads [OF Cons.prems(4,5) head(1) c(2)] by blast
    with False show ?thesis
      using head read_column_packet [OF c(1), of _ spare i columns]
      by (simp add: readColumns_loop.simps [of count i columns mc])
  qed
qed simp

end
