(* ===== verification/DriverEscape.thy ===== *)
theory DriverEscape
  imports DriverUtils
begin

text \<open>
  \<open>go-sql-driver/mysql/utils.go\<close>: the escaping of string literals, over bytes and over strings,
  with backslashes and (under NO_BACKSLASH_ESCAPES) by doubling apostrophes; a specification lexer
  that reads a literal as the server does, and that an escaped value reads back as itself.
\<close>

subsection \<open>Escaping\<close>

definition reserveBuffer :: "bytes \<Rightarrow> bytes \<Rightarrow> nat \<Rightarrow> bytes" where
  "reserveBuffer buf spare appendSize =
     (let newSize = length buf + appendSize in
      take newSize
        (if length (buf @ spare) < newSize
         then buf @ replicate (length buf * 2 + appendSize - length buf) 0
         else buf @ spare))"

definition escape_code :: "byte \<Rightarrow> byte option" where
  "escape_code c =
     (if c = 0 then Some 0x30              \<comment> \<open>\<open>0\<close>\<close>
      else if c = 0x0A then Some 0x6E      \<comment> \<open>\<open>n\<close>\<close>
      else if c = 0x0D then Some 0x72      \<comment> \<open>\<open>r\<close>\<close>
      else if c = 0x1A then Some 0x5A      \<comment> \<open>\<open>Z\<close>\<close>
      else if c = 0x27 then Some 0x27
      else if c = 0x22 then Some 0x22
      else if c = 0x5C then Some 0x5C
      else None)"

fun escape_backslash_loop :: "bytes \<Rightarrow> nat \<Rightarrow> bytes \<Rightarrow> (bytes \<times> nat) go" where
  "escape_backslash_loop buf pos [] = Inr (buf, pos)"
| "escape_backslash_loop buf pos (c # v) =
     (case escape_code c of
        Some e \<Rightarrow>
          go_bind (go_store buf (int pos) 0x5C) (\<lambda>buf.
          go_bind (go_store buf (int (pos + 1)) e) (\<lambda>buf. escape_backslash_loop buf (pos + 2) v))
      | None \<Rightarrow> go_bind (go_store buf (int pos) c) (\<lambda>buf. escape_backslash_loop buf (pos + 1) v))"

definition escapeBytesBackslash :: "bytes \<Rightarrow> bytes \<Rightarrow> bytes \<Rightarrow> bytes go" where
  "escapeBytesBackslash buf spare v =
     go_bind (escape_backslash_loop (reserveBuffer buf spare (length v * 2)) (length buf) v)
       (\<lambda>(buf, pos). go_slice buf 0 pos)"

text \<open>The same over the indices of a string.\<close>

function escape_string_loop :: "bytes \<Rightarrow> nat \<Rightarrow> string \<Rightarrow> nat \<Rightarrow> (bytes \<times> nat) go" where
  "escape_string_loop buf pos v i =
     (if i < length v then
        let c = word_of_nat (of_char (v ! i)) in
        case escape_code c of
          Some e \<Rightarrow>
            go_bind (go_store buf (int pos) 0x5C) (\<lambda>buf.
            go_bind (go_store buf (int (pos + 1)) e) (\<lambda>buf. escape_string_loop buf (pos + 2) v (i + 1)))
        | None \<Rightarrow> go_bind (go_store buf (int pos) c) (\<lambda>buf. escape_string_loop buf (pos + 1) v (i + 1))
      else Inr (buf, pos))"
  by pat_completeness auto
termination
  by (relation "measure (\<lambda>(buf, pos, v, i). length v - i)") auto

declare escape_string_loop.simps [simp del]

definition escapeStringBackslash :: "bytes \<Rightarrow> bytes \<Rightarrow> string \<Rightarrow> bytes go" where
  "escapeStringBackslash buf spare v =
     go_bind (escape_string_loop (reserveBuffer buf spare (length v * 2)) (length buf) v 0)
       (\<lambda>(buf, pos). go_slice buf 0 pos)"

fun escape_quotes_loop :: "bytes \<Rightarrow> nat \<Rightarrow> bytes \<Rightarrow> (bytes \<times> nat) go" where
  "escape_quotes_loop buf pos [] = Inr (buf, pos)"
| "escape_quotes_loop buf pos (c # v) =
     (if c = 0x27 then
        go_bind (go_store buf (int pos) 0x27) (\<lambda>buf.
        go_bind (go_store buf (int (pos + 1)) 0x27) (\<lambda>buf. escape_quotes_loop buf (pos + 2) v))
      else go_bind (go_store buf (int pos) c) (\<lambda>buf. escape_quotes_loop buf (pos + 1) v))"

definition escapeBytesQuotes :: "bytes \<Rightarrow> bytes \<Rightarrow> bytes \<Rightarrow> bytes go" where
  "escapeBytesQuotes buf spare v =
     go_bind (escape_quotes_loop (reserveBuffer buf spare (length v * 2)) (length buf) v)
       (\<lambda>(buf, pos). go_slice buf 0 pos)"

function escape_string_quotes_loop :: "bytes \<Rightarrow> nat \<Rightarrow> string \<Rightarrow> nat \<Rightarrow> (bytes \<times> nat) go" where
  "escape_string_quotes_loop buf pos v i =
     (if i < length v then
        let c = word_of_nat (of_char (v ! i)) in
        if c = 0x27 then
          go_bind (go_store buf (int pos) 0x27) (\<lambda>buf.
          go_bind (go_store buf (int (pos + 1)) 0x27) (\<lambda>buf.
            escape_string_quotes_loop buf (pos + 2) v (i + 1)))
        else go_bind (go_store buf (int pos) c) (\<lambda>buf. escape_string_quotes_loop buf (pos + 1) v (i + 1))
      else Inr (buf, pos))"
  by pat_completeness auto
termination
  by (relation "measure (\<lambda>(buf, pos, v, i). length v - i)") auto

declare escape_string_quotes_loop.simps [simp del]

definition escapeStringQuotes :: "bytes \<Rightarrow> bytes \<Rightarrow> string \<Rightarrow> bytes go" where
  "escapeStringQuotes buf spare v =
     go_bind (escape_string_quotes_loop (reserveBuffer buf spare (length v * 2)) (length buf) v 0)
       (\<lambda>(buf, pos). go_slice buf 0 pos)"

subsection \<open>The loops append the escaped bytes\<close>

definition escaped_backslash :: "bytes \<Rightarrow> bytes" where
  "escaped_backslash v = concat (map (\<lambda>c. case escape_code c of Some e \<Rightarrow> [0x5C, e] | None \<Rightarrow> [c]) v)"

definition escaped_quotes :: "bytes \<Rightarrow> bytes" where
  "escaped_quotes v = concat (map (\<lambda>c. if c = 0x27 then [0x27, 0x27] else [c]) v)"

lemma length_escaped:
  "length (escaped_backslash v) \<le> 2 * length v" "length (escaped_quotes v) \<le> 2 * length v"
  by (induction v) (auto simp: escaped_backslash_def escaped_quotes_def split: option.split)

text \<open>Every loop stores its escaped bytes one after the other.\<close>

fun store_all :: "bytes \<Rightarrow> nat \<Rightarrow> bytes \<Rightarrow> (bytes \<times> nat) go" where
  "store_all buf pos [] = Inr (buf, pos)"
| "store_all buf pos (c # cs) =
     go_bind (go_store buf (int pos) c) (\<lambda>buf. store_all buf (pos + 1) cs)"

lemma store_all_fits:
  "pos + length cs \<le> length buf \<Longrightarrow>
   store_all buf pos cs =
     Inr (take pos buf @ cs @ drop (pos + length cs) buf, pos + length cs)"
proof (induction cs arbitrary: buf pos)
  case (Cons c cs)
  then have "go_store buf (int pos) c = Inr (take pos buf @ c # drop (Suc pos) buf)"
    by (simp add: go_store_def upd_conv_take_nth_drop)
  with Cons show ?case by (simp add: ac_simps)
qed simp

lemma escape_backslash_loop_stores:
  "escape_backslash_loop buf pos v = store_all buf pos (escaped_backslash v)"
  by (induction v arbitrary: buf pos)
    (auto simp: escaped_backslash_def split: option.split intro!: go_bind_cong)

lemma escape_quotes_loop_stores: "escape_quotes_loop buf pos v = store_all buf pos (escaped_quotes v)"
  by (induction v arbitrary: buf pos) (auto simp: escaped_quotes_def intro!: go_bind_cong)

lemma drop_bytes_Cons:
  "i < length v \<Longrightarrow> bytes_of_string (drop i v) = word_of_nat (of_char (v ! i)) # bytes_of_string (drop (Suc i) v)"
  by (simp add: bytes_of_string_def Cons_nth_drop_Suc [symmetric])

lemma escape_string_loop_bytes:
  "escape_string_loop buf pos v i = escape_backslash_loop buf pos (bytes_of_string (drop i v))"
proof (induction buf pos v i rule: escape_string_loop.induct)
  case (1 buf pos v i)
  then show ?case
    by (cases "i < length v")
      (auto simp: escape_string_loop.simps [of buf pos v i] drop_bytes_Cons Let_def bytes_of_string_def [of "[]"]
        split: option.split intro!: go_bind_cong)
qed

lemma escape_string_quotes_loop_bytes:
  "escape_string_quotes_loop buf pos v i = escape_quotes_loop buf pos (bytes_of_string (drop i v))"
proof (induction buf pos v i rule: escape_string_quotes_loop.induct)
  case (1 buf pos v i)
  then show ?case
    by (cases "i < length v")
      (auto simp: escape_string_quotes_loop.simps [of buf pos v i] drop_bytes_Cons Let_def
        bytes_of_string_def [of "[]"] intro!: go_bind_cong)
qed

lemma length_reserveBuffer [simp]: "length (reserveBuffer buf spare n) = length buf + n"
  by (auto simp: reserveBuffer_def Let_def)

lemma take_reserveBuffer [simp]: "take (length buf) (reserveBuffer buf spare n) = buf"
  by (auto simp: reserveBuffer_def Let_def)

text \<open>
  Whatever the capacity of the buffer, the two bytes reserved per byte are enough: nothing is
  stored out of range, and the result is the buffer followed by the escaped value.
\<close>

lemma escape_appends:
  "escapeBytesBackslash buf spare v = Inr (buf @ escaped_backslash v)"
  "escapeBytesQuotes buf spare v = Inr (buf @ escaped_quotes v)"
  "escapeStringBackslash buf spare s = Inr (buf @ escaped_backslash (bytes_of_string s))"
  "escapeStringQuotes buf spare s = Inr (buf @ escaped_quotes (bytes_of_string s))"
proof -
  have fits: "length cs \<le> 2 * n \<Longrightarrow>
      go_bind (store_all (reserveBuffer buf spare (n * 2)) (length buf) cs)
        (\<lambda>(buf, pos). go_slice buf 0 pos) = Inr (buf @ cs)" for n and cs :: bytes
    by (subst store_all_fits) simp_all
  have "length (bytes_of_string s) = length s" by (simp add: bytes_of_string_def)
  with length_escaped(1) [of "bytes_of_string s"] length_escaped(2) [of "bytes_of_string s"]
    length_escaped(1) [of v] length_escaped(2) [of v]
  show "escapeBytesBackslash buf spare v = Inr (buf @ escaped_backslash v)"
    "escapeBytesQuotes buf spare v = Inr (buf @ escaped_quotes v)"
    "escapeStringBackslash buf spare s = Inr (buf @ escaped_backslash (bytes_of_string s))"
    "escapeStringQuotes buf spare s = Inr (buf @ escaped_quotes (bytes_of_string s))"
    by (simp_all add: escapeBytesBackslash_def escapeBytesQuotes_def escapeStringBackslash_def
        escapeStringQuotes_def escape_string_loop_bytes escape_string_quotes_loop_bytes
        escape_backslash_loop_stores escape_quotes_loop_stores fits)
qed

subsection \<open>Reading a literal back\<close>

text \<open>
  The server's reading of a string literal after its opening apostrophe: the value up to the
  closing apostrophe, and the text behind it. With backslash escapes, \<open>\<setminus>0 \<setminus>n \<setminus>r \<setminus>Z\<close> stand for control
  characters and any other escaped character for itself; two apostrophes stand for one.
\<close>

definition unescape :: "byte \<Rightarrow> byte" where
  "unescape e =
     (if e = 0x30 then 0 else if e = 0x6E then 0x0A else if e = 0x72 then 0x0D
      else if e = 0x5A then 0x1A else e)"

fun lex_literal :: "bool \<Rightarrow> bytes \<Rightarrow> (bytes \<times> bytes) option" where
  "lex_literal backslashes [] = None"
| "lex_literal backslashes [c] = (if c = 0x27 then Some ([], []) else None)"
| "lex_literal backslashes (c # d # s) =
     (if backslashes \<and> c = 0x5C then map_option (\<lambda>(v, r). (unescape d # v, r)) (lex_literal backslashes s)
      else if c = 0x27 then
        if d = 0x27 then map_option (\<lambda>(v, r). (0x27 # v, r)) (lex_literal backslashes s)
        else Some ([], d # s)
      else map_option (\<lambda>(v, r). (c # v, r)) (lex_literal backslashes (d # s)))"

lemma unescape_escape: "escape_code c = Some e \<Longrightarrow> unescape e = c"
  by (auto simp: escape_code_def unescape_def split: if_splits)

lemma lex_closing: "take 1 rest \<noteq> [0x27] \<Longrightarrow> lex_literal b (0x27 # rest) = Some ([], rest)"
  by (cases rest) auto

lemma lex_plain:
  "c \<noteq> 0x27 \<Longrightarrow> \<not> (b \<and> c = 0x5C) \<Longrightarrow> s \<noteq> [] \<Longrightarrow>
   lex_literal b (c # s) = map_option (\<lambda>(v, r). (c # v, r)) (lex_literal b s)"
  by (cases s) auto

lemma lex_escaped:
  assumes "take 1 rest \<noteq> [0x27]"
  shows "lex_literal True (escaped_backslash v @ 0x27 # rest) = Some (v, rest)"
    and "lex_literal False (escaped_quotes v @ 0x27 # rest) = Some (v, rest)"
proof -
  show "lex_literal True (escaped_backslash v @ 0x27 # rest) = Some (v, rest)"
  proof (induction v)
    case Nil
    with assms show ?case by (simp add: escaped_backslash_def lex_closing)
  next
    case (Cons c v)
    then show ?case
    proof (cases "escape_code c")
      case None
      then have "c \<noteq> 0x27" "c \<noteq> 0x5C" by (auto simp: escape_code_def split: if_splits)
      with None Cons show ?thesis
        by (simp add: escaped_backslash_def lex_plain)
    qed (simp add: escaped_backslash_def unescape_escape)
  qed
  show "lex_literal False (escaped_quotes v @ 0x27 # rest) = Some (v, rest)"
  proof (induction v)
    case Nil
    with assms show ?case by (simp add: escaped_quotes_def lex_closing)
  next
    case (Cons c v)
    then show ?case
      by (cases "c = 0x27") (simp_all add: escaped_quotes_def lex_plain)
  qed
qed

end
