(* ===== verification/DriverDates.thy ===== *)
theory DriverDates
  imports DriverUtils
begin

text \<open>
  \<open>go-sql-driver/mysql/utils.go\<close>: the text of a binary DATE, DATETIME, TIMESTAMP or TIME value.
\<close>

definition zeroDateTime :: bytes where
  "zeroDateTime = bytes_of_string ''0000-00-00 00:00:00.000000''"

text \<open>The last and the first digit of the numbers from 0 to 99, as two literals of 100 characters.\<close>

definition digits01 :: bytes where
  "digits01 = map (\<lambda>n. word_of_nat (n mod 10 + 48)) [0..<100]"

definition digits10 :: bytes where
  "digits10 = map (\<lambda>n. word_of_nat (n div 10 + 48)) [0..<100]"

definition digit_pair :: "byte \<Rightarrow> bytes go" where
  "digit_pair p = go_bind (go_at digits10 (unat p)) (\<lambda>a. go_bind (go_at digits01 (unat p)) (\<lambda>b. Inr [a, b]))"

definition illegal_length :: "string \<Rightarrow> nat \<Rightarrow> string" where
  "illegal_length what n = what @ strconv_Itoa (int n)"

text \<open>After the hour: \<open>p1\<close> is the hour, \<open>src\<close> starts with the minute.\<close>

definition format_fraction :: "bytes \<Rightarrow> byte \<Rightarrow> bytes \<Rightarrow> bytes go" where
  "format_fraction dst decimals src =
     go_bind (go_slice src 0 4) (\<lambda>s. go_bind (le_uint32 s) (\<lambda>microsecs.
       let p1 = ucast (microsecs div 10000) :: byte;
           microsecs = microsecs - 10000 * ucast p1;
           p2 = ucast (microsecs div 100) :: byte;
           microsecs = microsecs - 100 * ucast p2;
           p3 = ucast microsecs :: byte
       in
         if decimals = 1 then
           go_bind (go_at digits10 (unat p1)) (\<lambda>a. Inr (dst @ [0x2E, a]))
         else if decimals = 2 then
           go_bind (digit_pair p1) (\<lambda>a. Inr (dst @ 0x2E # a))
         else if decimals = 3 then
           go_bind (digit_pair p1) (\<lambda>a. go_bind (go_at digits10 (unat p2)) (\<lambda>b. Inr (dst @ 0x2E # a @ [b])))
         else if decimals = 4 then
           go_bind (digit_pair p1) (\<lambda>a. go_bind (digit_pair p2) (\<lambda>b. Inr (dst @ 0x2E # a @ b)))
         else if decimals = 5 then
           go_bind (digit_pair p1) (\<lambda>a. go_bind (digit_pair p2) (\<lambda>b. go_bind (go_at digits10 (unat p3)) (\<lambda>c.
             Inr (dst @ 0x2E # a @ b @ [c]))))
         else
           go_bind (digit_pair p1) (\<lambda>a. go_bind (digit_pair p2) (\<lambda>b. go_bind (digit_pair p3) (\<lambda>c.
             Inr (dst @ 0x2E # a @ b @ c))))))"

definition format_clock :: "bytes \<Rightarrow> byte \<Rightarrow> byte \<Rightarrow> bytes \<Rightarrow> byte \<Rightarrow> bytes go" where
  "format_clock dst p1 zOffs src len =
     go_bind (go_at src 0) (\<lambda>p2. go_bind (go_at src 1) (\<lambda>p3.
     go_bind (digit_pair p1) (\<lambda>a. go_bind (digit_pair p2) (\<lambda>b. go_bind (digit_pair p3) (\<lambda>c.
       let dst = dst @ a @ 0x3A # b @ 0x3A # c in
       if len \<le> word_of_nat (length dst) then Inr dst
       else
         go_bind (go_slice_from src 2) (\<lambda>src.
           if src = [] then go_bind (go_slice zeroDateTime 19 (unat (zOffs + len))) (\<lambda>z. Inr (dst @ z))
           else format_fraction dst (zOffs + len - 20) src))))))"

definition format_time :: "bytes \<Rightarrow> byte \<Rightarrow> bytes or_err go" where
  "format_time src len =
     (if len \<notin> set [8, 10, 11, 12, 13, 14, 15]
      then Inr (Inl (illegal_length ''illegal TIME length '' (unat len)))
      else if length src \<notin> set [8, 12]
      then Inr (Inl (illegal_length ''invalid TIME packet length '' (length src)))
      else
        go_bind (go_at src 0) (\<lambda>s0. go_bind (go_at src 1) (\<lambda>s1. go_bind (go_at src 5) (\<lambda>s5.
          let dst = (if s0 = 1 then [0x2D] else []) in
          go_bind
            (if s1 \<noteq> 0
             then
               let hour = ucast s1 * 24 + ucast s5 :: 16 word;
                   pt = ucast (hour div 100) :: byte;
                   p1 = ucast (hour - 100 * ucast pt) :: byte
               in go_bind (go_at digits01 (unat pt)) (\<lambda>d. Inr (dst @ [d], p1))
             else Inr (dst, s5)) (\<lambda>(dst, p1).
          go_bind (go_slice_from src 6) (\<lambda>src.
          go_bind (format_clock dst p1 11 src len) (\<lambda>v. Inr (Inr v))))))))"

definition format_date_time :: "bytes \<Rightarrow> byte \<Rightarrow> bytes or_err go" where
  "format_date_time src len =
     (let t = (if 10 < len then ''DATETIME'' else ''DATE'') in
      if len \<notin> set [10, 19, 21, 22, 23, 24, 25, 26]
      then Inr (Inl (illegal_length (''illegal '' @ t @ '' length '') (unat len)))
      else if length src \<notin> set [4, 7, 11]
      then Inr (Inl (illegal_length (''illegal '' @ t @ '' packet length '') (length src)))
      else
        go_bind (go_slice src 0 2) (\<lambda>y. go_bind (le_uint16 y) (\<lambda>year.
        go_bind (go_at src 2) (\<lambda>p2. go_bind (go_at src 3) (\<lambda>p3.
          let pt = ucast (year div 100) :: byte;
              p1 = ucast (year - 100 * ucast pt) :: byte
          in
            go_bind (digit_pair pt) (\<lambda>a. go_bind (digit_pair p1) (\<lambda>b.
            go_bind (digit_pair p2) (\<lambda>c. go_bind (digit_pair p3) (\<lambda>d.
              let dst = a @ b @ 0x2D # c @ 0x2D # d in
              if len = 10 then Inr (Inr dst)
              else if length src = 4
              then go_bind (go_slice zeroDateTime 10 (unat len)) (\<lambda>z. Inr (Inr (dst @ z)))
              else
                go_bind (go_at src 4) (\<lambda>p1. go_bind (go_slice_from src 5) (\<lambda>src.
                go_bind (format_clock (dst @ [0x20]) p1 0 src len) (\<lambda>v. Inr (Inr v)))))))))))))"

definition formatBinaryDateTime :: "bytes \<Rightarrow> byte \<Rightarrow> bool \<Rightarrow> bytes or_err go" where
  "formatBinaryDateTime src len justTime =
     (if src = []
      then if justTime
        then go_bind (go_slice zeroDateTime 11 (unat (11 + len))) (\<lambda>z. Inr (Inr z))
        else go_bind (go_slice zeroDateTime 0 (unat len)) (\<lambda>z. Inr (Inr z))
      else if justTime then format_time src len
      else format_date_time src len)"

lemma digit_tables [simp]:
  "length digits01 = 100" "length digits10 = 100" "length zeroDateTime = 26"
  by (simp_all add: digits01_def digits10_def zeroDateTime_def bytes_of_string_def)

lemma length_digit_pair: "digit_pair p = Inr ds \<Longrightarrow> length ds = 2"
  by (auto simp: digit_pair_def go_eq_Inr)

lemma digit_pair_panics: "panics (digit_pair p) \<longleftrightarrow> 100 \<le> p"
  by (auto simp: digit_pair_def go_at_def word_le_nat_alt)

lemma digit_pair_eq:
  assumes "p < 100"
  shows "\<exists>ds. digit_pair p = Inr ds \<and>
    string_of_bytes ds = [digit_char (unat p div 10), digit_char (unat p mod 10)]"
proof -
  have p: "unat p < 100" using assms by (simp add: word_less_nat_alt)
  then have "unat p div 10 < 10" "unat p mod 10 < 10" by auto
  then show ?thesis
    using p by (simp add: digit_pair_def string_of_bytes_def digits01_def digits10_def char_of_digit
        del: of_nat_add)
qed

text \<open>What is printed of a date has the length that the column's declaration asks for.\<close>

lemma length_format_fraction:
  assumes "format_fraction dst decimals src = Inr v" "decimals \<in> {1, 2, 3, 4, 5, 6}"
  shows "length v = length dst + 1 + unat decimals"
  using assms
  by (auto simp: format_fraction_def Let_def go_eq_Inr split: if_splits dest!: length_digit_pair)

lemma length_format_clock:
  assumes "format_clock dst p1 0 src len = Inr v" "length dst = 11" "len \<in> {19, 21, 22, 23, 24, 25, 26}"
  shows "length v = unat len"
proof -
  from assms(1) obtain a b c where
    v: "(let dst = dst @ a @ 0x3A # b @ 0x3A # c in
       if len \<le> word_of_nat (length dst) then Inr dst
       else
         go_bind (go_slice_from src 2) (\<lambda>src.
           if src = [] then go_bind (go_slice zeroDateTime 19 (unat (0 + len))) (\<lambda>z. Inr (dst @ z))
           else format_fraction dst (0 + len - 20) src)) = Inr v"
    and l: "length a = 2" "length b = 2" "length c = 2"
    unfolding format_clock_def go_bind_eq_Inr [of "digit_pair _"] go_bind_eq_Inr [of "go_at _ _"]
    by (blast dest: length_digit_pair)
  obtain D where D: "length D = 19"
    and v: "(if len \<le> 19 then Inr D
       else
         go_bind (go_slice_from src 2) (\<lambda>src.
           if src = [] then go_bind (go_slice zeroDateTime 19 (unat len)) (\<lambda>z. Inr (D @ z))
           else format_fraction D (len - 20) src)) = Inr v"
  proof
    have "length (dst @ a @ 0x3A # b @ 0x3A # c) = 19" using l assms(2) by simp
    then show "length (dst @ a @ 0x3A # b @ 0x3A # c) = 19" .
    with v show "(if len \<le> 19 then Inr (dst @ a @ 0x3A # b @ 0x3A # c)
       else
         go_bind (go_slice_from src 2) (\<lambda>src.
           if src = [] then go_bind (go_slice zeroDateTime 19 (unat len))
             (\<lambda>z. Inr ((dst @ a @ 0x3A # b @ 0x3A # c) @ z))
           else format_fraction (dst @ a @ 0x3A # b @ 0x3A # c) (len - 20) src)) = Inr v"
      by (simp only: Let_def add_0) simp
  qed
  show ?thesis
  proof (cases "len = 19")
    case True
    with v D show ?thesis by simp
  next
    case False
    then have big: "\<not> len \<le> 19" "len - 20 \<in> {1, 2, 3, 4, 5, 6}" "unat len = 20 + unat (len - 20)" "unat len \<le> 26"
      using assms(3) by auto
    with v have "go_bind (go_slice_from src 2) (\<lambda>src.
           if src = [] then go_bind (go_slice zeroDateTime 19 (unat len)) (\<lambda>z. Inr (D @ z))
           else format_fraction D (len - 20) src) = Inr v" by simp
    then show ?thesis
      using D big length_format_fraction [of D "len - 20" "drop 2 src" v]
      by (auto simp: go_eq_Inr split: if_splits)
  qed
qed

lemma formatted_date_length:
  assumes "formatBinaryDateTime src len False = Inr (Inr v)"
  shows "length v = unat len"
proof (cases "src = []")
  case True
  with assms show ?thesis by (auto simp: formatBinaryDateTime_def go_eq_Inr)
next
  case False
  with assms have f: "format_date_time src len = Inr (Inr v)"
    by (simp add: formatBinaryDateTime_def)
  then have len: "len \<in> {10, 19, 21, 22, 23, 24, 25, 26}"
    by (auto simp: format_date_time_def Let_def split: if_splits)
  obtain D where D: "length D = 10"
    and v: "(if len = 10 then Inr (Inr D)
      else if length src = 4 then go_bind (go_slice zeroDateTime 10 (unat len)) (\<lambda>z. Inr (Inr (D @ z)))
      else
        go_bind (go_at src 4) (\<lambda>p1. go_bind (go_slice_from src 5) (\<lambda>src.
        go_bind (format_clock (D @ [0x20]) p1 0 src len) (\<lambda>v. Inr (Inr v))))) =
      (Inr (Inr v) :: bytes or_err go)"
  proof -
    from f obtain a b c d where l: "length a = 2" "length b = 2" "length c = 2" "length d = 2"
      and v: "(let dst = a @ b @ 0x2D # c @ 0x2D # d in
      if len = 10 then Inr (Inr dst)
      else if length src = 4 then go_bind (go_slice zeroDateTime 10 (unat len)) (\<lambda>z. Inr (Inr (dst @ z)))
      else
        go_bind (go_at src 4) (\<lambda>p1. go_bind (go_slice_from src 5) (\<lambda>src.
        go_bind (format_clock (dst @ [0x20]) p1 0 src len) (\<lambda>v. Inr (Inr v))))) =
      (Inr (Inr v) :: bytes or_err go)"
      by (auto simp: format_date_time_def Let_def go_bind_eq_Inr [of "digit_pair _"] go_bind_eq_Inr [of "go_at _ _"]
          go_bind_eq_Inr [of "le_uint16 _"] go_bind_eq_Inr [of "go_slice src 0 2"]
          dest!: length_digit_pair split: if_splits)
    show thesis
      by (rule that [of "a @ b @ 0x2D # c @ 0x2D # d"]) (use l v in \<open>simp_all add: Let_def\<close>)
  qed
  then show ?thesis
    using len length_format_clock [of "D @ [0x20]" _ _ len v]
    by (auto simp: go_eq_Inr split: if_splits)
qed


text \<open>
  A TIME column with one decimal, negative and of a hundred hours or more: the clock alone has
  the length that the column asks for, and the tenth of a second is dropped.
\<close>

definition negative_time :: bytes where
  "negative_time = [1, 4, 0, 0, 0, 4, 0, 0, 0x60, 0xAE, 0x0A, 0]"

lemma negative_time_loses_fraction:
  "formatBinaryDateTime negative_time 10 True = Inr (Inr (bytes_of_string ''-100:00:00''))"
  "formatBinaryDateTime negative_time 11 True = Inr (Inr (bytes_of_string ''-100:00:00.70''))"
  by (simp_all add: formatBinaryDateTime_def negative_time_def format_time_def format_clock_def
      format_fraction_def digit_pair_def digits10_def digits01_def Let_def le_uint32_def
      bytes_of_string_def)

end
