(* ===== verification/DriverQuery.thy ===== *)
theory DriverQuery
  imports DriverColumns DriverEscape DriverDates GoFlow
begin

text \<open>
  \<open>connection.go\<close>, \<open>rows.go\<close> and \<open>transaction.go\<close>: executing a query, reading the result sets of an
  answer, and putting parameters into a query.
\<close>

subsection \<open>Discarding results\<close>

function discardResults :: "'key mysqlConn \<Rightarrow> (unit, 'key) drv" where
  "discardResults mc =
     (if \<not> has_more_results mc then Inr (Inr (), mc)
      else
        try_bind (readResultSetHeaderPacket mc) (\<lambda>resLen mc.
        try_bind (if 0 < resLen then try_bind (readUntilEOF mc) (\<lambda>_ mc. readUntilEOF mc) else Inr (Inr (), mc))
          (\<lambda>_ mc. discardResults mc)))"
  by pat_completeness auto
termination
proof (relation "measure left", goal_cases)
  case (2 mc resLen mc1 u mc2)
  have "left mc2 \<le> left mc1"
    using 2(3) by (auto simp: try_bind_eq_Inr dest!: readUntilEOF_left split: if_splits)
  moreover have "left mc1 < left mc" using 2(2) readResultSetHeaderPacket_left by blast
  ultimately show ?case by simp
qed simp

declare discardResults.simps [simp del]

subsection \<open>Executing\<close>

definition markBadConn :: "driver_error \<Rightarrow> driver_error" where
  "markBadConn err = (if err = BadConnNoWrite then ErrBadConn else err)"

definition exec :: "bytes \<Rightarrow> 'key mysqlConn \<Rightarrow> (unit, 'key) drv" where
  "exec query mc =
     go_bind (writeCommandPacketStr comQuery query mc) (\<lambda>(e, mc).
       case e of
         Some err \<Rightarrow> Inr (Inl (markBadConn err), mc)
       | None \<Rightarrow>
           try_bind (readResultSetHeaderPacket mc) (\<lambda>resLen mc.
           try_bind (if 0 < resLen then try_bind (readUntilEOF mc) (\<lambda>_ mc. readUntilEOF mc) else Inr (Inr (), mc))
             (\<lambda>_ mc. discardResults mc)))"

definition marked :: "('a, 'key) drv \<Rightarrow> ('a, 'key) drv" where
  "marked m = go_bind m (\<lambda>(r, mc). Inr (map_sum markBadConn id r, mc))"

definition conn_begin :: "bool \<Rightarrow> 'key mysqlConn \<Rightarrow> (unit, 'key) drv" where
  "conn_begin readOnly mc =
     (if conn_closed mc then Inr (Inl ErrBadConn, mc)
      else marked (exec (bytes_of_string
        (if readOnly then ''START TRANSACTION READ ONLY'' else ''START TRANSACTION'')) mc))"

text \<open>\<open>Commit\<close> and \<open>Rollback\<close>: the first component says whether \<open>tx.mc\<close> is still set.\<close>

definition tx_end :: "string \<Rightarrow> bool \<Rightarrow> 'key mysqlConn \<Rightarrow> ((driver_error option \<times> bool) \<times> 'key mysqlConn) go" where
  "tx_end verb tx_open mc =
     (if \<not> tx_open \<or> conn_closed mc then Inr ((Some ErrInvalidConn, tx_open), mc)
      else go_bind (exec (bytes_of_string verb) mc) (\<lambda>(r, mc).
        Inr ((case r of Inl e \<Rightarrow> Some e | Inr _ \<Rightarrow> None, False), mc)))"

definition Commit :: "bool \<Rightarrow> 'key mysqlConn \<Rightarrow> ((driver_error option \<times> bool) \<times> 'key mysqlConn) go" where
  "Commit = tx_end ''COMMIT''"

definition Rollback :: "bool \<Rightarrow> 'key mysqlConn \<Rightarrow> ((driver_error option \<times> bool) \<times> 'key mysqlConn) go" where
  "Rollback = tx_end ''ROLLBACK''"

text \<open>
  The parameters of the DSN. The order of a Go map is not fixed: the list is the order of this run.
  In the case of \<open>charset\<close>, \<open>break\<close> leaves the loop over the character sets at the first success.
\<close>

fun set_names :: "string list \<Rightarrow> driver_error option \<Rightarrow> 'key mysqlConn \<Rightarrow> (driver_error option \<times> 'key mysqlConn) go" where
  "set_names [] err mc = Inr (err, mc)"
| "set_names (c # cs) err mc =
     go_bind (exec (bytes_of_string (''SET NAMES '' @ c)) mc) (\<lambda>(r, mc).
       case r of
         Inr _ \<Rightarrow> Inr (None, mc)
       | Inl e \<Rightarrow> set_names cs (Some e) mc)"

fun handleParams :: "(string \<times> string) list \<Rightarrow> 'key mysqlConn \<Rightarrow> (unit, 'key) drv" where
  "handleParams [] mc = Inr (Inr (), mc)"
| "handleParams ((param, val) # ps) mc =
     try_bind
       (if param = ''charset'' then checked (set_names (split_on (CHR '','') val) None mc)
        else exec (bytes_of_string (''SET '' @ param @ ''='' @ val)) mc)
       (\<lambda>_ mc. handleParams ps mc)"

subsection \<open>interpolateParams\<close>

text \<open>
  The fields of a time in the connection's location, half a microsecond added, and \<open>tf_zero\<close> for
  \<open>IsZero\<close>: \<open>time\<close> is not in the repository, and neither is the shortest text of a float. Both are
  arguments.
\<close>

record time_fields =
  tf_zero :: bool
  tf_year :: int
  tf_month :: int
  tf_day :: int
  tf_hour :: int
  tf_minute :: int
  tf_second :: int
  tf_micro :: int

definition at_int :: "bytes \<Rightarrow> int \<Rightarrow> byte go" where
  "at_int xs i = (if i < 0 then Inl IndexOutOfRange else go_at xs (nat i))"

definition digits_at :: "int \<Rightarrow> bytes go" where
  "digits_at i = go_bind (at_int digits10 i) (\<lambda>a. go_bind (at_int digits01 i) (\<lambda>b. Inr [a, b]))"

definition quoted_micro :: "int \<Rightarrow> bytes go" where
  "quoted_micro micro =
     (if micro = 0 then Inr []
      else
        go_bind (digits_at (trunc_div micro 10000)) (\<lambda>a.
        go_bind (digits_at (trunc_rem (trunc_div micro 100) 100)) (\<lambda>b.
        go_bind (digits_at (trunc_rem micro 100)) (\<lambda>c. Inr (0x2E # a @ b @ c)))))"

definition quoted_time :: "time_fields \<Rightarrow> bytes go" where
  "quoted_time t =
     (if tf_zero t then Inr (0x27 # bytes_of_string ''0000-00-00'' @ [0x27])
      else
        go_bind (digits_at (trunc_div (tf_year t) 100)) (\<lambda>y1.
        go_bind (digits_at (trunc_rem (tf_year t) 100)) (\<lambda>y2.
        go_bind (digits_at (tf_month t)) (\<lambda>mo.
        go_bind (digits_at (tf_day t)) (\<lambda>d.
        go_bind (digits_at (tf_hour t)) (\<lambda>h.
        go_bind (digits_at (tf_minute t)) (\<lambda>mi.
        go_bind (digits_at (tf_second t)) (\<lambda>s.
        go_bind (quoted_micro (tf_micro t)) (\<lambda>f.
          Inr (0x27 # y1 @ y2 @ 0x2D # mo @ 0x2D # d @ 0x20 # h @ 0x3A # mi @ 0x3A # s @ f @ [0x27]))))))))))"

text \<open>The text of an argument behind \<open>buf\<close>; the spare bytes behind the buffer do not matter
  (\<open>escape_appends\<close>) and are given as none.\<close>

definition append_arg ::
  "(time_fields \<Rightarrow> time_fields) \<Rightarrow> (64 word \<Rightarrow> bytes) \<Rightarrow> bool \<Rightarrow> bytes \<Rightarrow> time_fields driver_value \<Rightarrow>
   (driver_error + bytes) go"
where
  "append_arg local format_float noBackslash buf arg =
     (case arg of
        VNull \<Rightarrow> Inr (Inr (buf @ bytes_of_string ''NULL''))
      | VNilBytes \<Rightarrow> Inr (Inr (buf @ bytes_of_string ''NULL''))
      | VInt v \<Rightarrow> Inr (Inr (buf @ bytes_of_string (strconv_Itoa v)))
      | VFloat64 v \<Rightarrow> Inr (Inr (buf @ format_float v))
      | VBool v \<Rightarrow> Inr (Inr (buf @ [if v then 0x31 else 0x30]))
      | VTime t \<Rightarrow>
          go_bind (quoted_time (if tf_zero t then t else local t)) (\<lambda>s. Inr (Inr (buf @ s)))
      | VBytes v \<Rightarrow>
          go_bind
            ((if noBackslash then escapeBytesQuotes else escapeBytesBackslash)
               (buf @ bytes_of_string ''_binary'' @ [0x27]) [] v)
            (\<lambda>buf. Inr (Inr (buf @ [0x27])))
      | VString v \<Rightarrow>
          go_bind
            ((if noBackslash then escapeStringQuotes else escapeStringBackslash)
               (buf @ [0x27]) [] (string_of_bytes v))
            (\<lambda>buf. Inr (Inr (buf @ [0x27])))
      | VFloat32 v \<Rightarrow> Inr (Inl ErrSkip))"

text \<open>
  The loop over the query. What is left of the query is the argument; after an argument the loop
  checks the length, except after a NULL, where \<open>continue\<close> skips the check.
\<close>

fun interpolate_loop ::
  "(bytes \<Rightarrow> time_fields driver_value \<Rightarrow> (driver_error + bytes) go) \<Rightarrow> int \<Rightarrow> bytes \<Rightarrow>
   time_fields driver_value list \<Rightarrow> bytes \<Rightarrow> (driver_error + bytes \<times> time_fields driver_value list) go"
where
  "interpolate_loop put maxAllowed [] args buf = Inr (Inr (buf, args))"
| "interpolate_loop put maxAllowed (c # query) args buf =
     (if c \<noteq> 0x3F then interpolate_loop put maxAllowed query args (buf @ [c])
      else case args of
        [] \<Rightarrow> Inl IndexOutOfRange
      | arg # args \<Rightarrow>
          go_bind (put buf arg) (\<lambda>r.
            case r of
              Inl e \<Rightarrow> Inr (Inl e)
            | Inr buf \<Rightarrow>
                if arg \<noteq> VNull \<and> maxAllowed < int (length buf) + 4 then Inr (Inl ErrSkip)
                else interpolate_loop put maxAllowed query args buf))"

definition interpolateParams ::
  "(time_fields \<Rightarrow> time_fields) \<Rightarrow> (64 word \<Rightarrow> bytes) \<Rightarrow> bytes \<Rightarrow> time_fields driver_value list \<Rightarrow>
   'key mysqlConn \<Rightarrow> (driver_error + bytes) go"
where
  "interpolateParams local format_float query args mc =
     (if length (filter (\<lambda>c. c = 0x3F) query) \<noteq> length args then Inr (Inl ErrSkip)
      else if takeCompleteBuffer (conn_buf mc) = None then Inr (Inl ErrInvalidConn)
      else
        go_bind
          (interpolate_loop
            (append_arg local format_float (conn_status mc AND statusNoBackslashEscapes \<noteq> 0))
            (conn_maxAllowedPacket mc) query args [])
          (\<lambda>r. case r of
             Inl e \<Rightarrow> Inr (Inl e)
           | Inr (buf, rest) \<Rightarrow> Inr (if rest \<noteq> [] then Inl ErrSkip else Inr buf)))"

definition prepared_query ::
  "(time_fields \<Rightarrow> time_fields) \<Rightarrow> (64 word \<Rightarrow> bytes) \<Rightarrow> bytes \<Rightarrow> time_fields driver_value list \<Rightarrow>
   'key mysqlConn \<Rightarrow> (driver_error + bytes) go"
where
  "prepared_query local format_float query args mc =
     (if args = [] then Inr (Inr query)
      else if \<not> cf_InterpolateParams (conn_cfg mc) then Inr (Inl ErrSkip)
      else interpolateParams local format_float query args mc)"

subsection \<open>Exec and Query\<close>

definition conn_Exec ::
  "(time_fields \<Rightarrow> time_fields) \<Rightarrow> (64 word \<Rightarrow> bytes) \<Rightarrow> bytes \<Rightarrow> time_fields driver_value list \<Rightarrow>
   'key mysqlConn \<Rightarrow> (int \<times> int, 'key) drv"
where
  "conn_Exec local format_float query args mc =
     (if conn_closed mc then Inr (Inl ErrBadConn, mc)
      else
        go_bind (prepared_query local format_float query args mc) (\<lambda>q.
          case q of
            Inl e \<Rightarrow> Inr (Inl e, mc)
          | Inr query \<Rightarrow>
              marked (try_bind (exec query (mc\<lparr>conn_affectedRows := 0, conn_insertId := 0\<rparr>)) (\<lambda>_ mc.
                Inr (Inr (to_int64 (uint (conn_affectedRows mc)), to_int64 (uint (conn_insertId mc))), mc)))))"

text \<open>
  \<open>nextResultSet\<close> and \<open>nextNotEmptyResultSet\<close> over the rows of a text or binary result, then the
  columns of the set that is found.
\<close>

definition nextResultSet :: "text_rows \<Rightarrow> 'key mysqlConn \<Rightarrow> ((driver_error + int) \<times> text_rows \<times> 'key mysqlConn) go" where
  "nextResultSet rows mc =
     (if \<not> rows_open rows then Inr (Inl EOF, rows, mc)
      else case conn_error mc of
        Some e \<Rightarrow> Inr (Inl e, rows, mc)
      | None \<Rightarrow>
          go_bind (if rows_done rows then Inr (Inr (), mc) else readUntilEOF mc) (\<lambda>(r, mc).
            case r of
              Inl e \<Rightarrow> Inr (Inl e, rows, mc)
            | Inr _ \<Rightarrow>
                let rows = rows\<lparr>rows_done := True\<rparr> in
                if \<not> has_more_results mc then Inr (Inl EOF, rows\<lparr>rows_open := False\<rparr>, mc)
                else
                  go_bind (readResultSetHeaderPacket mc) (\<lambda>(r, mc).
                    Inr (r, rows\<lparr>rows_columns := [], rows_done := False\<rparr>, mc))))"

lemma nextResultSet_left:
  assumes "nextResultSet rows mc = Inr (Inr n, rows', mc')" shows "left mc' < left mc"
proof -
  from assms obtain r1 mc1 where 1: "(if rows_done rows then Inr (Inr (), mc) else readUntilEOF mc) = Inr (r1, mc1)"
    by (auto simp: nextResultSet_def go_bind_eq_Inr split: if_splits option.splits)
  with assms have "r1 = Inr ()"
    by (cases r1) (auto simp: nextResultSet_def split: if_splits option.splits)
  with assms 1 have 2: "readResultSetHeaderPacket mc1 = Inr (Inr n, mc')"
    by (auto simp: nextResultSet_def go_bind_eq_Inr Let_def split: if_splits option.splits)
  have "left mc1 \<le> left mc" using 1 readUntilEOF_left by (auto split: if_splits)
  moreover have "left mc' < left mc1" using 2 readResultSetHeaderPacket_left by blast
  ultimately show ?thesis by simp
qed

function nextNotEmptyResultSet ::
  "text_rows \<Rightarrow> 'key mysqlConn \<Rightarrow> ((driver_error + int) \<times> text_rows \<times> 'key mysqlConn) go"
where
  "nextNotEmptyResultSet rows mc =
     go_bind (nextResultSet rows mc) (\<lambda>(r, rows, mc).
       case r of
         Inl e \<Rightarrow> Inr (Inl e, rows, mc)
       | Inr resLen \<Rightarrow>
           if 0 < resLen then Inr (Inr resLen, rows, mc)
           else nextNotEmptyResultSet (rows\<lparr>rows_done := True\<rparr>) mc)"
  by pat_completeness auto
termination
  by (relation "measure (\<lambda>(rows, mc). left mc)") (auto dest: nextResultSet_left)

declare nextNotEmptyResultSet.simps [simp del]

definition NextResultSet ::
  "text_rows \<Rightarrow> 'key mysqlConn \<Rightarrow> (driver_error option \<times> text_rows \<times> 'key mysqlConn) go"
where
  "NextResultSet rows mc =
     go_bind (nextNotEmptyResultSet rows mc) (\<lambda>(r, rows, mc).
       case r of
         Inl e \<Rightarrow> Inr (Some e, rows, mc)
       | Inr resLen \<Rightarrow>
           go_bind (readColumns resLen mc) (\<lambda>(r, mc).
             Inr (case r of
                 Inl e \<Rightarrow> (Some e, rows\<lparr>rows_columns := []\<rparr>, mc)
               | Inr columns \<Rightarrow> (None, rows\<lparr>rows_columns := columns\<rparr>, mc))))"

definition rows_Next ::
  "(bytes \<Rightarrow> driver_error + 'time) \<Rightarrow> nat \<Rightarrow> text_rows \<Rightarrow> 'key mysqlConn \<Rightarrow>
   ((driver_error + 'time driver_value list) \<times> text_rows \<times> 'key mysqlConn) go"
where
  "rows_Next pdt n rows mc =
     (if rows_open rows
      then case conn_error mc of
          Some e \<Rightarrow> Inr (Inl e, rows, mc)
        | None \<Rightarrow> readRow pdt n rows mc
      else Inr (Inl EOF, rows, mc))"

definition rows_Close :: "text_rows \<Rightarrow> 'key mysqlConn \<Rightarrow> (driver_error option \<times> text_rows \<times> 'key mysqlConn) go" where
  "rows_Close rows mc =
     (if \<not> rows_open rows then Inr (None, rows, mc)
      else case conn_error mc of
        Some e \<Rightarrow> Inr (Some e, rows, mc)
      | None \<Rightarrow>
          go_bind (if rows_done rows then Inr (Inr (), mc) else readUntilEOF mc) (\<lambda>(r, mc).
            case r of
              Inl e \<Rightarrow> Inr (Some e, rows\<lparr>rows_open := False\<rparr>, mc)
            | Inr _ \<Rightarrow>
                go_bind (discardResults mc) (\<lambda>(r, mc).
                  Inr (case r of
                      Inl e \<Rightarrow> (Some e, rows, mc)
                    | Inr _ \<Rightarrow> (None, rows\<lparr>rows_open := False\<rparr>, mc)))))"

text \<open>\<open>query\<close> returns the rows even where reading their columns failed, with the error.\<close>

definition query ::
  "(time_fields \<Rightarrow> time_fields) \<Rightarrow> (64 word \<Rightarrow> bytes) \<Rightarrow> bytes \<Rightarrow> time_fields driver_value list \<Rightarrow>
   'key mysqlConn \<Rightarrow> ((driver_error option \<times> text_rows option) \<times> 'key mysqlConn) go"
where
  "query local format_float q args mc =
     (if conn_closed mc then Inr ((Some ErrBadConn, None), mc)
      else
        go_bind (prepared_query local format_float q args mc) (\<lambda>p.
          case p of
            Inl e \<Rightarrow> Inr ((Some e, None), mc)
          | Inr q \<Rightarrow>
              go_bind (writeCommandPacketStr comQuery q mc) (\<lambda>(e, mc).
                case e of
                  Some err \<Rightarrow> Inr ((Some (markBadConn err), None), mc)
                | None \<Rightarrow>
                    go_bind (readResultSetHeaderPacket mc) (\<lambda>(r, mc).
                      case r of
                        Inl err \<Rightarrow> Inr ((Some (markBadConn err), None), mc)
                      | Inr resLen \<Rightarrow>
                          let rows = \<lparr>rows_open = True, rows_columns = [], rows_done = resLen = 0\<rparr> in
                          if resLen = 0 then
                            go_bind (NextResultSet rows mc) (\<lambda>(e, rows, mc).
                              Inr (if e = None \<or> e = Some EOF then ((None, Some rows), mc)
                                else ((e, None), mc)))
                          else
                            go_bind (readColumns resLen mc) (\<lambda>(r, mc).
                              Inr (case r of
                                  Inl e \<Rightarrow> ((Some e, Some rows), mc)
                                | Inr columns \<Rightarrow> ((None, Some (rows\<lparr>rows_columns := columns\<rparr>)), mc)))))))"

definition getSystemVar ::
  "(bytes \<Rightarrow> driver_error + 'time) \<Rightarrow> string \<Rightarrow> 'key mysqlConn \<Rightarrow> ((bytes \<times> driver_error option), 'key) drv"
where
  "getSystemVar pdt name mc =
     try_bind (checked (writeCommandPacketStr comQuery (bytes_of_string (''SELECT @@'' @ name)) mc)) (\<lambda>_ mc.
     try_bind (readResultSetHeaderPacket mc) (\<lambda>resLen mc.
     try_bind (if 0 < resLen then readUntilEOF mc else Inr (Inr (), mc)) (\<lambda>_ mc.
       if resLen < 0 then Inl (ExplicitPanic ''makeslice: len out of range'')
       else
         go_bind (readRow pdt (nat resLen)
             \<lparr>rows_open = True, rows_columns = [mysqlField_zero\<lparr>fd_fieldType := 15\<rparr>], rows_done = False\<rparr> mc)
           (\<lambda>(r, _, mc).
             case r of
               Inl e \<Rightarrow> Inr (Inl e, mc)
             | Inr dest \<Rightarrow>
                 go_bind (go_at dest 0) (\<lambda>d.
                   case d of
                     VBytes v \<Rightarrow> go_bind (readUntilEOF mc) (\<lambda>(r, mc).
                       Inr (Inr (v, case r of Inl e \<Rightarrow> Some e | Inr _ \<Rightarrow> None), mc))
                   | _ \<Rightarrow> Inl (ExplicitPanic ''interface conversion''))))))"

definition Ping :: "'key mysqlConn \<Rightarrow> (unit, 'key) drv" where
  "Ping mc =
     (if conn_closed mc then Inr (Inl ErrBadConn, mc)
      else try_bind (checked (writeCommandPacket comPing mc)) (\<lambda>_ mc. readResultOK mc))"

end
