(* ===== verification/DriverAuth.thy ===== *)
theory DriverAuth
  imports DriverQuery DriverTypes
begin

text \<open>
  The connection phase: the handshake packets of \<open>packets.go\<close>, \<open>auth.go\<close> and \<open>Open\<close> of \<open>driver.go\<close>.
  Hashes, RSA and the parsing of keys are the arguments \<open>crypto\<close>; the connection after a TLS
  handshake is the argument \<open>tls_client\<close>.
\<close>

subsection \<open>Old password hash\<close>

definition myRndMaxVal :: "32 word" where
  "myRndMaxVal = 0x3FFFFFFF"

record myRnd =
  seed1 :: "32 word"
  seed2 :: "32 word"

definition newMyRnd :: "32 word \<Rightarrow> 32 word \<Rightarrow> myRnd" where
  "newMyRnd s1 s2 = \<lparr>seed1 = s1 mod myRndMaxVal, seed2 = s2 mod myRndMaxVal\<rparr>"

definition NextByte :: "myRnd \<Rightarrow> byte \<times> myRnd" where
  "NextByte r =
     (let s1 = (seed1 r * 3 + seed2 r) mod myRndMaxVal;
          s2 = (s1 + seed2 r + 33) mod myRndMaxVal
      in (ucast ((ucast s1 :: 64 word) * 31 div ucast myRndMaxVal), \<lparr>seed1 = s1, seed2 = s2\<rparr>))"

fun pwHash_loop :: "bytes \<Rightarrow> 32 word \<Rightarrow> 32 word \<Rightarrow> 32 word \<Rightarrow> 32 word \<times> 32 word" where
  "pwHash_loop [] r0 r1 add = (r0, r1)"
| "pwHash_loop (c # cs) r0 r1 add =
     (if c = 0x20 \<or> c = 0x09 then pwHash_loop cs r0 r1 add
      else
        let tmp = ucast c;
            r0 = r0 XOR ((((r0 AND 63) + add) * tmp) + push_bit 8 r0);
            r1 = r1 + (push_bit 8 r1 XOR r0)
        in pwHash_loop cs r0 r1 (add + tmp))"

definition pwHash :: "bytes \<Rightarrow> 32 word \<times> 32 word" where
  "pwHash password =
     (case pwHash_loop password 1345345333 0x12345671 7 of
        (r0, r1) \<Rightarrow> (r0 AND 0x7FFFFFFF, r1 AND 0x7FFFFFFF))"

fun next_bytes :: "nat \<Rightarrow> myRnd \<Rightarrow> bytes \<times> myRnd" where
  "next_bytes 0 r = ([], r)"
| "next_bytes (Suc k) r =
     (let (b, r) = NextByte r; (bs, r) = next_bytes k r in ((b + 64) # bs, r))"

text \<open>\<open>None\<close> is the nil slice.\<close>

definition scrambleOldPassword :: "slice \<Rightarrow> bytes \<Rightarrow> bytes option go" where
  "scrambleOldPassword scramble password =
     (if password = [] then Inr None
      else
        go_bind (slice_int scramble 0 8) (\<lambda>s.
          let hashPw = pwHash password; hashSc = pwHash (fst s);
              r = newMyRnd (fst hashPw XOR fst hashSc) (snd hashPw XOR snd hashSc);
              (out, r) = next_bytes 8 r;
              (mask, r) = NextByte r
          in Inr (Some (map (\<lambda>b. b XOR mask) out))))"

subsection \<open>Hashed passwords\<close>

record 'key crypto =
  sha1 :: "bytes \<Rightarrow> bytes"
  sha256 :: "bytes \<Rightarrow> bytes"
  rsa_encrypt :: "'key \<Rightarrow> bytes \<Rightarrow> driver_error + bytes"
  parse_key :: "bytes \<Rightarrow> (driver_error + 'key) go"

text \<open>\<open>for i := range x { x[i] ^= y[i] }\<close>\<close>

fun xor_into :: "bytes \<Rightarrow> bytes \<Rightarrow> bytes go" where
  "xor_into [] ys = Inr []"
| "xor_into (x # xs) [] = Inl IndexOutOfRange"
| "xor_into (x # xs) (y # ys) = go_bind (xor_into xs ys) (\<lambda>zs. Inr ((x XOR y) # zs))"

definition scramblePassword :: "'key crypto \<Rightarrow> bytes \<Rightarrow> bytes \<Rightarrow> bytes option go" where
  "scramblePassword cr scramble password =
     (if password = [] then Inr None
      else
        let stage1 = sha1 cr password; hash = sha1 cr stage1; scramble = sha1 cr (scramble @ hash)
        in go_bind (xor_into scramble stage1) (\<lambda>token. Inr (Some token)))"

definition scrambleSHA256Password :: "'key crypto \<Rightarrow> bytes \<Rightarrow> bytes \<Rightarrow> bytes option go" where
  "scrambleSHA256Password cr scramble password =
     (if password = [] then Inr None
      else
        let message1 = sha256 cr password; message1Hash = sha256 cr message1;
            message2 = sha256 cr (message1Hash @ scramble)
        in go_bind (xor_into message1 message2) (\<lambda>token. Inr (Some token)))"

fun xor_seed :: "bytes \<Rightarrow> nat \<Rightarrow> bytes \<Rightarrow> bytes go" where
  "xor_seed seed i [] = Inr []"
| "xor_seed seed i (p # ps) =
     (if seed = [] then Inl DivideByZero
      else go_bind (xor_seed seed (i + 1) ps) (\<lambda>qs. Inr ((p XOR seed ! (i mod length seed)) # qs)))"

definition encryptPassword :: "'key crypto \<Rightarrow> bytes \<Rightarrow> bytes \<Rightarrow> 'key \<Rightarrow> (driver_error + bytes) go" where
  "encryptPassword cr password seed pub =
     go_bind (xor_seed seed 0 (password @ [0])) (\<lambda>plain. Inr (rsa_encrypt cr pub plain))"

subsection \<open>Handshake packets\<close>

definition index_byte :: "bytes \<Rightarrow> byte \<Rightarrow> int" where
  "index_byte b c = (if c \<in> set b then int (length (takeWhile (\<lambda>x. x \<noteq> c) b)) else - 1)"

definition clientLongPassword :: "32 word" where "clientLongPassword = push_bit 0 1"
definition clientFoundRows :: "32 word" where "clientFoundRows = push_bit 1 1"
definition clientLongFlag :: "32 word" where "clientLongFlag = push_bit 2 1"
definition clientConnectWithDB :: "32 word" where "clientConnectWithDB = push_bit 3 1"
definition clientLocalFiles :: "32 word" where "clientLocalFiles = push_bit 7 1"
definition clientProtocol41 :: "32 word" where "clientProtocol41 = push_bit 9 1"
definition clientSSL :: "32 word" where "clientSSL = push_bit 11 1"
definition clientTransactions :: "32 word" where "clientTransactions = push_bit 13 1"
definition clientSecureConn :: "32 word" where "clientSecureConn = push_bit 15 1"
definition clientMultiStatements :: "32 word" where "clientMultiStatements = push_bit 16 1"
definition clientMultiResults :: "32 word" where "clientMultiResults = push_bit 17 1"
definition clientPluginAuth :: "32 word" where "clientPluginAuth = push_bit 19 1"
definition clientPluginAuthLenEncClientData :: "32 word" where
  "clientPluginAuthLenEncClientData = push_bit 21 1"

definition minProtocolVersion :: byte where "minProtocolVersion = 10"
definition defaultAuthPlugin :: string where "defaultAuthPlugin = ''mysql_native_password''"

text \<open>
  \<open>append(authData, \<dots>)\<close> stores the second part of the challenge behind the first one, in the
  connection's buffer when the packet is a slice of it: \<open>conn_overwrite\<close>.
\<close>

definition conn_overwrite :: "slice \<Rightarrow> nat \<Rightarrow> bytes \<Rightarrow> 'key mysqlConn \<Rightarrow> 'key mysqlConn" where
  "conn_overwrite data pos new mc =
     (let b = conn_buf mc; at = buf_idx b - length (fst data) + pos in
      if length (fst data) < maxPacketSize
      then mc\<lparr>conn_buf := b\<lparr>buf_bytes :=
        take at (buf_bytes b) @ new @ drop (at + length new) (buf_bytes b)\<rparr>\<rparr>
      else mc)"

definition copied :: "nat \<Rightarrow> bytes \<Rightarrow> bytes" where
  "copied n b = take n (b @ replicate n 0)"

definition plugin_name :: "slice \<Rightarrow> int \<Rightarrow> string go" where
  "plugin_name data pos =
     go_bind (slice_rest data pos) (\<lambda>rest.
       let e = index_byte (fst rest) 0 in
       if e \<noteq> - 1 then go_bind (slice_int data pos (pos + e)) (\<lambda>p. Inr (string_of_bytes (fst p)))
       else Inr (string_of_bytes (fst rest)))"

definition readHandshakePacket :: "'key mysqlConn \<Rightarrow> (bytes \<times> string, 'key) drv" where
  "readHandshakePacket mc =
     go_bind (readPacket mc) (\<lambda>(r, mc).
       case r of
         Inl err \<Rightarrow> Inr (Inl (if err = ErrInvalidConn then ErrBadConn else err), mc)
       | Inr data \<Rightarrow>
           go_bind (go_at (fst data) 0) (\<lambda>d0.
             if d0 = iERR then fails (handleErrorPacket data mc)
             else if d0 < minProtocolVersion then
               Inr (Inl (OtherError (''unsupported protocol version '' @ decimal (unat d0) @
                 ''. Version 10 or higher is required'')), mc)
             else
               let pos = 1 + index_byte (drop 1 (fst data)) 0 + 1 + 4 in
               go_bind (slice_int data pos (pos + 8)) (\<lambda>authData.
               go_bind (slice_int data (pos + 9) (pos + 11)) (\<lambda>f. go_bind (le_uint16 (fst f)) (\<lambda>flags.
                 let mc = mc\<lparr>conn_flags := ucast flags\<rparr> in
                 if conn_flags mc AND clientProtocol41 = 0 then Inr (Inl ErrOldProtocol, mc)
                 else if conn_flags mc AND clientSSL = 0 \<and> cf_tls (conn_cfg mc) \<noteq> None
                 then Inr (Inl ErrNoTLS, mc)
                 else
                   let pos' = pos + 11 in
                   if pos' < int (length (fst data)) then
                     go_bind (slice_int data (pos' + 16) (pos' + 28)) (\<lambda>more.
                     go_bind (plugin_name data (pos' + 29)) (\<lambda>plugin.
                       Inr (Inr (copied 20 (fst authData @ fst more), plugin),
                         conn_overwrite data (nat (pos + 8)) (fst more) mc)))
                   else Inr (Inr (copied 8 (fst authData), defaultAuthPlugin), mc))))))"

definition handshake_flags :: "bool \<Rightarrow> 'key mysqlConn \<Rightarrow> 32 word" where
  "handshake_flags long_auth mc =
     (let cfg = conn_cfg mc; opt = (\<lambda>b f. if b then f else 0) in
      clientProtocol41 OR clientSecureConn OR clientLongPassword OR clientTransactions OR
      clientLocalFiles OR clientPluginAuth OR clientMultiResults OR (conn_flags mc AND clientLongFlag) OR
      opt (cf_ClientFoundRows cfg) clientFoundRows OR
      opt (cf_tls cfg \<noteq> None) clientSSL OR
      opt (cf_MultiStatements cfg) clientMultiStatements OR
      opt long_auth clientPluginAuthLenEncClientData OR
      opt (cf_DBName cfg \<noteq> []) clientConnectWithDB)"

definition flag_bytes :: "32 word \<Rightarrow> bytes" where
  "flag_bytes f = [ucast f, ucast (drop_bit 8 f), ucast (drop_bit 16 f), ucast (drop_bit 24 f)]"

text \<open>
  The packet has room for a plugin name of 21 bytes. What a shorter name leaves free keeps the bytes
  that the buffer held; behind a longer one the terminating zero is out of range.
\<close>

definition writeHandshakeResponsePacket ::
  "(net_conn \<Rightarrow> driver_error + net_conn) \<Rightarrow> bytes \<Rightarrow> bool \<Rightarrow> string \<Rightarrow> 'key mysqlConn \<Rightarrow> (unit, 'key) drv"
where
  "writeHandshakeResponsePacket tls_client authResp addNUL plugin mc =
     (let cfg = conn_cfg mc; authRespLEI = lei (word_of_nat (length authResp));
          clientFlags = handshake_flags (1 < length authRespLEI) mc;
          user = bytes_of_string (cf_User cfg); db = bytes_of_string (cf_DBName cfg);
          pktLen = 4 + 4 + 1 + 23 + length user + 1 + length authRespLEI + length authResp + 21 + 1 +
            (if addNUL then 1 else 0) + (if db \<noteq> [] then length db + 1 else 0)
      in
      go_bind (takeSmallBuffer (pktLen + 4) (conn_buf mc)) (\<lambda>d.
        case d of
          None \<Rightarrow> Inr (Inl BadConnNoWrite, mc)
        | Some data \<Rightarrow>
            let charset = (case collation_id (cf_Collation cfg) of Some c \<Rightarrow> c | None \<Rightarrow> 0);
                start = flag_bytes clientFlags @ [0, 0, 0, 0] @ [charset] in
            go_bind (fill_packet data start) (\<lambda>data.
              if collation_id (cf_Collation cfg) = None
              then Inr (Inl (OtherError ''unknown collation''),
                mc\<lparr>conn_buf := (conn_buf mc)\<lparr>buf_bytes := data @ drop (length data) (buf_bytes (conn_buf mc))\<rparr>\<rparr>)
              else
                try_bind
                  (if cf_tls cfg \<noteq> None then
                     go_bind (go_slice data 0 36) (\<lambda>req.
                     try_bind (checked (write_own req mc)) (\<lambda>_ mc.
                       Inr (case tls_client (conn_net mc) of
                           Inl e \<Rightarrow> (Inl e, mc)
                         | Inr nc \<Rightarrow> (Inr (), mc\<lparr>conn_net := nc\<rparr>))))
                   else Inr (Inr (), mc))
                  (\<lambda>_ mc.
                    if 21 < length plugin then Inl IndexOutOfRange
                    else
                      go_bind
                        (fill_packet data
                          (start @ replicate 23 0 @ user @ [0] @ authRespLEI @ authResp @
                           (if addNUL then [0] else []) @ (if db \<noteq> [] then db @ [0] else []) @
                           bytes_of_string plugin @ [0]))
                        (\<lambda>data. checked (write_own data mc))))))"

definition writeAuthSwitchPacket :: "bytes \<Rightarrow> bool \<Rightarrow> 'key mysqlConn \<Rightarrow> (unit, 'key) drv" where
  "writeAuthSwitchPacket authData addNUL mc =
     (let pktLen = 4 + length authData + (if addNUL then 1 else 0) in
      go_bind (takeSmallBuffer pktLen (conn_buf mc)) (\<lambda>d.
        case d of
          None \<Rightarrow> Inr (Inl BadConnNoWrite, mc)
        | Some data \<Rightarrow>
            go_bind (fill_packet data (authData @ (if addNUL then [0] else [])))
              (\<lambda>data. checked (write_own data mc))))"

text \<open>The first component is the data, \<open>None\<close> where it is nil, the second one the plugin to switch to.\<close>

definition readAuthResult :: "'key mysqlConn \<Rightarrow> (slice option \<times> string, 'key) drv" where
  "readAuthResult mc =
     try_bind (readPacket mc) (\<lambda>data mc.
       go_bind (go_at (fst data) 0) (\<lambda>d0.
         if d0 = iOK then ok_packet data (None, '''') mc
         else if d0 = iAuthMoreData
         then go_bind (slice_rest data 1) (\<lambda>d. Inr (Inr (Some d, ''''), mc))
         else if d0 = iEOF then
           if length (fst data) < 1 then Inr (Inr (None, ''mysql_old_password''), mc)
           else
             let pluginEndIndex = index_byte (fst data) 0 in
             if pluginEndIndex < 0 then Inr (Inl ErrMalformPkt, mc)
             else
               go_bind (slice_int data 1 pluginEndIndex) (\<lambda>p.
               go_bind (slice_rest data (pluginEndIndex + 1)) (\<lambda>d.
                 Inr (Inr (Some d, string_of_bytes (fst p)), mc)))
         else fails (handleErrorPacket data mc)))"

subsection \<open>Authentication methods\<close>

text \<open>The response, \<open>None\<close> for nil, and whether a zero follows it.\<close>

definition conn_auth ::
  "'key crypto \<Rightarrow> slice \<Rightarrow> string \<Rightarrow> 'key mysqlConn \<Rightarrow> (driver_error + bytes option \<times> bool) go"
where
  "conn_auth cr authData plugin mc =
     (let cfg = conn_cfg mc; passwd = bytes_of_string (cf_Passwd cfg) in
      if plugin = ''caching_sha2_password'' then
        go_bind (scrambleSHA256Password cr (fst authData) passwd) (\<lambda>resp. Inr (Inr (resp, resp = None)))
      else if plugin = ''mysql_old_password'' then
        if \<not> cf_AllowOldPasswords cfg then Inr (Inl ErrOldPassword)
        else go_bind (slice_int authData 0 8) (\<lambda>d. go_bind (scrambleOldPassword d passwd) (\<lambda>resp.
          Inr (Inr (resp, True))))
      else if plugin = ''mysql_clear_password'' then
        if \<not> cf_AllowCleartextPasswords cfg then Inr (Inl ErrCleartextPassword)
        else Inr (Inr (Some passwd, True))
      else if plugin = ''mysql_native_password'' then
        if \<not> cf_AllowNativePasswords cfg then Inr (Inl ErrNativePassword)
        else go_bind (slice_int authData 0 20) (\<lambda>d. go_bind (scramblePassword cr (fst d) passwd) (\<lambda>resp.
          Inr (Inr (resp, False))))
      else if plugin = ''sha256_password'' then
        if passwd = [] then Inr (Inr (None, True))
        else if cf_tls cfg \<noteq> None \<or> cf_Net cfg = ''unix'' then Inr (Inr (Some passwd, True))
        else case cf_pubKey cfg of
            None \<Rightarrow> Inr (Inr (Some [1], False))
          | Some pubKey \<Rightarrow>
              go_bind (encryptPassword cr passwd (fst authData) pubKey) (\<lambda>r.
                Inr (map_sum id (\<lambda>enc. (Some enc, False)) r))
      else Inr (Inl ErrUnknownPlugin))"

definition nil_empty :: "bytes option \<Rightarrow> bytes" where
  "nil_empty b = (case b of None \<Rightarrow> [] | Some x \<Rightarrow> x)"

definition sendEncryptedPassword :: "'key crypto \<Rightarrow> bytes \<Rightarrow> 'key \<Rightarrow> 'key mysqlConn \<Rightarrow> (unit, 'key) drv" where
  "sendEncryptedPassword cr seed pub mc =
     go_bind (encryptPassword cr (bytes_of_string (cf_Passwd (conn_cfg mc))) seed pub) (\<lambda>r.
       case r of
         Inl e \<Rightarrow> Inr (Inl e, mc)
       | Inr enc \<Rightarrow> writeAuthSwitchPacket enc False mc)"

text \<open>The key for the full authentication of \<open>caching_sha2_password\<close>, asked for where none is configured.\<close>

definition request_public_key :: "'key crypto \<Rightarrow> 'key mysqlConn \<Rightarrow> ('key, 'key) drv" where
  "request_public_key cr mc =
     (case cf_pubKey (conn_cfg mc) of
        Some k \<Rightarrow> Inr (Inr k, mc)
      | None \<Rightarrow>
          go_bind (takeSmallBuffer (4 + 1) (conn_buf mc)) (\<lambda>d.
            case d of
              None \<Rightarrow> Inl IndexOutOfRange
            | Some data \<Rightarrow>
                go_bind (fill_packet data [2]) (\<lambda>data. go_bind (write_own data mc) (\<lambda>(_, mc).
                try_bind (readPacket mc) (\<lambda>data mc.
                go_bind (slice_rest data 1) (\<lambda>pem. go_bind (parse_key cr (fst pem)) (\<lambda>r.
                  Inr (r, mc)))))))) "

definition sha2_result :: "'key crypto \<Rightarrow> bytes \<Rightarrow> bytes \<Rightarrow> 'key mysqlConn \<Rightarrow> (unit, 'key) drv" where
  "sha2_result cr oldAuthData authData mc =
     (case authData of
        [] \<Rightarrow> Inr (Inr (), mc)
      | [c] \<Rightarrow>
          if c = 3 then readResultOK mc
          else if c = 4 then
            try_bind
              (if cf_tls (conn_cfg mc) \<noteq> None \<or> cf_Net (conn_cfg mc) = ''unix''
               then writeAuthSwitchPacket (bytes_of_string (cf_Passwd (conn_cfg mc))) True mc
               else try_bind (request_public_key cr mc) (\<lambda>k mc. sendEncryptedPassword cr oldAuthData k mc))
              (\<lambda>_ mc. readResultOK mc)
          else Inr (Inl ErrMalformPkt, mc)
      | _ \<Rightarrow> Inr (Inl ErrMalformPkt, mc))"

definition sha256_result :: "'key crypto \<Rightarrow> bytes \<Rightarrow> bytes \<Rightarrow> 'key mysqlConn \<Rightarrow> (unit, 'key) drv" where
  "sha256_result cr oldAuthData authData mc =
     (if authData = [] then Inr (Inr (), mc)
      else
        go_bind (parse_key cr authData) (\<lambda>r.
          case r of
            Inl e \<Rightarrow> Inr (Inl e, mc)
          | Inr pub \<Rightarrow>
              try_bind (sendEncryptedPassword cr oldAuthData pub mc) (\<lambda>_ mc. readResultOK mc)))"

definition switch_plugin ::
  "'key crypto \<Rightarrow> bytes \<Rightarrow> slice option \<Rightarrow> string \<Rightarrow> 'key mysqlConn \<Rightarrow> (bytes \<times> slice option, 'key) drv"
where
  "switch_plugin cr oldAuthData authData plugin mc =
     (let oldAuthData = (case authData of
            None \<Rightarrow> oldAuthData
          | Some d \<Rightarrow> take (length oldAuthData) (fst d) @ drop (length (fst d)) oldAuthData);
          challenge = (case authData of None \<Rightarrow> (oldAuthData, []) | Some d \<Rightarrow> d)
      in
      go_bind (conn_auth cr challenge plugin mc) (\<lambda>r.
        case r of
          Inl e \<Rightarrow> Inr (Inl e, mc)
        | Inr (authResp, addNUL) \<Rightarrow>
            try_bind (writeAuthSwitchPacket (nil_empty authResp) addNUL mc) (\<lambda>_ mc.
            try_bind (readAuthResult mc) (\<lambda>(authData, newPlugin) mc.
              if newPlugin \<noteq> [] then Inr (Inl ErrMalformPkt, mc)
              else Inr (Inr (oldAuthData, authData), mc)))))"

definition handleAuthResult :: "'key crypto \<Rightarrow> bytes \<Rightarrow> string \<Rightarrow> 'key mysqlConn \<Rightarrow> (unit, 'key) drv" where
  "handleAuthResult cr oldAuthData plugin mc =
     try_bind (readAuthResult mc) (\<lambda>(authData, newPlugin) mc.
     try_bind
       (if newPlugin \<noteq> [] then
          try_bind (switch_plugin cr oldAuthData authData newPlugin mc) (\<lambda>(old, d) mc.
            Inr (Inr (old, d, newPlugin), mc))
        else Inr (Inr (oldAuthData, authData, plugin), mc))
       (\<lambda>(oldAuthData, authData, plugin) mc.
         let d = (case authData of None \<Rightarrow> [] | Some s \<Rightarrow> fst s) in
         if plugin = ''caching_sha2_password'' then sha2_result cr oldAuthData d mc
         else if plugin = ''sha256_password'' then sha256_result cr oldAuthData d mc
         else Inr (Inr (), mc)))"

subsection \<open>Open\<close>

definition new_conn :: "'key conn_config \<Rightarrow> net_conn \<Rightarrow> infile_world \<Rightarrow> (bytes \<Rightarrow> bytes) \<Rightarrow> 'key mysqlConn" where
  "new_conn cfg nc world spare =
     \<lparr>conn_buf = newBuffer\<lparr>buf_timeout := cf_ReadTimeout cfg\<rparr>, conn_net = nc, conn_affectedRows = 0,
      conn_insertId = 0, conn_cfg = cfg, conn_maxAllowedPacket = int maxPacketSize,
      conn_maxWriteSize = int maxPacketSize - 1, conn_writeTimeout = cf_WriteTimeout cfg, conn_flags = 0,
      conn_status = 0, conn_sequence = 0, conn_parseTime = cf_ParseTime cfg, conn_canceled = None,
      conn_closed = False, conn_append_spare = spare, conn_infile = world\<rparr>"

text \<open>An error cleans up, without a command.\<close>

definition or_cleanup :: "('a, 'key) drv \<Rightarrow> ('a, 'key) drv" where
  "or_cleanup m = go_bind m (\<lambda>(r, mc). Inr (r, if isl r then cleanup mc else mc))"

definition or_close :: "('a, 'key) drv \<Rightarrow> ('a, 'key) drv" where
  "or_close m =
     go_bind m (\<lambda>(r, mc). if isl r then go_bind (conn_Close mc) (\<lambda>(_, mc). Inr (r, mc)) else Inr (r, mc))"

definition connect ::
  "'key crypto \<Rightarrow> (net_conn \<Rightarrow> driver_error + net_conn) \<Rightarrow> 'key mysqlConn \<Rightarrow> (unit, 'key) drv"
where
  "connect cr tls_client mc =
     try_bind (readHandshakePacket mc) (\<lambda>(authData, plugin) mc.
     go_bind (conn_auth cr (authData, []) plugin mc) (\<lambda>r.
     go_bind
       (case r of
          Inl _ \<Rightarrow> go_bind (conn_auth cr (authData, []) defaultAuthPlugin mc) (\<lambda>r. Inr (r, defaultAuthPlugin))
        | Inr _ \<Rightarrow> Inr (r, plugin)) (\<lambda>(r, plugin).
       case r of
         Inl e \<Rightarrow> Inr (Inl e, mc)
       | Inr (authResp, addNUL) \<Rightarrow>
           try_bind (writeHandshakeResponsePacket tls_client (nil_empty authResp) addNUL plugin mc)
             (\<lambda>_ mc. handleAuthResult cr authData plugin mc))))"

definition packet_limits ::
  "(bytes \<Rightarrow> driver_error + 'time) \<Rightarrow> 'key mysqlConn \<Rightarrow> (unit, 'key) drv"
where
  "packet_limits pdt mc =
     try_bind
       (if 0 < cf_MaxAllowedPacket (conn_cfg mc)
        then Inr (Inr (), mc\<lparr>conn_maxAllowedPacket := cf_MaxAllowedPacket (conn_cfg mc)\<rparr>)
        else
          try_bind (getSystemVar pdt ''max_allowed_packet'' mc) (\<lambda>(maxap, err) mc.
            case err of
              Some e \<Rightarrow> Inr (Inl e, mc)
            | None \<Rightarrow> Inr (Inr (), mc\<lparr>conn_maxAllowedPacket := to_int64 (stringToInt maxap - 1)\<rparr>)))
       (\<lambda>_ mc.
         Inr (Inr (), if conn_maxAllowedPacket mc < int maxPacketSize
           then mc\<lparr>conn_maxWriteSize := conn_maxAllowedPacket mc\<rparr> else mc))"

text \<open>\<open>Open\<close> from the dialled connection on; \<open>params\<close> is the order in which this run sees the parameters.\<close>

definition driver_Open ::
  "'key crypto \<Rightarrow> (net_conn \<Rightarrow> driver_error + net_conn) \<Rightarrow> (bytes \<Rightarrow> driver_error + 'time) \<Rightarrow>
   (string \<times> string) list \<Rightarrow> 'key mysqlConn \<Rightarrow> (unit, 'key) drv"
where
  "driver_Open cr tls_client pdt params mc =
     try_bind (or_cleanup (connect cr tls_client mc)) (\<lambda>_ mc.
     try_bind (or_close (packet_limits pdt mc)) (\<lambda>_ mc. or_close (handleParams params mc)))"

end
