(* ===== verification/DriverSession.thy ===== *)
theory DriverSession
  imports DriverQuery
begin

text \<open>
  Whole exchanges on a connection: a command is sent as frames from sequence number 0, and the
  answer to a query that selects rows comes back as its columns and rows.
\<close>

subsection \<open>Sending a command\<close>

definition idle :: "'key mysqlConn \<Rightarrow> bool" where
  "idle mc \<longleftrightarrow> buf_length (conn_buf mc) = 0 \<and> buffer_fits (conn_buf mc) \<and> net_quiet (conn_net mc) \<and>
     net_clean (conn_net mc) \<and> \<not> conn_closed mc \<and> defaultBufSize \<le> length (buf_bytes (conn_buf mc))"

definition commanded :: "bytes \<Rightarrow> 'key mysqlConn \<Rightarrow> 'key mysqlConn \<Rightarrow> bool" where
  "commanded p mc mc' \<longleftrightarrow>
     mc' = mc\<lparr>conn_buf := conn_buf mc', conn_net := (conn_net mc)\<lparr>net_out := net_out (conn_net mc) @ frames 0 p\<rparr>,
       conn_sequence := frame_count p\<rparr> \<and>
     buffer_fits (conn_buf mc') \<and> buf_length (conn_buf mc') = 0"

lemma write_own_sends:
  assumes "net_quiet (conn_net mc)" "length data = length p + 4" "drop 4 data = p"
    and "int (length p) \<le> conn_maxAllowedPacket mc" "length data \<le> length (buf_bytes (conn_buf mc))"
    and "buffer_fits (conn_buf mc)" "buf_length (conn_buf mc) = 0" "conn_sequence mc = 0"
  shows "\<exists>mc'. write_own data mc = Inr (None, mc') \<and> commanded p mc mc'"
proof -
  obtain data' where "writePacket data mc = Inr (None, data', sent p mc)" "length data' = length data"
    using writePacket_sends [OF assms(1-4)] by blast
  with assms(5-) show ?thesis
    by (auto simp: write_own_def commanded_def sent_def buffer_fits_def Let_def)
qed

lemma writeCommandPacket_sends:
  assumes "idle mc" "1 \<le> conn_maxAllowedPacket mc"
  shows "\<exists>mc'. writeCommandPacket command mc = Inr (None, mc') \<and> commanded [command] mc mc'"
proof -
  let ?mc = "mc\<lparr>conn_sequence := 0\<rparr>" and ?d = "take 5 (buf_bytes (conn_buf mc))"
  have idle: "buf_length (conn_buf mc) = 0" "buffer_fits (conn_buf mc)" "net_quiet (conn_net mc)"
    "5 \<le> length (buf_bytes (conn_buf mc))"
    using assms(1) by (simp_all add: idle_def defaultBufSize_def)
  then have d: "length ?d = 5" by simp
  then have "fill_packet ?d [command] = Inr (take 4 ?d @ [command])"
    by (simp add: fill_packet_def)
  moreover obtain mc' where w: "write_own (take 4 ?d @ [command]) ?mc = Inr (None, mc')" "commanded [command] ?mc mc'"
    using write_own_sends [of ?mc "take 4 ?d @ [command]" "[command]"] idle d assms(2) by auto
  moreover have "commanded [command] mc mc'" using w(2) by (simp add: commanded_def)
  ultimately show ?thesis
    using idle by (auto simp: writeCommandPacket_def takeSmallBuffer_def Let_def)
qed

lemma writeCommandPacketStr_sends:
  assumes "idle mc" "int (length arg) + 1 \<le> conn_maxAllowedPacket mc"
  shows "\<exists>mc'. writeCommandPacketStr command arg mc = Inr (None, mc') \<and>
    commanded (command # arg) mc mc'"
proof -
  let ?n = "1 + length arg + 4" and ?b = "conn_buf mc" and ?p = "command # arg"
  have idle: "buf_length ?b = 0" "buffer_fits ?b" "net_quiet (conn_net mc)" "defaultBufSize \<le> length (buf_bytes ?b)"
    using assms(1) by (simp_all add: idle_def)
  have fill: "fill_packet d ?p = Inr (take 4 d @ ?p)" if "length d = ?n" for d
    using that by (simp add: fill_packet_def)
  have len: "length (take 4 d @ ?p) = length ?p + 4" "drop 4 (take 4 d @ ?p) = ?p" if "length d = ?n" for d :: bytes
    using that by simp_all
  consider (small) "?n \<le> length (buf_bytes ?b)"
    | (medium) "length (buf_bytes ?b) < ?n" "?n < maxPacketSize"
    | (big) "length (buf_bytes ?b) < ?n" "maxPacketSize \<le> ?n" by linarith
  then show ?thesis
  proof cases
    case small
    let ?mc = "mc\<lparr>conn_sequence := 0\<rparr>" and ?d = "take ?n (buf_bytes ?b)"
    have d: "length ?d = ?n" using small by simp
    have "takeBuffer ?n ?b = Inr (Some (?d, True), ?b)"
      using small idle by (simp add: takeBuffer_def)
    moreover obtain mc' where "write_own (take 4 ?d @ ?p) ?mc = Inr (None, mc')" "commanded ?p ?mc mc'"
      using write_own_sends [of ?mc "take 4 ?d @ ?p" ?p] idle len [OF d] small assms(2) by auto
    moreover have "commanded ?p mc mc'" using \<open>commanded ?p ?mc mc'\<close> by (simp add: commanded_def)
    ultimately show ?thesis using fill [OF d] by (auto simp: writeCommandPacketStr_def Let_def)
  next
    case medium
    let ?d = "replicate ?n 0 :: bytes"
    let ?mc = "mc\<lparr>conn_sequence := 0, conn_buf := ?b\<lparr>buf_bytes := ?d\<rparr>\<rparr>"
    have d: "length ?d = ?n" by simp
    have "takeBuffer ?n ?b = Inr (Some (?d, True), ?b\<lparr>buf_bytes := ?d\<rparr>)"
      using medium idle by (simp add: takeBuffer_def)
    moreover have "buffer_fits (conn_buf ?mc)" using idle medium by (simp add: buffer_fits_def)
    then obtain mc' where "write_own (take 4 ?d @ ?p) ?mc = Inr (None, mc')" "commanded ?p ?mc mc'"
      using write_own_sends [of ?mc "take 4 ?d @ ?p" ?p] idle len [OF d] assms(2) by auto
    moreover have "commanded ?p mc mc'" using \<open>commanded ?p ?mc mc'\<close> by (simp add: commanded_def)
    ultimately show ?thesis using fill [OF d] by (auto simp: writeCommandPacketStr_def Let_def)
  next
    case big
    let ?mc = "mc\<lparr>conn_sequence := 0\<rparr>" and ?d = "replicate ?n 0 :: bytes"
    have d: "length ?d = ?n" by simp
    have "takeBuffer ?n ?b = Inr (Some (?d, False), ?b)"
      using big idle by (simp add: takeBuffer_def)
    moreover obtain data' where "writePacket (take 4 ?d @ ?p) ?mc = Inr (None, data', sent ?p ?mc)"
      using writePacket_sends [of ?mc "take 4 ?d @ ?p" ?p] idle len [OF d] assms(2) by auto
    moreover have "commanded ?p mc (sent ?p ?mc)"
      using idle by (simp add: commanded_def sent_def)
    ultimately show ?thesis using fill [OF d] by (auto simp: writeCommandPacketStr_def Let_def)
  qed
qed

lemma commanded_keeps:
  assumes "commanded p mc mc'" "idle mc"
  shows "net_clean (conn_net mc')" "buffer_fits (conn_buf mc')" "conn_sequence mc' = frame_count p"
    "unread (conn_buf mc') (conn_net mc') = net_pending (conn_net mc)"
    "conn_cfg mc' = conn_cfg mc" "conn_parseTime mc' = conn_parseTime mc" "conn_closed mc' = conn_closed mc"
    "net_out (conn_net mc') = net_out (conn_net mc) @ frames 0 p"
proof -
  have eq: "mc' = mc\<lparr>conn_buf := conn_buf mc', conn_net := (conn_net mc)\<lparr>net_out := net_out (conn_net mc) @ frames 0 p\<rparr>,
       conn_sequence := frame_count p\<rparr>"
    using assms(1) unfolding commanded_def by blast
  have nc: "conn_net mc' = (conn_net mc)\<lparr>net_out := net_out (conn_net mc) @ frames 0 p\<rparr>"
    by (subst eq) simp
  then show "net_clean (conn_net mc')" "net_out (conn_net mc') = net_out (conn_net mc) @ frames 0 p"
    using assms(2) by (simp_all add: idle_def net_clean_def)
  show "buffer_fits (conn_buf mc')" "unread (conn_buf mc') (conn_net mc') = net_pending (conn_net mc)"
    using assms(1) nc by (simp_all add: commanded_def unread_def net_pending_def)
  show "conn_sequence mc' = frame_count p" "conn_cfg mc' = conn_cfg mc" "conn_parseTime mc' = conn_parseTime mc"
    "conn_closed mc' = conn_closed mc"
    by (subst eq, simp)+
qed

subsection \<open>A query that selects rows\<close>

definition answer_packets ::
  "column_def list \<Rightarrow> bytes option list list \<Rightarrow> 16 word \<Rightarrow> 16 word \<Rightarrow> 16 word \<Rightarrow> 16 word \<Rightarrow> bytes list"
where
  "answer_packets cs rs w1 s1 w2 s2 =
     lei (word_of_nat (length cs)) # map column_packet cs @ eof_packet w1 s1 #
     map row_bytes rs @ [eof_packet w2 s2]"

lemma lei_first_byte:
  "n \<noteq> 0 \<Longrightarrow> lei n ! 0 \<noteq> iOK" "lei n ! 0 \<noteq> iERR" "lei n ! 0 \<noteq> iLocalInFile"
proof -
  have h: "lei n ! 0 = hd (lei n)" using lei_head(1) by (simp add: hd_conv_nth)
  show "lei n ! 0 \<noteq> iERR" "lei n ! 0 \<noteq> iLocalInFile"
    using lei_head(2,3) [of n] h by (simp_all add: iERR_def iLocalInFile_def)
  assume n: "n \<noteq> 0"
  show "lei n ! 0 \<noteq> iOK"
  proof (cases "n \<le> 250")
    case True
    have "unat n \<noteq> 0" using n by (simp add: unat_eq_0)
    moreover have "unat (ucast n :: byte) = unat n"
      using True by (simp add: unsigned_ucast_eq take_bit_eq_mod word_le_nat_alt)
    ultimately have "(ucast n :: byte) \<noteq> 0" by (metis unsigned_0)
    with True h show ?thesis by (simp add: lei_forms iOK_def)
  next
    case False
    with h show ?thesis by (auto simp: lei_forms iOK_def)
  qed
qed

lemma readResultSetHeaderPacket_reads:
  assumes "0 < k" "int k < 2 ^ 63" "net_clean (conn_net mc)" "buffer_fits (conn_buf mc)"
    and "unread (conn_buf mc) (conn_net mc) = frames (conn_sequence mc) (lei (word_of_nat k)) @ rest"
  shows "\<exists>mc'. readResultSetHeaderPacket mc = Inr (Inr (int k), mc') \<and>
    reads_packet mc (lei (word_of_nat k)) rest mc'"
proof -
  let ?w = "word_of_nat k :: 64 word"
  have u: "uint ?w = int k" using assms(2) by (simp add: uint_nat unat_of_nat)
  then have "?w \<noteq> 0" using assms(1) by (metis of_nat_0_eq_iff gr_implies_not0 unsigned_0)
  note first = lei_first_byte(1) [OF this] lei_first_byte(2,3) [of ?w]
  obtain spare mc1 where "readPacket mc = Inr (Inr (lei ?w, spare), mc1)" and "reads_packet mc (lei ?w) rest mc1"
    using readPacket_reads [OF assms(3,4) lei_head(1) assms(5)] by blast
  moreover have "readLengthEncodedInteger (lei ?w) = Inr (?w, False, length (lei ?w))"
    using read_append_lei [of ?w "[]"] by simp
  ultimately show ?thesis
    using first u assms(2) length_lei_le(2) [of ?w] to_int64_small [of k]
    by (auto simp: readResultSetHeaderPacket_def lei_head(1))
qed

lemma query_returns_rows:
  assumes "idle mc" "\<not> conn_parseTime mc" "int (length q) + 1 \<le> conn_maxAllowedPacket mc"
    and "cs \<noteq> []" "int (length cs) < 2 ^ 63" "list_all column_ok cs"
    and "\<And>r. r \<in> set rs \<Longrightarrow> length r = length cs \<and> list_all column_fits r"
    and "net_pending (conn_net mc) =
      packets (frame_count (comQuery # q)) (answer_packets cs rs w1 s1 w2 s2) @ rest"
  shows "\<exists>rows mc1 rows' mc2.
    query local ff q [] mc = Inr ((None, Some rows), mc1) \<and>
    rows_columns rows = map (\<lambda>c. field_of (cf_ColumnsWithAlias (conn_cfg mc)) c mysqlField_zero) cs \<and>
    fetch_rows pdt (length cs) rows mc1 = Inr (map (map column_value) rs, EOF, rows', mc2) \<and>
    conn_status mc2 = s2 \<and> unread (conn_buf mc2) (conn_net mc2) = rest \<and>
    net_out (conn_net mc1) = net_out (conn_net mc) @ frames 0 (comQuery # q)"
proof -
  obtain mc1 where w: "writeCommandPacketStr comQuery q mc = Inr (None, mc1)"
    and k1: "commanded (comQuery # q) mc mc1"
    using writeCommandPacketStr_sends [OF assms(1,3)] by blast
  note k1 = commanded_keeps [OF k1 assms(1)]
  let ?h = "lei (word_of_nat (length cs))"
  let ?s = "frame_count (comQuery # q) + frame_count ?h"
  obtain mc2 where h: "readResultSetHeaderPacket mc1 = Inr (Inr (int (length cs)), mc2)"
    and k2: "reads_packet mc1 ?h
      (packets ?s (map column_packet cs @ eof_packet w1 s1 # map row_bytes rs @ [eof_packet w2 s2]) @ rest) mc2"
    using readResultSetHeaderPacket_reads [OF _ assms(5) k1(1,2)] assms(4,8) k1(3,4)
    by (auto simp: answer_packets_def)
  note keep2 = reads_packet_keeps [OF k2]
  let ?s3 = "?s + (\<Sum>c \<leftarrow> cs. frame_count (column_packet c)) + frame_count (eof_packet w1 s1)"
  have eof1: "frame_count (eof_packet w s) = 1" for w s
    by (intro frame_count_short) (simp add: eof_packet_def maxPacketSize_eq)
  have "packets ?s (map column_packet cs @ eof_packet w1 s1 # map row_bytes rs @ [eof_packet w2 s2]) =
      packets ?s (map column_packet cs @ [eof_packet w1 s1]) @
      packets ?s3 (map row_bytes rs @ [eof_packet w2 s2])"
    by (simp add: packets_append add.assoc comp_def)
  with k2 keep2 k1 have p2: "unread (conn_buf mc2) (conn_net mc2) =
      packets (conn_sequence mc2) (map column_packet cs @ [eof_packet w1 s1]) @
      packets ?s3 (map row_bytes rs @ [eof_packet w2 s2]) @ rest"
    "net_clean (conn_net mc2)" "buffer_fits (conn_buf mc2)"
    by (simp_all add: reads_packet_def)
  obtain mc3 where c: "readColumns (int (length cs)) mc2 =
      Inr (Inr (map (\<lambda>c. field_of (cf_ColumnsWithAlias (conn_cfg mc2)) c mysqlField_zero) cs), mc3)"
    and k3: "net_clean (conn_net mc3)" "buffer_fits (conn_buf mc3)"
      "unread (conn_buf mc3) (conn_net mc3) = packets ?s3 (map row_bytes rs @ [eof_packet w2 s2]) @ rest"
      "conn_sequence mc3 = conn_sequence mc2 + (\<Sum>c \<leftarrow> cs. frame_count (column_packet c)) + 1"
      "conn_parseTime mc3 = conn_parseTime mc2" "net_out (conn_net mc3) = net_out (conn_net mc2)"
    using readColumns_reads [OF assms(6) p2(2,3,1)] by blast
  let ?rows = "\<lparr>rows_open = True, rows_columns =
    map (\<lambda>c. field_of (cf_ColumnsWithAlias (conn_cfg mc)) c mysqlField_zero) cs, rows_done = False\<rparr>"
  have q: "query local ff q [] mc = Inr ((None, Some ?rows), mc3)"
    using assms(1,4) w h c keep2 k1 by (simp add: query_def prepared_query_def idle_def)
  have "conn_sequence mc3 = ?s3" using k3(4) keep2(3) k1(3) eof1 by (simp add: add.assoc)
  then obtain rows' mc4 where
    "fetch_rows pdt (length cs) ?rows mc3 = Inr (map (map column_value) rs, EOF, rows', mc4)"
    "conn_status mc4 = s2" "unread (conn_buf mc4) (conn_net mc4) = rest"
    using fetch_rows_all [of "length cs" rs ?rows mc3 w2 s2 rest pdt] assms(2,4,7) k1 k3 keep2 by auto
  with q k3(6) keep2(6) k1(8) show ?thesis by auto
qed

subsection \<open>Parameters in a query\<close>

text \<open>The query with the texts of the arguments for its question marks.\<close>

fun substituted :: "bytes \<Rightarrow> bytes list \<Rightarrow> bytes" where
  "substituted [] ts = []"
| "substituted (c # q) ts =
     (if c \<noteq> 0x3F then c # substituted q ts
      else case ts of [] \<Rightarrow> [] | t # ts \<Rightarrow> t @ substituted q ts)"

definition arg_text :: "(time_fields \<Rightarrow> time_fields) \<Rightarrow> (64 word \<Rightarrow> bytes) \<Rightarrow> bool \<Rightarrow> time_fields driver_value \<Rightarrow> (driver_error + bytes) go" where
  "arg_text local ff nb arg = append_arg local ff nb [] arg"

lemma append_arg_text:
  "append_arg local ff nb buf arg = go_bind (arg_text local ff nb arg) (\<lambda>r. Inr (map_sum id ((@) buf) r))"
proof (cases arg)
  case (VTime t)
  then show ?thesis
    by (cases "quoted_time (if tf_zero t then t else local t)") (simp_all add: append_arg_def arg_text_def)
qed (simp_all add: append_arg_def arg_text_def escape_appends)

text \<open>Small enough at every step: the loop compares the text so far with \<open>max_allowed_packet\<close>.\<close>

lemma interpolate_loop_substitutes:
  assumes "length (filter (\<lambda>c. c = 0x3F) q) = length args"
    and "list_all2 (\<lambda>a t. arg_text local ff nb a = Inr (Inr t)) args ts"
    and "int (length buf + length (substituted q ts)) + 4 \<le> maxAllowed"
  shows "interpolate_loop (append_arg local ff nb) maxAllowed q args buf =
    Inr (Inr (buf @ substituted q ts, []))"
  using assms
proof (induction q arbitrary: args ts buf)
  case (Cons c q)
  show ?case
  proof (cases "c = 0x3F")
    case True
    with Cons.prems(1,2) obtain a args' t ts' where
      a: "args = a # args'" "ts = t # ts'" "arg_text local ff nb a = Inr (Inr t)"
        "list_all2 (\<lambda>a t. arg_text local ff nb a = Inr (Inr t)) args' ts'"
      by (cases args) (auto simp: list_all2_Cons1)
    with True Cons.prems Cons.IH [of args' ts' "buf @ t"] show ?thesis
      by (auto simp: append_arg_text)
  next
    case False
    with Cons.prems Cons.IH [of args ts "buf @ [c]"] show ?thesis by auto
  qed
qed simp

lemma interpolateParams_substitutes:
  assumes "buf_length (conn_buf mc) = 0" "length (filter (\<lambda>c. c = 0x3F) q) = length args"
    and "list_all2 (\<lambda>a t. arg_text local ff (conn_status mc AND statusNoBackslashEscapes \<noteq> 0) a = Inr (Inr t)) args ts"
    and "int (length (substituted q ts)) + 4 \<le> conn_maxAllowedPacket mc"
  shows "interpolateParams local ff q args mc = Inr (Inr (substituted q ts))"
  using assms interpolate_loop_substitutes [OF assms(2,3), of "[]" "conn_maxAllowedPacket mc"]
  by (simp add: interpolateParams_def takeCompleteBuffer_def)

text \<open>A string argument is read by the server as one literal with the value of the argument.\<close>

lemma arg_text_string:
  "arg_text local ff nb (VString v) =
     Inr (Inr (0x27 # (if nb then escaped_quotes v else escaped_backslash v) @ [0x27]))"
proof -
  have "bytes_of_string (string_of_bytes v) = v"
    using byte_lt_256 by (auto simp: bytes_of_string_def string_of_bytes_def comp_def intro!: map_idI)
  then show ?thesis by (simp add: arg_text_def append_arg_def escape_appends)
qed

lemma string_argument_is_one_literal:
  assumes "0x3F \<notin> set pre" "0x3F \<notin> set post" "take 1 post \<noteq> [0x27]" "buf_length (conn_buf mc) = 0"
    and "int (length pre + 2 * length v + length post) + 6 \<le> conn_maxAllowedPacket mc"
  shows "\<exists>text. interpolateParams local ff (pre @ 0x3F # post) [VString v] mc = Inr (Inr (pre @ 0x27 # text)) \<and>
    lex_literal (conn_status mc AND statusNoBackslashEscapes = 0) text = Some (v, post)"
proof -
  let ?nb = "conn_status mc AND statusNoBackslashEscapes \<noteq> 0"
  let ?e = "if ?nb then escaped_quotes v else escaped_backslash v"
  have no: "substituted p ts = p" if "0x3F \<notin> set p" for p ts
    using that by (induction p) auto
  have sub: "substituted (pre @ 0x3F # post) [0x27 # ?e @ [0x27]] = pre @ 0x27 # ?e @ 0x27 # post"
    using assms(1) no [OF assms(2), of "[]"] by (induction pre) auto
  have none: "filter (\<lambda>c. c = 0x3F) pre = []" "filter (\<lambda>c. c = 0x3F) post = []"
    using assms(1,2) by (auto simp: filter_empty_conv)
  have "length ?e \<le> 2 * length v" using length_escaped [of v] by simp
  then have "interpolateParams local ff (pre @ 0x3F # post) [VString v] mc = Inr (Inr (pre @ 0x27 # ?e @ 0x27 # post))"
    using assms(4,5) none interpolateParams_substitutes [of mc "pre @ 0x3F # post" "[VString v]" local ff "[0x27 # ?e @ [0x27]]"] sub
    by (simp add: arg_text_string)
  moreover have "lex_literal (\<not> ?nb) (?e @ 0x27 # post) = Some (v, post)"
    using lex_escaped [OF assms(3), of v] by simp
  ultimately show ?thesis by auto
qed

text \<open>A year of five digits or a negative one is out of the digit tables.\<close>

lemma digits_at_out: "i < 0 \<or> 100 \<le> i \<Longrightarrow> digits_at i = Inl IndexOutOfRange"
  by (auto simp: digits_at_def at_int_def go_at_def)

lemma large_year_panics:
  assumes "\<not> tf_zero t" "\<not> tf_zero (local t)" "9999 < tf_year (local t) \<or> tf_year (local t) < 0"
  shows "append_arg local ff nb buf (VTime t) = Inl IndexOutOfRange"
proof -
  let ?y = "tf_year (local t)"
  consider (large) "9999 < ?y" | (small) "?y \<le> - 100" | (tiny) "- 100 < ?y" "?y < 0"
    using assms(3) by linarith
  then have "quoted_time (local t) = Inl IndexOutOfRange"
  proof cases
    case large
    then have "100 \<le> trunc_div ?y 100" by (simp add: trunc_div_def)
    then show ?thesis using assms(2) by (simp add: quoted_time_def digits_at_out)
  next
    case small
    then have "1 \<le> \<bar>?y\<bar> div 100" by simp
    with small have "trunc_div ?y 100 < 0" by (simp add: trunc_div_def)
    then show ?thesis using assms(2) by (simp add: quoted_time_def digits_at_out)
  next
    case tiny
    then have "trunc_div ?y 100 = 0" "trunc_rem ?y 100 < 0" by (simp_all add: trunc_rem_def trunc_div_def)
    moreover have "digits_at 0 = Inr [0x30, 0x30]"
      by (simp add: digits_at_def at_int_def go_at_def digits10_def digits01_def bytes_of_string_def)
    ultimately show ?thesis using assms(2) by (simp add: quoted_time_def digits_at_out)
  qed
  with assms(1) show ?thesis by (simp add: append_arg_def)
qed

subsection \<open>A broken connection\<close>

text \<open>A read that fails on the network closes the connection, and a closed one refuses commands.\<close>

lemma cleanup_closes [simp]: "conn_closed (cleanup mc)"
  by (simp add: cleanup_def)

lemma read_failed_closes:
  "read_failed mc = Inr (Inl e, mc') \<Longrightarrow>
   conn_canceled mc = Some e \<and> conn_closed mc' = conn_closed mc \<or> e = ErrInvalidConn \<and> conn_closed mc'"
  by (auto simp: read_failed_def broken_conn_def conn_Close_def go_bind_eq_Inr split: option.splits)

text \<open>A packet out of order is reported and closes nothing, and so is a read that fails on a cancelled
  connection; every other failed read of a packet leaves the connection closed.\<close>

lemma broken_conn_closes:
  "broken_conn mc = Inr (r, mc') \<Longrightarrow> r = Inl ErrInvalidConn \<and> conn_closed mc'"
  by (auto simp: broken_conn_def conn_Close_def go_bind_eq_Inr)

lemma readPacket_loop_fails:
  "readPacket_loop prev mc = Inr (Inl e, mc') \<Longrightarrow>
   (e \<in> {ErrPktSync, ErrPktSyncMul} \<or> conn_canceled mc = Some e) \<and> conn_closed mc' = conn_closed mc \<or>
   e = ErrInvalidConn \<and> conn_closed mc'"
proof (induction "left mc" arbitrary: prev mc rule: less_induct)
  case less
  from less.prems obtain r1 b1 nc1 where r1: "readNext 4 (conn_buf mc) (conn_net mc) = Inr (r1, b1, nc1)"
    by (auto simp: readPacket_loop.simps [of prev mc] go_bind_eq_Inr)
  show ?case
  proof (cases r1)
    case (Inl err)
    with less.prems r1 show ?thesis
      by (auto simp: readPacket_loop.simps [of prev mc] Let_def dest!: read_failed_closes)
  next
    case (Inr s1)
    obtain data spare where s1: "s1 = (data, spare)" by force
    let ?mc1 = "mc\<lparr>conn_buf := b1, conn_net := nc1, conn_sequence := conn_sequence mc + 1\<rparr>"
    let ?k = "packet_length data"
    show ?thesis
    proof (cases "data ! 3 = conn_sequence mc \<and> ?k \<noteq> 0")
      case False
      with less.prems r1 Inr s1 show ?thesis
        by (auto simp: readPacket_loop.simps [of prev mc] Let_def dest!: broken_conn_closes split: if_splits)
    next
      case True
      with less.prems r1 Inr s1 obtain r2 b2 nc2 where
        r2: "readNext ?k b1 nc1 = Inr (r2, b2, nc2)"
        by (auto simp: readPacket_loop.simps [of prev mc] Let_def go_bind_eq_Inr)
      let ?mc2 = "?mc1\<lparr>conn_buf := b2, conn_net := nc2\<rparr>"
      show ?thesis
      proof (cases r2)
        case (Inl err)
        with less.prems r1 \<open>r1 = Inr s1\<close> s1 True r2 show ?thesis
          by (auto simp: readPacket_loop.simps [of prev mc] Let_def dest!: read_failed_closes)
      next
        case (Inr s2)
        obtain d sp where s2: "s2 = (d, sp)" by force
        let ?all = "(fst prev @ d, conn_append_spare ?mc2 (fst prev @ d))"
        have "readPacket_loop ?all ?mc2 = Inr (Inl e, mc') \<and> \<not> ?k < maxPacketSize"
          using less.prems r1 \<open>r1 = Inr s1\<close> s1 True r2 Inr s2
          by (auto simp: readPacket_loop.simps [of prev mc] Let_def split: if_splits)
        moreover have "stream_left b2 nc2 < left mc"
          using readNext_left(1) [of 4 "conn_buf mc" "conn_net mc"] r1 \<open>r1 = Inr s1\<close>
            readNext_left(1) [of ?k b1 nc1] r2 Inr by (fastforce simp: left_def)
        then have "left ?mc2 < left mc" by (simp add: left_def)
        ultimately show ?thesis using less.hyps [of ?mc2 ?all] by simp
      qed
    qed
  qed
qed

lemma closed_connection_refuses:
  assumes "conn_closed mc"
  shows "query local ff q args mc = Inr ((Some ErrBadConn, None), mc)"
    and "conn_Exec local ff q args mc = Inr (Inl ErrBadConn, mc)"
    and "conn_begin ro mc = Inr (Inl ErrBadConn, mc)"
    and "Ping mc = Inr (Inl ErrBadConn, mc)"
    and "Commit opn mc = Inr ((Some ErrInvalidConn, opn), mc)"
    and "Rollback opn mc = Inr ((Some ErrInvalidConn, opn), mc)"
    and "conn_Close mc = Inr (None, mc)"
  using assms
  by (simp_all add: query_def conn_Exec_def conn_begin_def Ping_def Commit_def Rollback_def tx_end_def
      conn_Close_def cleanup_def)

end
