(* ===== verification/DriverLogin.thy ===== *)
theory DriverLogin
  imports DriverAuth DriverSession
begin

text \<open>
  What the connection phase does: the old hash stays in the printable range, the response to a
  native challenge is what the server checks, the server's greeting is read, the response packet is
  what was in the buffer behind a short plugin name, and the old authentication switch is refused.
\<close>

subsection \<open>The old hash\<close>

lemma mod_max_less: "unat (x mod myRndMaxVal) < 0x3FFFFFFF"
  by (simp add: myRndMaxVal_def unat_mod)

lemma next_byte_less:
  assumes "NextByte r = (b, r')" shows "b < 32"
proof -
  define s where "s = (seed1 r * 3 + seed2 r) mod myRndMaxVal"
  have s: "unat s < 0x3FFFFFFF" unfolding s_def by (rule mod_max_less)
  have "unat ((ucast s :: 64 word) * 31 div ucast myRndMaxVal) = unat s * 31 div 0x3FFFFFFF"
    using s by (simp add: myRndMaxVal_def unat_div unat_word_ariths unsigned_ucast_eq take_bit_eq_mod)
  also have "\<dots> < 31" using s by (simp add: less_mult_imp_div_less)
  finally have "unat ((ucast s :: 64 word) * 31 div ucast myRndMaxVal) < 31" .
  moreover have "b = ucast ((ucast s :: 64 word) * 31 div ucast myRndMaxVal)"
    using assms by (simp add: NextByte_def Let_def s_def)
  ultimately have "unat b < 31"
    by (simp add: unsigned_ucast_eq take_bit_eq_mod)
  then show ?thesis by (simp add: word_less_nat_alt)
qed

lemma next_bytes_range:
  "next_bytes k r = (bs, r') \<Longrightarrow> length bs = k \<and> (\<forall>b \<in> set bs. \<exists>c < 32. b = c + 64)"
proof (induction k arbitrary: r bs r')
  case (Suc k)
  then obtain b r1 bs1 where "NextByte r = (b, r1)" "next_bytes k r1 = (bs1, r')" "bs = (b + 64) # bs1"
    by (auto simp: Let_def split: prod.splits)
  with Suc.IH [of r1 bs1 r'] next_byte_less [of r b r1] show ?case by auto
qed simp

lemma xor_in_range:
  fixes c m :: byte
  assumes "c < 32" "m < 32" shows "64 \<le> (c + 64) XOR m \<and> (c + 64) XOR m < 96"
proof -
  have small: "take_bit 5 x = x" if "x < 32" for x :: byte
  proof -
    have "unat x < 2 ^ 5" using that by (simp add: word_less_nat_alt)
    then show ?thesis by (metis take_bit_nat_eq_self unsigned_take_bit_eq unsigned_word_eqI)
  qed
  have c5: "\<not> bit c n" "\<not> bit m n" if "5 \<le> n" for n
    using small [OF assms(1)] small [OF assms(2)] that by (metis bit_take_bit_iff not_le)+
  have b64: "bit (64 :: byte) n \<longleftrightarrow> n = 6" for n
  proof -
    have "(64 :: byte) = push_bit 6 1" by simp
    then show ?thesis by (simp only: bit_push_bit_iff) (auto simp: bit_1_iff)
  qed
  have c6: "\<not> bit c 6" "\<not> bit m 6" using c5 [of 6] by simp_all
  have disj: "(c XOR m) AND 64 = 0"
    by (rule bit_eqI) (use c6 in \<open>auto simp only: bit_and_iff bit_xor_iff b64 bit_0_eq\<close>)
  have "(c + 64) XOR m = (c XOR m) OR 64"
  proof -
    have "c AND 64 = 0"
      by (rule bit_eqI) (use c6 in \<open>auto simp only: bit_and_iff b64 bit_0_eq\<close>)
    then have "c + 64 = c OR 64" by (simp add: or_eq_plus_disjoint)
    then show ?thesis
      by (simp only:) (rule bit_eqI, use c6 in \<open>auto simp only: bit_or_iff bit_xor_iff b64\<close>)
  qed
  also have "\<dots> = (c XOR m) + 64" using disj by (rule or_eq_plus_disjoint)
  finally have eq: "(c + 64) XOR m = (c XOR m) + 64" .
  have "take_bit 5 (c XOR m) = c XOR m"
    using small [OF assms(1)] small [OF assms(2)] by (simp add: take_bit_xor)
  then have "unat (c XOR m) < 2 ^ 5" by (metis take_bit_nat_less_exp unsigned_take_bit_eq)
  then have "unat ((c XOR m) + 64) = unat (c XOR m) + 64" by (simp add: unat_word_ariths)
  with \<open>unat (c XOR m) < 2 ^ 5\<close> show ?thesis
    unfolding eq by (simp add: word_le_nat_alt word_less_nat_alt)
qed

lemma old_scramble_range:
  assumes "scrambleOldPassword scramble password = Inr (Some out)"
  shows "length out = 8 \<and> (\<forall>b \<in> set out. 64 \<le> b \<and> b < 96)"
proof -
  from assms obtain s where s: "slice_int scramble 0 8 = Inr s"
    by (auto simp: scrambleOldPassword_def go_bind_eq_Inr split: if_splits)
  let ?r = "newMyRnd (fst (pwHash password) XOR fst (pwHash (fst s)))
    (snd (pwHash password) XOR snd (pwHash (fst s)))"
  obtain bs r1 where bs: "next_bytes 8 ?r = (bs, r1)" by (metis surj_pair)
  obtain mask r2 where mask: "NextByte r1 = (mask, r2)" by (metis surj_pair)
  have out: "out = map (\<lambda>b. b XOR mask) bs"
    using assms s bs mask by (auto simp: scrambleOldPassword_def Let_def split: if_splits)
  from next_bytes_range [OF bs] next_byte_less [OF mask] xor_in_range show ?thesis
    unfolding out by auto
qed

subsection \<open>The native challenge\<close>

text \<open>What the server does: it keeps \<open>stored = sha1 (sha1 password)\<close>.\<close>

definition server_accepts :: "'key crypto \<Rightarrow> bytes \<Rightarrow> bytes \<Rightarrow> bytes \<Rightarrow> bool" where
  "server_accepts cr stored challenge token \<longleftrightarrow>
     (let mask = sha1 cr (challenge @ stored)
      in length token = length mask \<and> sha1 cr (map (\<lambda>(x, y). x XOR y) (zip mask token)) = stored)"

lemma xor_into_zip: "length xs = length ys \<Longrightarrow> xor_into xs ys = Inr (map (\<lambda>(x, y). x XOR y) (zip xs ys))"
  by (induction xs ys rule: list_induct2) simp_all

lemma xor_zip_back:
  "length xs = length ys \<Longrightarrow> map (\<lambda>(x, y). x XOR y) (zip xs (map (\<lambda>(x, y). x XOR y) (zip xs ys))) = (ys :: bytes)"
  by (induction xs ys rule: list_induct2) (simp_all add: bit.xor_left_self)

lemma native_token_accepted:
  assumes "\<And>x. length (sha1 cr x) = 20" "password \<noteq> []"
  shows "\<exists>token. scramblePassword cr challenge password = Inr (Some token) \<and> length token = 20 \<and>
    server_accepts cr (sha1 cr (sha1 cr password)) challenge token"
proof -
  let ?s = "sha1 cr (challenge @ sha1 cr (sha1 cr password))"
  have "length ?s = length (sha1 cr password)" using assms(1) by simp
  from xor_into_zip [OF this] xor_zip_back [OF this] assms show ?thesis
    by (simp add: scramblePassword_def server_accepts_def Let_def)
qed

subsection \<open>The server's greeting\<close>

text \<open>Protocol version 10, with the authentication plugin named at the end.\<close>

record greeting =
  gr_version :: bytes
  gr_connection :: "32 word"
  gr_challenge1 :: bytes
  gr_flags :: "16 word"
  gr_charset :: byte
  gr_status :: "16 word"
  gr_flags_high :: "16 word"
  gr_challenge2 :: bytes
  gr_plugin :: bytes

definition greeting_packet :: "greeting \<Rightarrow> bytes" where
  "greeting_packet g =
     0x0A # gr_version g @ [0] @ le_bytes 4 (gr_connection g) @ gr_challenge1 g @ [0] @
     le_bytes 2 (gr_flags g) @ [gr_charset g] @ le_bytes 2 (gr_status g) @ le_bytes 2 (gr_flags_high g) @
     [21] @ replicate 10 0 @ gr_challenge2 g @ [0] @ gr_plugin g @ [0]"

definition greeting_ok :: "greeting \<Rightarrow> bool" where
  "greeting_ok g \<longleftrightarrow> 0 \<notin> set (gr_version g) \<and> length (gr_challenge1 g) = 8 \<and>
     length (gr_challenge2 g) = 12 \<and> 0 \<notin> set (gr_plugin g)"

lemma index_byte_first: "c \<notin> set xs \<Longrightarrow> index_byte (xs @ c # ys) c = int (length xs)"
proof -
  assume "c \<notin> set xs"
  then have "takeWhile (\<lambda>x. x \<noteq> c) (xs @ c # ys) = xs" by (induction xs) auto
  then show ?thesis by (simp add: index_byte_def)
qed

lemma readHandshakePacket_reads:
  assumes "greeting_ok g" "net_clean (conn_net mc)" "buffer_fits (conn_buf mc)"
    and "unread (conn_buf mc) (conn_net mc) = frames (conn_sequence mc) (greeting_packet g) @ rest"
    and "ucast (gr_flags g) AND clientProtocol41 \<noteq> 0"
    and "cf_tls (conn_cfg mc) = None"
  shows "\<exists>mc'. readHandshakePacket mc =
    Inr (Inr (gr_challenge1 g @ gr_challenge2 g, string_of_bytes (gr_plugin g)), mc') \<and>
    conn_flags mc' = ucast (gr_flags g) \<and> conn_cfg mc' = conn_cfg mc"
proof -
  define P where "P = greeting_packet g"
  let ?v = "gr_version g" and ?c1 = "gr_challenge1 g" and ?c2 = "gr_challenge2 g"
  let ?head = "0x0A # ?v @ [0] @ le_bytes 4 (gr_connection g)"
  let ?mid = "[gr_charset g] @ le_bytes 2 (gr_status g) @ le_bytes 2 (gr_flags_high g) @ [21] @ replicate 10 0"
  let ?final = "gr_plugin g @ [0]"
  have c: "length ?c1 = 8" "length ?c2 = 12" using assms(1) by (simp_all add: greeting_ok_def)
  have P1: "P = ?head @ ?c1 @ ([0] @ le_bytes 2 (gr_flags g) @ ?mid @ ?c2 @ [0] @ ?final)"
    and P2: "P = (?head @ ?c1 @ [0]) @ le_bytes 2 (gr_flags g) @ (?mid @ ?c2 @ [0] @ ?final)"
    and P3: "P = (?head @ ?c1 @ [0] @ le_bytes 2 (gr_flags g) @ ?mid) @ ?c2 @ ([0] @ ?final)"
    and P4: "P = (?head @ ?c1 @ [0] @ le_bytes 2 (gr_flags g) @ ?mid @ ?c2 @ [0]) @ ?final @ []"
    by (simp_all add: P_def greeting_packet_def)
  have Pd: "P \<noteq> []" "P ! 0 = 0x0A" by (simp_all add: P_def greeting_packet_def)
  obtain tail where tail: "drop 1 P = ?v @ 0 # tail" by (simp add: P_def greeting_packet_def)
  obtain spare mc1 where r: "readPacket mc = Inr (Inr (P, spare), mc1)" and rp: "reads_packet mc P rest mc1"
    using readPacket_reads [OF assms(2,3) Pd(1)] assms(4) unfolding P_def by blast
  define pos where "pos = 6 + int (length ?v)"
  have ix: "1 + index_byte (drop 1 P) 0 + 1 + 4 = pos"
    unfolding tail using assms(1) by (simp add: index_byte_first greeting_ok_def pos_def)
  have s1: "slice_int (P, spare) pos (pos + 8) = Inr (?c1, ([0] @ le_bytes 2 (gr_flags g) @ ?mid @ ?c2 @ [0] @ ?final) @ spare)"
    by (rule slice_int_mid [OF P1]) (simp_all add: pos_def c)
  have s2: "slice_int (P, spare) (pos + 9) (pos + 11) = Inr (le_bytes 2 (gr_flags g), (?mid @ ?c2 @ [0] @ ?final) @ spare)"
    by (rule slice_int_mid [OF P2]) (simp_all add: pos_def c)
  have s3: "slice_int (P, spare) (pos + 11 + 16) (pos + 11 + 28) = Inr (?c2, ([0] @ ?final) @ spare)"
    by (rule slice_int_mid [OF P3]) (simp_all add: pos_def c)
  have len: "int (length P) = pos + 40 + int (length ?final)"
    unfolding P4 by (simp add: pos_def c)
  have s4: "slice_rest (P, spare) (pos + 11 + 29) = Inr (?final, spare)"
    unfolding slice_rest_def fst_conv using slice_int_mid [OF P4, of "pos + 40" "int (length P)" spare] len
    by (simp add: pos_def c)
  have s5: "slice_int (P, spare) (pos + 11 + 29) (pos + 11 + 29 + int (length (gr_plugin g))) = Inr (gr_plugin g, [0] @ spare)"
    using slice_int_mid [of P "?head @ ?c1 @ [0] @ le_bytes 2 (gr_flags g) @ ?mid @ ?c2 @ [0]" "gr_plugin g" "[0]"
      "pos + 40" "pos + 40 + int (length (gr_plugin g))" spare] P4
    by (simp add: pos_def c)
  have pl: "plugin_name (P, spare) (pos + 11 + 29) = Inr (string_of_bytes (gr_plugin g))"
    using s4 s5 index_byte_first [of 0 "gr_plugin g" "[]"] assms(1)
    by (simp add: plugin_name_def greeting_ok_def)
  have fl: "le_uint16 (le_bytes 2 (gr_flags g)) = Inr (gr_flags g)"
    using le_uint16_le_bytes [of "gr_flags g" "[]"] by simp
  have cp: "copied 20 (?c1 @ ?c2) = ?c1 @ ?c2" by (simp add: copied_def c)
  have keep: "conn_cfg mc1 = conn_cfg mc" using reads_packet_keeps [OF rp] by simp
  have ix': "index_byte (drop (Suc 0) P) 0 = int (length ?v)"
    using ix by (simp add: pos_def)
  show ?thesis
    using r Pd(1,2) ix' s1 s2 s3 pl fl cp keep assms(5,6) len unfolding pos_def
    by (auto simp: readHandshakePacket_def Let_def iERR_def minProtocolVersion_def conn_overwrite_def)
qed

subsection \<open>The response\<close>

text \<open>A plugin name shorter than 21 bytes: the rest of the packet is what the buffer held.\<close>

definition response_content :: "bytes \<Rightarrow> bool \<Rightarrow> string \<Rightarrow> byte \<Rightarrow> 'key mysqlConn \<Rightarrow> bytes" where
  "response_content resp addNUL plugin charset mc =
     flag_bytes (handshake_flags (1 < length (lei (word_of_nat (length resp)))) mc) @ [0, 0, 0, 0] @ [charset] @
     replicate 23 0 @ bytes_of_string (cf_User (conn_cfg mc)) @ [0] @ lei (word_of_nat (length resp)) @ resp @
     (if addNUL then [0] else []) @
     (if cf_DBName (conn_cfg mc) \<noteq> [] then bytes_of_string (cf_DBName (conn_cfg mc)) @ [0] else []) @
     bytes_of_string plugin @ [0]"

lemma bytes_of_string_empty [simp]: "bytes_of_string s = [] \<longleftrightarrow> s = []"
  by (simp_all add: bytes_of_string_def)

lemma handshake_response_tail:
  assumes "idle mc" "cf_tls (conn_cfg mc) = None" "collation_id (cf_Collation (conn_cfg mc)) = Some charset"
    and "length plugin \<le> 21" "content = response_content resp addNUL plugin charset mc"
    and "length content + 25 - length plugin \<le> defaultBufSize"
    and "int (length content + 21 - length plugin) \<le> conn_maxAllowedPacket mc"
  shows "\<exists>mc'. writeHandshakeResponsePacket tls_client resp addNUL plugin mc = Inr (Inr (), mc') \<and>
    net_out (conn_net mc') = net_out (conn_net mc) @ frames (conn_sequence mc)
      (content @ take (21 - length plugin) (drop (4 + length content) (buf_bytes (conn_buf mc))))"
proof -
  let ?B = "buf_bytes (conn_buf mc)" and ?n = "length content + 25 - length plugin"
  let ?start = "flag_bytes (handshake_flags (1 < length (lei (word_of_nat (length resp)))) mc) @ [0, 0, 0, 0] @ [charset]"
  have idle: "buf_length (conn_buf mc) = 0" "net_quiet (conn_net mc)" "?n \<le> length ?B"
    using assms(1,6) by (simp_all add: idle_def)
  have start: "length ?start = 9" by (simp add: flag_bytes_def)
  obtain tail where content: "content = ?start @ tail" "32 \<le> length content"
    using assms(5) start by (simp add: response_content_def)
  have d0: "takeSmallBuffer ?n (conn_buf mc) = Inr (Some (take ?n ?B))"
    using idle by (simp add: takeSmallBuffer_def)
  define d1 where "d1 = take 4 (take ?n ?B) @ ?start @ drop (4 + length ?start) (take ?n ?B)"
  have ln: "length content \<le> ?n - 4" "length content + 4 \<le> ?n" using assms(4) by simp_all
  have d1: "fill_packet (take ?n ?B) ?start = Inr d1" "length d1 = ?n"
    using idle(3) start ln content(2) by (simp_all add: fill_packet_def d1_def)
  define d2 where "d2 = take 4 d1 @ content @ drop (4 + length content) d1"
  have d2: "fill_packet d1 content = Inr d2" "length d2 = ?n"
    using d1(2) ln by (simp_all add: fill_packet_def d2_def)
  let ?tail = "take (21 - length plugin) (drop (4 + length content) ?B)"
  define pre where "pre = take 4 (take ?n ?B) @ ?start"
  have pre: "length pre = 13" using start content(2) idle(3) ln by (simp add: pre_def)
  have "d1 = pre @ drop 13 (take ?n ?B)" using start by (simp only: d1_def pre_def append_assoc) simp
  then have "drop (4 + length content) d1 = drop (4 + length content) (take ?n ?B)"
    using pre content(2) by simp
  also have "\<dots> = ?tail" using assms(4) by (simp add: drop_take)
  finally have payload: "drop 4 d2 = content @ ?tail"
    using d1(2) ln by (simp add: d2_def)
  have lp: "length (content @ ?tail) = length content + 21 - length plugin" using idle(3) assms(4) by simp
  have l2: "length d2 = length (content @ ?tail) + 4" unfolding lp d2(2) using assms(4) by simp
  have fits: "int (length (content @ ?tail)) \<le> conn_maxAllowedPacket mc" unfolding lp by (rule assms(7))
  obtain data' where w: "writePacket d2 mc = Inr (None, data', sent (content @ ?tail) mc)"
    using writePacket_sends [OF idle(2) l2 payload fits] by blast
  have size: "4 + 4 + 1 + 23 + length (cf_User (conn_cfg mc)) + 1 + length (lei (word_of_nat (length resp))) +
      length resp + 21 + 1 + (if addNUL then 1 else 0) +
      (if cf_DBName (conn_cfg mc) \<noteq> [] then length (cf_DBName (conn_cfg mc)) + 1 else 0) + 4 = ?n"
    using assms(4,5) by (simp add: response_content_def flag_bytes_def)
  have "fill_packet d1 (?start @ replicate 23 0 @ bytes_of_string (cf_User (conn_cfg mc)) @ [0] @
      lei (word_of_nat (length resp)) @ resp @ (if addNUL then [0] else []) @
      (if cf_DBName (conn_cfg mc) \<noteq> [] then bytes_of_string (cf_DBName (conn_cfg mc)) @ [0] else []) @
      bytes_of_string plugin @ [0]) = Inr d2"
    using d2(1) unfolding assms(5) response_content_def by (simp only: append_assoc)
  then have "writeHandshakeResponsePacket tls_client resp addNUL plugin mc = checked (write_own d2 mc)"
    unfolding writeHandshakeResponsePacket_def Let_def length_bytes_of_string bytes_of_string_empty size
    using d0 d1(1) assms(2,3,4) by (simp only: go_bind_simps option.simps try_bind_simps) simp
  then show ?thesis
    using w by (simp add: write_own_def checked_def sent_def Let_def)
qed

subsection \<open>The old authentication switch\<close>

text \<open>
  A packet of the single byte \<open>0xfe\<close> asks for the old method. The code tests \<open>len(data) < 1\<close> behind
  \<open>data[0]\<close>, and the packet is malformed for it.
\<close>

lemma old_switch_refused:
  assumes "net_clean (conn_net mc)" "buffer_fits (conn_buf mc)"
    and "unread (conn_buf mc) (conn_net mc) = frames (conn_sequence mc) [0xfe] @ rest"
  shows "\<exists>mc'. readAuthResult mc = Inr (Inl ErrMalformPkt, mc')"
proof -
  obtain spare mc1 where "readPacket mc = Inr (Inr ([0xfe], spare), mc1)"
    using readPacket_reads [OF assms(1,2) _ assms(3)] by blast
  then show ?thesis
    by (simp add: readAuthResult_def iOK_def iAuthMoreData_def iEOF_def index_byte_def)
qed

end
