(* ===== verification/MysqlHelper.thy ===== *)
theory MysqlHelper
  imports MysqlProtocol
begin

text \<open>
  \<open>mrte/mysql_helper.go\<close>: the sessions of the MySQL server that are open when the collector
  asks, as requests that select their default database.

  The driver is behind \<open>database/sql\<close> (its own theories begin with \<open>DriverUtils\<close>): what
  \<open>sql.Open\<close>, \<open>db.Query\<close>, \<open>rows.Columns\<close> and the calls of \<open>rows.Scan\<close> answer is the
  argument \<open>db\<close>. A fetched row is \<open>Inl\<close> of the error of \<open>Scan\<close> or the list of its raw
  columns, where \<open>None\<close> is a nil slice, which is how the driver hands over an SQL NULL.
\<close>

datatype processlist_answer =
    OpenFailed string
  | QueryFailed string
  | ColumnsFailed string
  | Fetched "(string + bytes option list) list"

record ConnectionInfo =
  ci_SrcIp :: string
  ci_SrcPort :: int        \<comment> \<open>a Go \<open>int32\<close>\<close>
  ci_ParsedRequest :: bson_M

definition replThreadStates :: "string list" where
  "replThreadStates =
     [''Waiting for master'', ''Has read all relay log'', ''Waiting on empty queue'',
      ''Master has sent all binlog'']"

fun raw_column :: "bytes option \<Rightarrow> string" where
  "raw_column None = ''''"
| "raw_column (Some raw) = string_of_bytes raw"

text \<open>
  The loop over \<open>replThreadStates\<close>. It does not stop at the first match: the flag is only ever set.
\<close>

fun is_repl_thread :: "string \<Rightarrow> string list \<Rightarrow> bool \<Rightarrow> bool" where
  "is_repl_thread state [] isReplThread = isReplThread"
| "is_repl_thread state (r # rs) isReplThread =
     is_repl_thread state rs (if has_prefix state r then True else isReplThread)"

text \<open>
  The body of the loop over the rows: \<open>None\<close> is \<open>continue\<close> or the ignored \<open>Atoi\<close> error,
  \<open>Some\<close> is the appended session.
\<close>

definition session_of_row :: "string list \<Rightarrow> ConnectionInfo option go" where
  "session_of_row result =
     go_bind (go_at result 2) (\<lambda>state.
     if 0 < length state \<and> is_repl_thread state replThreadStates False then Inr None
     else
       go_bind (go_at result 0) (\<lambda>host.
       if 0 < length host then
         go_bind (go_at result 1) (\<lambda>db.
         if 0 < length db then
           (if has_prefix host ''127.0.0.1'' \<or> has_prefix host ''localhost'' then Inr None
            else
              (let hostAndPort = split_on (CHR '':'') host in
               if length hostAndPort \<noteq> 2 then Inr None
               else
                 go_bind (go_at hostAndPort 1) (\<lambda>portStr.
                 case parse_int64 portStr of
                   None \<Rightarrow> Inr None
                 | Some port \<Rightarrow>
                     go_bind (go_at hostAndPort 0) (\<lambda>h.
                       Inr (Some \<lparr>ci_SrcIp = h, ci_SrcPort = to_int32 port,
                                  ci_ParsedRequest = doc_cq COM_INIT_DB db\<rparr>)))))
         else Inr None)
       else Inr None))"

fun fetch_sessions ::
  "(string + bytes option list) list \<Rightarrow> ConnectionInfo list \<Rightarrow> ConnectionInfo list go" where
  "fetch_sessions [] sessions = Inr sessions"
| "fetch_sessions (Inl err # rows) sessions = Inr []"
| "fetch_sessions (Inr rawResult # rows) sessions =
     go_bind (session_of_row (map raw_column rawResult)) (\<lambda>s.
       case s of
         None \<Rightarrow> fetch_sessions rows sessions
       | Some info \<Rightarrow> fetch_sessions rows (sessions @ [info]))"

definition GetSessionDefaultDatabase :: "processlist_answer \<Rightarrow> ConnectionInfo list go" where
  "GetSessionDefaultDatabase db =
     (case db of
        OpenFailed err \<Rightarrow> Inr []
      | QueryFailed err \<Rightarrow> Inr []
      | ColumnsFailed err \<Rightarrow> Inr []
      | Fetched rows \<Rightarrow> fetch_sessions rows [])"

subsection \<open>Which rows become sessions\<close>

lemma is_repl_thread_iff:
  "is_repl_thread state rs b \<longleftrightarrow> b \<or> (\<exists>r \<in> set rs. has_prefix state r)"
  by (induction rs arbitrary: b) auto

definition local_host :: "string \<Rightarrow> bool" where
  "local_host host \<longleftrightarrow> has_prefix host ''127.0.0.1'' \<or> has_prefix host ''localhost''"

definition repl_state :: "string \<Rightarrow> bool" where
  "repl_state state \<longleftrightarrow> (\<exists>r \<in> set replThreadStates. has_prefix state r)"

lemma not_repl_state_Nil [simp]: "\<not> repl_state ''''"
  by (simp add: repl_state_def replThreadStates_def has_prefix_def)

text \<open>The state, host and database of the row decide, and the host splits at its only colon.\<close>

definition row_session :: "string \<Rightarrow> string \<Rightarrow> string \<Rightarrow> ConnectionInfo option" where
  "row_session host db state =
     (if repl_state state \<or> host = '''' \<or> db = '''' \<or> local_host host then None
      else case split_on (CHR '':'') host of
          [h, p] \<Rightarrow> map_option (\<lambda>port. \<lparr>ci_SrcIp = h, ci_SrcPort = to_int32 port,
                                   ci_ParsedRequest = doc_cq COM_INIT_DB db\<rparr>) (parse_int64 p)
        | _ \<Rightarrow> None)"

lemma session_of_row_eq: "session_of_row (host # db # state # rest) = Inr (row_session host db state)"
proof -
  have "0 < length state \<and> is_repl_thread state replThreadStates False \<longleftrightarrow> repl_state state"
    by (cases "state = ''''") (auto simp: is_repl_thread_iff repl_state_def replThreadStates_def has_prefix_def)
  then show ?thesis
    by (auto simp: session_of_row_def row_session_def local_host_def Let_def go_at_def length_Suc_conv
        numeral_2_eq_2 split: list.splits option.splits)
qed

lemma split_on_pair:
  "split_on sep s = [a, b] \<longleftrightarrow> s = a @ sep # b \<and> sep \<notin> set a \<and> sep \<notin> set b"
proof
  show "split_on sep s = [a, b] \<Longrightarrow> s = a @ sep # b \<and> sep \<notin> set a \<and> sep \<notin> set b"
  proof (induction s arbitrary: a)
    case (Cons c s)
    have single: "split_on sep t = [u] \<Longrightarrow> t = u \<and> sep \<notin> set u" for t u
      by (induction t arbitrary: u) (auto split: if_splits list.splits)
    from Cons show ?case
      by (auto split: if_splits list.splits dest: single)
  qed simp
qed (auto simp: split_on_append split_on_clean)

lemma row_session_Some_iff:
  "row_session host db state = Some info \<longleftrightarrow>
     \<not> repl_state state \<and> \<not> local_host host \<and> db \<noteq> '''' \<and>
     (\<exists>h p port. host = h @ CHR '':'' # p \<and> CHR '':'' \<notin> set h \<and> CHR '':'' \<notin> set p \<and>
        parse_int64 p = Some port \<and>
        info = \<lparr>ci_SrcIp = h, ci_SrcPort = to_int32 port, ci_ParsedRequest = doc_cq COM_INIT_DB db\<rparr>)"
proof (cases "\<exists>h p. split_on (CHR '':'') host = [h, p]")
  case True
  then obtain h p where hp: "split_on (CHR '':'') host = [h, p]" by blast
  then have host: "host = h @ CHR '':'' # p" "CHR '':'' \<notin> set h" "CHR '':'' \<notin> set p"
    by (simp_all add: split_on_pair)
  then have uniq: "host = h' @ CHR '':'' # p' \<and> CHR '':'' \<notin> set h' \<and> CHR '':'' \<notin> set p' \<longleftrightarrow>
      h' = h \<and> p' = p" for h' p'
    using hp split_on_pair [of "CHR '':''" host h' p'] by auto
  have ex: "(\<exists>h' p' port. host = h' @ CHR '':'' # p' \<and> CHR '':'' \<notin> set h' \<and> CHR '':'' \<notin> set p' \<and>
      R h' p' port) \<longleftrightarrow> (\<exists>port. R h p port)" for R :: "string \<Rightarrow> string \<Rightarrow> int \<Rightarrow> bool"
    using uniq by metis
  have "host \<noteq> ''''" using host(1) by simp
  then show ?thesis
    unfolding ex row_session_def by (auto simp: hp)
next
  case False
  then have "row_session host db state = None"
    by (auto simp: row_session_def split: list.splits)
  with False show ?thesis
    by (auto simp: split_on_pair)
qed

text \<open>The whole result set, when every row has at least the three columns the query selects.\<close>

definition wide_rows :: "bytes option list list \<Rightarrow> bool" where
  "wide_rows rows \<longleftrightarrow> (\<forall>r \<in> set rows. 3 \<le> length r)"

definition row_info :: "bytes option list \<Rightarrow> ConnectionInfo option" where
  "row_info r = row_session (raw_column (r ! 0)) (raw_column (r ! 1)) (raw_column (r ! 2))"

lemma session_of_row_raw:
  "3 \<le> length r \<Longrightarrow> session_of_row (map raw_column r) = Inr (row_info r)"
  by (auto simp: numeral_3_eq_3 Suc_le_length_iff session_of_row_eq row_info_def)

lemma fetch_sessions_ok:
  "wide_rows rows \<Longrightarrow> fetch_sessions (map Inr rows) acc = Inr (acc @ List.map_filter row_info rows)"
  by (induction rows arbitrary: acc)
    (auto simp: wide_rows_def session_of_row_raw List.map_filter_def split: option.splits)

lemma fetch_sessions_scan_error:
  "wide_rows rows \<Longrightarrow> fetch_sessions (map Inr rows @ Inl err # rest) acc = Inr []"
  by (induction rows arbitrary: acc)
    (auto simp: wide_rows_def session_of_row_raw split: option.splits)

lemma GetSessionDefaultDatabase_ok:
  "wide_rows rows \<Longrightarrow>
   GetSessionDefaultDatabase (Fetched (map Inr rows)) = Inr (List.map_filter row_info rows)"
  by (simp add: GetSessionDefaultDatabase_def fetch_sessions_ok)

lemma has_prefix_colon: "CHR '':'' \<notin> set w \<Longrightarrow> has_prefix (h @ CHR '':'' # x) w \<longleftrightarrow> has_prefix h w"
proof (induction w arbitrary: h)
  case (Cons c w)
  then show ?case
    by (cases h) (auto simp: has_prefix_def)
qed (simp add: has_prefix_def)

lemma row_session_round_trip:
  assumes "\<not> repl_state state" "\<not> local_host h" "CHR '':'' \<notin> set h" "db \<noteq> ''''"
    "p < 65536"
  shows "row_session (h @ CHR '':'' # decimal p) db state =
     Some \<lparr>ci_SrcIp = h, ci_SrcPort = int p, ci_ParsedRequest = doc_cq COM_INIT_DB db\<rparr>"
proof -
  have "parse_int64 (decimal p) = Some (int p)"
    using parse_int64_Itoa [of "int p"] assms(5) by (simp add: strconv_Itoa_def)
  moreover have "to_int32 (int p) = int p"
    using assms(5) by (intro to_int32_id) simp_all
  moreover have "CHR '':'' \<notin> set (decimal p)"
    by (rule decimal_char_neq) simp
  ultimately show ?thesis
    using assms
    by (simp add: row_session_def split_on_append split_on_clean local_host_def has_prefix_colon)
qed

end
