(* ===== verification/PropsDriver.thy ===== *)
theory PropsDriver
  imports DriverLogin MysqlHelper
begin

text \<open>
  The properties of the MySQL driver, and of the process list that the collector reads through it.
  The witnesses run on a fresh connection to a scripted server.
\<close>

subsection \<open>A connection for the witnesses\<close>

definition sample_cfg :: "unit conn_config" where
  "sample_cfg =
     \<lparr>cf_User = ''mrte'', cf_Passwd = ''secret'', cf_Net = ''tcp'', cf_Addr = ''127.0.0.1:3306'',
      cf_DBName = '''', cf_Params = [], cf_Collation = ''utf8mb4_general_ci'', cf_Loc = ''UTC'',
      cf_MaxAllowedPacket = 4194304, cf_ServerPubKey = '''', cf_pubKey = None, cf_TLSConfig = '''',
      cf_tls = None, cf_Timeout = 0, cf_ReadTimeout = 0, cf_WriteTimeout = 0, cf_AllowAllFiles = False,
      cf_AllowCleartextPasswords = False, cf_AllowNativePasswords = True, cf_AllowOldPasswords = False,
      cf_ClientFoundRows = False, cf_ColumnsWithAlias = False, cf_InterpolateParams = True,
      cf_MultiStatements = False, cf_ParseTime = False, cf_RejectReadOnly = False\<rparr>"

definition sample_conn :: "bytes list \<Rightarrow> unit mysqlConn" where
  "sample_conn chunks = new_conn sample_cfg
     \<lparr>net_in = map (\<lambda>c. (c, None)) chunks, net_out = [], net_writes = [],
      net_deadline = None, net_closed = False\<rparr>
     \<lparr>if_readers = (\<lambda>_. None), if_registered = (\<lambda>_. False), if_open = (\<lambda>_. Inl EOF)\<rparr> (\<lambda>_. [])"

lemma sample_conn_simps:
  "conn_cfg (sample_conn cs) = sample_cfg"
  "conn_sequence (sample_conn cs) = 0" "conn_closed (sample_conn cs) = False"
  "conn_canceled (sample_conn cs) = None" "conn_parseTime (sample_conn cs) = False"
  "conn_maxAllowedPacket (sample_conn cs) = int maxPacketSize" "conn_status (sample_conn cs) = 0"
  "net_out (conn_net (sample_conn cs)) = []" "net_pending (conn_net (sample_conn cs)) = concat cs"
  by (simp_all add: sample_conn_def new_conn_def newBuffer_def sample_cfg_def net_pending_def comp_def)

lemma sample_conn_ready:
  "idle (sample_conn cs)" "net_clean (conn_net (sample_conn cs))" "buffer_fits (conn_buf (sample_conn cs))"
  "buf_length (conn_buf (sample_conn cs)) = 0" "net_quiet (conn_net (sample_conn cs))"
  "unread (conn_buf (sample_conn cs)) (conn_net (sample_conn cs)) = concat cs"
  by (auto simp: sample_conn_def new_conn_def newBuffer_def idle_def net_clean_def buffer_fits_def
      net_quiet_def unread_def net_pending_def comp_def)

lemmas sample_conn_facts = sample_conn_simps sample_conn_ready

subsection \<open>Rows\<close>

text \<open>
  \<open>Scan\<close> of \<open>database/sql\<close> into a \<open>[]byte\<close>: a nil slice for NULL. The text protocol gives no other
  value as long as times are not parsed.
\<close>

fun scan_raw :: "'time driver_value \<Rightarrow> bytes option" where
  "scan_raw (VBytes v) = Some v"
| "scan_raw (VString v) = Some v"
| "scan_raw _ = None"

lemma scan_raw_columns: "map (map scan_raw) (map (map column_value) rs) = rs"
proof -
  have "scan_raw (column_value c) = c" for c by (cases c) simp_all
  then show ?thesis by (auto simp: comp_def intro!: map_idI)
qed

definition sample_column :: "bytes \<Rightarrow> column_def" where
  "sample_column name =
     \<lparr>cd_catalog = bytes_of_string ''def'', cd_schema = [], cd_table = [], cd_org_table = [], cd_name = name,
      cd_org_name = name, cd_charset = 45, cd_length = 64, cd_type = 253, cd_flags = 0, cd_decimals = 0\<rparr>"

definition sample_columns :: "column_def list" where
  "sample_columns = map (sample_column \<circ> bytes_of_string) [''host'', ''db'', ''state'']"

definition sample_rows :: "bytes option list list" where
  "sample_rows =
     [[Some (bytes_of_string ''10.0.0.9:40001''), Some (bytes_of_string ''shop''), None],
      [Some (bytes_of_string ''localhost''), Some (bytes_of_string ''shop''), Some []]]"

lemma sample_columns_ok: "list_all column_ok sample_columns" "length sample_columns = 3"
  by (simp_all add: sample_columns_def sample_column_def column_ok_def column_strings_def)

lemma sample_rows_fit: "r \<in> set sample_rows \<Longrightarrow> length r = 3 \<and> list_all column_fits r"
  by (auto simp: sample_rows_def bytes_of_string_def)

text \<open>C9: The collector's question for the process list is answered end to end. On an idle connection
  the query is sent as a command packet; when the server answers with a result set of at least three
  columns, encoded as the protocol says, split over packets and delivered in any pieces, then reading
  the rows gives exactly the rows of the server up to the end of file, and the collector makes of them
  exactly the sessions of these rows.\<close>

theorem process_list_query:
  assumes "idle mc" "\<not> conn_parseTime mc" "int (length q) + 1 \<le> conn_maxAllowedPacket mc"
    and "3 \<le> length cs" "int (length cs) < 2 ^ 63" "list_all column_ok cs"
    and "\<And>r. r \<in> set rs \<Longrightarrow> length r = length cs \<and> list_all column_fits r"
    and "net_pending (conn_net mc) =
      packets (frame_count (comQuery # q)) (answer_packets cs rs w1 s1 w2 s2) @ rest"
  shows "\<exists>rows mc1 vss rows' mc2.
    query local ff q [] mc = Inr ((None, Some rows), mc1) \<and>
    net_out (conn_net mc1) = net_out (conn_net mc) @ frames 0 (comQuery # q) \<and>
    fetch_rows pdt (length cs) rows mc1 = Inr (vss, EOF, rows', mc2) \<and>
    unread (conn_buf mc2) (conn_net mc2) = rest \<and>
    GetSessionDefaultDatabase (Fetched (map (Inr \<circ> map scan_raw) vss)) = Inr (List.map_filter row_info rs)"
proof -
  have "cs \<noteq> []" using assms(4) by auto
  then obtain rows mc1 rows' mc2 where q: "query local ff q [] mc = Inr ((None, Some rows), mc1)"
    "fetch_rows pdt (length cs) rows mc1 = Inr (map (map column_value) rs, EOF, rows', mc2)"
    "unread (conn_buf mc2) (conn_net mc2) = rest"
    "net_out (conn_net mc1) = net_out (conn_net mc) @ frames 0 (comQuery # q)"
    using query_returns_rows [OF assms(1-3) _ assms(5-8), of local ff pdt] by blast
  have "wide_rows rs" using assms(4,7) by (simp add: wide_rows_def)
  then have "GetSessionDefaultDatabase (Fetched (map (Inr \<circ> map scan_raw) (map (map column_value) rs))) =
      Inr (List.map_filter row_info rs)"
    by (simp only: map_map [of Inr "map scan_raw", symmetric] scan_raw_columns GetSessionDefaultDatabase_ok)
  with q show ?thesis by blast
qed

theorem process_list_query_witness:
  "\<exists>rows mc1 vss rows' mc2.
    query id (\<lambda>_. []) (bytes_of_string ''select host, db, state'') []
      (sample_conn [packets (frame_count (comQuery # bytes_of_string ''select host, db, state''))
        (answer_packets sample_columns sample_rows 0 0 0 0)]) = Inr ((None, Some rows), mc1) \<and>
    fetch_rows (\<lambda>_. Inl EOF) 3 rows mc1 = Inr (vss, EOF, rows', mc2) \<and>
    GetSessionDefaultDatabase (Fetched (map (Inr \<circ> map scan_raw) vss)) =
      Inr (List.map_filter row_info sample_rows)"
  using process_list_query
    [of "sample_conn [packets (frame_count (comQuery # bytes_of_string ''select host, db, state''))
        (answer_packets sample_columns sample_rows 0 0 0 0)]" "bytes_of_string ''select host, db, state''"
      sample_columns sample_rows 0 0 0 0 "[]" id "\<lambda>_. []" "\<lambda>_. Inl EOF"]
  by (simp add: sample_conn_facts sample_columns_ok sample_rows_fit maxPacketSize_eq) blast

text \<open>C11: A packet that one end of a connection writes is the packet that the other end reads. The
  frames of at most \<open>2^24 - 1\<close> bytes that \<open>writePacket\<close> puts on the wire are read back as one packet by
  \<open>readPacket\<close>, however the bytes are cut into reads, with the sequence numbers in step, and what
  follows them stays unread.\<close>

theorem packet_round_trip:
  assumes "net_quiet (conn_net mc)" "length data = length p + 4" "drop 4 data = p" "p \<noteq> []"
    and "int (length p) \<le> conn_maxAllowedPacket mc"
  shows "\<exists>data' mc' wire.
    writePacket data mc = Inr (None, data', mc') \<and>
    net_out (conn_net mc') = net_out (conn_net mc) @ wire \<and>
    (\<forall>peer rest.
      net_clean (conn_net peer) \<longrightarrow> buffer_fits (conn_buf peer) \<longrightarrow> conn_sequence peer = conn_sequence mc \<longrightarrow>
      unread (conn_buf peer) (conn_net peer) = wire @ rest \<longrightarrow>
      (\<exists>spare peer'. readPacket peer = Inr (Inr (p, spare), peer') \<and>
        conn_sequence peer' = conn_sequence mc' \<and> unread (conn_buf peer') (conn_net peer') = rest))"
proof -
  obtain data' where w: "writePacket data mc = Inr (None, data', sent p mc)"
    using writePacket_sends [OF assms(1-3,5)] by blast
  have "\<exists>spare peer'. readPacket peer = Inr (Inr (p, spare), peer') \<and>
      conn_sequence peer' = conn_sequence (sent p mc) \<and> unread (conn_buf peer') (conn_net peer') = rest"
    if peer: "net_clean (conn_net peer)" "buffer_fits (conn_buf peer)" "conn_sequence peer = conn_sequence mc"
      "unread (conn_buf peer) (conn_net peer) = frames (conn_sequence mc) p @ rest"
    for peer :: "'b mysqlConn" and rest
  proof -
    obtain spare peer' where r: "readPacket peer = Inr (Inr (p, spare), peer')" and k: "reads_packet peer p rest peer'"
      using readPacket_reads [OF peer(1,2) assms(4)] peer(3,4) by auto
    with reads_packet_keeps(3) [OF k] peer(3) show ?thesis
      by (auto simp: sent_def reads_packet_def)
  qed
  with w show ?thesis
    by (intro exI [of _ data'] exI [of _ "sent p mc"] exI [of _ "frames (conn_sequence mc) p"])
      (simp add: sent_def)
qed

theorem packet_round_trip_witness:
  "\<exists>data' mc' wire.
    writePacket [0, 0, 0, 0, 3, 0x31] (sample_conn []) = Inr (None, data', mc') \<and>
    net_out (conn_net mc') = wire \<and>
    (\<exists>spare peer'. readPacket (sample_conn (map (\<lambda>b. [b]) wire)) = Inr (Inr ([3, 0x31], spare), peer'))"
proof -
  obtain data' mc' wire where
    w: "writePacket [0, 0, 0, 0, 3, 0x31] (sample_conn []) = Inr (None, data', mc')"
      "net_out (conn_net mc') = wire"
    and r: "\<forall>(peer :: unit mysqlConn) rest.
      net_clean (conn_net peer) \<longrightarrow> buffer_fits (conn_buf peer) \<longrightarrow> conn_sequence peer = conn_sequence (sample_conn []) \<longrightarrow>
      unread (conn_buf peer) (conn_net peer) = wire @ rest \<longrightarrow>
      (\<exists>spare peer'. readPacket peer = Inr (Inr ([3, 0x31], spare), peer') \<and>
        conn_sequence peer' = conn_sequence mc' \<and> unread (conn_buf peer') (conn_net peer') = rest)"
    using packet_round_trip [of "sample_conn []" "[0, 0, 0, 0, 3, 0x31]" "[3, 0x31]"]
    by (auto simp: sample_conn_facts maxPacketSize_eq)
  have "concat (map (\<lambda>b. [b]) wire) = wire" by (induction wire) simp_all
  then show ?thesis
    using w r [rule_format, of "sample_conn (map (\<lambda>b. [b]) wire)" "[]"]
    by (auto simp: sample_conn_facts)
qed

text \<open>C14: A string argument cannot leave its place in the query. The text that \<open>interpolateParams\<close> puts
  for the only question mark of a query is one literal: a server that reads the query under the same
  setting for backslashes finds behind the opening quote exactly the bytes of the argument, then the
  rest of the query, whatever bytes the argument has.\<close>

theorem string_argument_stays_literal:
  assumes "0x3F \<notin> set pre" "0x3F \<notin> set post" "take 1 post \<noteq> [0x27]" "buf_length (conn_buf mc) = 0"
    and "int (length pre + 2 * length v + length post) + 6 \<le> conn_maxAllowedPacket mc"
  shows "\<exists>text. interpolateParams local ff (pre @ 0x3F # post) [VString v] mc = Inr (Inr (pre @ 0x27 # text)) \<and>
    lex_literal (conn_status mc AND statusNoBackslashEscapes = 0) text = Some (v, post)"
  using string_argument_is_one_literal [OF assms] .

theorem string_argument_stays_literal_witness:
  "\<exists>text. interpolateParams id (\<lambda>_. []) [0x61, 0x3F, 0x62] [VString [0x27, 0x5C, 0x3F]] (sample_conn []) =
      Inr (Inr (0x61 # 0x27 # text)) \<and>
    lex_literal True text = Some ([0x27, 0x5C, 0x3F], [0x62])"
  using string_argument_stays_literal
    [of "[0x61]" "[0x62]" "sample_conn []" "[0x27, 0x5C, 0x3F]" id "\<lambda>_. []"]
  by (simp add: sample_conn_facts maxPacketSize_eq)

text \<open>C20: Logging in to a server with native passwords. From a greeting of protocol version 10 that names
  the native method, delivered in any pieces, the driver reads the challenge, which is the two parts that the
  server sent, one behind the other, and its response is a token of twenty bytes that a server accepts
  which sent this challenge and knows nothing but \<open>SHA1(SHA1(password))\<close>.\<close>

theorem native_login:
  assumes "greeting_ok g" "gr_plugin g = bytes_of_string ''mysql_native_password''"
    and "ucast (gr_flags g) AND clientProtocol41 \<noteq> 0" "cf_tls (conn_cfg mc) = None"
    and "net_clean (conn_net mc)" "buffer_fits (conn_buf mc)"
    and "unread (conn_buf mc) (conn_net mc) = frames (conn_sequence mc) (greeting_packet g) @ rest"
    and "cf_AllowNativePasswords (conn_cfg mc)" "cf_Passwd (conn_cfg mc) \<noteq> []"
    and "\<And>x. length (sha1 cr x) = 20"
  shows "\<exists>plugin mc' token.
    readHandshakePacket mc = Inr (Inr (gr_challenge1 g @ gr_challenge2 g, plugin), mc') \<and>
    conn_auth cr (gr_challenge1 g @ gr_challenge2 g, []) plugin mc' = Inr (Inr (Some token, False)) \<and> length token = 20 \<and>
    server_accepts cr (sha1 cr (sha1 cr (bytes_of_string (cf_Passwd (conn_cfg mc))))) (gr_challenge1 g @ gr_challenge2 g) token"
proof -
  let ?ch = "gr_challenge1 g @ gr_challenge2 g" and ?pw = "bytes_of_string (cf_Passwd (conn_cfg mc))"
  obtain mc' where r: "readHandshakePacket mc = Inr (Inr (?ch, ''mysql_native_password''), mc')"
    "conn_cfg mc' = conn_cfg mc"
    using readHandshakePacket_reads [OF assms(1,5,6,7,3,4)] assms(2) by auto
  have len: "length ?ch = 20" using assms(1) by (simp add: greeting_ok_def)
  obtain token where t: "scramblePassword cr ?ch ?pw = Inr (Some token)" "length token = 20"
    "server_accepts cr (sha1 cr (sha1 cr ?pw)) ?ch token"
    using native_token_accepted [of cr ?pw ?ch, OF assms(10)] assms(9) by auto
  have "slice_int (?ch, []) 0 20 = Inr (?ch, [])" using len by (simp add: slice_int_def)
  then have "conn_auth cr (?ch, []) ''mysql_native_password'' mc' = Inr (Inr (Some token, False))"
    using t(1) r(2) assms(8) by (simp add: conn_auth_def Let_def)
  with r t show ?thesis by blast
qed

definition sample_greeting :: greeting where
  "sample_greeting =
     \<lparr>gr_version = bytes_of_string ''5.7.26'', gr_connection = 7, gr_challenge1 = replicate 8 0x41,
      gr_flags = 0xF7FF, gr_charset = 33, gr_status = 2, gr_flags_high = 0x81FF,
      gr_challenge2 = replicate 12 0x42, gr_plugin = bytes_of_string ''mysql_native_password''\<rparr>"

definition sample_crypto :: "unit crypto" where
  "sample_crypto =
     \<lparr>sha1 = (\<lambda>x. take 20 (x @ replicate 20 0)), sha256 = (\<lambda>x. take 32 (x @ replicate 32 0)),
      rsa_encrypt = (\<lambda>_ x. Inr x), parse_key = (\<lambda>_. Inr (Inr ()))\<rparr>"

theorem native_login_witness:
  "\<exists>plugin mc' token.
    readHandshakePacket (sample_conn [frames 0 (greeting_packet sample_greeting)]) =
      Inr (Inr (replicate 8 0x41 @ replicate 12 0x42, plugin), mc') \<and>
    conn_auth sample_crypto (replicate 8 0x41 @ replicate 12 0x42, []) plugin mc' = Inr (Inr (Some token, False)) \<and>
    server_accepts sample_crypto (sha1 sample_crypto (sha1 sample_crypto (bytes_of_string ''secret'')))
      (replicate 8 0x41 @ replicate 12 0x42) token"
proof -
  have ok: "greeting_ok sample_greeting"
    by (simp add: greeting_ok_def sample_greeting_def bytes_of_string_def)
  have sha: "length (sha1 sample_crypto x) = 20" for x by (simp add: sample_crypto_def)
  have fl: "ucast (gr_flags sample_greeting) AND clientProtocol41 \<noteq> (0 :: 32 word)"
    by (simp add: sample_greeting_def clientProtocol41_def)
  have plugin: "gr_plugin sample_greeting = bytes_of_string ''mysql_native_password''"
    by (simp add: sample_greeting_def)
  have cfg: "cf_tls (conn_cfg (sample_conn cs)) = None" "cf_AllowNativePasswords (conn_cfg (sample_conn cs))"
    "cf_Passwd (conn_cfg (sample_conn cs)) = ''secret''" for cs
    by (simp_all add: sample_conn_facts sample_cfg_def)
  have parts: "gr_challenge1 sample_greeting = replicate 8 0x41" "gr_challenge2 sample_greeting = replicate 12 0x42"
    by (simp_all add: sample_greeting_def)
  have "unread (conn_buf (sample_conn [w])) (conn_net (sample_conn [w])) = w @ []" "conn_sequence (sample_conn [w]) = 0" for w
    by (simp_all add: sample_conn_facts)
  then show ?thesis
    using native_login [of sample_greeting "sample_conn [frames 0 (greeting_packet sample_greeting)]" "[]"
        sample_crypto, OF ok plugin fl cfg(1) sample_conn_ready(2,3) _ cfg(2) _ sha] cfg(3)
    unfolding parts by fastforce
qed

text \<open>C35: The length-encoded numbers and strings of the protocol. What \<open>appendLengthEncodedInteger\<close>
  writes, \<open>readLengthEncodedInteger\<close> reads back as the same 64-bit number with the number of bytes used,
  whatever follows; a string of any content behind its length is read back, and skipped, as a whole.\<close>

theorem length_encoded_round_trip:
  "readLengthEncodedInteger (appendLengthEncodedInteger [] n @ rest) =
     Inr (n, False, length (appendLengthEncodedInteger [] n)) \<and>
   (length v + 9 < 2 ^ 63 \<longrightarrow>
     (let enc = appendLengthEncodedInteger [] (word_of_nat (length v)) @ v in
      readLengthEncodedString (enc @ rest, spare) = Inr (Inr (v, False, int (length enc))) \<and>
      skipLengthEncodedString (enc @ rest) = Inr (Inr (int (length enc)))))"
  using read_append_lei [of n rest] read_les [of v rest spare] skip_les [of v rest]
  by (simp add: les_def Let_def)

theorem length_encoded_round_trip_witness:
  "readLengthEncodedString ([3, 0x61, 0x62, 0x63] @ [7], []) = Inr (Inr ([0x61, 0x62, 0x63], False, 4))"
  using length_encoded_round_trip [of 0 "[7]" "[0x61, 0x62, 0x63]" "[]"]
  by (simp add: appendLengthEncodedInteger_def Let_def)

text \<open>The length of a string that claims to be of \<open>2^63\<close> bytes or more is negative as an \<open>int\<close>,
  passes the check of the data length, and the slice is out of range: a packet of ten bytes panics the
  reader.\<close>

theorem huge_string_panics:
  assumes "2 ^ 63 \<le> unat (n :: 64 word)"
  shows "readLengthEncodedString (appendLengthEncodedInteger [] n @ rest, spare) = Inl SliceOutOfRange"
  using read_huge_string [OF assms] .

theorem huge_string_panics_witness:
  "readLengthEncodedString ([0xFE, 0, 0, 0, 0, 0, 0, 0, 0x80] @ [7], []) = Inl SliceOutOfRange"
proof -
  have "appendLengthEncodedInteger [] 0x8000000000000000 = [0xFE, 0, 0, 0, 0, 0, 0, 0, 0x80]" by code_simp
  then show ?thesis using huge_string_panics [of "0x8000000000000000" "[7]" "[]"] by simp
qed

text \<open>C34: Reading rows ends. Whatever the peer sends, a loop that calls \<open>Next\<close> until it gives an error
  makes at most one call more than there are bytes left to read, in the buffer and from the network: every
  row takes bytes off, and a call without bytes left gives an error.\<close>

theorem rows_end:
  "rows_end_within pdt n (stream_left (conn_buf mc) (conn_net mc) + 1) rows mc"
  using rows_end_left [of mc "stream_left (conn_buf mc) (conn_net mc) + 1"] by (simp add: left_def)

text \<open>A closed connection refuses every request, without touching the network or its state.\<close>

theorem closed_connection_is_inert:
  assumes "conn_closed mc"
  shows "query local ff q args mc = Inr ((Some ErrBadConn, None), mc) \<and>
    conn_Exec local ff q args mc = Inr (Inl ErrBadConn, mc) \<and>
    conn_begin ro mc = Inr (Inl ErrBadConn, mc) \<and>
    Ping mc = Inr (Inl ErrBadConn, mc) \<and>
    Commit opn mc = Inr ((Some ErrInvalidConn, opn), mc) \<and>
    Rollback opn mc = Inr ((Some ErrInvalidConn, opn), mc) \<and>
    conn_Close mc = Inr (None, mc)"
  using closed_connection_refuses [OF assms] by blast

theorem closed_connection_is_inert_witness:
  "Ping (cleanup (sample_conn [])) = Inr (Inl ErrBadConn, cleanup (sample_conn []))"
  using closed_connection_is_inert [of "cleanup (sample_conn [])" id "\<lambda>_. []" "[]" "[]" False True] by simp

text \<open>C33: A read that fails closes the connection, with two exceptions. When \<open>readPacket\<close> fails, either
  a packet came out of sequence or the connection was cancelled, and the caller gets only that error and
  the connection stays as open as it was; or the error is \<open>ErrInvalidConn\<close>, the connection is closed and
  the next query is refused.\<close>

theorem failed_read_closes:
  assumes "readPacket mc = Inr (Inl e, mc')"
  shows "(e \<in> {ErrPktSync, ErrPktSyncMul} \<or> conn_canceled mc = Some e) \<and> conn_closed mc' = conn_closed mc \<or>
    e = ErrInvalidConn \<and> conn_closed mc' \<and> query local ff q args mc' = Inr ((Some ErrBadConn, None), mc')"
  using readPacket_loop_fails [of "([], [])" mc e mc'] assms
  by (auto simp: readPacket_def closed_connection_refuses(1))

theorem failed_read_closes_witness:
  "\<exists>mc'. readPacket (sample_conn []) = Inr (Inl ErrInvalidConn, mc') \<and> conn_closed mc'"
proof -
  let ?mc = "sample_conn []"
  have "readNext 4 newBuffer (conn_net ?mc) = Inr (Inl ErrUnexpectedEOF, newBuffer, conn_net ?mc)"
    by (simp add: readNext_def fill_def moved_to_front_def grown_def newBuffer_def defaultBufSize_def
        fill_loop.simps [of 0 4 "replicate 4096 0"] sample_conn_def new_conn_def deadline_error_def
        go_slice_from_def conn_read_def script_read_def read_into_def Let_def)
  moreover have buf: "conn_buf ?mc = newBuffer" "?mc\<lparr>conn_buf := newBuffer\<rparr> = ?mc"
    by (simp_all add: sample_conn_def new_conn_def newBuffer_def sample_cfg_def)
  ultimately have "readPacket ?mc = broken_conn ?mc"
    unfolding readPacket_def readPacket_loop.simps [of _ ?mc] buf(1)
    by (simp add: read_failed_def sample_conn_simps buf(2))
  moreover obtain mc1 where "writeCommandPacket comQuit ?mc = Inr (None, mc1)"
    using writeCommandPacket_sends [of ?mc comQuit] by (auto simp: sample_conn_facts maxPacketSize_eq)
  ultimately obtain e mc' where r: "readPacket ?mc = Inr (Inl e, mc')" "e = ErrInvalidConn"
    by (auto simp: broken_conn_def conn_Close_def sample_conn_simps)
  with failed_read_closes [OF r(1), of id "\<lambda>_. []" "[]" "[]"] show ?thesis
    by (auto simp: sample_conn_simps)
qed

text \<open>A server that sends more column definitions than it announced makes the driver panic: the
  definition is stored before the count is compared, and the index is out of range.\<close>

theorem extra_definition_panics:
  assumes "list_all column_ok cs" "n < length cs"
    and "net_clean (conn_net mc)" "buffer_fits (conn_buf mc)"
    and "unread (conn_buf mc) (conn_net mc) = packets (conn_sequence mc) (map column_packet cs) @ rest"
  shows "readColumns (int n) mc = Inl IndexOutOfRange"
  using extra_column_panics [OF assms(1) _ _ assms(3-5), of "replicate n mysqlField_zero" 0] assms(2)
  by (simp add: readColumns_def)

theorem extra_definition_panics_witness:
  "readColumns 2 (sample_conn [packets 0 (map column_packet sample_columns)]) = Inl IndexOutOfRange"
  using extra_definition_panics [of sample_columns 2 "sample_conn [packets 0 (map column_packet sample_columns)]" "[]"]
  by (simp add: sample_conn_facts sample_columns_ok)

text \<open>A time argument of a year above 9999 or below 0 panics when it is put into the query: the digits
  of the century and of the year in it are looked up in tables of a hundred entries without a check.\<close>

theorem large_year_argument_panics:
  assumes "\<not> tf_zero t" "\<not> tf_zero (local t)" "9999 < tf_year (local t) \<or> tf_year (local t) < 0"
    and "0x3F \<notin> set pre" "0x3F \<notin> set post" "buf_length (conn_buf mc) = 0"
  shows "interpolateParams local ff (pre @ 0x3F # post) [VTime t] mc = Inl IndexOutOfRange"
proof -
  let ?put = "append_arg local ff (conn_status mc AND statusNoBackslashEscapes \<noteq> 0)"
  have "interpolate_loop ?put m (pre @ 0x3F # post) [VTime t] buf = Inl IndexOutOfRange" for m buf
    using assms(4) large_year_panics [of t local, OF assms(1-3)] by (induction pre arbitrary: buf) auto
  moreover have "filter (\<lambda>c. c = 0x3F) pre = []" "filter (\<lambda>c. c = 0x3F) post = []"
    using assms(4,5) by (auto simp: filter_empty_conv)
  ultimately show ?thesis
    using assms(6) by (simp add: interpolateParams_def takeCompleteBuffer_def)
qed

definition sample_time :: time_fields where
  "sample_time =
     \<lparr>tf_zero = False, tf_year = 10000, tf_month = 1, tf_day = 1, tf_hour = 0, tf_minute = 0, tf_second = 0,
      tf_micro = 0\<rparr>"

theorem large_year_argument_panics_witness:
  "interpolateParams id (\<lambda>_. []) [0x3F] [VTime sample_time] (sample_conn []) = Inl IndexOutOfRange"
  using large_year_argument_panics [of sample_time id "[]" "[]" "sample_conn []" "\<lambda>_. []"]
  by (simp add: sample_time_def sample_conn_ready)

text \<open>A server that asks for the old authentication method with the one-byte packet of the protocol is
  refused as sending a malformed packet: \<open>readAuthResult\<close> tests for a packet of less than one byte where
  it means one of exactly one byte.\<close>

theorem old_auth_switch_refused:
  assumes "net_clean (conn_net mc)" "buffer_fits (conn_buf mc)"
    and "unread (conn_buf mc) (conn_net mc) = frames (conn_sequence mc) [0xFE] @ rest"
  shows "\<exists>mc'. readAuthResult mc = Inr (Inl ErrMalformPkt, mc')"
  using old_switch_refused [OF assms] .

theorem old_auth_switch_refused_witness:
  "\<exists>mc'. readAuthResult (sample_conn [frames 0 [0xFE]]) = Inr (Inl ErrMalformPkt, mc')"
  using old_auth_switch_refused [of "sample_conn [frames 0 [0xFE]]" "[]"] by (simp add: sample_conn_facts)

text \<open>C40: A date or time of the binary protocol is formatted to exactly the length that its column asks
  for, or refused: no input of the server makes the text of a DATE or DATETIME longer or shorter.\<close>

theorem formatted_date_fits:
  assumes "formatBinaryDateTime src len False = Inr (Inr v)"
  shows "length v = unat len"
  using formatted_date_length [OF assms] .

theorem formatted_date_fits_witness:
  "\<exists>v. formatBinaryDateTime [] 19 False = Inr (Inr v) \<and> length v = 19"
proof -
  have f: "formatBinaryDateTime [] 19 False = Inr (Inr (take 19 zeroDateTime))"
    by (simp add: formatBinaryDateTime_def go_slice_def zeroDateTime_def)
  with formatted_date_fits [OF f] show ?thesis by auto
qed

text \<open>The response of the old authentication method has eight bytes, each from 64 to 95, for every
  challenge and password: it never holds a zero byte, which would end it.\<close>

theorem old_response_range:
  assumes "scrambleOldPassword scramble password = Inr (Some out)"
  shows "length out = 8 \<and> (\<forall>b \<in> set out. 64 \<le> b \<and> b < 96)"
  using old_scramble_range [OF assms] .

theorem old_response_range_witness:
  "\<exists>out. scrambleOldPassword (replicate 8 0x41, []) [0x70] = Inr (Some out) \<and> length out = 8"
proof -
  have "\<exists>out. scrambleOldPassword (replicate 8 0x41, []) [0x70] = Inr (Some out)"
    by (simp add: scrambleOldPassword_def slice_int_def Let_def split: prod.split)
  then obtain out where o: "scrambleOldPassword (replicate 8 0x41, []) [0x70] = Inr (Some out)" by blast
  with old_response_range [OF o] show ?thesis by auto
qed

text \<open>Every column type that the driver names has a Go type to scan into, other than \<open>NULL\<close>, and every
  one has a database type name: \<open>scanType\<close> and \<open>typeDatabaseName\<close> cover the type codes of the protocol.\<close>

theorem column_types_covered:
  assumes "field_type (fd_fieldType mf) = Some t"
  shows "(t \<noteq> fieldTypeNULL \<longrightarrow> scanType mf \<noteq> scanTypeUnknown) \<and> typeDatabaseName mf \<noteq> []"
  using scan_covers [OF assms] name_covers [OF assms] by blast

theorem column_types_covered_witness:
  "scanType (mysqlField_zero\<lparr>fd_fieldType := 3\<rparr>) \<noteq> scanTypeUnknown"
proof -
  have t: "field_type (fd_fieldType (mysqlField_zero\<lparr>fd_fieldType := 3\<rparr>)) = Some fieldTypeLong"
    by code_simp
  show ?thesis using column_types_covered [OF t] by simp
qed

end
