(* ===== verification/DriverStmt.thy ===== *)
theory DriverStmt
  imports DriverQuery DriverTypes
begin

text \<open>
  \<open>statement.go\<close> and the prepared statements of \<open>packets.go\<close>, \<open>connection.go\<close> and \<open>rows.go\<close>: preparing,
  the execute packet with its arguments, long arguments in packets of their own, and rows of the binary
  protocol.
\<close>

subsection \<open>Preparing\<close>

record mysqlStmt =
  stmt_open :: bool                   \<comment> \<open>\<open>stmt.mc != nil\<close>\<close>
  stmt_id :: "32 word"
  stmt_paramCount :: int

definition le_uint64 :: "bytes \<Rightarrow> 64 word go" where
  "le_uint64 b = go_bind (go_at b 7) (\<lambda>_. Inr (le_word (take 8 b)))"

definition readPrepareResultPacket ::
  "mysqlStmt \<Rightarrow> 'key mysqlConn \<Rightarrow> ((driver_error + 16 word) \<times> mysqlStmt \<times> 'key mysqlConn) go"
where
  "readPrepareResultPacket stmt mc =
     go_bind (readPacket mc) (\<lambda>(r, mc).
       case r of
         Inl err \<Rightarrow> Inr (Inl err, stmt, mc)
       | Inr data \<Rightarrow>
           go_bind (go_at (fst data) 0) (\<lambda>d0.
             if d0 \<noteq> iOK then go_bind (handleErrorPacket data mc) (\<lambda>(e, mc). Inr (Inl e, stmt, mc))
             else
               go_bind (slice_int data 1 5) (\<lambda>i. go_bind (le_uint32 (fst i)) (\<lambda>id.
               go_bind (slice_int data 5 7) (\<lambda>c. go_bind (le_uint16 (fst c)) (\<lambda>columnCount.
               go_bind (slice_int data 7 9) (\<lambda>p. go_bind (le_uint16 (fst p)) (\<lambda>params.
                 Inr (Inr columnCount, stmt\<lparr>stmt_id := id, stmt_paramCount := uint params\<rparr>, mc))))))))) "

text \<open>The statement is returned with an error of reading the definitions of the columns, too.\<close>

definition Prepare ::
  "bytes \<Rightarrow> 'key mysqlConn \<Rightarrow> ((driver_error option \<times> mysqlStmt option) \<times> 'key mysqlConn) go"
where
  "Prepare q mc =
     (if conn_closed mc then Inr ((Some ErrBadConn, None), mc)
      else
        go_bind (writeCommandPacketStr comStmtPrepare q mc) (\<lambda>(e, mc).
          case e of
            Some err \<Rightarrow> Inr ((Some (markBadConn err), None), mc)
          | None \<Rightarrow>
              go_bind (readPrepareResultPacket \<lparr>stmt_open = True, stmt_id = 0, stmt_paramCount = 0\<rparr> mc)
                (\<lambda>(r, stmt, mc).
                  case r of
                    Inl err \<Rightarrow> Inr ((Some err, Some stmt), mc)
                  | Inr columnCount \<Rightarrow>
                      go_bind (if 0 < stmt_paramCount stmt then readUntilEOF mc else Inr (Inr (), mc)) (\<lambda>(r, mc).
                        case r of
                          Inl err \<Rightarrow> Inr ((Some err, None), mc)
                        | Inr _ \<Rightarrow>
                            go_bind (if 0 < columnCount then readUntilEOF mc else Inr (Inr (), mc)) (\<lambda>(r, mc).
                              Inr ((case r of Inl err \<Rightarrow> Some err | Inr _ \<Rightarrow> None, Some stmt), mc))))))"

definition stmt_Close :: "mysqlStmt \<Rightarrow> 'key mysqlConn \<Rightarrow> ((driver_error option \<times> mysqlStmt) \<times> 'key mysqlConn) go" where
  "stmt_Close stmt mc =
     (if \<not> stmt_open stmt \<or> conn_closed mc then Inr ((Some ErrBadConn, stmt), mc)
      else go_bind (writeCommandPacketUint32 comStmtClose (stmt_id stmt) mc) (\<lambda>(err, mc).
        Inr ((err, stmt\<lparr>stmt_open := False\<rparr>), mc)))"

subsection \<open>Long arguments\<close>

text \<open>
  The loop of \<open>writeCommandLongData\<close> over \<open>data\<close>, the rest of the array: eleven bytes for the header, the
  command, the statement and the parameter, then the rest of the argument. It makes no progress when
  \<open>maxAllowedPacket\<close> is 8: \<open>None\<close> where it does not return.
\<close>

definition long_data_chunk ::
  "mysqlStmt \<Rightarrow> nat \<Rightarrow> int \<Rightarrow> bytes \<Rightarrow> 'key mysqlConn \<Rightarrow> (driver_error option \<times> bytes \<times> 'key mysqlConn) go"
where
  "long_data_chunk stmt paramID pktLen data mc =
     go_bind (fill_packet data
         (comStmtSendLongData # le_bytes 4 (stmt_id stmt) @ le_bytes 2 (word_of_nat paramID :: 64 word)))
       (\<lambda>data. go_bind (slice_int (data, []) 0 (4 + pktLen)) (\<lambda>(p, behind).
         go_bind (writePacket p mc) (\<lambda>(e, p, mc). Inr (e, p @ behind, mc))))"

partial_function (option) long_data_loop ::
  "mysqlStmt \<Rightarrow> nat \<Rightarrow> int \<Rightarrow> int \<Rightarrow> int \<Rightarrow> bytes \<Rightarrow> 'key mysqlConn \<Rightarrow>
   (driver_error option \<times> 'key mysqlConn) go option"
where
  "long_data_loop stmt paramID maxLen pktLen argLen data mc =
     (if argLen \<le> 0 then Some (Inr (None, mc\<lparr>conn_sequence := 0\<rparr>))
      else
        let pktLen = (if 7 + argLen < maxLen then 7 + argLen else pktLen) in
        case long_data_chunk stmt paramID pktLen data (mc\<lparr>conn_sequence := 0\<rparr>) of
          Inl p \<Rightarrow> Some (Inl p)
        | Inr (Some err, data, mc) \<Rightarrow> Some (Inr (Some err, mc))
        | Inr (None, data, mc) \<Rightarrow>
            (case slice_rest (data, []) (pktLen - 7) of
               Inl p \<Rightarrow> Some (Inl p)
             | Inr rest \<Rightarrow> long_data_loop stmt paramID maxLen pktLen (argLen - (pktLen - 7)) (fst rest) mc))"

definition writeCommandLongData ::
  "mysqlStmt \<Rightarrow> nat \<Rightarrow> bytes \<Rightarrow> 'key mysqlConn \<Rightarrow> (driver_error option \<times> 'key mysqlConn) go option"
where
  "writeCommandLongData stmt paramID arg mc =
     (let maxLen = conn_maxAllowedPacket mc - 1 in
      long_data_loop stmt paramID maxLen maxLen (int (length arg)) (replicate 11 0 @ arg) mc)"

subsection \<open>The execute packet\<close>

text \<open>
  The type of an argument and its bytes in the packet, no bytes where they go ahead as long data.
  The text of a time, and of floats their bits, are those of the standard library.
\<close>

definition fieldCodeNULL :: byte where "fieldCodeNULL = 6"
definition fieldCodeLongLong :: byte where "fieldCodeLongLong = 8"
definition fieldCodeDouble :: byte where "fieldCodeDouble = 5"
definition fieldCodeTiny :: byte where "fieldCodeTiny = 1"
definition fieldCodeString :: byte where "fieldCodeString = 0xfe"

definition arg_wire ::
  "(time_fields \<Rightarrow> bytes) \<Rightarrow> int \<Rightarrow> time_fields driver_value \<Rightarrow> (byte \<times> (bytes, bytes) sum) option"
where
  "arg_wire time_text longDataSize arg =
     (let string = (\<lambda>v. if int (length v) < longDataSize then Inr (lei (word_of_nat (length v)) @ v) else Inl v) in
      case arg of
        VNull \<Rightarrow> Some (fieldCodeNULL, Inr [])
      | VNilBytes \<Rightarrow> Some (fieldCodeNULL, Inr [])
      | VInt v \<Rightarrow> Some (fieldCodeLongLong, Inr (le_bytes 8 (word_of_int v :: 64 word)))
      | VFloat64 v \<Rightarrow> Some (fieldCodeDouble, Inr (le_bytes 8 v))
      | VBool v \<Rightarrow> Some (fieldCodeTiny, Inr [if v then 1 else 0])
      | VBytes v \<Rightarrow> Some (fieldCodeString, string v)
      | VString v \<Rightarrow> Some (fieldCodeString, string v)
      | VTime t \<Rightarrow>
          let b = (if tf_zero t then bytes_of_string ''0000-00-00'' else time_text t)
          in Some (fieldCodeString, Inr (lei (word_of_nat (length b)) @ b))
      | VFloat32 v \<Rightarrow> None)"

text \<open>
  The loop over the arguments from number \<open>i\<close> on, with the NULL bitmap, the types and the values so far.
\<close>

definition set_null :: "bytes \<Rightarrow> nat \<Rightarrow> bytes go" where
  "set_null nulls i =
     go_bind (go_at nulls (i div 8)) (\<lambda>b. go_store nulls (int (i div 8)) (b OR push_bit (i mod 8) 1))"

definition set_type :: "bytes \<Rightarrow> nat \<Rightarrow> byte \<Rightarrow> bytes go" where
  "set_type types i code =
     go_bind (go_store types (int (i + i)) code) (\<lambda>types. go_store types (int (i + i + 1)) 0)"

fun put_args ::
  "(time_fields \<Rightarrow> bytes) \<Rightarrow> mysqlStmt \<Rightarrow> int \<Rightarrow> nat \<Rightarrow> time_fields driver_value list \<Rightarrow>
   bytes \<Rightarrow> bytes \<Rightarrow> bytes \<Rightarrow> 'key mysqlConn \<Rightarrow> (bytes \<times> bytes \<times> bytes, 'key) drv option"
where
  "put_args time_text stmt longDataSize i [] nulls types values mc = Some (Inr (Inr (nulls, types, values), mc))"
| "put_args time_text stmt longDataSize i (arg # args) nulls types values mc =
     (case arg_wire time_text longDataSize arg of
        None \<Rightarrow> Some (Inr (Inl (OtherError ''cannot convert type: float32''), mc))
      | Some (code, val) \<Rightarrow>
          ret_bind (Some (if code = fieldCodeNULL then set_null nulls i else Inr nulls)) (\<lambda>nulls.
          ret_bind (Some (set_type types i code)) (\<lambda>types.
          case val of
            Inr v \<Rightarrow> put_args time_text stmt longDataSize (i + 1) args nulls types (values @ v) mc
          | Inl v \<Rightarrow>
              ret_bind (writeCommandLongData stmt i v mc) (\<lambda>(e, mc).
                case e of
                  Some err \<Rightarrow> Some (Inr (Inl err, mc))
                | None \<Rightarrow> put_args time_text stmt longDataSize (i + 1) args nulls types values mc))))"

definition execute_head :: "32 word \<Rightarrow> bytes" where
  "execute_head num = comStmtExecute # le_bytes 4 num @ [0, 1, 0, 0, 0]"

text \<open>
  The packet is built in the connection's buffer while it fits. When the fixed part does not, it is built
  in a new array (\<open>tmp\<close>); when the values do not, \<open>append\<close> moves them, the packet becomes a new array and
  this one the buffer. \<open>extra\<close> is the capacity behind the buffer. What an execution that fails before it
  is sent leaves behind in the idle buffer is not tracked.
\<close>

definition send_execute ::
  "nat \<Rightarrow> bytes \<Rightarrow> bytes \<Rightarrow> 'key mysqlConn \<Rightarrow> (driver_error option \<times> 'key mysqlConn) go"
where
  "send_execute extra fixed values mc =
     (let packet = fixed @ values; buf = buf_bytes (conn_buf mc);
          tmp = length buf \<le> length fixed;
          valuesCap = (if tmp then 0 else length buf + extra - length fixed)
      in
      if valuesCap < length values then
        write_own packet (mc\<lparr>conn_buf := (conn_buf mc)\<lparr>buf_bytes := packet\<rparr>\<rparr>)
      else
        go_bind (writePacket packet mc) (\<lambda>(e, packet, mc).
          Inr (e, if tmp then mc
            else mc\<lparr>conn_buf := (conn_buf mc)\<lparr>buf_bytes :=
              take (length buf) packet @ drop (length packet) buf\<rparr>\<rparr>)))"

definition writeExecutePacket ::
  "(time_fields \<Rightarrow> bytes) \<Rightarrow> nat \<Rightarrow> mysqlStmt \<Rightarrow> time_fields driver_value list \<Rightarrow> 'key mysqlConn \<Rightarrow>
   (driver_error option \<times> 'key mysqlConn) go option"
where
  "writeExecutePacket time_text extra stmt args mc =
     (if int (length args) \<noteq> stmt_paramCount stmt then
        Some (Inr (Some (OtherError (''argument count mismatch (got: '' @ strconv_Itoa (int (length args)) @
          ''; has: '' @ strconv_Itoa (stmt_paramCount stmt) @ '')'')), mc))
      else
        let longDataSize = max 64 (trunc_div (conn_maxAllowedPacket mc) (stmt_paramCount stmt + 1));
            mc = mc\<lparr>conn_sequence := 0\<rparr>; n = length args; head = execute_head (stmt_id stmt)
        in
        if args = [] then
          Some (go_bind (takeBuffer 14 (conn_buf mc)) (\<lambda>(d, b).
            let mc = mc\<lparr>conn_buf := b\<rparr> in
            case d of
              None \<Rightarrow> Inr (Some BadConnNoWrite, mc)
            | Some (data, own) \<Rightarrow> go_bind (fill_packet data head) (\<lambda>data. write_own data mc)))
        else
          case takeCompleteBuffer (conn_buf mc) of
            None \<Rightarrow> Some (Inr (Some BadConnNoWrite, mc))
          | Some data \<Rightarrow>
              ret_bind (Some (fill_packet data head)) (\<lambda>data.
              ret_bind (put_args time_text stmt longDataSize 0 args (replicate ((n + 7) div 8) 0)
                  (replicate (2 * n) 0) [] mc) (\<lambda>(r, mc).
                case r of
                  Inl err \<Rightarrow> Some (Inr (Some err, mc))
                | Inr (nulls, types, values) \<Rightarrow>
                    Some (send_execute extra (take 14 data @ nulls @ [1] @ types) values mc))))"

subsection \<open>Executing a statement\<close>

definition stmt_Exec ::
  "(time_fields \<Rightarrow> bytes) \<Rightarrow> nat \<Rightarrow> mysqlStmt \<Rightarrow> time_fields driver_value list \<Rightarrow> 'key mysqlConn \<Rightarrow>
   (int \<times> int, 'key) drv option"
where
  "stmt_Exec time_text extra stmt args mc =
     (if conn_closed mc then Some (Inr (Inl ErrBadConn, mc))
      else
        ret_bind (writeExecutePacket time_text extra stmt args mc) (\<lambda>(e, mc). Some (
          case e of
            Some err \<Rightarrow> Inr (Inl (markBadConn err), mc)
          | None \<Rightarrow>
              try_bind (readResultSetHeaderPacket (mc\<lparr>conn_affectedRows := 0, conn_insertId := 0\<rparr>)) (\<lambda>resLen mc.
              try_bind (if 0 < resLen then try_bind (readUntilEOF mc) (\<lambda>_ mc. readUntilEOF mc) else Inr (Inr (), mc))
                (\<lambda>_ mc. try_bind (discardResults mc) (\<lambda>_ mc.
                  Inr (Inr (to_int64 (uint (conn_affectedRows mc)), to_int64 (uint (conn_insertId mc))), mc)))))))"

text \<open>Where the answer has no columns, \<open>rows.mc\<close> is not set.\<close>

definition stmt_query ::
  "(time_fields \<Rightarrow> bytes) \<Rightarrow> nat \<Rightarrow> mysqlStmt \<Rightarrow> time_fields driver_value list \<Rightarrow> 'key mysqlConn \<Rightarrow>
   ((driver_error option \<times> text_rows option) \<times> 'key mysqlConn) go option"
where
  "stmt_query time_text extra stmt args mc =
     (if conn_closed mc then Some (Inr ((Some ErrBadConn, None), mc))
      else
        ret_bind (writeExecutePacket time_text extra stmt args mc) (\<lambda>(e, mc). Some (
          case e of
            Some err \<Rightarrow> Inr ((Some (markBadConn err), None), mc)
          | None \<Rightarrow>
              go_bind (readResultSetHeaderPacket mc) (\<lambda>(r, mc).
                case r of
                  Inl err \<Rightarrow> Inr ((Some err, None), mc)
                | Inr resLen \<Rightarrow>
                    let rows = \<lparr>rows_open = 0 < resLen, rows_columns = [], rows_done = \<not> 0 < resLen\<rparr> in
                    if 0 < resLen then
                      go_bind (readColumns resLen mc) (\<lambda>(r, mc).
                        Inr (case r of
                            Inl e \<Rightarrow> ((Some e, Some rows), mc)
                          | Inr columns \<Rightarrow> ((None, Some (rows\<lparr>rows_columns := columns\<rparr>)), mc)))
                    else
                      go_bind (NextResultSet rows mc) (\<lambda>(e, rows, mc).
                        Inr (if e = None \<or> e = Some EOF then ((None, Some rows), mc)
                          else ((e, None), mc)))))))"

subsection \<open>Rows of the binary protocol\<close>

text \<open>
  A value at position \<open>pos\<close> and the position behind it. \<open>zero\<close> and \<open>date\<close> are the zero time and
  \<open>time.Date\<close> in the connection's location.
\<close>

definition parseBinaryDateTime ::
  "'time \<Rightarrow> (int \<Rightarrow> int \<Rightarrow> int \<Rightarrow> int \<Rightarrow> int \<Rightarrow> int \<Rightarrow> int \<Rightarrow> 'time) \<Rightarrow> 64 word \<Rightarrow> slice \<Rightarrow>
   (driver_error + 'time) go"
where
  "parseBinaryDateTime zero date num data =
     (let at = (\<lambda>i. go_bind (go_at (fst data) i) (\<lambda>b. Inr (uint b))) in
      if num = 0 then Inr (Inr zero)
      else if num = 4 \<or> num = 7 \<or> num = 11 then
        go_bind (slice_int data 0 2) (\<lambda>y. go_bind (le_uint16 (fst y)) (\<lambda>year.
        go_bind (at 2) (\<lambda>month. go_bind (at 3) (\<lambda>day.
        if num = 4 then Inr (Inr (date (uint year) month day 0 0 0 0))
        else
          go_bind (at 4) (\<lambda>hour. go_bind (at 5) (\<lambda>minute. go_bind (at 6) (\<lambda>second.
          if num = 7 then Inr (Inr (date (uint year) month day hour minute second 0))
          else
            go_bind (slice_int data 7 11) (\<lambda>m. go_bind (le_uint32 (fst m)) (\<lambda>micros.
              Inr (Inr (date (uint year) month day hour minute second (uint micros * 1000))))))))))))
      else Inr (Inl (OtherError (''invalid DATETIME packet length '' @ strconv_Itoa (uint num)))))"

text \<open>The length of the text of a time: \<open>decimals\<close> digits behind the point, none for 0 and 31.\<close>

definition text_length :: "byte \<Rightarrow> byte \<Rightarrow> driver_error + byte" where
  "text_length base decimals =
     (if decimals = 0 \<or> decimals = 0x1f then Inr base
      else if 1 \<le> decimals \<and> decimals \<le> 6 then Inr (base + 1 + decimals)
      else Inl (OtherError (''protocol error, illegal decimals value '' @ strconv_Itoa (uint decimals))))"

definition read_fixed :: "slice \<Rightarrow> int \<Rightarrow> nat \<Rightarrow> (bytes \<Rightarrow> 'a go) \<Rightarrow> (driver_error + 'a \<times> int) go" where
  "read_fixed data pos k f =
     go_bind (slice_int data pos (to_int64 (pos + int k))) (\<lambda>s. go_bind (f (fst s)) (\<lambda>x.
       Inr (Inr (x, to_int64 (pos + int k)))))"

definition is_unsigned :: "mysqlField \<Rightarrow> bool" where
  "is_unsigned c \<longleftrightarrow> fd_flags c AND flagUnsigned \<noteq> 0"

definition int_value :: "mysqlField \<Rightarrow> 'a::len word \<Rightarrow> 'time driver_value" where
  "int_value c w = VInt (if is_unsigned c then uint w else sint w)"

definition long_value :: "mysqlField \<Rightarrow> 64 word \<Rightarrow> 'time driver_value go" where
  "long_value c w =
     (if is_unsigned c \<and> 2 ^ 63 \<le> uint w
      then go_bind (uint64ToString (unat w)) (\<lambda>s. Inr (VBytes s))
      else Inr (int_value c w))"

definition date_value ::
  "'time \<Rightarrow> (int \<Rightarrow> int \<Rightarrow> int \<Rightarrow> int \<Rightarrow> int \<Rightarrow> int \<Rightarrow> int \<Rightarrow> 'time) \<Rightarrow> bool \<Rightarrow> fieldType \<Rightarrow> mysqlField \<Rightarrow>
   slice \<Rightarrow> int \<Rightarrow> (driver_error + 'time driver_value \<times> int) go"
where
  "date_value zero date parseTime t c data pos =
     go_bind (slice_rest data pos) (\<lambda>d. go_bind (readLengthEncodedInteger (fst d)) (\<lambda>(num, isNull, n).
       let pos = pos + int n; behind = to_int64 (pos + to_int64 (uint num));
           text = (\<lambda>len justTime. go_bind (slice_int data pos behind) (\<lambda>s.
             go_bind (formatBinaryDateTime (fst s) len justTime) (\<lambda>r.
               Inr (case r of Inl e \<Rightarrow> Inl (OtherError e) | Inr v \<Rightarrow> Inr (VBytes v, behind)))))
       in
       if isNull then Inr (Inr (VNull, pos))
       else if t = fieldTypeTime then
         (case text_length 8 (fd_decimals c) of Inl e \<Rightarrow> Inr (Inl e) | Inr len \<Rightarrow> text len True)
       else if parseTime then
         go_bind (slice_rest data pos) (\<lambda>d. go_bind (parseBinaryDateTime zero date num d) (\<lambda>r.
           Inr (map_sum (\<lambda>e. e) (\<lambda>v. (VTime v, behind)) r)))
       else if t = fieldTypeDate then text 10 False
       else (case text_length 19 (fd_decimals c) of Inl e \<Rightarrow> Inr (Inl e) | Inr len \<Rightarrow> text len False)))"

definition binary_value ::
  "'time \<Rightarrow> (int \<Rightarrow> int \<Rightarrow> int \<Rightarrow> int \<Rightarrow> int \<Rightarrow> int \<Rightarrow> int \<Rightarrow> 'time) \<Rightarrow> bool \<Rightarrow> mysqlField \<Rightarrow>
   slice \<Rightarrow> int \<Rightarrow> (driver_error + 'time driver_value \<times> int) go"
where
  "binary_value zero date parseTime c data pos =
     (case field_type (fd_fieldType c) of
        None \<Rightarrow> Inr (Inl (OtherError (''unknown field type '' @ strconv_Itoa (uint (fd_fieldType c)))))
      | Some t \<Rightarrow>
          if t = fieldTypeNULL then Inr (Inr (VNull, pos))
          else if t = fieldTypeTiny then
            go_bind (if 0 \<le> pos then go_at (fst data) (nat pos) else Inl IndexOutOfRange) (\<lambda>b.
              Inr (Inr (int_value c b, pos + 1)))
          else if t = fieldTypeShort \<or> t = fieldTypeYear then
            read_fixed data pos 2 (\<lambda>b. go_bind (le_uint16 b) (\<lambda>w. Inr (int_value c w)))
          else if t = fieldTypeInt24 \<or> t = fieldTypeLong then
            read_fixed data pos 4 (\<lambda>b. go_bind (le_uint32 b) (\<lambda>w. Inr (int_value c w)))
          else if t = fieldTypeLongLong then
            read_fixed data pos 8 (\<lambda>b. go_bind (le_uint64 b) (long_value c))
          else if t = fieldTypeFloat then
            read_fixed data pos 4 (\<lambda>b. go_bind (le_uint32 b) (\<lambda>w. Inr (VFloat32 w)))
          else if t = fieldTypeDouble then
            read_fixed data pos 8 (\<lambda>b. go_bind (le_uint64 b) (\<lambda>w. Inr (VFloat64 w)))
          else if t \<in> set [fieldTypeDate, fieldTypeNewDate, fieldTypeTime, fieldTypeTimestamp, fieldTypeDateTime] then
            date_value zero date parseTime t c data pos
          else
            read_at data pos (\<lambda>v isNull pos. Inr (Inr (if isNull then VNull else VBytes v, pos))))"

fun binary_values ::
  "'time \<Rightarrow> (int \<Rightarrow> int \<Rightarrow> int \<Rightarrow> int \<Rightarrow> int \<Rightarrow> int \<Rightarrow> int \<Rightarrow> 'time) \<Rightarrow> bool \<Rightarrow> mysqlField list \<Rightarrow>
   bytes \<Rightarrow> slice \<Rightarrow> int \<Rightarrow> nat \<Rightarrow> nat \<Rightarrow> (driver_error + 'time driver_value list) go"
where
  "binary_values zero date parseTime columns nulls data pos i 0 = Inr (Inr [])"
| "binary_values zero date parseTime columns nulls data pos i (Suc k) =
     go_bind (go_at nulls ((i + 2) div 8)) (\<lambda>b.
     go_bind
       (if bit b ((i + 2) mod 8) then Inr (Inr (VNull, pos))
        else go_bind (go_at columns i) (\<lambda>c. binary_value zero date parseTime c data pos))
       (\<lambda>r. case r of
          Inl e \<Rightarrow> Inr (Inl e)
        | Inr (v, pos) \<Rightarrow>
            go_bind (binary_values zero date parseTime columns nulls data pos (i + 1) k) (\<lambda>vs.
              Inr (map_sum (\<lambda>e. e) ((#) v) vs))))"

text \<open>\<open>binaryRows.readRow\<close>; unlike \<open>textRows.readRow\<close> it does not look at \<open>rows.rs.done\<close>.\<close>

definition binary_readRow ::
  "'time \<Rightarrow> (int \<Rightarrow> int \<Rightarrow> int \<Rightarrow> int \<Rightarrow> int \<Rightarrow> int \<Rightarrow> int \<Rightarrow> 'time) \<Rightarrow> nat \<Rightarrow> text_rows \<Rightarrow> 'key mysqlConn \<Rightarrow>
   ((driver_error + 'time driver_value list) \<times> text_rows \<times> 'key mysqlConn) go"
where
  "binary_readRow zero date n rows mc =
     go_bind (readPacket mc) (\<lambda>(r, mc).
       case r of
         Inl e \<Rightarrow> Inr (Inl e, rows, mc)
       | Inr data \<Rightarrow>
           go_bind (go_at (fst data) 0) (\<lambda>d0.
             if d0 \<noteq> iOK then
               if d0 = iEOF \<and> length (fst data) = 5 then
                 go_bind (slice_rest data 3) (\<lambda>d. go_bind (readStatus (fst d)) (\<lambda>status.
                   let mc = mc\<lparr>conn_status := status\<rparr>;
                       rows = rows\<lparr>rows_done := True, rows_open := rows_open rows \<and> has_more_results mc\<rparr>
                   in Inr (Inl EOF, rows, mc)))
               else go_bind (handleErrorPacket data mc) (\<lambda>(e, mc). Inr (Inl e, rows\<lparr>rows_open := False\<rparr>, mc))
             else
               let pos = 1 + (n + 7 + 2) div 8 in
               go_bind (slice_int data 1 (int pos)) (\<lambda>nulls.
               go_bind (binary_values zero date (conn_parseTime mc) (rows_columns rows) (fst nulls) data (int pos) 0 n)
                 (\<lambda>r. Inr (r, rows, mc)))))"

definition binary_Next ::
  "'time \<Rightarrow> (int \<Rightarrow> int \<Rightarrow> int \<Rightarrow> int \<Rightarrow> int \<Rightarrow> int \<Rightarrow> int \<Rightarrow> 'time) \<Rightarrow> nat \<Rightarrow> text_rows \<Rightarrow> 'key mysqlConn \<Rightarrow>
   ((driver_error + 'time driver_value list) \<times> text_rows \<times> 'key mysqlConn) go"
where
  "binary_Next zero date n rows mc =
     (if rows_open rows
      then case conn_error mc of
          Some e \<Rightarrow> Inr (Inl e, rows, mc)
        | None \<Rightarrow> binary_readRow zero date n rows mc
      else Inr (Inl EOF, rows, mc))"

end
