(* ===== verification/DriverExecute.thy ===== *)
theory DriverExecute
  imports DriverStmt DriverSession
begin

text \<open>
  What the packets of a prepared statement mean to the server: long arguments arrive in pieces that make
  up the argument, and the execute packet gives back the arguments that were bound.
\<close>

subsection \<open>Long arguments\<close>

definition long_packet :: "mysqlStmt \<Rightarrow> nat \<Rightarrow> bytes \<Rightarrow> bytes" where
  "long_packet stmt i chunk =
     0x18 # le_bytes 4 (stmt_id stmt) @ le_bytes 2 (word_of_nat i :: 64 word) @ chunk"

definition emitted :: "bytes \<Rightarrow> 'key mysqlConn \<Rightarrow> 'key mysqlConn" where
  "emitted out mc = mc\<lparr>conn_net := (conn_net mc)\<lparr>net_out := net_out (conn_net mc) @ out\<rparr>, conn_sequence := 0\<rparr>"

lemma emitted_simps [simp]:
  "net_quiet (conn_net (emitted out mc)) = net_quiet (conn_net mc)"
  "conn_maxAllowedPacket (emitted out mc) = conn_maxAllowedPacket mc"
  "net_out (conn_net (emitted out mc)) = net_out (conn_net mc) @ out"
  "conn_buf (emitted out mc) = conn_buf mc" "conn_sequence (emitted out mc) = 0"
  "emitted b (emitted a mc) = emitted (a @ b) mc"
  by (simp_all add: emitted_def net_quiet_def)

lemma long_data_chunk_sends:
  assumes "net_quiet (conn_net mc)" "length pre = 11" "k \<le> length arg" "int k + 7 \<le> conn_maxAllowedPacket mc"
    and "conn_sequence mc = 0"
  shows "\<exists>data' s. long_data_chunk stmt i (int k + 7) (pre @ arg) mc =
      Inr (None, data' @ drop k arg, (emitted (frames 0 (long_packet stmt i (take k arg))) mc)\<lparr>conn_sequence := s\<rparr>) \<and>
    length data' = 11 + k"
proof -
  let ?h = "comStmtSendLongData # le_bytes 4 (stmt_id stmt) @ le_bytes 2 (word_of_nat i :: 64 word)"
  let ?p = "take 4 pre @ ?h @ take k arg" and ?q = "long_packet stmt i (take k arg)"
  have h: "length ?h = 7" by simp
  have fill: "fill_packet (pre @ arg) ?h = Inr (take 4 pre @ ?h @ arg)"
    using assms(2) h by (simp add: fill_packet_def)
  have slice: "slice_int (take 4 pre @ ?h @ arg, []) 0 (4 + (int k + 7)) = Inr (?p, drop k arg)"
    using slice_int_mid [of "take 4 pre @ ?h @ arg" "[]" ?p "drop k arg" 0 "4 + (int k + 7)" "[]"]
      assms(2,3) h by simp
  have p: "length ?p = length ?q + 4" "drop 4 ?p = ?q" "int (length ?q) \<le> conn_maxAllowedPacket mc" "length ?p = 11 + k"
    using assms(2,3,4) h by (simp_all add: long_packet_def comStmtSendLongData_def)
  obtain data' where "writePacket ?p mc = Inr (None, data', sent ?q mc)" "length data' = length ?p"
    using writePacket_sends [OF assms(1) p(1,2,3)] by blast
  with fill slice p(4) assms(5) show ?thesis
    by (auto simp: long_data_chunk_def sent_def emitted_def)
qed

text \<open>The frames of a long argument: pieces of it, each in a packet that is allowed.\<close>

definition long_frames :: "int \<Rightarrow> mysqlStmt \<Rightarrow> nat \<Rightarrow> bytes \<Rightarrow> bytes \<Rightarrow> bool" where
  "long_frames allowed stmt i arg out \<longleftrightarrow>
     (\<exists>chunks. concat chunks = arg \<and> (\<forall>c \<in> set chunks. c \<noteq> [] \<and> int (length c) + 7 < allowed) \<and>
       out = concat (map (\<lambda>c. frames 0 (long_packet stmt i c)) chunks))"

lemma long_frames_Nil: "long_frames allowed stmt i [] []"
  by (auto simp: long_frames_def intro: exI [of _ "[]"])

lemma long_frames_Cons:
  "c \<noteq> [] \<Longrightarrow> int (length c) + 7 < allowed \<Longrightarrow> long_frames allowed stmt i arg out \<Longrightarrow>
   long_frames allowed stmt i (c @ arg) (frames 0 (long_packet stmt i c) @ out)"
  unfolding long_frames_def by (elim exE conjE, rule_tac x = "c # chunks" in exI) auto

lemma long_data_loop_sends:
  assumes "net_quiet (conn_net mc)" "length pre = 11" "maxLen = conn_maxAllowedPacket mc - 1" "7 < maxLen"
  shows "\<exists>out. long_data_loop stmt i maxLen maxLen (int (length arg)) (pre @ arg) mc = Some (Inr (None, emitted out mc)) \<and>
    long_frames (conn_maxAllowedPacket mc) stmt i arg out"
  using assms(1-3)
proof (induction "length arg" arbitrary: arg pre mc rule: less_induct)
  case less
  show ?case
  proof (cases "arg = []")
    case True
    have "long_data_loop stmt i maxLen maxLen 0 pre mc = Some (Inr (None, emitted [] mc))"
      by (subst long_data_loop.simps) (simp add: emitted_def)
    with True long_frames_Nil show ?thesis by auto
  next
    case False
    let ?k = "min (length arg) (nat (maxLen - 7))" and ?mc = "mc\<lparr>conn_sequence := 0\<rparr>"
    let ?c = "take ?k arg" and ?pktLen = "if 7 + int (length arg) < maxLen then 7 + int (length arg) else maxLen"
    have k: "?pktLen = int ?k + 7" "0 < ?k" "?k \<le> length arg" "int ?k + 7 \<le> conn_maxAllowedPacket ?mc"
      using assms(4) less.prems(3) False by auto
    have q: "net_quiet (conn_net ?mc)" "conn_sequence ?mc = 0" using less.prems(1) by simp_all
    obtain data' s where
      c: "long_data_chunk stmt i (int ?k + 7) (pre @ arg) ?mc =
        Inr (None, data' @ drop ?k arg, (emitted (frames 0 (long_packet stmt i ?c)) ?mc)\<lparr>conn_sequence := s\<rparr>)"
      "length data' = 11 + ?k"
      using long_data_chunk_sends [OF q(1) less.prems(2) k(3,4) q(2), of stmt i] by blast
    let ?mc' = "(emitted (frames 0 (long_packet stmt i ?c)) ?mc)\<lparr>conn_sequence := s\<rparr>"
    have rest: "slice_rest (data' @ drop ?k arg, []) (?pktLen - 7) = Inr (drop ?k data' @ drop ?k arg, [])"
      unfolding k(1) using c(2) slice_rest_drop [of ?k "data' @ drop ?k arg" "[]"] by simp
    have step: "long_data_loop stmt i maxLen maxLen (int (length arg)) (pre @ arg) mc =
        long_data_loop stmt i maxLen ?pktLen (int (length (drop ?k arg))) (drop ?k data' @ drop ?k arg) ?mc'"
      using c(1) rest k False
      by (subst long_data_loop.simps) (simp add: Let_def of_nat_diff)
    have mc': "net_quiet (conn_net ?mc')" "conn_maxAllowedPacket ?mc' = conn_maxAllowedPacket mc"
      "emitted out ?mc' = emitted (frames 0 (long_packet stmt i ?c) @ out) mc" for out
      using less.prems(1) by (simp_all add: emitted_def net_quiet_def)
    have small: "int (length ?c) + 7 < conn_maxAllowedPacket mc" "?c \<noteq> []"
      using k less.prems(3) False by auto
    show ?thesis
    proof (cases "drop ?k arg = []")
      case True
      then have "?c = arg" by simp
      have "long_data_loop stmt i maxLen ?pktLen (int (length (drop ?k arg))) (drop ?k data' @ drop ?k arg) ?mc' =
          Some (Inr (None, emitted [] ?mc'))"
        unfolding True by (subst long_data_loop.simps) (simp add: emitted_def)
      with step mc'(3) [of "[]"] have "long_data_loop stmt i maxLen maxLen (int (length arg)) (pre @ arg) mc =
          Some (Inr (None, emitted (frames 0 (long_packet stmt i ?c)) mc))" by simp
      moreover have "long_frames (conn_maxAllowedPacket mc) stmt i arg (frames 0 (long_packet stmt i ?c))"
        using long_frames_Cons [OF small(2,1) long_frames_Nil, of stmt i] \<open>?c = arg\<close> by simp
      ultimately show ?thesis by blast
    next
      case more: False
      then have "?pktLen = maxLen" by auto
      moreover have "length (drop ?k arg) < length arg" using k(2) False by simp
      moreover have "length (drop ?k data') = 11" using c(2) by simp
      ultimately obtain out where
        "long_data_loop stmt i maxLen ?pktLen (int (length (drop ?k arg))) (drop ?k data' @ drop ?k arg) ?mc' =
          Some (Inr (None, emitted out ?mc'))"
        "long_frames (conn_maxAllowedPacket mc) stmt i (drop ?k arg) out"
        using less.hyps [of "drop ?k arg" ?mc' "drop ?k data'"] mc'(1,2) less.prems(3) by auto
      with step mc'(3) long_frames_Cons [OF small(2,1), of stmt i "drop ?k arg" out] show ?thesis by auto
    qed
  qed
qed

lemma writeCommandLongData_sends:
  assumes "net_quiet (conn_net mc)" "8 < conn_maxAllowedPacket mc"
  shows "\<exists>out. writeCommandLongData stmt i arg mc = Some (Inr (None, emitted out mc)) \<and>
    long_frames (conn_maxAllowedPacket mc) stmt i arg out"
  using long_data_loop_sends [OF assms(1), of "replicate 11 0" "conn_maxAllowedPacket mc - 1"] assms(2)
  by (simp add: writeCommandLongData_def Let_def)


text \<open>
  With a \<open>maxAllowedPacket\<close> of 8 every packet holds no byte of the argument, and the loop does not end.
\<close>

definition stuck :: "int \<Rightarrow> int \<Rightarrow> int \<Rightarrow> bytes \<Rightarrow> 'key mysqlConn \<Rightarrow> bool" where
  "stuck maxLen pktLen argLen data mc \<longleftrightarrow>
     maxLen = 7 \<and> pktLen = 7 \<and> 0 < argLen \<and> net_quiet (conn_net mc) \<and> 11 \<le> length data \<and>
     conn_maxAllowedPacket mc = 8"

lemma long_data_loop_stuck:
  assumes "long_data_loop stmt i maxLen pktLen argLen data mc = Some r"
  shows "\<not> stuck maxLen pktLen argLen data mc"
proof (rule long_data_loop.raw_induct [OF _ assms])
  fix f and stmt :: mysqlStmt and i :: nat and maxLen pktLen argLen :: int and data :: bytes
    and mc :: "'a mysqlConn" and r
  assume IH: "\<And>stmt i maxLen pktLen argLen data mc r.
      f stmt i maxLen pktLen argLen data mc = Some r \<Longrightarrow> \<not> stuck maxLen pktLen argLen data mc"
    and step: "(if argLen \<le> 0 then Some (Inr (None, mc\<lparr>conn_sequence := 0\<rparr>))
      else
        let pktLen = (if 7 + argLen < maxLen then 7 + argLen else pktLen) in
        case long_data_chunk stmt i pktLen data (mc\<lparr>conn_sequence := 0\<rparr>) of
          Inl p \<Rightarrow> Some (Inl p)
        | Inr (Some err, data, mc) \<Rightarrow> Some (Inr (Some err, mc))
        | Inr (None, data, mc) \<Rightarrow>
            (case slice_rest (data, []) (pktLen - 7) of
               Inl p \<Rightarrow> Some (Inl p)
             | Inr rest \<Rightarrow> f stmt i maxLen pktLen (argLen - (pktLen - 7)) (fst rest) mc)) = Some r"
  show "\<not> stuck maxLen pktLen argLen data mc"
  proof
    assume s: "stuck maxLen pktLen argLen data mc"
    define pre arg where "pre = take 11 data" and "arg = drop 11 data"
    have d: "data = pre @ arg" "length pre = 11" using s by (auto simp: pre_def arg_def stuck_def)
    let ?mc = "mc\<lparr>conn_sequence := 0\<rparr>"
    obtain data' n where
      c: "long_data_chunk stmt i 7 data ?mc =
          Inr (None, data' @ arg, (emitted (frames 0 (long_packet stmt i [])) ?mc)\<lparr>conn_sequence := n\<rparr>)"
        "length data' = 11"
      using long_data_chunk_sends [of ?mc pre 0 arg stmt i] s d by (auto simp: stuck_def)
    let ?mc' = "(emitted (frames 0 (long_packet stmt i [])) ?mc)\<lparr>conn_sequence := n\<rparr>"
    have "slice_rest (data' @ arg, []) 0 = Inr (data' @ arg, [])" using slice_rest_drop [of 0 "data' @ arg" "[]"] by simp
    then have "f stmt i maxLen pktLen argLen (data' @ arg) ?mc' = Some r"
      using step s c(1) by (simp add: stuck_def)
    then have "\<not> stuck maxLen pktLen argLen (data' @ arg) ?mc'" by (rule IH)
    with s c(2) show False by (simp add: stuck_def net_quiet_def emitted_def)
  qed
qed

lemma writeCommandLongData_stuck:
  assumes "conn_maxAllowedPacket mc = 8" "net_quiet (conn_net mc)" "arg \<noteq> []"
  shows "writeCommandLongData stmt i arg mc = None"
proof -
  have "long_data_loop stmt i 7 7 (int (length arg)) (replicate 11 0 @ arg) mc \<noteq> Some r" for r
    using long_data_loop_stuck [of stmt i 7 7 "int (length arg)" "replicate 11 0 @ arg" mc r] assms by (auto simp: stuck_def)
  then show ?thesis using assms(1) by (auto simp: writeCommandLongData_def Let_def)
qed

subsection \<open>The arguments in the packet\<close>

definition null_bit :: "bytes \<Rightarrow> nat \<Rightarrow> bool" where
  "null_bit nulls j = bit (nulls ! (j div 8)) (j mod 8)"

lemma set_null_bits:
  assumes "i < 8 * length nulls"
  shows "\<exists>nulls'. set_null nulls i = Inr nulls' \<and> length nulls' = length nulls \<and>
    (\<forall>j < 8 * length nulls. null_bit nulls' j \<longleftrightarrow> j = i \<or> null_bit nulls j)"
proof -
  have i: "i div 8 < length nulls" using assms by (simp add: less_mult_imp_div_less mult.commute)
  let ?n = "nulls[i div 8 := nulls ! (i div 8) OR push_bit (i mod 8) 1]"
  have "null_bit ?n j \<longleftrightarrow> j = i \<or> null_bit nulls j" if "j < 8 * length nulls" for j
  proof (cases "j div 8 = i div 8")
    case True
    have "(j mod 8 = i mod 8) \<longleftrightarrow> j = i" using True by (metis div_mult_mod_eq)
    moreover have "i mod 8 < 8" "j mod 8 < 8" by simp_all
    ultimately show ?thesis using True i by (auto simp: null_bit_def bit_simps)
  next
    case False
    then show ?thesis by (auto simp: null_bit_def)
  qed
  then show ?thesis using i by (simp add: set_null_def go_store_def)
qed

lemma set_type_pair:
  assumes "length A = 2 * i"
  shows "set_type (A @ x # y # T) i c = Inr ((A @ [c, 0]) @ T)"
proof -
  have n: "nat (int (i + i)) = length A" "nat (int (i + i + 1)) = Suc (length A)" using assms by simp_all
  show ?thesis
    unfolding set_type_def go_store_def n using assms by (simp add: list_update_append)
qed

type_synonym wire = "byte \<times> (bytes, bytes) sum"

definition inline :: "wire \<Rightarrow> bytes" where
  "inline w = (case snd w of Inr v \<Rightarrow> v | Inl _ \<Rightarrow> [])"

lemma inline_simps [simp]: "inline (c, Inr v) = v" "inline (c, Inl v) = []"
  by (simp_all add: inline_def)

definition type_bytes :: "wire list \<Rightarrow> bytes" where
  "type_bytes ws = concat (map (\<lambda>w. [fst w, 0]) ws)"

lemma length_type_bytes [simp]: "length (type_bytes ws) = 2 * length ws"
  by (induction ws) (simp_all add: type_bytes_def)

text \<open>The frames of the long arguments, in order.\<close>

fun ahead :: "int \<Rightarrow> mysqlStmt \<Rightarrow> nat \<Rightarrow> wire list \<Rightarrow> bytes \<Rightarrow> bool" where
  "ahead allowed stmt i [] out \<longleftrightarrow> out = []"
| "ahead allowed stmt i (w # ws) out \<longleftrightarrow>
     (case snd w of
        Inr _ \<Rightarrow> ahead allowed stmt (i + 1) ws out
      | Inl v \<Rightarrow> \<exists>a b. out = a @ b \<and> long_frames allowed stmt i v a \<and> ahead allowed stmt (i + 1) ws b)"

lemma put_args_result:
  assumes "map (arg_wire time_text lds) args = map Some ws" "net_quiet (conn_net mc)" "conn_sequence mc = 0"
    and "8 < conn_maxAllowedPacket mc" "length A = 2 * i" "length T = 2 * length args" "i + length args \<le> 8 * length nulls"
  shows "\<exists>nulls' out.
    put_args time_text stmt lds i args nulls (A @ T) values mc =
      Some (Inr (Inr (nulls', A @ type_bytes ws, values @ concat (map inline ws)), emitted out mc)) \<and>
    ahead (conn_maxAllowedPacket mc) stmt i ws out \<and> length nulls' = length nulls \<and>
    (\<forall>j < 8 * length nulls. null_bit nulls' j \<longleftrightarrow>
       (i \<le> j \<and> j < i + length ws \<and> fst (ws ! (j - i)) = fieldCodeNULL) \<or> null_bit nulls j)"
  using assms
proof (induction args arbitrary: ws i nulls A T "values" mc)
  case Nil
  have "emitted [] mc = mc" using Nil.prems(3) by (simp add: emitted_def)
  with Nil show ?case by (auto simp: type_bytes_def)
next
  case (Cons arg args)
  then obtain code val ws' where ws: "ws = (code, val) # ws'" by (cases ws) auto
  have arg: "arg_wire time_text lds arg = Some (code, val)" "map (arg_wire time_text lds) args = map Some ws'"
    using Cons.prems(1) ws by simp_all
  obtain x y T' where T: "T = x # y # T'" "length T' = 2 * length args"
    using Cons.prems(6) by (cases T; cases "tl T") auto
  obtain nulls1 where n1: "(if code = fieldCodeNULL then set_null nulls i else Inr nulls) = Inr nulls1"
    "length nulls1 = length nulls"
    "\<forall>j < 8 * length nulls. null_bit nulls1 j \<longleftrightarrow> (j = i \<and> code = fieldCodeNULL) \<or> null_bit nulls j"
    using set_null_bits [of i nulls] Cons.prems(7) by (cases "code = fieldCodeNULL") auto
  note typed = set_type_pair [OF Cons.prems(5), of x y T' code]
  have bits: "(i \<le> j \<and> j < i + length ws \<and> fst (ws ! (j - i)) = fieldCodeNULL) \<longleftrightarrow>
      (i + 1 \<le> j \<and> j < i + 1 + length ws' \<and> fst (ws' ! (j - (i + 1))) = fieldCodeNULL) \<or> (j = i \<and> code = fieldCodeNULL)" for j
  proof (cases "j \<le> i")
    case False
    then have "j - i = Suc (j - (i + 1))" by simp
    with False show ?thesis by (auto simp: ws)
  qed (auto simp: ws)
  define mc1 where "mc1 = mc"
  obtain out1 where v: "(case val of Inr v \<Rightarrow> put_args time_text stmt lds (i + 1) args nulls1 ((A @ [code, 0]) @ T') (values @ v) mc
      | Inl v \<Rightarrow> ret_bind (writeCommandLongData stmt i v mc) (\<lambda>(e, mc). case e of Some err \<Rightarrow> Some (Inr (Inl err, mc))
        | None \<Rightarrow> put_args time_text stmt lds (i + 1) args nulls1 ((A @ [code, 0]) @ T') values mc)) =
      put_args time_text stmt lds (i + 1) args nulls1 ((A @ [code, 0]) @ T') (values @ inline (code, val)) (emitted out1 mc)"
      "\<And>b. ahead (conn_maxAllowedPacket mc) stmt (i + 1) ws' b \<Longrightarrow> ahead (conn_maxAllowedPacket mc) stmt i ws (out1 @ b)"
  proof (cases val)
    case (Inl v)
    obtain out where "writeCommandLongData stmt i v mc = Some (Inr (None, emitted out mc))"
      "long_frames (conn_maxAllowedPacket mc) stmt i v out"
      using writeCommandLongData_sends [OF Cons.prems(2,4)] by blast
    with Inl ws show ?thesis by (intro that [of out]) (auto simp: inline_def)
  next
    case (Inr v)
    have "emitted [] mc = mc" using Cons.prems(3) by (simp add: emitted_def)
    with Inr ws show ?thesis by (intro that [of "[]"]) (auto simp: inline_def)
  qed
  have "\<exists>nulls' out.
    put_args time_text stmt lds (i + 1) args nulls1 ((A @ [code, 0]) @ T') (values @ inline (code, val)) (emitted out1 mc) =
      Some (Inr (Inr (nulls', (A @ [code, 0]) @ type_bytes ws', (values @ inline (code, val)) @ concat (map inline ws')),
        emitted out (emitted out1 mc))) \<and>
    ahead (conn_maxAllowedPacket (emitted out1 mc)) stmt (i + 1) ws' out \<and> length nulls' = length nulls1 \<and>
    (\<forall>j < 8 * length nulls1. null_bit nulls' j \<longleftrightarrow>
       (i + 1 \<le> j \<and> j < i + 1 + length ws' \<and> fst (ws' ! (j - (i + 1))) = fieldCodeNULL) \<or> null_bit nulls1 j)"
    using Cons.prems n1(2) T(2) by (intro Cons.IH [OF arg(2)]) auto
  then obtain nulls' out where r:
    "put_args time_text stmt lds (i + 1) args nulls1 ((A @ [code, 0]) @ T') (values @ inline (code, val)) (emitted out1 mc) =
      Some (Inr (Inr (nulls', A @ type_bytes ws, values @ concat (map inline ws)), emitted (out1 @ out) mc))"
    "ahead (conn_maxAllowedPacket mc) stmt (i + 1) ws' out" "length nulls' = length nulls"
    "\<forall>j < 8 * length nulls. null_bit nulls' j \<longleftrightarrow>
       (i + 1 \<le> j \<and> j < i + 1 + length ws' \<and> fst (ws' ! (j - (i + 1))) = fieldCodeNULL) \<or> null_bit nulls1 j"
    using n1(2) ws by (auto simp: type_bytes_def)
  have "put_args time_text stmt lds i (arg # args) nulls (A @ T) values mc =
      Some (Inr (Inr (nulls', A @ type_bytes ws, values @ concat (map inline ws)), emitted (out1 @ out) mc))"
  proof -
    have "put_args time_text stmt lds i (arg # args) nulls (A @ T) values mc =
      (case val of Inr v \<Rightarrow> put_args time_text stmt lds (i + 1) args nulls1 ((A @ [code, 0]) @ T') (values @ v) mc
      | Inl v \<Rightarrow> ret_bind (writeCommandLongData stmt i v mc) (\<lambda>(e, mc). case e of Some err \<Rightarrow> Some (Inr (Inl err, mc))
        | None \<Rightarrow> put_args time_text stmt lds (i + 1) args nulls1 ((A @ [code, 0]) @ T') values mc))"
      unfolding put_args.simps arg(1) option.case prod.case n1(1) T(1) ret_bind_simps typed by (rule refl)
    also note v(1)
    also note r(1)
    finally show ?thesis .
  qed
  moreover have "\<forall>j < 8 * length nulls. null_bit nulls' j \<longleftrightarrow>
       (i \<le> j \<and> j < i + length ws \<and> fst (ws ! (j - i)) = fieldCodeNULL) \<or> null_bit nulls j"
    using r(4) n1(3) bits by blast
  ultimately show ?case using r(2,3) v(2) by blast
qed


subsection \<open>What the server reads\<close>

text \<open>
  The parameters as the server gets them; \<open>long i\<close> is the long data that has come for parameter \<open>i\<close>, if any has.
  The numbers of the protocol stand here as numbers.
\<close>

datatype param = PNull | PInt "64 word" | PDouble "64 word" | PTiny byte | PText bytes

definition decode_value :: "byte \<Rightarrow> bytes \<Rightarrow> (param \<times> bytes) option" where
  "decode_value code b =
     (if code = 8 then if length b < 8 then None else Some (PInt (le_word (take 8 b)), drop 8 b)
      else if code = 5 then if length b < 8 then None else Some (PDouble (le_word (take 8 b)), drop 8 b)
      else if code = 1 then (case b of [] \<Rightarrow> None | x # b \<Rightarrow> Some (PTiny x, b))
      else if code = 0xfe then
        (case readLengthEncodedString (b, []) of
           Inr (Inr (v, False, n)) \<Rightarrow> Some (PText v, drop (nat n) b)
         | _ \<Rightarrow> None)
      else None)"

fun decode_values :: "(nat \<Rightarrow> bytes option) \<Rightarrow> bytes \<Rightarrow> nat \<Rightarrow> bytes \<Rightarrow> bytes \<Rightarrow> param list option" where
  "decode_values long nulls i (code # flag # types) b =
     (if null_bit nulls i then map_option ((#) PNull) (decode_values long nulls (i + 1) types b)
      else case long i of
          Some v \<Rightarrow> if code = 0xfe then map_option ((#) (PText v)) (decode_values long nulls (i + 1) types b) else None
        | None \<Rightarrow>
            (case decode_value code b of
               None \<Rightarrow> None
             | Some (p, b) \<Rightarrow> map_option ((#) p) (decode_values long nulls (i + 1) types b)))"
| "decode_values long nulls i _ b = (if b = [] then Some [] else None)"

definition decode_execute :: "nat \<Rightarrow> (nat \<Rightarrow> bytes option) \<Rightarrow> bytes \<Rightarrow> (32 word \<times> param list) option" where
  "decode_execute n long p =
     (let m = (n + 7) div 8; num = le_word (take 4 (drop 1 p)) in
      if take 10 p \<noteq> 0x17 # le_bytes 4 num @ [0, 1, 0, 0, 0] then None
      else if n = 0 then if length p = 10 then Some (num, []) else None
      else if length p < 11 + m + 2 * n \<or> p ! (10 + m) \<noteq> 1 then None
      else map_option (Pair num)
        (decode_values long (take m (drop 10 p)) 0 (take (2 * n) (drop (11 + m) p)) (drop (11 + m + 2 * n) p)))"

text \<open>What the server keeps of the long data it has got: pieces for one parameter are joined.\<close>

definition long_store :: "(nat \<times> bytes) list \<Rightarrow> nat \<Rightarrow> bytes option" where
  "long_store longs i =
     (if i \<in> fst ` set longs then Some (concat (map snd (filter (\<lambda>l. fst l = i) longs))) else None)"

definition long_bytes :: "mysqlStmt \<Rightarrow> (nat \<times> bytes) list \<Rightarrow> bytes" where
  "long_bytes stmt longs = concat (map (\<lambda>(i, c). frames 0 (long_packet stmt i c)) longs)"

text \<open>The parameter an argument is meant to be, and the room it takes in the packet.\<close>

fun arg_param :: "(time_fields \<Rightarrow> bytes) \<Rightarrow> time_fields driver_value \<Rightarrow> param" where
  "arg_param time_text (VInt v) = PInt (word_of_int v)"
| "arg_param time_text (VFloat64 v) = PDouble v"
| "arg_param time_text (VBool v) = PTiny (if v then 1 else 0)"
| "arg_param time_text (VBytes v) = PText v"
| "arg_param time_text (VString v) = PText v"
| "arg_param time_text (VTime t) = PText (if tf_zero t then bytes_of_string ''0000-00-00'' else time_text t)"
| "arg_param time_text _ = PNull"

fun arg_size :: "(time_fields \<Rightarrow> bytes) \<Rightarrow> int \<Rightarrow> time_fields driver_value \<Rightarrow> nat" where
  "arg_size time_text lds (VInt v) = 8"
| "arg_size time_text lds (VFloat64 v) = 8"
| "arg_size time_text lds (VBool v) = 1"
| "arg_size time_text lds (VBytes v) = (if int (length v) < lds then length (les v) else 0)"
| "arg_size time_text lds (VString v) = (if int (length v) < lds then length (les v) else 0)"
| "arg_size time_text lds (VTime t) = length (les (if tf_zero t then bytes_of_string ''0000-00-00'' else time_text t))"
| "arg_size time_text lds _ = 0"

definition request_size :: "(time_fields \<Rightarrow> bytes) \<Rightarrow> int \<Rightarrow> time_fields driver_value list \<Rightarrow> nat" where
  "request_size time_text lds args =
     (if args = [] then 10
      else 11 + (length args + 7) div 8 + 2 * length args + sum_list (map (arg_size time_text lds) args))"

lemma long_store_other: "i \<notin> fst ` set longs \<Longrightarrow> long_store longs i = None"
  by (simp add: long_store_def)

lemma long_store_before:
  "fst l \<noteq> i \<Longrightarrow> long_store (l # longs) i = long_store longs i"
  by (auto simp: long_store_def)

lemma long_store_append:
  "\<forall>l \<in> set a. fst l \<noteq> i \<Longrightarrow> long_store (a @ b) i = long_store b i"
  by (induction a) (auto simp: long_store_before)

lemma long_store_pieces:
  "chunks \<noteq> [] \<Longrightarrow> i \<notin> fst ` set b \<Longrightarrow> long_store (map (Pair i) chunks @ b) i = Some (concat chunks)"
proof -
  assume "chunks \<noteq> []" "i \<notin> fst ` set b"
  moreover from this have "filter (\<lambda>l. fst l = i) b = []" by (auto simp: filter_empty_conv)
  moreover have "filter (\<lambda>l. fst l = i) (map (Pair i) chunks) = map (Pair i) chunks" by (induction chunks) simp_all
  moreover have "i \<in> fst ` set (map (Pair i) chunks @ b)" using \<open>chunks \<noteq> []\<close> by (cases chunks) auto
  ultimately show ?thesis by (simp add: long_store_def comp_def del: set_append set_map)
qed

lemma long_bytes_append: "long_bytes stmt (a @ b) = long_bytes stmt a @ long_bytes stmt b"
  by (simp add: long_bytes_def)

text \<open>The frames that went ahead are long data, and what the server keeps of it are the long arguments.\<close>

lemma ahead_longs:
  "ahead allowed stmt i ws out \<Longrightarrow> (\<And>c v. (c, Inl v) \<in> set ws \<Longrightarrow> v \<noteq> []) \<Longrightarrow>
   \<exists>longs. out = long_bytes stmt longs \<and> (\<forall>l \<in> set longs. i \<le> fst l \<and> int (length (snd l)) + 7 < allowed) \<and>
     (\<forall>j < length ws. long_store longs (i + j) = (case snd (ws ! j) of Inl v \<Rightarrow> Some v | Inr _ \<Rightarrow> None))"
proof (induction ws arbitrary: i out)
  case Nil
  then show ?case by (intro exI [of _ "[]"]) (simp add: long_bytes_def)
next
  case (Cons w ws)
  obtain code val where w: "w = (code, val)" by (cases w)
  have IH: "\<exists>longs. b = long_bytes stmt longs \<and> (\<forall>l \<in> set longs. i + 1 \<le> fst l \<and> int (length (snd l)) + 7 < allowed) \<and>
      (\<forall>j < length ws. long_store longs (i + 1 + j) = (case snd (ws ! j) of Inl v \<Rightarrow> Some v | Inr _ \<Rightarrow> None))"
    if "ahead allowed stmt (i + 1) ws b" for b
    using that Cons.prems(2) by (intro Cons.IH) auto
  show ?case
  proof (cases val)
    case (Inr v)
    then obtain longs where l: "out = long_bytes stmt longs"
      "\<forall>l \<in> set longs. i + 1 \<le> fst l \<and> int (length (snd l)) + 7 < allowed"
      "\<forall>j < length ws. long_store longs (i + 1 + j) = (case snd (ws ! j) of Inl v \<Rightarrow> Some v | Inr _ \<Rightarrow> None)"
      using IH [of out] Cons.prems(1) w by auto
    moreover have "long_store longs i = None" using l(2) by (intro long_store_other) force
    ultimately show ?thesis
      using Inr w by (intro exI [of _ longs]) (auto simp: nth_Cons' less_Suc_eq_0_disj)
  next
    case (Inl v)
    then obtain a b where ab: "out = a @ b" "long_frames allowed stmt i v a" "ahead allowed stmt (i + 1) ws b"
      using Cons.prems(1) w by auto
    obtain chunks where c: "concat chunks = v" "\<forall>c \<in> set chunks. c \<noteq> [] \<and> int (length c) + 7 < allowed"
      "a = concat (map (\<lambda>c. frames 0 (long_packet stmt i c)) chunks)"
      using ab(2) by (auto simp: long_frames_def)
    obtain longs where l: "b = long_bytes stmt longs"
      "\<forall>l \<in> set longs. i + 1 \<le> fst l \<and> int (length (snd l)) + 7 < allowed"
      "\<forall>j < length ws. long_store longs (i + 1 + j) = (case snd (ws ! j) of Inl v \<Rightarrow> Some v | Inr _ \<Rightarrow> None)"
      using IH [OF ab(3)] by blast
    have "v \<noteq> []" using Cons.prems(2) [of code v] Inl w by simp
    then have "chunks \<noteq> []" using c(1) by auto
    moreover have "i \<notin> fst ` set longs" using l(2) by force
    ultimately have here: "long_store (map (Pair i) chunks @ longs) i = Some v"
      using long_store_pieces c(1) by simp
    have later: "long_store (map (Pair i) chunks @ longs) (i + 1 + j) = long_store longs (i + 1 + j)" for j
      by (rule long_store_append) auto
    have "a = long_bytes stmt (map (Pair i) chunks)" using c(3) by (simp add: long_bytes_def comp_def)
    then show ?thesis
      using here later l c(2) ab(1) Inl w
      by (intro exI [of _ "map (Pair i) chunks @ longs"]) (auto simp: long_bytes_append nth_Cons' less_Suc_eq_0_disj)
  qed
qed

lemma decode_les: "length v + 9 < 2 ^ 63 \<Longrightarrow> decode_value 0xfe (les v @ b) = Some (PText v, b)"
  by (simp add: decode_value_def read_les)

lemma decode_arg:
  assumes "arg_wire time_text lds arg = Some (code, val)" "length (inline (code, val)) + 9 < 2 ^ 63"
  shows "if code = fieldCodeNULL then arg_param time_text arg = PNull \<and> val = Inr []
    else case val of Inl v \<Rightarrow> arg_param time_text arg = PText v \<and> code = 0xfe \<and> lds \<le> int (length v)
      | Inr v \<Rightarrow> decode_value code (v @ b) = Some (arg_param time_text arg, b)"
proof -
  note codes = fieldCodeString_def fieldCodeLongLong_def fieldCodeDouble_def fieldCodeTiny_def fieldCodeNULL_def
  have les: "lei (word_of_nat (length v)) @ v @ b = les v @ b" for v by (simp add: les_def)
  have word: "le_word (le_bytes 8 w) = w" for w :: "64 word"
    by (simp add: le_word_le_bytes take_bit_word_eq_self)
  have str: ?thesis
    if "code = fieldCodeString" "val = (if int (length v) < lds then Inr (lei (word_of_nat (length v)) @ v) else Inl v)"
      "arg_param time_text arg = PText v" for v
  proof (cases "int (length v) < lds")
    case True
    with that assms(2) have "length v + 9 < 2 ^ 63" by (simp add: inline_def)
    then show ?thesis using that True by (simp add: les decode_les codes)
  next
    case False
    then show ?thesis using that by (simp add: codes)
  qed
  show ?thesis
  proof (cases arg)
    case (VBytes v)
    with assms(1) show ?thesis by (intro str [of v]) (simp_all add: arg_wire_def Let_def)
  next
    case (VString v)
    with assms(1) show ?thesis by (intro str [of v]) (simp_all add: arg_wire_def Let_def)
  next
    case (VTime t)
    let ?t = "if tf_zero t then bytes_of_string ''0000-00-00'' else time_text t"
    have w: "code = fieldCodeString" "val = Inr (les ?t)"
      using assms(1) VTime by (simp_all add: arg_wire_def Let_def les_def)
    with assms(2) have "length ?t + 9 < 2 ^ 63" by (simp add: inline_def les_def)
    then show ?thesis using w VTime by (simp add: decode_les codes del: if_split)
  qed (use assms(1) in \<open>auto simp: arg_wire_def Let_def decode_value_def codes word\<close>)
qed

lemma decode_values_wires:
  assumes "map (arg_wire time_text lds) args = map Some ws" "length (concat (map inline ws)) + 9 < 2 ^ 63"
    and "\<And>j. j < length ws \<Longrightarrow> null_bit nulls (i + j) \<longleftrightarrow> fst (ws ! j) = fieldCodeNULL"
    and "\<And>j. j < length ws \<Longrightarrow> long (i + j) = (case snd (ws ! j) of Inl v \<Rightarrow> Some v | Inr _ \<Rightarrow> None)"
  shows "decode_values long nulls i (type_bytes ws) (concat (map inline ws)) = Some (map (arg_param time_text) args)"
  using assms
proof (induction args arbitrary: ws i)
  case Nil
  then show ?case by (simp add: type_bytes_def)
next
  case (Cons arg args)
  then obtain code val ws' where ws: "ws = (code, val) # ws'" by (cases ws) auto
  have arg: "arg_wire time_text lds arg = Some (code, val)" "map (arg_wire time_text lds) args = map Some ws'"
    using Cons.prems(1) ws by simp_all
  have small: "length (inline (code, val)) + 9 < 2 ^ 63" "length (concat (map inline ws')) + 9 < 2 ^ 63"
    using Cons.prems(2) ws by simp_all
  have here: "null_bit nulls i \<longleftrightarrow> code = fieldCodeNULL" "long i = (case val of Inl v \<Rightarrow> Some v | Inr _ \<Rightarrow> None)"
    using Cons.prems(3,4) [of 0] ws by simp_all
  have "decode_values long nulls (i + 1) (type_bytes ws') (concat (map inline ws')) = Some (map (arg_param time_text) args)"
    using Cons.prems(3,4) [of "Suc _"] ws by (intro Cons.IH arg(2) small(2)) auto
  moreover have "type_bytes ws = code # 0 # type_bytes ws'" by (simp add: ws type_bytes_def)
  ultimately show ?case
    using decode_arg [OF arg(1) small(1), of "concat (map inline ws')"] here
    by (cases "code = fieldCodeNULL"; cases val) (simp_all add: ws)
qed

subsection \<open>Executing\<close>

definition execute_size :: "wire list \<Rightarrow> nat" where
  "execute_size ws =
     (if ws = [] then 10 else 11 + (length ws + 7) div 8 + 2 * length ws + length (concat (map inline ws)))"

lemma send_execute_sends:
  assumes "idle mc" "conn_sequence mc = 0" "length fixed + length values = length p + 4" "drop 4 (fixed @ values) = p"
    and "4 \<le> length fixed" "int (length p) \<le> conn_maxAllowedPacket mc"
  shows "\<exists>mc'. send_execute extra fixed values mc = Inr (None, mc') \<and> commanded p mc mc'"
proof -
  let ?b = "conn_buf mc"
  have b: "net_quiet (conn_net mc)" "buffer_fits ?b" "buf_length ?b = 0" using assms(1) by (simp_all add: idle_def)
  have own: "\<exists>mc'. write_own (fixed @ values) (mc\<lparr>conn_buf := ?b\<lparr>buf_bytes := fixed @ values\<rparr>\<rparr>) = Inr (None, mc') \<and>
      commanded p mc mc'" if "length (buf_bytes ?b) \<le> length (fixed @ values)"
  proof -
    let ?mc = "mc\<lparr>conn_buf := ?b\<lparr>buf_bytes := fixed @ values\<rparr>\<rparr>"
    have "buffer_fits (conn_buf ?mc)" using b(2,3) that by (simp add: buffer_fits_def)
    then obtain mc' where "write_own (fixed @ values) ?mc = Inr (None, mc')" "commanded p ?mc mc'"
      using write_own_sends [of ?mc "fixed @ values" p] assms b by auto
    moreover have "commanded p mc mc'" using \<open>commanded p ?mc mc'\<close> by (simp add: commanded_def)
    ultimately show ?thesis by blast
  qed
  obtain data' where w: "writePacket (fixed @ values) mc = Inr (None, data', sent p mc)" "length data' = length (fixed @ values)"
    using writePacket_sends [of mc "fixed @ values" p] assms b(1) by auto
  have kept: "commanded p mc (if t then sent p mc
      else (sent p mc)\<lparr>conn_buf := ?b\<lparr>buf_bytes := take (length (buf_bytes ?b)) data' @ drop (length data') (buf_bytes ?b)\<rparr>\<rparr>)" for t
    using b assms(2) by (auto simp: commanded_def sent_def buffer_fits_def)
  let ?tmp = "length (buf_bytes ?b) \<le> length fixed"
  let ?cap = "if ?tmp then 0 else length (buf_bytes ?b) + extra - length fixed"
  have s: "send_execute extra fixed values mc =
      (if ?cap < length values then write_own (fixed @ values) (mc\<lparr>conn_buf := ?b\<lparr>buf_bytes := fixed @ values\<rparr>\<rparr>)
       else Inr (None, if ?tmp then sent p mc
         else (sent p mc)\<lparr>conn_buf := ?b\<lparr>buf_bytes := take (length (buf_bytes ?b)) data' @ drop (length data') (buf_bytes ?b)\<rparr>\<rparr>))"
    unfolding send_execute_def Let_def w(1) by (simp add: sent_def)
  show ?thesis
  proof (cases "?cap < length values")
    case True
    then have "length (buf_bytes ?b) \<le> length (fixed @ values)" by (auto split: if_splits)
    with own True s show ?thesis by simp
  next
    case False
    with kept [of ?tmp] s show ?thesis by simp
  qed
qed

lemma set_wires: "map (arg_wire time_text lds) args = map Some ws \<Longrightarrow> length ws = length args"
  by (metis length_map)

lemma emitted_idle: "idle mc \<Longrightarrow> idle (emitted out mc)"
  by (simp add: idle_def emitted_def net_quiet_def net_clean_def)

text \<open>
  The packets of an execution: the long arguments ahead, and a packet the server reads the statement and
  the arguments from.
\<close>

lemma execute_sends:
  fixes mc :: "'key mysqlConn"
  assumes lds: "lds = max 64 (trunc_div (conn_maxAllowedPacket mc) (stmt_paramCount stmt + 1))"
    and "idle mc" "int (length args) = stmt_paramCount stmt" "map (arg_wire time_text lds) args = map Some ws"
    and "int (execute_size ws) \<le> conn_maxAllowedPacket mc" "execute_size ws + 9 < 2 ^ 63"
  shows "\<exists>mc' longs p. writeExecutePacket time_text extra stmt args mc = Some (Inr (None, mc')) \<and>
    commanded p (emitted (long_bytes stmt longs) mc) mc' \<and> length p = execute_size ws \<and>
    (\<forall>l \<in> set longs. int (length (snd l)) + 7 < conn_maxAllowedPacket mc) \<and>
    decode_execute (length args) (long_store longs) p = Some (stmt_id stmt, map (arg_param time_text) args)"
proof -
  let ?h = "execute_head (stmt_id stmt)" and ?mc = "mc\<lparr>conn_sequence := 0\<rparr>" and ?b = "conn_buf mc" and ?n = "length args"
  have e: "emitted [] mc = ?mc" by (simp add: emitted_def)
  have h: "length ?h = 10" "take 4 (drop 1 ?h) = le_bytes 4 (stmt_id stmt)" by (simp_all add: execute_head_def)
  have num: "le_word (take 4 (drop 1 (?h @ r))) = stmt_id stmt" for r
  proof -
    have "take 4 (drop 1 (?h @ r)) = le_bytes 4 (stmt_id stmt)" by (simp add: execute_head_def)
    moreover have "le_word (le_bytes 4 (stmt_id stmt)) = stmt_id stmt"
    by (simp add: le_word_le_bytes take_bit_word_eq_self)
    ultimately show ?thesis by simp
  qed
  have idle: "buf_length ?b = 0" "buffer_fits ?b" "net_quiet (conn_net mc)" "4096 \<le> length (buf_bytes ?b)"
    using assms(2) by (simp_all add: idle_def defaultBufSize_def)
  have n: "length ws = ?n" using assms(4) by (rule set_wires)
  show ?thesis
  proof (cases "args = []")
    case True
    let ?d = "take 14 (buf_bytes ?b)"
    have d: "length ?d = 14" "takeBuffer 14 ?b = Inr (Some (?d, True), ?b)"
      using idle by (simp_all add: takeBuffer_def)
    then have f: "fill_packet ?d ?h = Inr (take 4 ?d @ ?h)" using h by (simp add: fill_packet_def)
    obtain mc' where "write_own (take 4 ?d @ ?h) ?mc = Inr (None, mc')" "commanded ?h ?mc mc'"
      using write_own_sends [of ?mc "take 4 ?d @ ?h" ?h] idle h assms(5) True n by (auto simp: execute_size_def)
    then have "writeExecutePacket time_text extra stmt args mc = Some (Inr (None, mc'))" "commanded ?h (emitted [] mc) mc'"
      using True assms(3) d(2) f by (simp_all add: writeExecutePacket_def Let_def e)
    moreover have "decode_execute 0 long ?h = Some (stmt_id stmt, [])" for long
      using num [of "[]"] h by (simp add: decode_execute_def Let_def execute_head_def comStmtExecute_def)
    ultimately show ?thesis using True n h
      by (intro exI [of _ mc'] exI [of _ "[]"] exI [of _ ?h]) (auto simp: execute_size_def long_bytes_def)
  next
    case False
    let ?m = "(?n + 7) div 8" and ?vs = "concat (map inline ws)"
    have m: "0 + ?n \<le> 8 * length (replicate ?m (0 :: byte))" by simp
    have size: "execute_size ws = 11 + ?m + 2 * ?n + length ?vs" using False n by (auto simp: execute_size_def)
    obtain nulls out where p:
      "put_args time_text stmt lds 0 args (replicate ?m 0) ([] @ replicate (2 * ?n) 0) [] ?mc =
        Some (Inr (Inr (nulls, [] @ type_bytes ws, [] @ ?vs), emitted out ?mc))"
      "ahead (conn_maxAllowedPacket mc) stmt 0 ws out" "length nulls = ?m"
      "\<forall>j < 8 * ?m. null_bit nulls j \<longleftrightarrow> (0 \<le> j \<and> j < 0 + length ws \<and> fst (ws ! (j - 0)) = fieldCodeNULL) \<or> null_bit (replicate ?m 0) j"
      using put_args_result [OF assms(4), of ?mc "[]" 0 "replicate (2 * ?n) 0" "replicate ?m 0" stmt "[]"] idle(3) size assms(5) m
      by auto
    have zero: "\<not> null_bit (replicate ?m 0) j" if "j < 8 * ?m" for j
      using that by (simp add: null_bit_def less_mult_imp_div_less mult.commute)
    let ?fixed = "(take 4 (buf_bytes ?b) @ ?h) @ nulls @ [1] @ type_bytes ws" and ?p = "?h @ nulls @ [1] @ type_bytes ws @ ?vs"
    have len: "length ?p = execute_size ws" using h p(3) n by (simp add: size)
    have "idle (emitted out mc)" using assms(2) by (rule emitted_idle)
    then obtain mc' where s: "send_execute extra ?fixed ?vs (emitted out mc) = Inr (None, mc')" "commanded ?p (emitted out mc) mc'"
      using send_execute_sends [of "emitted out mc" ?fixed ?vs ?p extra] len h(1) p(3) n idle(4) assms(5)
      by (auto simp: size)
    have comp: "takeCompleteBuffer ?b = Some (buf_bytes ?b)" using idle by (simp add: takeCompleteBuffer_def)
    have fill: "fill_packet (buf_bytes ?b) ?h = Inr (take 4 (buf_bytes ?b) @ ?h @ drop 14 (buf_bytes ?b))"
      using idle(4) h by (simp add: fill_packet_def)
    have t14: "take 14 (take 4 (buf_bytes ?b) @ ?h @ drop 14 (buf_bytes ?b)) = take 4 (buf_bytes ?b) @ ?h"
      using idle(4) h by simp
    have em: "emitted out ?mc = emitted out mc" by (simp add: emitted_def)
    have w: "writeExecutePacket time_text extra stmt args mc = Some (Inr (None, mc'))"
      using False assms(3) comp fill t14 p(1) s(1)
      by (simp add: writeExecutePacket_def Let_def em flip: lds)
    have long_args: "v \<noteq> []" if "(c, Inl v) \<in> set ws" for c v
    proof -
      from that assms(4) obtain arg where "arg_wire time_text lds arg = Some (c, Inl v)"
        by (metis (no_types, lifting) in_set_conv_nth length_map nth_map)
      from decode_arg [OF this, of "[]"] have "lds \<le> int (length v)" by (simp split: if_splits)
      then show ?thesis using lds by auto
    qed
    have "\<exists>longs. out = long_bytes stmt longs \<and> (\<forall>l \<in> set longs. 0 \<le> fst l \<and> int (length (snd l)) + 7 < conn_maxAllowedPacket mc) \<and>
        (\<forall>j < length ws. long_store longs (0 + j) = (case snd (ws ! j) of Inl v \<Rightarrow> Some v | Inr _ \<Rightarrow> None))"
      by (rule ahead_longs [OF p(2)]) (rule long_args)
    then obtain longs where longs: "out = long_bytes stmt longs"
      "\<forall>l \<in> set longs. int (length (snd l)) + 7 < conn_maxAllowedPacket mc"
      "\<forall>j < length ws. long_store longs j = (case snd (ws ! j) of Inl v \<Rightarrow> Some v | Inr _ \<Rightarrow> None)" by auto
    have "decode_execute ?n (long_store longs) ?p = Some (stmt_id stmt, map (arg_param time_text) args)"
    proof -
      have "decode_values (long_store longs) nulls 0 (type_bytes ws) ?vs = Some (map (arg_param time_text) args)"
        using assms(5,6) p(4) zero n longs(3)
        by (intro decode_values_wires [OF assms(4)]) (auto simp: size)
      moreover have "take ?m (drop 10 ?p) = nulls" "take (2 * ?n) (drop (11 + ?m) ?p) = type_bytes ws"
        "drop (11 + ?m + 2 * ?n) ?p = ?vs" "?p ! (10 + ?m) = 1" "take 10 ?p = ?h"
        using h(1) p(3) n by (simp_all add: nth_append)
      moreover have "?h = 0x17 # le_bytes 4 (stmt_id stmt) @ [0, 1, 0, 0, 0]" by (simp add: execute_head_def comStmtExecute_def)
      ultimately show ?thesis
        using False num [of "nulls @ [1] @ type_bytes ws @ ?vs"] len unfolding decode_execute_def Let_def by (simp add: size)
    qed
    with w s(2) len longs(1,2) show ?thesis by blast
  qed
qed


definition long_data_size :: "mysqlStmt \<Rightarrow> 'key mysqlConn \<Rightarrow> int" where
  "long_data_size stmt mc = max 64 (trunc_div (conn_maxAllowedPacket mc) (stmt_paramCount stmt + 1))"

text \<open>The arguments as \<open>database/sql\<close> passes them: it knows no \<open>float32\<close>.\<close>

definition wires :: "(time_fields \<Rightarrow> bytes) \<Rightarrow> int \<Rightarrow> time_fields driver_value list \<Rightarrow> wire list" where
  "wires time_text lds args = map (the \<circ> arg_wire time_text lds) args"

definition is_float32 :: "'time driver_value \<Rightarrow> bool" where
  "is_float32 arg = (case arg of VFloat32 _ \<Rightarrow> True | _ \<Rightarrow> False)"

lemma arg_wire_Some: "\<not> is_float32 arg \<Longrightarrow> \<exists>w. arg_wire time_text lds arg = Some w"
  by (cases arg) (simp_all add: arg_wire_def is_float32_def Let_def)

lemma wires_Some:
  "list_all (\<lambda>a. \<not> is_float32 a) args \<Longrightarrow> map (arg_wire time_text lds) args = map Some (wires time_text lds args)"
  by (induction args) (auto simp: wires_def dest!: arg_wire_Some [of _ time_text lds])

lemma inline_size: "\<not> is_float32 arg \<Longrightarrow> length (inline (the (arg_wire time_text lds arg))) = arg_size time_text lds arg"
  by (cases arg) (simp_all add: arg_wire_def Let_def is_float32_def les_def)

lemma request_size_wires:
  "list_all (\<lambda>a. \<not> is_float32 a) args \<Longrightarrow> execute_size (wires time_text lds args) = request_size time_text lds args"
proof -
  assume a: "list_all (\<lambda>a. \<not> is_float32 a) args"
  then have "length (concat (map inline (wires time_text lds args))) = sum_list (map (arg_size time_text lds) args)"
    by (induction args) (simp_all add: wires_def inline_size)
  then show ?thesis by (auto simp: execute_size_def request_size_def wires_def)
qed

end
