(* ===== verification/DriverBinary.thy ===== *)
theory DriverBinary
  imports DriverStmt DriverSession
begin

text \<open>
  Rows of the binary protocol: what the server encodes is read back, column for column, and how the
  reader of prepared statements differs from that of plain queries at the end of a result.
\<close>

subsection \<open>A value of a row\<close>

text \<open>
  A row as the protocol defines it: the numbers of the column types, the layout of the values and the
  flag of unsigned columns (the sixth) are those of the protocol, written out here.
\<close>

datatype clock =
    Midnight
  | Clock byte byte byte
  | ClockMicros byte byte byte "32 word"

datatype cell =
    CNull
  | CTiny byte | CShort "16 word" | CLong "32 word" | CLongLong "64 word"
  | CFloat "32 word" | CDouble "64 word"
  | CText bytes
  | CZeroMoment | CMoment "16 word" byte byte clock

fun cell_types :: "cell \<Rightarrow> byte list" where
  "cell_types CNull = [0, 1, 2, 3, 4, 5, 6, 7, 8, 9, 10, 11, 12, 13, 14, 15, 16, 245, 246, 247, 248, 249, 250, 251, 252, 253, 254, 255]"
| "cell_types (CTiny w) = [1]"
| "cell_types (CShort w) = [2, 13]"
| "cell_types (CLong w) = [3, 9]"
| "cell_types (CLongLong w) = [8]"
| "cell_types (CFloat w) = [4]"
| "cell_types (CDouble w) = [5]"
| "cell_types (CText v) = [0, 15, 16, 245, 246, 247, 248, 249, 250, 251, 252, 253, 254, 255]"
| "cell_types CZeroMoment = [7, 10, 12, 14]"
| "cell_types (CMoment year month day t) = [7, 10, 12, 14]"

text \<open>Dates are read as values only where the connection asks for it with \<open>parseTime\<close>.\<close>

definition cell_fits :: "bool \<Rightarrow> mysqlField \<Rightarrow> cell \<Rightarrow> bool" where
  "cell_fits parseTime c x \<longleftrightarrow>
     fd_fieldType c \<in> set (cell_types x) \<and>
     (case x of
        CText v \<Rightarrow> length v + 9 < 2 ^ 63
      | CZeroMoment \<Rightarrow> parseTime
      | CMoment year month day t \<Rightarrow> parseTime
      | _ \<Rightarrow> True)"

fun clock_bytes :: "clock \<Rightarrow> bytes" where
  "clock_bytes Midnight = []"
| "clock_bytes (Clock h m s) = [h, m, s]"
| "clock_bytes (ClockMicros h m s us) = [h, m, s] @ le_bytes 4 us"

fun cell_bytes :: "cell \<Rightarrow> bytes" where
  "cell_bytes CNull = []"
| "cell_bytes (CTiny w) = [w]"
| "cell_bytes (CShort w) = le_bytes 2 w"
| "cell_bytes (CLong w) = le_bytes 4 w"
| "cell_bytes (CLongLong w) = le_bytes 8 w"
| "cell_bytes (CFloat w) = le_bytes 4 w"
| "cell_bytes (CDouble w) = le_bytes 8 w"
| "cell_bytes (CText v) = les v"
| "cell_bytes CZeroMoment = [0]"
| "cell_bytes (CMoment year month day t) =
     word_of_nat (4 + length (clock_bytes t)) # le_bytes 2 year @ [month, day] @ clock_bytes t"

text \<open>What the caller gets: an unsigned value beyond the range of \<open>int64\<close> as its digits, a date as
  \<open>time.Date\<close> makes it of its parts, microseconds as nanoseconds.\<close>

fun moment ::
  "(int \<Rightarrow> int \<Rightarrow> int \<Rightarrow> int \<Rightarrow> int \<Rightarrow> int \<Rightarrow> int \<Rightarrow> 'time) \<Rightarrow> int \<Rightarrow> int \<Rightarrow> int \<Rightarrow> clock \<Rightarrow> 'time"
where
  "moment date y mo d Midnight = date y mo d 0 0 0 0"
| "moment date y mo d (Clock h m s) = date y mo d (uint h) (uint m) (uint s) 0"
| "moment date y mo d (ClockMicros h m s us) = date y mo d (uint h) (uint m) (uint s) (uint us * 1000)"

fun is_cell_value ::
  "'time \<Rightarrow> (int \<Rightarrow> int \<Rightarrow> int \<Rightarrow> int \<Rightarrow> int \<Rightarrow> int \<Rightarrow> int \<Rightarrow> 'time) \<Rightarrow> mysqlField \<Rightarrow> cell \<Rightarrow> 'time driver_value \<Rightarrow> bool"
where
  "is_cell_value zero date c CNull v \<longleftrightarrow> v = VNull"
| "is_cell_value zero date c (CTiny w) v \<longleftrightarrow> v = VInt (if bit (fd_flags c) 5 then uint w else sint w)"
| "is_cell_value zero date c (CShort w) v \<longleftrightarrow> v = VInt (if bit (fd_flags c) 5 then uint w else sint w)"
| "is_cell_value zero date c (CLong w) v \<longleftrightarrow> v = VInt (if bit (fd_flags c) 5 then uint w else sint w)"
| "is_cell_value zero date c (CLongLong w) v \<longleftrightarrow>
     (if bit (fd_flags c) 5 \<and> 2 ^ 63 \<le> uint w
      then \<exists>b. v = VBytes b \<and> string_of_bytes b = decimal (unat w)
      else v = VInt (if bit (fd_flags c) 5 then uint w else sint w))"
| "is_cell_value zero date c (CFloat w) v \<longleftrightarrow> v = VFloat32 w"
| "is_cell_value zero date c (CDouble w) v \<longleftrightarrow> v = VFloat64 w"
| "is_cell_value zero date c (CText t) v \<longleftrightarrow> v = VBytes t"
| "is_cell_value zero date c CZeroMoment v \<longleftrightarrow> v = VTime zero"
| "is_cell_value zero date c (CMoment y mo d t) v \<longleftrightarrow> v = VTime (moment date (uint y) (uint mo) (uint d) t)"

lemma is_unsigned_bit: "is_unsigned c \<longleftrightarrow> bit (fd_flags c) 5"
  by (simp add: is_unsigned_def flagUnsigned_def bit_iff_and_push_bit_not_eq_0)

lemma int_value_bit: "int_value c w = VInt (if bit (fd_flags c) 5 then uint w else sint w)"
  by (simp add: int_value_def is_unsigned_bit)

lemma field_types:
  "field_type 0 = Some fieldTypeDecimal" "field_type 1 = Some fieldTypeTiny" "field_type 2 = Some fieldTypeShort"
  "field_type 3 = Some fieldTypeLong" "field_type 4 = Some fieldTypeFloat" "field_type 5 = Some fieldTypeDouble"
  "field_type 7 = Some fieldTypeTimestamp" "field_type 8 = Some fieldTypeLongLong" "field_type 9 = Some fieldTypeInt24"
  "field_type 10 = Some fieldTypeDate" "field_type 12 = Some fieldTypeDateTime" "field_type 13 = Some fieldTypeYear"
  "field_type 14 = Some fieldTypeNewDate" "field_type 15 = Some fieldTypeVarChar" "field_type 16 = Some fieldTypeBit"
  "field_type 245 = Some fieldTypeJSON" "field_type 246 = Some fieldTypeNewDecimal" "field_type 247 = Some fieldTypeEnum"
  "field_type 248 = Some fieldTypeSet" "field_type 249 = Some fieldTypeTinyBLOB" "field_type 250 = Some fieldTypeMediumBLOB"
  "field_type 251 = Some fieldTypeLongBLOB" "field_type 252 = Some fieldTypeBLOB" "field_type 253 = Some fieldTypeVarString"
  "field_type 254 = Some fieldTypeString" "field_type 255 = Some fieldTypeGeometry"
  by code_simp+

lemma field_types_text:
  "n \<in> set (cell_types (CText v)) \<Longrightarrow> \<exists>t. field_type n = Some t \<and>
     t \<notin> {fieldTypeNULL, fieldTypeTiny, fieldTypeShort, fieldTypeYear, fieldTypeInt24, fieldTypeLong, fieldTypeLongLong,
       fieldTypeFloat, fieldTypeDouble, fieldTypeDate, fieldTypeNewDate, fieldTypeTime, fieldTypeTimestamp, fieldTypeDateTime}"
  by (auto simp: field_types)

lemma field_types_moment:
  "n \<in> {7, 10, 12, 14} \<Longrightarrow>
     \<exists>t. field_type n = Some t \<and> t \<in> {fieldTypeTimestamp, fieldTypeDate, fieldTypeDateTime, fieldTypeNewDate}"
  by (auto simp: field_types)

lemma read_fixed_at:
  assumes "length b = k" "int (length (pre @ b @ rest)) < 2 ^ 63" "f b = Inr x"
  shows "read_fixed (pre @ b @ rest, spare) (int (length pre)) k f = Inr (Inr (x, int (length (pre @ b))))"
proof -
  have n: "to_int64 (int (length pre) + int k) = int (length (pre @ b))"
    using assms(1,2) to_int64_small [of "length (pre @ b)"] by simp
  moreover have "slice_int (pre @ b @ rest, spare) (int (length pre)) (int (length (pre @ b))) = Inr (b, rest @ spare)"
    by (rule slice_int_mid) simp_all
  ultimately show ?thesis using assms(3) by (simp add: read_fixed_def)
qed

lemma le_uint_le_bytes:
  "le_uint16 (le_bytes 2 (u :: 16 word)) = Inr u" "le_uint32 (le_bytes 4 (v :: 32 word)) = Inr v"
  "le_uint64 (le_bytes 8 (w :: 64 word)) = Inr w"
  by (simp_all add: le_uint16_eq le_uint32_eq le_uint64_def le_word_le_bytes take_bit_word_eq_self)

lemma long_value_cell: "\<exists>v. long_value c w = Inr v \<and> is_cell_value zero date c (CLongLong w) v"
proof -
  obtain b where "uint64ToString (unat w) = Inr b" "string_of_bytes b = decimal (unat w)"
    using uint64ToString_decimal [of "unat w"] unsigned_less [of w] by auto
  then show ?thesis by (auto simp: long_value_def is_unsigned_bit int_value_bit)
qed

lemma parse_moment:
  fixes year :: "16 word"
  assumes "b = le_bytes 2 year @ [mo, d] @ clock_bytes t"
  shows "parseBinaryDateTime zero date (word_of_nat (4 + length (clock_bytes t))) (b @ rest, spare) =
    Inr (Inr (moment date (uint year) (uint mo) (uint d) t))"
proof -
  have y: "slice_int (b @ rest, spare) 0 2 = Inr (le_bytes 2 year, [mo, d] @ clock_bytes t @ rest @ spare)"
    using slice_int_mid [of "b @ rest" "[]" "le_bytes 2 year" "[mo, d] @ clock_bytes t @ rest" 0 2 spare]
    by (simp add: assms)
  have at: "go_at (b @ rest) 2 = Inr mo" "go_at (b @ rest) 3 = Inr d"
    by (simp_all add: assms go_at_def nth_append)
  show ?thesis
  proof (cases t)
    case Midnight
    then show ?thesis using y at by (simp add: parseBinaryDateTime_def le_uint_le_bytes)
  next
    case (Clock h m s)
    then have "go_at (b @ rest) 4 = Inr h" "go_at (b @ rest) 5 = Inr m" "go_at (b @ rest) 6 = Inr s"
      by (simp_all add: assms go_at_def nth_append)
    with Clock show ?thesis using y at by (simp add: parseBinaryDateTime_def le_uint_le_bytes)
  next
    case (ClockMicros h m s us)
    then have "go_at (b @ rest) 4 = Inr h" "go_at (b @ rest) 5 = Inr m" "go_at (b @ rest) 6 = Inr s"
      by (simp_all add: assms go_at_def nth_append)
    moreover have "slice_int (b @ rest, spare) 7 11 = Inr (le_bytes 4 us, rest @ spare)"
      using ClockMicros
        slice_int_mid [of "b @ rest" "le_bytes 2 year @ [mo, d, h, m, s]" "le_bytes 4 us" rest 7 11 spare]
      by (simp add: assms)
    ultimately show ?thesis using ClockMicros y at by (simp add: parseBinaryDateTime_def le_uint_le_bytes)
  qed
qed

lemma date_value_moment:
  assumes "t \<noteq> fieldTypeTime" "n \<le> 250" "length b = unat n" "int (length (pre @ (ucast n # b) @ rest)) < 2 ^ 63"
    and "\<And>spare. parseBinaryDateTime zero date n (b @ rest, spare) = Inr (Inr v)"
  shows "date_value zero date True t c (pre @ (ucast n # b) @ rest, spare) (int (length pre)) =
    Inr (Inr (VTime v, int (length (pre @ ucast n # b))))"
proof -
  have lei: "lei n = [ucast n]" using assms(2) by (simp add: lei_forms)
  have "readLengthEncodedInteger ((ucast n # b) @ rest) = Inr (n, False, 1)"
    using read_append_lei [of n "b @ rest"] by (simp add: lei)
  moreover have "slice_rest (pre @ (ucast n # b) @ rest, spare) (int (length pre)) = Inr ((ucast n # b) @ rest, spare)"
    by (subst slice_rest_drop) simp_all
  moreover have "slice_rest (pre @ (ucast n # b) @ rest, spare) (int (length pre) + 1) = Inr (b @ rest, spare)"
    using slice_rest_drop [of "length pre + 1" "pre @ (ucast n # b) @ rest" spare] by (simp add: add.commute)
  moreover have "to_int64 (uint n) = int (length b)"
    using assms(3,4) to_int64_small [of "length b"] by simp
  moreover have "to_int64 (int (length pre) + 1 + int (length b)) = int (length (pre @ ucast n # b))"
    using assms(4) to_int64_small [of "length (pre @ ucast n # b)"] by (simp add: algebra_simps)
  ultimately show ?thesis using assms(1,5) by (simp add: date_value_def Let_def)
qed

lemma binary_value_moment:
  assumes "fd_fieldType c \<in> {7, 10, 12, 14}"
  shows "\<exists>t. t \<noteq> fieldTypeTime \<and>
    binary_value zero date parseTime c data pos = date_value zero date parseTime t c data pos"
proof -
  obtain t where "field_type (fd_fieldType c) = Some t" "t \<in> {fieldTypeTimestamp, fieldTypeDate, fieldTypeDateTime, fieldTypeNewDate}"
    using field_types_moment [OF assms] by blast
  then have "binary_value zero date parseTime c data pos = date_value zero date parseTime t c data pos" "t \<noteq> fieldTypeTime"
    by (auto simp: binary_value_def)
  then show ?thesis by blast
qed

lemma binary_value_cell:
  fixes zero :: 'time
  assumes "cell_fits parseTime c x" "x \<noteq> CNull" "int (length (pre @ cell_bytes x @ rest)) < 2 ^ 63"
  shows "\<exists>v. binary_value zero date parseTime c (pre @ cell_bytes x @ rest, spare) (int (length pre)) =
      Inr (Inr (v, int (length (pre @ cell_bytes x)))) \<and> is_cell_value zero date c x v"
proof -
  have t: "fd_fieldType c \<in> set (cell_types x)" using assms(1) by (simp add: cell_fits_def)
  show ?thesis
  proof (cases x)
    case (CTiny w)
    then show ?thesis using t by (simp add: binary_value_def nth_append int_value_bit field_types)
  next
    case (CShort w)
    then show ?thesis
      using t assms(3) read_fixed_at [of "le_bytes 2 w" 2 pre rest "\<lambda>b. go_bind (le_uint16 b) (\<lambda>w. Inr (int_value c w))" "int_value c w"]
      by (auto simp: binary_value_def le_uint_le_bytes int_value_bit field_types)
  next
    case (CLong w)
    then show ?thesis
      using t assms(3) read_fixed_at [of "le_bytes 4 w" 4 pre rest "\<lambda>b. go_bind (le_uint32 b) (\<lambda>w. Inr (int_value c w))" "int_value c w"]
      by (auto simp: binary_value_def le_uint_le_bytes int_value_bit field_types)
  next
    case (CLongLong w)
    obtain v :: "'time driver_value" where v: "long_value c w = Inr v" "is_cell_value zero date c (CLongLong w) v"
      using long_value_cell [of c w zero date] by auto
    show ?thesis
      using v(1) t assms(3) read_fixed_at [of "le_bytes 8 w" 8 pre rest "\<lambda>b. go_bind (le_uint64 b) (long_value c)" v] CLongLong
      by (intro exI [of _ v] conjI; use v(2) CLongLong in
        \<open>simp add: binary_value_def le_uint_le_bytes field_types del: is_cell_value.simps\<close>)
  next
    case (CFloat w)
    then show ?thesis
      using t assms(3) read_fixed_at [of "le_bytes 4 w" 4 pre rest "\<lambda>b. go_bind (le_uint32 b) (\<lambda>w. Inr (VFloat32 w))" "VFloat32 w"]
      by (auto simp: binary_value_def le_uint_le_bytes field_types)
  next
    case (CDouble w)
    then show ?thesis
      using t assms(3) read_fixed_at [of "le_bytes 8 w" 8 pre rest "\<lambda>b. go_bind (le_uint64 b) (\<lambda>w. Inr (VFloat64 w))" "VFloat64 w"]
      by (auto simp: binary_value_def le_uint_le_bytes field_types)
  next
    case (CText v)
    obtain t where "field_type (fd_fieldType c) = Some t"
      "t \<notin> {fieldTypeNULL, fieldTypeTiny, fieldTypeShort, fieldTypeYear, fieldTypeInt24, fieldTypeLong, fieldTypeLongLong,
       fieldTypeFloat, fieldTypeDouble, fieldTypeDate, fieldTypeNewDate, fieldTypeTime, fieldTypeTimestamp, fieldTypeDateTime}"
      using field_types_text t unfolding CText by meson
    moreover have "length v + 9 < 2 ^ 63" using assms(1) CText by (simp add: cell_fits_def)
    ultimately show ?thesis
      using CText slice_rest_drop [of "length pre" "pre @ les v @ rest" spare]
      by (simp add: binary_value_def read_at_def read_les)
  next
    case CZeroMoment
    then have "parseTime" "fd_fieldType c \<in> {7, 10, 12, 14}" using assms(1) t by (simp_all add: cell_fits_def)
    with binary_value_moment obtain t where t: "t \<noteq> fieldTypeTime"
      "binary_value zero date parseTime c (pre @ cell_bytes x @ rest, spare) (int (length pre)) =
        date_value zero date True t c (pre @ cell_bytes x @ rest, spare) (int (length pre))" by metis
    show ?thesis
      using date_value_moment [OF t(1), of 0 "[]" pre rest zero date zero c spare] assms(3)
      unfolding t(2) by (simp add: CZeroMoment parseBinaryDateTime_def)
  next
    case (CMoment y mo d clock)
    then have "parseTime" "fd_fieldType c \<in> {7, 10, 12, 14}" using assms(1) t by (simp_all add: cell_fits_def)
    with binary_value_moment obtain t where t: "t \<noteq> fieldTypeTime"
      "binary_value zero date parseTime c (pre @ cell_bytes x @ rest, spare) (int (length pre)) =
        date_value zero date True t c (pre @ cell_bytes x @ rest, spare) (int (length pre))" by metis
    let ?b = "le_bytes 2 y @ [mo, d] @ clock_bytes clock" and ?n = "word_of_nat (4 + length (clock_bytes clock)) :: 64 word"
    have n: "?n \<le> 250" "length ?b = unat ?n" "cell_bytes x = ucast ?n # ?b" by (cases clock; simp add: CMoment)+
    have "date_value zero date True t c (pre @ (ucast ?n # ?b) @ rest, spare) (int (length pre)) =
      Inr (Inr (VTime (moment date (uint y) (uint mo) (uint d) clock), int (length (pre @ ucast ?n # ?b))))"
      by (rule date_value_moment [OF t(1) n(1,2)]) (use assms(3) parse_moment [OF refl] in \<open>simp_all add: n(3)\<close>)
    then show ?thesis unfolding t(2) unfolding n(3) by (simp add: CMoment)
  qed (use assms(2) in simp)
qed

subsection \<open>A row\<close>

definition binary_row :: "bytes \<Rightarrow> cell list \<Rightarrow> bytes" where
  "binary_row nulls xs = 0 # nulls @ concat (map cell_bytes xs)"

text \<open>The bitmap of a row begins with two bits that mean nothing.\<close>

definition marks_nulls :: "bytes \<Rightarrow> cell list \<Rightarrow> bool" where
  "marks_nulls nulls xs \<longleftrightarrow>
     length nulls = (length xs + 7 + 2) div 8 \<and>
     (\<forall>i < length xs. bit (nulls ! ((i + 2) div 8)) ((i + 2) mod 8) \<longleftrightarrow> xs ! i = CNull)"

lemma binary_values_cells:
  assumes "list_all2 (cell_fits parseTime) cs xs" "length nulls = (i + length xs + 7 + 2) div 8"
    and "\<forall>j < length xs. bit (nulls ! ((i + j + 2) div 8)) ((i + j + 2) mod 8) \<longleftrightarrow> xs ! j = CNull"
    and "length done = i" "int (length (pre @ concat (map cell_bytes xs))) < 2 ^ 63"
  shows "\<exists>vs. binary_values zero date parseTime (done @ cs) nulls (pre @ concat (map cell_bytes xs), spare)
      (int (length pre)) i (length xs) = Inr (Inr vs) \<and> list_all2 (\<lambda>(c, x) v. is_cell_value zero date c x v) (zip cs xs) vs"
  using assms
proof (induction cs xs arbitrary: i "done" pre rule: list_all2_induct)
  case Nil
  then show ?case by simp
next
  case (Cons c cs x xs)
  have n: "(i + 2) div 8 < length nulls" using Cons.prems(1) by simp
  have b: "bit (nulls ! ((i + 2) div 8)) ((i + 2) mod 8) \<longleftrightarrow> x = CNull" using Cons.prems(2) by (auto dest: spec [of _ 0])
  have c: "(done @ c # cs) ! i = c" "i < length (done @ c # cs)" using Cons.prems(3) by (auto simp: nth_append)
  have rest: "\<exists>vs. binary_values zero date parseTime ((done @ [c]) @ cs) nulls
        ((pre @ cell_bytes x) @ concat (map cell_bytes xs), spare) (int (length (pre @ cell_bytes x))) (i + 1) (length xs) = Inr (Inr vs) \<and>
      list_all2 (\<lambda>(c, x) v. is_cell_value zero date c x v) (zip cs xs) vs"
  proof (rule Cons.IH)
    show "\<forall>j<length xs. bit (nulls ! ((i + 1 + j + 2) div 8)) ((i + 1 + j + 2) mod 8) = (xs ! j = CNull)"
      using Cons.prems(2) by (auto dest: spec [of _ "Suc _"])
  qed (use Cons.prems in auto)
  then obtain vs where vs: "binary_values zero date parseTime (done @ c # cs) nulls
      (pre @ cell_bytes x @ concat (map cell_bytes xs), spare) (int (length (pre @ cell_bytes x))) (Suc i) (length xs) = Inr (Inr vs)"
    "list_all2 (\<lambda>(c, x) v. is_cell_value zero date c x v) (zip cs xs) vs" by auto
  obtain v where "(if x = CNull then Inr (Inr (VNull, int (length pre)))
      else binary_value zero date parseTime c (pre @ cell_bytes x @ concat (map cell_bytes xs), spare) (int (length pre))) =
      Inr (Inr (v, int (length (pre @ cell_bytes x))))" "is_cell_value zero date c x v"
    using binary_value_cell [OF Cons.hyps(1), of pre "concat (map cell_bytes xs)" zero date spare] Cons.prems(4)
    by (cases "x = CNull") auto
  with vs n b c show ?case by (cases "x = CNull") auto
qed

theorem binary_row_read:
  assumes "list_all2 (cell_fits (conn_parseTime mc)) (rows_columns rows) xs" "marks_nulls nulls xs" "xs \<noteq> []"
    and "net_clean (conn_net mc)" "buffer_fits (conn_buf mc)" "int (length (binary_row nulls xs)) < 2 ^ 63"
    and "unread (conn_buf mc) (conn_net mc) = frames (conn_sequence mc) (binary_row nulls xs) @ rest"
  shows "\<exists>vs mc'. binary_readRow zero date (length xs) rows mc = Inr (Inr vs, rows, mc') \<and>
    reads_packet mc (binary_row nulls xs) rest mc' \<and>
    list_all2 (\<lambda>(c, x) v. is_cell_value zero date c x v) (zip (rows_columns rows) xs) vs"
proof -
  let ?p = "binary_row nulls xs"
  have p: "?p \<noteq> []" "?p ! 0 = iOK" by (simp_all add: binary_row_def iOK_def)
  obtain spare mc' where r: "readPacket mc = Inr (Inr (?p, spare), mc')" "reads_packet mc ?p rest mc'"
    using readPacket_reads [OF assms(4,5) p(1) assms(7)] by blast
  have kept: "conn_parseTime mc' = conn_parseTime mc" using reads_packet_keeps(1) [OF r(2)] .
  have n: "1 + (length xs + 7 + 2) div 8 = length (0 # nulls)" using assms(2) by (simp add: marks_nulls_def)
  have eq: "?p = (0 # nulls) @ concat (map cell_bytes xs)" by (simp add: binary_row_def)
  have s: "slice_int (?p, spare) 1 (int (length (0 # nulls))) = Inr (nulls, concat (map cell_bytes xs) @ spare)"
    unfolding eq using slice_int_mid [of _ "[0]" nulls "concat (map cell_bytes xs)" 1 _ spare] by simp
  obtain vs where vs: "binary_values zero date (conn_parseTime mc') ([] @ rows_columns rows) nulls
      ((0 # nulls) @ concat (map cell_bytes xs), spare) (int (length (0 # nulls))) 0 (length xs) = Inr (Inr vs)"
    "list_all2 (\<lambda>(c, x) v. is_cell_value zero date c x v) (zip (rows_columns rows) xs) vs"
    using binary_values_cells [OF assms(1), of nulls 0 "[]" "0 # nulls" zero date spare] assms(2,6) kept
    by (auto simp: marks_nulls_def binary_row_def)
  then have "binary_readRow zero date (length xs) rows mc = Inr (Inr vs, rows, mc')"
    using r(1) p n s by (simp add: binary_readRow_def Let_def eq)
  with r(2) vs(2) show ?thesis by blast
qed


subsection \<open>Behind the end of a result\<close>

text \<open>
  An answer without columns: the rows of a statement are closed from the start, so the results that
  follow are never read.
\<close>

lemma stmt_query_leaves_results:
  assumes "writeExecutePacket time_text extra stmt args mc = Some (Inr (None, mc1))"
    and "readResultSetHeaderPacket mc1 = Inr (Inr 0, mc')" "\<not> conn_closed mc"
  shows "stmt_query time_text extra stmt args mc =
      Some (Inr ((None, Some \<lparr>rows_open = False, rows_columns = [], rows_done = True\<rparr>), mc'))"
    and "rows_Close \<lparr>rows_open = False, rows_columns = [], rows_done = True\<rparr> mc' =
      Inr (None, \<lparr>rows_open = False, rows_columns = [], rows_done = True\<rparr>, mc')"
proof -
  let ?rows = "\<lparr>rows_open = False, rows_columns = [], rows_done = True\<rparr>"
  have "NextResultSet ?rows mc' = Inr (Some EOF, ?rows, mc')"
    by (simp add: NextResultSet_def nextNotEmptyResultSet.simps [of ?rows] nextResultSet_def)
  then show "stmt_query time_text extra stmt args mc = Some (Inr ((None, Some ?rows), mc'))"
    using assms by (simp add: stmt_query_def Let_def)
  show "rows_Close ?rows mc' = Inr (None, ?rows, mc')" by (simp add: rows_Close_def)
qed

lemma readRow_done:
  "rows_done rows \<Longrightarrow> readRow pdt n rows mc = Inr (Inl EOF, rows, mc)"
  by (simp add: readRow_def)

text \<open>
  Where a further result follows, \<open>Next\<close> after the end of a result reads on, and takes the definition of
  the next result for a row: here the answer without columns, whose first byte is that of a row.
\<close>

lemma binary_readRow_past_end:
  assumes "net_clean (conn_net mc)" "buffer_fits (conn_buf mc)" "p \<noteq> []"
    and "unread (conn_buf mc) (conn_net mc) = frames (conn_sequence mc) (iOK # p) @ rest"
  shows "\<exists>mc'. binary_readRow zero date 0 rows mc = Inr (Inr [], rows, mc') \<and> reads_packet mc (iOK # p) rest mc'"
proof -
  obtain spare mc' where r: "readPacket mc = Inr (Inr (iOK # p, spare), mc')" "reads_packet mc (iOK # p) rest mc'"
    using readPacket_reads [OF assms(1,2) _ assms(4)] by auto
  have "slice_int (iOK # p, spare) 1 2 = Inr (take 1 p, drop 1 p @ spare)"
    using assms(3) slice_int_mid [of "iOK # p" "[iOK]" "take 1 p" "drop 1 p" 1 2 spare] by (cases p) auto
  then have "binary_readRow zero date 0 rows mc = Inr (Inr [], rows, mc')"
    using r(1) by (simp add: binary_readRow_def Let_def)
  with r(2) show ?thesis by blast
qed

subsection \<open>The answer to a statement without rows\<close>

definition ok_bytes :: "64 word \<Rightarrow> 64 word \<Rightarrow> 16 word \<Rightarrow> bytes \<Rightarrow> bytes" where
  "ok_bytes rows ins status info = iOK # lei rows @ lei ins @ le_bytes 2 status @ info"

lemma handleOkPacket_reads:
  "handleOkPacket (ok_bytes rows ins status info, spare) mc =
     Inr (mc\<lparr>conn_affectedRows := rows, conn_insertId := ins, conn_status := status\<rparr>)"
proof -
  let ?p = "ok_bytes rows ins status info" and ?n = "length (lei rows)" and ?m = "length (lei ins)"
  have "slice_rest (?p, spare) 1 = Inr (lei rows @ lei ins @ le_bytes 2 status @ info, spare)"
    using slice_rest_drop [of 1 ?p spare] by (simp add: ok_bytes_def)
  moreover have "slice_rest (?p, spare) (int (1 + ?n)) = Inr (lei ins @ le_bytes 2 status @ info, spare)"
    by (subst slice_rest_drop) (simp_all add: ok_bytes_def)
  moreover have "slice_int (?p, spare) (int (1 + ?n + ?m)) (int (1 + ?n + ?m + 2)) = Inr (le_bytes 2 status, info @ spare)"
    by (rule slice_int_mid [of _ "iOK # lei rows @ lei ins"]) (simp_all add: ok_bytes_def)
  moreover have "readStatus (le_bytes 2 status) = Inr status" using readStatus_le [of status "[]"] by simp
  ultimately show ?thesis by (simp add: handleOkPacket_def read_append_lei)
qed

lemma read_ok_answer:
  assumes "net_clean (conn_net mc)" "buffer_fits (conn_buf mc)"
    and "unread (conn_buf mc) (conn_net mc) = frames (conn_sequence mc) (ok_bytes rows ins status info) @ rest"
  shows "\<exists>mc'. readResultSetHeaderPacket mc =
      Inr (Inr 0, mc'\<lparr>conn_affectedRows := rows, conn_insertId := ins, conn_status := status\<rparr>) \<and>
    reads_packet mc (ok_bytes rows ins status info) rest mc'"
proof -
  let ?p = "ok_bytes rows ins status info"
  have p: "?p \<noteq> []" "?p ! 0 = iOK" by (simp_all add: ok_bytes_def)
  obtain spare mc' where "readPacket mc = Inr (Inr (?p, spare), mc')" "reads_packet mc ?p rest mc'"
    using readPacket_reads [OF assms(1,2) p(1) assms(3)] by blast
  with p show ?thesis by (auto simp: readResultSetHeaderPacket_def ok_packet_def handleOkPacket_reads)
qed

end
