(* ===== verification/PropsStmt.thy ===== *)
theory PropsStmt
  imports PropsDriver DriverExecute DriverBinary
begin

text \<open>
  The properties of prepared statements: what the server gets of the arguments, what the caller gets of
  the answer, and where the driver leaves a connection in a state it should not be in.
\<close>

subsection \<open>Executing\<close>

text \<open>C12: A prepared statement is executed with its arguments. On an idle connection, with arguments that are no 32-bit
  floats and fit into one packet where they are not long, the server gets long data for the long arguments, in pieces that
  are allowed, and a packet from which it reads, with the long data it has kept, the number of the
  statement and every argument, in order, with its type and its whole value; NULL is told by the bitmap.
  When it answers with the numbers of rows and of the new row, \<open>Exec\<close> returns them as \<open>int64\<close>, and what
  follows the answer stays unread.\<close>

theorem statement_executes:
  assumes "idle mc" "int (length args) = stmt_paramCount stmt" "list_all (\<lambda>a. \<not> is_float32 a) args"
    and "int (request_size time_text (long_data_size stmt mc) args) \<le> conn_maxAllowedPacket mc"
    and "request_size time_text (long_data_size stmt mc) args < maxPacketSize"
    and "net_pending (conn_net mc) = frames 1 (ok_bytes rows ins status info) @ rest"
    and "status AND statusMoreResultsExists = 0"
  shows "\<exists>mc' longs p.
    stmt_Exec time_text extra stmt args mc = Some (Inr (Inr (to_int64 (uint rows), to_int64 (uint ins)), mc')) \<and>
    net_out (conn_net mc') = net_out (conn_net mc) @ long_bytes stmt longs @ frames 0 p \<and>
    (\<forall>l \<in> set longs. int (length (snd l)) + 7 < conn_maxAllowedPacket mc) \<and>
    decode_execute (length args) (long_store longs) p = Some (stmt_id stmt, map (arg_param time_text) args) \<and>
    unread (conn_buf mc') (conn_net mc') = rest"
proof -
  let ?ws = "wires time_text (long_data_size stmt mc) args"
  note size = request_size_wires [OF assms(3), of time_text "long_data_size stmt mc"]
  have small: "execute_size ?ws + 9 < 2 ^ 63" using assms(5) size by (simp add: maxPacketSize_eq)
  have allowed: "int (execute_size ?ws) \<le> conn_maxAllowedPacket mc" using assms(4) size by simp
  obtain mc1 longs p where e: "writeExecutePacket time_text extra stmt args mc = Some (Inr (None, mc1))"
    "commanded p (emitted (long_bytes stmt longs) mc) mc1" "length p = execute_size ?ws"
    "\<forall>l \<in> set longs. int (length (snd l)) + 7 < conn_maxAllowedPacket mc"
    "decode_execute (length args) (long_store longs) p = Some (stmt_id stmt, map (arg_param time_text) args)"
    using execute_sends [OF long_data_size_def assms(1,2) wires_Some [OF assms(3)] allowed small] by blast
  note kept = commanded_keeps [OF e(2) emitted_idle [OF assms(1)]]
  let ?mc1 = "mc1\<lparr>conn_affectedRows := 0, conn_insertId := 0\<rparr>"
  have pending: "unread (conn_buf ?mc1) (conn_net ?mc1) = frames (conn_sequence ?mc1) (ok_bytes rows ins status info) @ rest"
    using kept(3,4) assms(5,6) e(3) size by (simp add: frame_count_short net_pending_def emitted_def)
  obtain mc2 where r: "readResultSetHeaderPacket ?mc1 =
      Inr (Inr 0, mc2\<lparr>conn_affectedRows := rows, conn_insertId := ins, conn_status := status\<rparr>)"
    "reads_packet ?mc1 (ok_bytes rows ins status info) rest mc2"
    using read_ok_answer [of ?mc1, OF _ _ pending] kept(1,2) by auto
  let ?mc' = "mc2\<lparr>conn_affectedRows := rows, conn_insertId := ins, conn_status := status\<rparr>"
  have "stmt_Exec time_text extra stmt args mc = Some (Inr (Inr (to_int64 (uint rows), to_int64 (uint ins)), ?mc'))"
    using assms(1,7) e(1) r(1)
    by (simp add: stmt_Exec_def idle_def discardResults.simps [of ?mc'] has_more_results_def)
  moreover have "net_out (conn_net ?mc') = net_out (conn_net mc) @ long_bytes stmt longs @ frames 0 p"
    using reads_packet_keeps(6) [OF r(2)] kept(8) by (simp add: emitted_def)
  moreover have "unread (conn_buf ?mc') (conn_net ?mc') = rest" using r(2) by (simp add: reads_packet_def)
  ultimately show ?thesis using e(4,5) by blast
qed

definition sample_stmt :: "int \<Rightarrow> mysqlStmt" where
  "sample_stmt n = \<lparr>stmt_open = True, stmt_id = 7, stmt_paramCount = n\<rparr>"

definition sample_args :: "time_fields driver_value list" where
  "sample_args = [VInt 42, VNull, VString [0x68, 0x69]]"

theorem statement_executes_witness:
  "\<exists>mc' longs p.
    stmt_Exec (\<lambda>_. []) 0 (sample_stmt 3) sample_args (sample_conn [frames 1 (ok_bytes 1 9 0 [])]) =
      Some (Inr (Inr (1, 9), mc')) \<and>
    net_out (conn_net mc') = long_bytes (sample_stmt 3) longs @ frames 0 p \<and>
    decode_execute 3 (long_store longs) p = Some (7, [PInt 42, PNull, PText [0x68, 0x69]])"
proof -
  let ?mc = "sample_conn [frames 1 (ok_bytes 1 9 0 [])]"
  have size: "request_size (\<lambda>_. []) lds sample_args \<le> 29" for lds
    by (simp add: request_size_def sample_args_def les_def lei_forms)
  have args: "length sample_args = 3" "list_all (\<lambda>a. \<not> is_float32 a) sample_args"
    "map (arg_param (\<lambda>_. [])) sample_args = [PInt 42, PNull, PText [0x68, 0x69]]"
    by (simp_all add: sample_args_def is_float32_def)
  have n: "to_int64 1 = 1" "to_int64 9 = 9" using to_int64_small [of 1] to_int64_small [of 9] by simp_all
  have stmt: "stmt_paramCount (sample_stmt 3) = 3" "stmt_id (sample_stmt 3) = 7" by (simp_all add: sample_stmt_def)
  have fits: "int (request_size (\<lambda>_. []) lds sample_args) \<le> conn_maxAllowedPacket ?mc"
    "request_size (\<lambda>_. []) lds sample_args < maxPacketSize" for lds
    using size [of lds] by (simp_all add: sample_conn_facts maxPacketSize_eq)
  show ?thesis
    using statement_executes [of ?mc sample_args "sample_stmt 3" "\<lambda>_. []" 1 9 0 "[]" "[]" 0, OF _ _ args(2) fits]
    by (simp add: sample_conn_facts args n stmt) blast
qed

subsection \<open>Rows\<close>

text \<open>C21: The rows of a prepared statement come back as the server sent them. A row of the binary
  protocol, NULLs by its bitmap, numbers in two's complement or unsigned by the flag of the column, floats
  by their bits, texts of any length and, where \<open>parseTime\<close> is set, dates and times of day to the
  microsecond, is read in any pieces as exactly these values, one for each column, and what follows it
  stays unread. The numbers of the column types and the layout are the protocol's, written out in
  \<open>cell_types\<close> and \<open>cell_bytes\<close>. Not covered are TIME values and, without \<open>parseTime\<close>, dates, which the
  driver turns into texts.\<close>

theorem binary_row_round_trip:
  assumes "list_all2 (cell_fits (conn_parseTime mc)) (rows_columns rows) xs" "marks_nulls nulls xs" "xs \<noteq> []" "rows_open rows"
    and "net_clean (conn_net mc)" "buffer_fits (conn_buf mc)" "\<not> conn_closed mc"
    and "int (length (binary_row nulls xs)) < 2 ^ 63"
    and "unread (conn_buf mc) (conn_net mc) = frames (conn_sequence mc) (binary_row nulls xs) @ rest"
  shows "\<exists>vs mc'. binary_Next zero date (length xs) rows mc = Inr (Inr vs, rows, mc') \<and>
    list_all2 (\<lambda>(c, x) v. is_cell_value zero date c x v) (zip (rows_columns rows) xs) vs \<and>
    unread (conn_buf mc') (conn_net mc') = rest"
proof -
  obtain vs mc' where "binary_readRow zero date (length xs) rows mc = Inr (Inr vs, rows, mc')"
    "reads_packet mc (binary_row nulls xs) rest mc'"
    "list_all2 (\<lambda>(c, x) v. is_cell_value zero date c x v) (zip (rows_columns rows) xs) vs"
    using binary_row_read [OF assms(1,2,3,5,6,8,9), of zero date] by (elim exE conjE) (rule that)
  moreover have "unread (conn_buf mc') (conn_net mc') = rest" using calculation(2) unfolding reads_packet_def by blast
  moreover have "binary_Next zero date (length xs) rows mc = binary_readRow zero date (length xs) rows mc"
    using assms(4,7) by (simp add: binary_Next_def conn_error_def)
  ultimately show ?thesis by metis
qed

definition sample_binary_rows :: text_rows where
  "sample_binary_rows =
     \<lparr>rows_open = True,
      rows_columns = [mysqlField_zero\<lparr>fd_fieldType := 8, fd_flags := 32\<rparr>, mysqlField_zero\<lparr>fd_fieldType := 253\<rparr>,
        mysqlField_zero\<lparr>fd_fieldType := 1\<rparr>, mysqlField_zero\<lparr>fd_fieldType := 12\<rparr>],
      rows_done = False\<rparr>"

definition sample_cells :: "cell list" where
  "sample_cells = [CLongLong 0xffffffffffffffff, CNull, CTiny 254, CMoment 2018 6 1 (ClockMicros 12 30 0 250000)]"

definition sample_binary_conn :: "unit mysqlConn" where
  "sample_binary_conn = (sample_conn [frames 0 (binary_row [8] sample_cells)])\<lparr>conn_parseTime := True\<rparr>"

theorem binary_row_round_trip_witness:
  "\<exists>b mc'. binary_Next [] (\<lambda>y mo d h m s n. [y, mo, d, h, m, s, n]) 4 sample_binary_rows sample_binary_conn =
      Inr (Inr [VBytes b, VNull, VInt (- 2), VTime [2018, 6, 1, 12, 30, 0, 250000000]], sample_binary_rows, mc') \<and>
    string_of_bytes b = decimal 18446744073709551615"
proof -
  let ?date = "\<lambda>y mo d h m s n. [y, mo, d, h, m, s, n]"
  have cells: "list_all2 (cell_fits (conn_parseTime sample_binary_conn)) (rows_columns sample_binary_rows) sample_cells"
    by (simp add: sample_binary_conn_def sample_binary_rows_def sample_cells_def cell_fits_def)
  have marks: "marks_nulls [8] sample_cells"
  proof -
    have bits: "bit (8 :: byte) 2 = False" "bit (8 :: byte) 3 = True" "bit (8 :: byte) 4 = False" "bit (8 :: byte) 5 = False"
      by code_simp+
    have "bit ([8 :: byte] ! ((i + 2) div 8)) ((i + 2) mod 8) \<longleftrightarrow> sample_cells ! i = CNull" if i: "i < 4" for i
    proof -
      consider "i = 0" | "i = 1" | "i = 2" | "i = 3" using i by linarith
      then show ?thesis by cases (use bits in \<open>simp_all add: sample_cells_def\<close>)
    qed
    then show ?thesis by (simp add: marks_nulls_def sample_cells_def)
  qed
  have flag: "bit (32 :: 16 word) 5" "\<not> bit (fd_flags mysqlField_zero) 5"
    by (code_simp, simp add: mysqlField_zero_def)
  have len: "length (binary_row [8] sample_cells) = 23" by (simp add: binary_row_def sample_cells_def)
  have rows: "rows_open sample_binary_rows" "sample_cells \<noteq> []" "length sample_cells = 4"
    by (simp_all add: sample_binary_rows_def sample_cells_def)
  have conn: "net_clean (conn_net sample_binary_conn)" "buffer_fits (conn_buf sample_binary_conn)"
    "\<not> conn_closed sample_binary_conn" "int (length (binary_row [8] sample_cells)) < 2 ^ 63"
    "unread (conn_buf sample_binary_conn) (conn_net sample_binary_conn) =
      frames (conn_sequence sample_binary_conn) (binary_row [8] sample_cells) @ []"
    by (simp_all add: sample_binary_conn_def sample_conn_facts len)
  obtain vs mc' where r: "binary_Next [] ?date 4 sample_binary_rows sample_binary_conn = Inr (Inr vs, sample_binary_rows, mc')"
    "list_all2 (\<lambda>(c, x) v. is_cell_value [] ?date c x v) (zip (rows_columns sample_binary_rows) sample_cells) vs"
    using binary_row_round_trip [OF cells marks rows(2,1) conn, of "[]" ?date] unfolding rows(3) by blast
  have "uint (0xffffffffffffffff :: 64 word) = 18446744073709551615"
    "unat (0xffffffffffffffff :: 64 word) = 18446744073709551615" by simp_all
  moreover have "sint (254 :: byte) = - 2" by code_simp
  ultimately obtain b where "vs = [VBytes b, VNull, VInt (- 2), VTime [2018, 6, 1, 12, 30, 0, 250000000]]"
    "string_of_bytes b = decimal 18446744073709551615"
    using r(2) by (auto simp: sample_binary_rows_def sample_cells_def list_all2_Cons1 flag)
  with r(1) show ?thesis by blast
qed

subsection \<open>Where it goes wrong\<close>

text \<open>A long argument and the smallest packets make the driver write for ever. With a
  \<open>maxAllowedPacket\<close> of 8, which the data source name can ask for, each packet of long data holds none of
  its bytes: executing a statement with one text of 64 bytes or more does not return.\<close>

theorem long_argument_never_sent:
  assumes "idle mc" "conn_maxAllowedPacket mc = 8" "stmt_paramCount stmt = 1" "64 \<le> length v"
  shows "stmt_Exec time_text extra stmt [VString v] mc = None"
proof -
  let ?mc = "mc\<lparr>conn_sequence := 0\<rparr>" and ?h = "execute_head (stmt_id stmt)"
  have idle: "net_quiet (conn_net ?mc)" "buf_length (conn_buf mc) = 0" "14 \<le> length (buf_bytes (conn_buf mc))"
    "\<not> conn_closed mc"
    using assms(1) by (simp_all add: idle_def defaultBufSize_def)
  have wire: "arg_wire time_text 64 (VString v) = Some (fieldCodeString, Inl v)"
    using assms(4) by (simp add: arg_wire_def Let_def)
  have "v \<noteq> []" using assms(4) by auto
  then have stuck: "writeCommandLongData stmt 0 v ?mc = None"
    using writeCommandLongData_stuck [of ?mc v stmt 0] assms(2) idle(1) by simp
  have types: "set_type (replicate 2 0) 0 fieldCodeString = Inr [fieldCodeString, 0]"
    using set_type_pair [of "[]" 0 0 0 "[]" fieldCodeString] by (simp add: numeral_2_eq_2)
  have "put_args time_text stmt 64 0 [VString v] (replicate 1 0) (replicate 2 0) [] ?mc = None"
    using wire stuck types by (simp add: fieldCodeString_def fieldCodeNULL_def)
  moreover have "length ?h = 10" by (simp add: execute_head_def)
  then have "fill_packet (buf_bytes (conn_buf mc)) ?h =
      Inr (take 4 (buf_bytes (conn_buf mc)) @ ?h @ drop 14 (buf_bytes (conn_buf mc)))"
    using idle(3) by (simp add: fill_packet_def)
  ultimately have "writeExecutePacket time_text extra stmt [VString v] mc = None"
    using assms(2,3) idle(2) by (simp add: writeExecutePacket_def takeCompleteBuffer_def Let_def trunc_div_def)
  then show ?thesis using idle(4) by (simp add: stmt_Exec_def)
qed

theorem long_argument_never_sent_witness:
  "stmt_Exec (\<lambda>_. []) 0 (sample_stmt 1) [VString (replicate 64 0x61)]
     ((sample_conn [])\<lparr>conn_maxAllowedPacket := 8\<rparr>) = None"
proof (rule long_argument_never_sent)
  show "idle ((sample_conn [])\<lparr>conn_maxAllowedPacket := 8\<rparr>)"
    using sample_conn_ready(1) [of "[]"] by (simp add: idle_def)
qed (simp_all add: sample_stmt_def)

text \<open>A query through a prepared statement whose first answer has no columns loses the results behind
  it. The server answers the execution with a plain OK and says that more results exist; the rows the
  caller gets are closed from the start, so neither \<open>NextResultSet\<close> nor \<open>Close\<close> reads on, and the bytes
  of the further results are what the next command on this connection takes for its answer.\<close>

theorem statement_leaves_results_unread:
  assumes "idle mc" "stmt_paramCount stmt = 0" "10 \<le> conn_maxAllowedPacket mc"
    and "net_pending (conn_net mc) = frames 1 (ok_bytes 0 0 statusMoreResultsExists []) @ further"
  shows "\<exists>rows mc'. stmt_query time_text extra stmt [] mc = Some (Inr ((None, Some rows), mc')) \<and>
    has_more_results mc' \<and> unread (conn_buf mc') (conn_net mc') = further \<and>
    NextResultSet rows mc' = Inr (Some EOF, rows, mc') \<and> rows_Close rows mc' = Inr (None, rows, mc')"
proof -
  have w: "map (arg_wire time_text (long_data_size stmt mc)) [] = map Some []" by simp
  obtain mc1 out p where e: "writeExecutePacket time_text extra stmt [] mc = Some (Inr (None, mc1))"
    "commanded p (emitted out mc) mc1" "length p = 10"
    using execute_sends [OF long_data_size_def assms(1) _ w, of extra] assms(2,3) by (auto simp: execute_size_def)
  note kept = commanded_keeps [OF e(2) emitted_idle [OF assms(1)]]
  have pending: "unread (conn_buf mc1) (conn_net mc1) = frames (conn_sequence mc1) (ok_bytes 0 0 statusMoreResultsExists []) @ further"
    using kept(3,4) assms(4) e(3) by (simp add: frame_count_short maxPacketSize_eq net_pending_def emitted_def)
  obtain mc2 where r: "readResultSetHeaderPacket mc1 =
      Inr (Inr 0, mc2\<lparr>conn_affectedRows := 0, conn_insertId := 0, conn_status := statusMoreResultsExists\<rparr>)"
    "reads_packet mc1 (ok_bytes 0 0 statusMoreResultsExists []) further mc2"
    using read_ok_answer [OF kept(1,2) pending] by blast
  let ?mc' = "mc2\<lparr>conn_affectedRows := 0, conn_insertId := 0, conn_status := statusMoreResultsExists\<rparr>"
    and ?rows = "\<lparr>rows_open = False, rows_columns = [], rows_done = True\<rparr>"
  have "\<not> conn_closed mc" using assms(1) by (simp add: idle_def)
  note rows = stmt_query_leaves_results [OF e(1) r(1) this]
  have "NextResultSet ?rows ?mc' = Inr (Some EOF, ?rows, ?mc')"
    by (simp add: NextResultSet_def nextNotEmptyResultSet.simps [of ?rows] nextResultSet_def)
  moreover have "has_more_results ?mc'" by (simp add: has_more_results_def statusMoreResultsExists_def)
  moreover have "unread (conn_buf ?mc') (conn_net ?mc') = further" using r(2) by (simp add: reads_packet_def)
  ultimately show ?thesis using rows by blast
qed

theorem statement_leaves_results_unread_witness:
  "\<exists>rows mc'. stmt_query (\<lambda>_. []) 0 (sample_stmt 0) []
      (sample_conn [frames 1 (ok_bytes 0 0 statusMoreResultsExists []), frames 2 (ok_bytes 5 0 0 [])]) =
      Some (Inr ((None, Some rows), mc')) \<and>
    unread (conn_buf mc') (conn_net mc') = frames 2 (ok_bytes 5 0 0 [])"
  using statement_leaves_results_unread
    [of "sample_conn [frames 1 (ok_bytes 0 0 statusMoreResultsExists []), frames 2 (ok_bytes 5 0 0 [])]"
      "sample_stmt 0" "frames 2 (ok_bytes 5 0 0 [])" "\<lambda>_. []" 0]
  by (auto simp: sample_conn_facts sample_stmt_def maxPacketSize_eq)

end
