(* ===== verification/GoUrl.thy ===== *)
theory GoUrl
  imports GoStrings
begin

text \<open>
  Positions in strings, and the functions of \<open>net\<close> and \<open>net/url\<close> that the parsers of data source names and of
  connection strings call.
\<close>

subsection \<open>Positions in a string\<close>

fun last_index :: "char \<Rightarrow> string \<Rightarrow> nat option" where
  "last_index c [] = None"
| "last_index c (x # s) =
     (case last_index c s of Some i \<Rightarrow> Some (Suc i) | None \<Rightarrow> if x = c then Some 0 else None)"

text \<open>The first position of \<open>c\<close> from \<open>lo\<close> on and before \<open>hi\<close>, or \<open>hi\<close>.\<close>

definition first_index :: "char \<Rightarrow> string \<Rightarrow> nat \<Rightarrow> nat \<Rightarrow> nat" where
  "first_index c s lo hi = lo + length (takeWhile (\<lambda>x. x \<noteq> c) (take (hi - lo) (drop lo s)))"

text \<open>\<open>strings.SplitN(s, c, 2)\<close>, \<open>None\<close> when there is no \<open>c\<close>.\<close>

definition cut_at :: "char \<Rightarrow> string \<Rightarrow> (string \<times> string) option" where
  "cut_at c s = (case dropWhile (\<lambda>x. x \<noteq> c) s of [] \<Rightarrow> None | x # r \<Rightarrow> Some (takeWhile (\<lambda>x. x \<noteq> c) s, r))"

lemma last_index_None: "last_index c s = None \<longleftrightarrow> c \<notin> set s"
  by (induction s) (auto split: option.splits)

lemma last_index_append: "c \<notin> set b \<Longrightarrow> last_index c (a @ c # b) = Some (length a)"
  by (induction a) (auto simp: last_index_None [THEN iffD2])

lemma last_index_SomeD:
  "last_index c s = Some i \<Longrightarrow> i < length s \<and> s ! i = c \<and> c \<notin> set (drop (Suc i) s)"
proof (induction s arbitrary: i)
  case (Cons x s)
  then show ?case by (auto simp: last_index_None split: option.splits if_splits)
qed simp

lemma first_index_bounds: "lo \<le> hi \<Longrightarrow> hi \<le> length s \<Longrightarrow> lo \<le> first_index c s lo hi \<and> first_index c s lo hi \<le> hi"
  using length_takeWhile_le [of "\<lambda>x. x \<noteq> c" "take (hi - lo) (drop lo s)"] by (simp add: first_index_def)

lemma first_index_before:
  assumes "lo \<le> hi" "hi \<le> length s"
  shows "c \<notin> set (take (first_index c s lo hi - lo) (drop lo s))"
proof -
  let ?t = "take (hi - lo) (drop lo s)"
  have "length (takeWhile (\<lambda>x. x \<noteq> c) ?t) \<le> hi - lo"
    using length_takeWhile_le [of "\<lambda>x. x \<noteq> c" ?t] by simp
  then have "take (length (takeWhile (\<lambda>x. x \<noteq> c) ?t)) (drop lo s) = take (length (takeWhile (\<lambda>x. x \<noteq> c) ?t)) ?t"
    by (simp add: min_absorb1)
  also have "\<dots> = takeWhile (\<lambda>x. x \<noteq> c) ?t" by (metis takeWhile_eq_take)
  finally have "take (first_index c s lo hi - lo) (drop lo s) = takeWhile (\<lambda>x. x \<noteq> c) ?t"
    by (simp add: first_index_def)
  then show ?thesis by (metis set_takeWhileD)
qed

lemma first_index_at:
  assumes "lo \<le> hi" "hi \<le> length s" "first_index c s lo hi < hi"
  shows "s ! first_index c s lo hi = c"
proof -
  let ?t = "take (hi - lo) (drop lo s)"
  have l: "length (takeWhile (\<lambda>x. x \<noteq> c) ?t) < length ?t" using assms by (simp add: first_index_def)
  then have "?t ! length (takeWhile (\<lambda>x. x \<noteq> c) ?t) = c" using nth_length_takeWhile by blast
  then show ?thesis using l assms by (simp add: first_index_def)
qed

lemma takeWhile_clean: "c \<notin> set b \<Longrightarrow> takeWhile (\<lambda>x. x \<noteq> c) b = b"
  by (induction b) auto

lemma first_index_none: "c \<notin> set b \<Longrightarrow> first_index c (a @ b @ r) (length a) (length a + length b) = length a + length b"
  by (simp add: first_index_def takeWhile_clean)

lemma first_index_found:
  "c \<notin> set b \<Longrightarrow> first_index c (a @ b @ c # d @ r) (length a) (length a + length b + Suc (length d)) = length a + length b"
  by (simp add: first_index_def takeWhile_clean takeWhile_tail)

lemma dropWhile_clean: "c \<notin> set a \<Longrightarrow> dropWhile (\<lambda>x. x \<noteq> c) (a @ c # b) = c # b"
  by (induction a) auto

lemma cut_at_Some: "cut_at c s = Some (a, b) \<longleftrightarrow> s = a @ c # b \<and> c \<notin> set a"
proof
  assume h: "cut_at c s = Some (a, b)"
  then obtain x where d: "dropWhile (\<lambda>x. x \<noteq> c) s = x # b" "a = takeWhile (\<lambda>x. x \<noteq> c) s"
    by (auto simp: cut_at_def split: list.splits)
  then have "x = c" using hd_dropWhile [of "\<lambda>x. x \<noteq> c" s] by simp
  then show "s = a @ c # b \<and> c \<notin> set a"
    using d takeWhile_dropWhile_id [of "\<lambda>x. x \<noteq> c" s] by (metis set_takeWhileD)
next
  assume "s = a @ c # b \<and> c \<notin> set a"
  then show "cut_at c s = Some (a, b)" by (simp add: cut_at_def takeWhile_tail takeWhile_clean dropWhile_clean)
qed

subsection \<open>Addresses\<close>

text \<open>\<open>net.SplitHostPort\<close>, whose errors the sources do not look at, and \<open>net.JoinHostPort\<close>.\<close>

definition SplitHostPort :: "string \<Rightarrow> (string \<times> string) option" where
  "SplitHostPort hp =
     (case last_index CHR '':'' hp of
        None \<Rightarrow> None
      | Some i \<Rightarrow>
          if hd hp = CHR ''['' then
            (let k = first_index CHR '']'' hp 0 (length hp) in
             if k + 1 \<noteq> i \<or> CHR ''['' \<in> set (drop 1 hp) \<or> CHR '']'' \<in> set (drop (k + 1) hp) then None
             else Some (take (k - 1) (drop 1 hp), drop (i + 1) hp))
          else if CHR '':'' \<in> set (take i hp) \<or> CHR ''['' \<in> set hp \<or> CHR '']'' \<in> set hp then None
          else Some (take i hp, drop (i + 1) hp))"

definition JoinHostPort :: "string \<Rightarrow> string \<Rightarrow> string" where
  "JoinHostPort host port =
     (if CHR '':'' \<in> set host then ''['' @ host @ '']:'' @ port else host @ '':'' @ port)"

subsection \<open>url.QueryEscape and url.QueryUnescape\<close>

definition url_safe :: "char \<Rightarrow> bool" where
  "url_safe c \<longleftrightarrow>
     (let n = of_char c :: nat in
      48 \<le> n \<and> n \<le> 57 \<or> 65 \<le> n \<and> n \<le> 90 \<or> 97 \<le> n \<and> n \<le> 122 \<or> c \<in> set ''-_.~'')"

definition upper_hex :: "nat \<Rightarrow> char" where
  "upper_hex d = (if d < 10 then char_of (48 + d) else char_of (55 + d))"

definition escape_char :: "char \<Rightarrow> string" where
  "escape_char c =
     (if url_safe c then [c] else if c = CHR '' '' then ''+''
      else [CHR ''%'', upper_hex (of_char c div 16), upper_hex (of_char c mod 16)])"

definition QueryEscape :: "string \<Rightarrow> string" where
  "QueryEscape s = concat (map escape_char s)"

definition unhex :: "char \<Rightarrow> nat option" where
  "unhex c =
     (let n = of_char c :: nat in
      if 48 \<le> n \<and> n \<le> 57 then Some (n - 48) else if 97 \<le> n \<and> n \<le> 102 then Some (n - 87)
      else if 65 \<le> n \<and> n \<le> 70 then Some (n - 55) else None)"

definition hex_pair :: "string \<Rightarrow> char option" where
  "hex_pair s =
     (if length s < 2 then None
      else case (unhex (s ! 0), unhex (s ! 1)) of (Some a, Some b) \<Rightarrow> Some (char_of (16 * a + b)) | _ \<Rightarrow> None)"

function QueryUnescape :: "string \<Rightarrow> string + string" where
  "QueryUnescape s =
     (case s of
        [] \<Rightarrow> Inr []
      | c # t \<Rightarrow>
          if c = CHR ''%'' then
            (case hex_pair t of
               None \<Rightarrow> Inl (take 3 s)
             | Some x \<Rightarrow> map_sum id ((#) x) (QueryUnescape (drop 2 t)))
          else map_sum id ((#) (if c = CHR ''+'' then CHR '' '' else c)) (QueryUnescape t))"
  by pat_completeness auto
termination by (relation "measure length") auto

declare QueryUnescape.simps [simp del]

lemma char_code_lt: "(of_char c :: nat) < 256" by simp

lemma upper_hex_code: "d < 16 \<Longrightarrow> (of_char (upper_hex d) :: nat) = (if d < 10 then 48 + d else 55 + d)"
  by (simp add: upper_hex_def)

lemma unhex_upper_hex: "d < 16 \<Longrightarrow> unhex (upper_hex d) = Some d"
  by (simp add: unhex_def upper_hex_code)

lemma upper_hex_safe: "d < 16 \<Longrightarrow> url_safe (upper_hex d)"
  by (simp add: url_safe_def upper_hex_code)

lemma unsafe_chars [simp]:
  "\<not> url_safe CHR ''%''" "\<not> url_safe CHR ''+''" "\<not> url_safe CHR ''&''" "\<not> url_safe CHR ''/''"
  by code_simp+

lemma hex_pair_escape:
  "hex_pair (upper_hex (of_char c div 16) # upper_hex (of_char c mod 16) # s) = Some c"
proof -
  have "(of_char c :: nat) div 16 < 16" using char_code_lt [of c] by (simp add: less_mult_imp_div_less)
  then show ?thesis by (simp add: hex_pair_def unhex_upper_hex)
qed

lemma QueryUnescape_escape: "QueryUnescape (QueryEscape s) = Inr s"
proof (induction s)
  case Nil
  then show ?case by (simp add: QueryEscape_def QueryUnescape.simps)
next
  case (Cons c s)
  have e: "QueryEscape (c # s) = escape_char c @ QueryEscape s" by (simp add: QueryEscape_def)
  have safe: "url_safe c \<Longrightarrow> c \<noteq> CHR ''%'' \<and> c \<noteq> CHR ''+''" by (metis unsafe_chars)
  show ?case
  proof (cases "url_safe c \<or> c = CHR '' ''")
    case True
    then show ?thesis using safe Cons by (auto simp: e escape_char_def QueryUnescape.simps [of "c # _"] QueryUnescape.simps [of "CHR ''+'' # _"])
  next
    case False
    then show ?thesis
      using Cons by (simp add: e escape_char_def QueryUnescape.simps [of "CHR ''%'' # _"] hex_pair_escape)
  qed
qed

lemma QueryEscape_chars: "c \<in> set (QueryEscape s) \<Longrightarrow> url_safe c \<or> c = CHR ''+'' \<or> c = CHR ''%''"
proof -
  assume "c \<in> set (QueryEscape s)"
  then obtain x where "c \<in> set (escape_char x)" by (auto simp: QueryEscape_def)
  moreover have "(of_char x :: nat) div 16 < 16" using char_code_lt [of x] by (simp add: less_mult_imp_div_less)
  ultimately show ?thesis by (auto simp: escape_char_def upper_hex_safe split: if_splits)
qed

lemma QueryEscape_clean: "CHR ''&'' \<notin> set (QueryEscape s)" "CHR ''/'' \<notin> set (QueryEscape s)"
  using QueryEscape_chars [of "CHR ''&''" s] QueryEscape_chars [of "CHR ''/''" s] by auto

text \<open>A text without a mark of escaping is the name itself.\<close>

lemma QueryEscape_plain:
  "CHR ''%'' \<notin> set (QueryEscape s) \<Longrightarrow> CHR ''+'' \<notin> set (QueryEscape s) \<Longrightarrow> QueryEscape s = s"
  by (induction s) (auto simp: QueryEscape_def escape_char_def split: if_splits)

end
