(* ===== verification/DriverDsn.thy ===== *)
theory DriverDsn
  imports DriverTypes GoFlow GoUrl "HOL-Library.AList" "HOL-Library.List_Lexorder" "HOL-Library.Char_ord"
begin

text \<open>
  \<open>dsn.go\<close>: data source names, \<open>[user[:password]@][net[(addr)]]/dbname[?param1=value1&...]\<close>, and the
  configurations that they stand for. What is read from the time zone database, the texts of durations (which \<open>time.ParseDuration\<close> reads with floating
  point numbers) and the registries of keys and TLS configurations are the parameter \<open>dsn_env\<close>. The empty location
  name stands for \<open>nil\<close>. A configuration that is returned with an error is not tracked.
\<close>

datatype dsn_error =
    DsnUnescaped | DsnAddr | DsnNoSlash | DsnUnsafeCollation
  | DsnBadBool string | DsnCompression | DsnUnknownKey string | DsnUnknownTLS string
  | DsnNoDefaultAddr string | DsnBadEscape string | DsnBadNumber string
  | DsnBadLocation string | DsnBadDuration string

record 'key dsn_env =
  de_location :: "string \<Rightarrow> string option"            \<comment> \<open>\<open>time.LoadLocation\<close>, the name of the result\<close>
  de_duration :: "string \<Rightarrow> int option"                \<comment> \<open>\<open>time.ParseDuration\<close>\<close>
  de_duration_text :: "int \<Rightarrow> string"                  \<comment> \<open>\<open>Duration.String\<close>\<close>
  de_pubKey :: "string \<Rightarrow> 'key option"                \<comment> \<open>\<open>getServerPubKey\<close>\<close>
  de_tls :: "string \<Rightarrow> tls_config option"               \<comment> \<open>\<open>getTLSConfigClone\<close>\<close>

subsection \<open>Configurations\<close>

definition ensureHavePort :: "string \<Rightarrow> string" where
  "ensureHavePort addr = (if SplitHostPort addr = None then JoinHostPort addr ''3306'' else addr)"

definition defaultMaxAllowedPacket :: int where
  "defaultMaxAllowedPacket = 4194304"

definition NewConfig :: "'key conn_config" where
  "NewConfig =
     \<lparr>cf_User = [], cf_Passwd = [], cf_Net = [], cf_Addr = [], cf_DBName = [], cf_Params = [],
      cf_Collation = defaultCollation, cf_Loc = ''UTC'', cf_MaxAllowedPacket = defaultMaxAllowedPacket,
      cf_ServerPubKey = [], cf_pubKey = None, cf_TLSConfig = [], cf_tls = None,
      cf_Timeout = 0, cf_ReadTimeout = 0, cf_WriteTimeout = 0,
      cf_AllowAllFiles = False, cf_AllowCleartextPasswords = False, cf_AllowNativePasswords = True,
      cf_AllowOldPasswords = False, cf_ClientFoundRows = False, cf_ColumnsWithAlias = False,
      cf_InterpolateParams = False, cf_MultiStatements = False, cf_ParseTime = False, cf_RejectReadOnly = False\<rparr>"

text \<open>The name that a certificate is checked for.\<close>

definition server_name :: "'key conn_config \<Rightarrow> 'key conn_config" where
  "server_name cfg =
     (case cf_tls cfg of
        None \<Rightarrow> cfg
      | Some t \<Rightarrow>
          if tls_ServerName t = [] \<and> \<not> tls_InsecureSkipVerify t then
            (case SplitHostPort (cf_Addr cfg) of
               None \<Rightarrow> cfg
             | Some (host, port) \<Rightarrow> cfg\<lparr>cf_tls := Some (t\<lparr>tls_ServerName := host\<rparr>)\<rparr>)
          else cfg)"

definition default_addr :: "string \<Rightarrow> string \<Rightarrow> dsn_error + string" where
  "default_addr net addr =
     (if addr = [] then
        (if net = ''tcp'' then Inr ''127.0.0.1:3306''
         else if net = ''unix'' then Inr ''/tmp/mysql.sock''
         else Inl (DsnNoDefaultAddr net))
      else Inr (if net = ''tcp'' then ensureHavePort addr else addr))"

definition cfg_normalize :: "'key conn_config \<Rightarrow> dsn_error + 'key conn_config" where
  "cfg_normalize cfg =
     (if cf_InterpolateParams cfg \<and> cf_Collation cfg \<in> set unsafeCollations then Inl DsnUnsafeCollation
      else
        (let net = (if cf_Net cfg = [] then ''tcp'' else cf_Net cfg) in
         case default_addr net (cf_Addr cfg) of
           Inl e \<Rightarrow> Inl e
         | Inr addr \<Rightarrow> Inr (server_name (cfg\<lparr>cf_Net := net, cf_Addr := addr\<rparr>))))"

subsection \<open>Printing\<close>

definition shown :: "bool \<Rightarrow> string \<Rightarrow> string \<Rightarrow> (string \<times> string) list" where
  "shown b key value = (if b then [(key, value)] else [])"

text \<open>The parameters of \<open>FormatDSN\<close> in their order, with their values as they are written.\<close>

definition option_pairs :: "'key dsn_env \<Rightarrow> 'key conn_config \<Rightarrow> (string \<times> string) list" where
  "option_pairs env cfg =
     shown (cf_AllowAllFiles cfg) ''allowAllFiles'' ''true'' @
     shown (cf_AllowCleartextPasswords cfg) ''allowCleartextPasswords'' ''true'' @
     shown (\<not> cf_AllowNativePasswords cfg) ''allowNativePasswords'' ''false'' @
     shown (cf_AllowOldPasswords cfg) ''allowOldPasswords'' ''true'' @
     shown (cf_ClientFoundRows cfg) ''clientFoundRows'' ''true'' @
     shown (cf_Collation cfg \<noteq> defaultCollation \<and> cf_Collation cfg \<noteq> []) ''collation'' (cf_Collation cfg) @
     shown (cf_ColumnsWithAlias cfg) ''columnsWithAlias'' ''true'' @
     shown (cf_InterpolateParams cfg) ''interpolateParams'' ''true'' @
     shown (cf_Loc cfg \<noteq> ''UTC'' \<and> cf_Loc cfg \<noteq> []) ''loc'' (QueryEscape (cf_Loc cfg)) @
     shown (cf_MultiStatements cfg) ''multiStatements'' ''true'' @
     shown (cf_ParseTime cfg) ''parseTime'' ''true'' @
     shown (0 < cf_ReadTimeout cfg) ''readTimeout'' (de_duration_text env (cf_ReadTimeout cfg)) @
     shown (cf_RejectReadOnly cfg) ''rejectReadOnly'' ''true'' @
     shown (cf_ServerPubKey cfg \<noteq> []) ''serverPubKey'' (QueryEscape (cf_ServerPubKey cfg)) @
     shown (0 < cf_Timeout cfg) ''timeout'' (de_duration_text env (cf_Timeout cfg)) @
     shown (cf_TLSConfig cfg \<noteq> []) ''tls'' (QueryEscape (cf_TLSConfig cfg)) @
     shown (0 < cf_WriteTimeout cfg) ''writeTimeout'' (de_duration_text env (cf_WriteTimeout cfg)) @
     shown (cf_MaxAllowedPacket cfg \<noteq> defaultMaxAllowedPacket) ''maxAllowedPacket'' (strconv_Itoa (cf_MaxAllowedPacket cfg))"

definition user_pairs :: "'key conn_config \<Rightarrow> (string \<times> string) list" where
  "user_pairs cfg = map (\<lambda>(k, v). (k, QueryEscape v)) (sort_key fst (cf_Params cfg))"

fun write_params :: "bool \<Rightarrow> (string \<times> string) list \<Rightarrow> string" where
  "write_params hasParam [] = []"
| "write_params hasParam ((k, v) # ps) =
     (if hasParam then ''&'' else ''?'') @ k @ ''='' @ v @ write_params True ps"

definition FormatDSN :: "'key dsn_env \<Rightarrow> 'key conn_config \<Rightarrow> string" where
  "FormatDSN env cfg =
     (if cf_User cfg \<noteq> []
      then cf_User cfg @ (if cf_Passwd cfg \<noteq> [] then '':'' @ cf_Passwd cfg else []) @ ''@'' else []) @
     (if cf_Net cfg \<noteq> []
      then cf_Net cfg @ (if cf_Addr cfg \<noteq> [] then ''('' @ cf_Addr cfg @ '')'' else []) else []) @
     ''/'' @ cf_DBName cfg @ write_params False (option_pairs env cfg @ user_pairs cfg)"

subsection \<open>Parsing\<close>

definition bool_param :: "string \<Rightarrow> (bool \<Rightarrow> 'key conn_config) \<Rightarrow> (dsn_error + 'key conn_config) go" where
  "bool_param value set_field =
     (case readBool value of (b, valid) \<Rightarrow> Inr (if valid then Inr (set_field b) else Inl (DsnBadBool value)))"

definition duration_param ::
  "'key dsn_env \<Rightarrow> string \<Rightarrow> (int \<Rightarrow> 'key conn_config) \<Rightarrow> (dsn_error + 'key conn_config) go" where
  "duration_param env value set_field =
     Inr (case de_duration env value of None \<Rightarrow> Inl (DsnBadDuration value) | Some d \<Rightarrow> Inr (set_field d))"

definition unescaped :: "string \<Rightarrow> (string \<Rightarrow> dsn_error + 'key conn_config) \<Rightarrow> (dsn_error + 'key conn_config) go" where
  "unescaped value f = Inr (case QueryUnescape value of Inl e \<Rightarrow> Inl (DsnBadEscape e) | Inr s \<Rightarrow> f s)"

text \<open>
  \<open>strings.ToLower\<close>, compared with a text in ASCII: next to the capital letters only the Kelvin sign and the
  capital I with a dot become letters of ASCII.
\<close>

function lowered :: "string \<Rightarrow> string" where
  "lowered s =
     (if s = [] then []
      else if take 2 s = [CHR 0xC4, CHR 0xB0] then CHR ''i'' # lowered (drop 2 s)
      else if take 3 s = [CHR 0xE2, CHR 0x84, CHR 0xAA] then CHR ''k'' # lowered (drop 3 s)
      else ascii_lower (hd s) # lowered (tl s))"
  by pat_completeness auto
termination by (relation "measure length") (auto simp: neq_Nil_conv)

declare lowered.simps [simp del]

definition tls_param :: "'key dsn_env \<Rightarrow> string \<Rightarrow> 'key conn_config \<Rightarrow> (dsn_error + 'key conn_config) go" where
  "tls_param env value cfg =
     (case readBool value of (b, valid) \<Rightarrow>
        if valid then
          Inr (Inr
            (if b then cfg\<lparr>cf_TLSConfig := ''true'', cf_tls := Some \<lparr>tls_ServerName = [], tls_InsecureSkipVerify = False\<rparr>\<rparr>
             else cfg\<lparr>cf_TLSConfig := ''false''\<rparr>))
        else if lowered value = ''skip-verify'' then
          Inr (Inr (cfg\<lparr>cf_TLSConfig := ''skip-verify'', cf_tls := Some \<lparr>tls_ServerName = [], tls_InsecureSkipVerify = True\<rparr>\<rparr>))
        else
          unescaped value (\<lambda>name.
            case de_tls env name of
              None \<Rightarrow> Inl (DsnUnknownTLS name)
            | Some t \<Rightarrow> Inr (cfg\<lparr>cf_TLSConfig := name, cf_tls := Some t\<rparr>)))"

definition dsn_param :: "'key dsn_env \<Rightarrow> string \<Rightarrow> string \<Rightarrow> 'key conn_config \<Rightarrow> (dsn_error + 'key conn_config) go" where
  "dsn_param env key value cfg =
     (if key = ''allowAllFiles'' then bool_param value (\<lambda>b. cfg\<lparr>cf_AllowAllFiles := b\<rparr>)
      else if key = ''allowCleartextPasswords'' then bool_param value (\<lambda>b. cfg\<lparr>cf_AllowCleartextPasswords := b\<rparr>)
      else if key = ''allowNativePasswords'' then bool_param value (\<lambda>b. cfg\<lparr>cf_AllowNativePasswords := b\<rparr>)
      else if key = ''allowOldPasswords'' then bool_param value (\<lambda>b. cfg\<lparr>cf_AllowOldPasswords := b\<rparr>)
      else if key = ''clientFoundRows'' then bool_param value (\<lambda>b. cfg\<lparr>cf_ClientFoundRows := b\<rparr>)
      else if key = ''collation'' then Inr (Inr (cfg\<lparr>cf_Collation := value\<rparr>))
      else if key = ''columnsWithAlias'' then bool_param value (\<lambda>b. cfg\<lparr>cf_ColumnsWithAlias := b\<rparr>)
      else if key = ''compress'' then Inr (Inl DsnCompression)
      else if key = ''interpolateParams'' then bool_param value (\<lambda>b. cfg\<lparr>cf_InterpolateParams := b\<rparr>)
      else if key = ''loc'' then
        unescaped value (\<lambda>name. case de_location env name of None \<Rightarrow> Inl (DsnBadLocation name) | Some l \<Rightarrow> Inr (cfg\<lparr>cf_Loc := l\<rparr>))
      else if key = ''multiStatements'' then bool_param value (\<lambda>b. cfg\<lparr>cf_MultiStatements := b\<rparr>)
      else if key = ''parseTime'' then bool_param value (\<lambda>b. cfg\<lparr>cf_ParseTime := b\<rparr>)
      else if key = ''readTimeout'' then duration_param env value (\<lambda>d. cfg\<lparr>cf_ReadTimeout := d\<rparr>)
      else if key = ''rejectReadOnly'' then bool_param value (\<lambda>b. cfg\<lparr>cf_RejectReadOnly := b\<rparr>)
      else if key = ''serverPubKey'' then
        unescaped value (\<lambda>name.
          case de_pubKey env name of
            None \<Rightarrow> Inl (DsnUnknownKey name)
          | Some pk \<Rightarrow> Inr (cfg\<lparr>cf_ServerPubKey := name, cf_pubKey := Some pk\<rparr>))
      else if key = ''strict'' then
        Inl (ExplicitPanic ''strict mode has been removed. See https://github.com/go-sql-driver/mysql/wiki/strict-mode'')
      else if key = ''timeout'' then duration_param env value (\<lambda>d. cfg\<lparr>cf_Timeout := d\<rparr>)
      else if key = ''tls'' then tls_param env value cfg
      else if key = ''writeTimeout'' then duration_param env value (\<lambda>d. cfg\<lparr>cf_WriteTimeout := d\<rparr>)
      else if key = ''maxAllowedPacket'' then
        Inr (case parse_int64 value of None \<Rightarrow> Inl (DsnBadNumber value) | Some n \<Rightarrow> Inr (cfg\<lparr>cf_MaxAllowedPacket := n\<rparr>))
      else unescaped value (\<lambda>v. Inr (cfg\<lparr>cf_Params := AList.update key v (cf_Params cfg)\<rparr>)))"

fun dsn_params :: "'key dsn_env \<Rightarrow> string list \<Rightarrow> 'key conn_config \<Rightarrow> (dsn_error + 'key conn_config) go" where
  "dsn_params env [] cfg = Inr (Inr cfg)"
| "dsn_params env (v # vs) cfg =
     (case cut_at CHR ''='' v of
        None \<Rightarrow> dsn_params env vs cfg
      | Some (key, value) \<Rightarrow> or_fail (dsn_param env key value cfg) (\<lambda>cfg. dsn_params env vs cfg))"

definition parseDSNParams :: "'key dsn_env \<Rightarrow> 'key conn_config \<Rightarrow> string \<Rightarrow> (dsn_error + 'key conn_config) go" where
  "parseDSNParams env cfg params = dsn_params env (split_on CHR ''&'' params) cfg"

text \<open>The user and the password, before the last \<open>@\<close>: where the protocol begins.\<close>

definition dsn_user :: "string \<Rightarrow> nat \<Rightarrow> 'key conn_config \<Rightarrow> (nat \<times> 'key conn_config) go" where
  "dsn_user dsn i cfg =
     (case last_index CHR ''@'' (take (i + 1) dsn) of
        None \<Rightarrow> Inr (0, cfg)
      | Some j \<Rightarrow>
          (let k = first_index CHR '':'' dsn 0 j in
           go_bind (if k < j then go_bind (go_slice dsn (k + 1) j) (\<lambda>p. Inr (cfg\<lparr>cf_Passwd := p\<rparr>)) else Inr cfg) (\<lambda>cfg.
           go_bind (go_slice dsn 0 k) (\<lambda>u. Inr (j + 1, cfg\<lparr>cf_User := u\<rparr>)))))"

definition dsn_address :: "string \<Rightarrow> nat \<Rightarrow> nat \<Rightarrow> 'key conn_config \<Rightarrow> (dsn_error + 'key conn_config) go" where
  "dsn_address dsn lo i cfg =
     (let k = first_index CHR ''('' dsn lo i in
      or_fail
        (if k < i then
           go_bind (go_at dsn (i - 1)) (\<lambda>c.
           if c \<noteq> CHR '')'' then
             go_bind (go_slice dsn (k + 1) i) (\<lambda>r. Inr (Inl (if CHR '')'' \<in> set r then DsnUnescaped else DsnAddr)))
           else go_bind (go_slice dsn (k + 1) (i - 1)) (\<lambda>a. Inr (Inr (cfg\<lparr>cf_Addr := a\<rparr>))))
         else Inr (Inr cfg)) (\<lambda>cfg.
      go_bind (go_slice dsn lo k) (\<lambda>n. Inr (Inr (cfg\<lparr>cf_Net := n\<rparr>)))))"

definition dsn_database :: "'key dsn_env \<Rightarrow> string \<Rightarrow> nat \<Rightarrow> 'key conn_config \<Rightarrow> (dsn_error + 'key conn_config) go" where
  "dsn_database env dsn i cfg =
     (let j = first_index CHR ''?'' dsn (i + 1) (length dsn) in
      or_fail
        (if j < length dsn then go_bind (go_slice_from dsn (j + 1)) (\<lambda>p. parseDSNParams env cfg p)
         else Inr (Inr cfg)) (\<lambda>cfg.
      go_bind (go_slice dsn (i + 1) j) (\<lambda>d. Inr (Inr (cfg\<lparr>cf_DBName := d\<rparr>)))))"

definition dsn_parts :: "'key dsn_env \<Rightarrow> string \<Rightarrow> (dsn_error + 'key conn_config) go" where
  "dsn_parts env dsn =
     (case last_index CHR ''/'' dsn of
        None \<Rightarrow> Inr (if dsn \<noteq> [] then Inl DsnNoSlash else Inr NewConfig)
      | Some i \<Rightarrow>
          or_fail
            (if 0 < i then go_bind (dsn_user dsn i NewConfig) (\<lambda>(lo, cfg). dsn_address dsn lo i cfg)
             else Inr (Inr NewConfig)) (\<lambda>cfg.
          dsn_database env dsn i cfg))"

definition ParseDSN :: "'key dsn_env \<Rightarrow> string \<Rightarrow> (dsn_error + 'key conn_config) go" where
  "ParseDSN env dsn = or_fail (dsn_parts env dsn) (\<lambda>cfg. Inr (cfg_normalize cfg))"

end
