(* ===== verification/DsnParsed.thy ===== *)
theory DsnParsed
  imports DriverDsn
begin

text \<open>
  What \<open>ParseDSN\<close> makes of a text: it does not panic but for \<open>strict\<close>, and the configuration is well-formed.
\<close>

subsection \<open>Panics\<close>

lemma go_slice_total: "i \<le> j \<Longrightarrow> j \<le> length s \<Longrightarrow> \<exists>r. go_slice s i j = Inr r"
  by simp

lemma dsn_user_total:
  assumes "i < length dsn"
  shows "\<exists>lo c. dsn_user dsn i cfg = Inr (lo, c) \<and> lo \<le> Suc i"
proof (cases "last_index CHR ''@'' (take (i + 1) dsn)")
  case None
  then show ?thesis by (simp add: dsn_user_def)
next
  case (Some j)
  have j: "j \<le> i" using last_index_SomeD [OF Some] assms by simp
  have "first_index CHR '':'' dsn 0 j \<le> j" using first_index_bounds [of 0 j dsn] j assms by simp
  then show ?thesis using Some j assms by (simp add: dsn_user_def Let_def)
qed

lemma dsn_user_at:
  assumes "i < length dsn" "dsn ! i = CHR ''/''" "dsn_user dsn i cfg = Inr (lo, c)"
  shows "lo \<le> i"
proof (cases "last_index CHR ''@'' (take (i + 1) dsn)")
  case None
  then show ?thesis using assms by (simp add: dsn_user_def)
next
  case (Some j)
  have "j \<le> i" using last_index_SomeD [OF Some] assms by simp
  then have j: "j \<le> i" "dsn ! j = CHR ''@''" using last_index_SomeD [OF Some] by simp_all
  then have "j \<noteq> i" using assms(2) by auto
  then show ?thesis using Some j assms by (auto simp: dsn_user_def Let_def go_eq_Inr split: if_splits)
qed

lemma dsn_address_total:
  assumes "lo \<le> i" "i < length dsn"
  shows "\<exists>r. dsn_address dsn lo i cfg = Inr r"
proof -
  let ?k = "first_index CHR ''('' dsn lo i"
  have k: "lo \<le> ?k" "?k \<le> i" using first_index_bounds [of lo i dsn] assms by simp_all
  show ?thesis
  proof (cases "?k < i")
    case False
    then show ?thesis using k assms by (simp add: dsn_address_def Let_def)
  next
    case True
    have at: "dsn ! ?k = CHR ''(''" by (rule first_index_at) (use True assms in auto)
    show ?thesis
    proof (cases "dsn ! (i - 1) = CHR '')''")
      case False
      then show ?thesis using True k assms by (simp add: dsn_address_def Let_def)
    next
      case close: True
      have "?k \<noteq> i - 1" using at close by auto
      then have "?k + 1 \<le> i - 1" using True by simp
      then show ?thesis using True close k assms by (simp add: dsn_address_def Let_def)
    qed
  qed
qed

definition strict_panic :: go_panic where
  "strict_panic = ExplicitPanic ''strict mode has been removed. See https://github.com/go-sql-driver/mysql/wiki/strict-mode''"

lemma dsn_param_panic: "dsn_param env key value cfg = Inl p \<Longrightarrow> key = ''strict'' \<and> p = strict_panic"
  by (auto simp: dsn_param_def bool_param_def duration_param_def unescaped_def tls_param_def strict_panic_def
      split: if_splits prod.splits bool.splits)

lemma or_fail_Inl: "or_fail m f = Inl p \<longleftrightarrow> m = Inl p \<or> (\<exists>x. m = Inr (Inr x) \<and> f x = Inl p)"
  by (cases m) (auto simp: or_fail_def split: sum.splits)

lemma dsn_params_panic: "dsn_params env vs cfg = Inl p \<Longrightarrow> p = strict_panic"
  by (induction vs arbitrary: cfg) (auto simp: or_fail_Inl dest: dsn_param_panic split: option.splits)

lemma dsn_database_panic:
  assumes "dsn_database env dsn i cfg = Inl p" "i < length dsn"
  shows "p = strict_panic"
proof -
  let ?j = "first_index CHR ''?'' dsn (i + 1) (length dsn)"
  have j: "i + 1 \<le> ?j" "?j \<le> length dsn" using first_index_bounds [of "i + 1" "length dsn" dsn] assms(2) by simp_all
  show ?thesis
    using assms(1) j by (auto simp: dsn_database_def Let_def or_fail_Inl parseDSNParams_def dest: dsn_params_panic split: if_splits)
qed

lemma ParseDSN_panic:
  assumes "ParseDSN env dsn = Inl p"
  shows "p = strict_panic"
proof -
  from assms have parts: "dsn_parts env dsn = Inl p" by (auto simp: ParseDSN_def or_fail_Inl)
  then obtain i where i: "last_index CHR ''/'' dsn = Some i" by (auto simp: dsn_parts_def split: option.splits)
  have at: "i < length dsn" "dsn ! i = CHR ''/''" using last_index_SomeD [OF i] by simp_all
  obtain lo c where u: "dsn_user dsn i NewConfig = Inr (lo, c :: 'a conn_config)"
    using dsn_user_total [OF at(1), of NewConfig] by blast
  obtain r where "dsn_address dsn lo i c = Inr r"
    using dsn_address_total [OF dsn_user_at [OF at u] at(1)] by blast
  then show ?thesis
    using parts i u dsn_database_panic [OF _ at(1)]
    by (auto simp: dsn_parts_def or_fail_Inl split: if_splits)
qed

subsection \<open>Reserved names\<close>

lemma lowered_keeps:
  assumes "c = CHR ''%'' \<or> c = CHR ''+''"
  shows "c \<in> set s \<Longrightarrow> c \<in> set (lowered s)"
proof (induction s rule: lowered.induct)
  case (1 s)
  have a: "ascii_lower CHR ''%'' = CHR ''%''" "ascii_lower CHR ''+'' = CHR ''+''" by (simp_all add: ascii_lower_def)
  have split: "set s = set (take n s) \<union> set (drop n s)" for n by (metis append_take_drop_id set_append)
  have s: "s \<noteq> []" using 1(4) by auto
  consider "take 2 s = [CHR 0xC4, CHR 0xB0]" | "take 2 s \<noteq> [CHR 0xC4, CHR 0xB0]" "take 3 s = [CHR 0xE2, CHR 0x84, CHR 0xAA]"
    | "take 2 s \<noteq> [CHR 0xC4, CHR 0xB0]" "take 3 s \<noteq> [CHR 0xE2, CHR 0x84, CHR 0xAA]" by blast
  then show ?case
  proof cases
    case 1
    then have "c \<in> set (drop 2 s)" using split [of 2] "1.prems" assms by auto
    then show ?thesis using "1.IH"(1) [OF s 1] 1 s by (subst lowered.simps) simp
  next
    case 2
    then have "c \<in> set (drop 3 s)" using split [of 3] "1.prems" assms by auto
    then show ?thesis using "1.IH"(2) [OF s 2] 2 s by (subst lowered.simps) simp
  next
    case 3
    have "c = hd s \<or> c \<in> set (tl s)" using s "1.prems" by (cases s) auto
    then show ?thesis using "1.IH"(3) [OF s 3] 3 s assms a by (subst lowered.simps) auto
  qed
qed

lemma lowered_escape:
  assumes "lowered (QueryEscape n) = ''skip-verify''"
  shows "lowered n = ''skip-verify''"
proof -
  have "QueryEscape n = n"
    by (rule QueryEscape_plain; use lowered_keeps [of _ "QueryEscape n"] assms in force)
  then show ?thesis using assms by simp
qed

lemma readBool_escape:
  assumes "snd (readBool (QueryEscape n))"
  shows "snd (readBool n)"
proof -
  have "CHR ''%'' \<notin> set (QueryEscape n)" "CHR ''+'' \<notin> set (QueryEscape n)"
    using assms by (auto simp: readBool_def split: if_splits)
  then have "QueryEscape n = n" by (rule QueryEscape_plain)
  then show ?thesis using assms by simp
qed

subsection \<open>Configurations from parameters\<close>

definition dsn_keys :: "string list" where
  "dsn_keys =
     [''allowAllFiles'', ''allowCleartextPasswords'', ''allowNativePasswords'', ''allowOldPasswords'', ''clientFoundRows'',
      ''collation'', ''columnsWithAlias'', ''compress'', ''interpolateParams'', ''loc'', ''multiStatements'', ''parseTime'',
      ''readTimeout'', ''rejectReadOnly'', ''serverPubKey'', ''strict'', ''timeout'', ''tls'', ''writeTimeout'', ''maxAllowedPacket'']"

definition clean :: "string \<Rightarrow> bool" where
  "clean s \<longleftrightarrow> CHR ''/'' \<notin> set s \<and> CHR ''&'' \<notin> set s"

text \<open>
  The environment: locations are known by their names, the text of a duration is read as that duration, no TLS
  configuration has a reserved name (\<open>RegisterTLSConfig\<close> refuses them), and nothing is registered under the empty name.
\<close>

definition env_ok :: "'key dsn_env \<Rightarrow> bool" where
  "env_ok env \<longleftrightarrow>
     de_location env ''UTC'' = Some ''UTC'' \<and>
     (\<forall>n l. de_location env n = Some l \<longrightarrow> l \<noteq> [] \<and> de_location env l = Some l) \<and>
     (\<forall>s d. de_duration env s = Some d \<longrightarrow> d < 2 ^ 63) \<and>
     (\<forall>d. 0 < d \<longrightarrow> d < 2 ^ 63 \<longrightarrow> de_duration env (de_duration_text env d) = Some d \<and> clean (de_duration_text env d)) \<and>
     (\<forall>n. de_tls env n \<noteq> None \<longrightarrow> n \<noteq> [] \<and> \<not> snd (readBool n) \<and> lowered n \<noteq> ''skip-verify'') \<and>
     de_pubKey env [] = None"

definition tls_of :: "'key dsn_env \<Rightarrow> string \<Rightarrow> tls_config option" where
  "tls_of env name =
     (if name = ''true'' then Some \<lparr>tls_ServerName = [], tls_InsecureSkipVerify = False\<rparr>
      else if name = ''skip-verify'' then Some \<lparr>tls_ServerName = [], tls_InsecureSkipVerify = True\<rparr>
      else if name = ''false'' then None else de_tls env name)"

definition tls_known :: "'key dsn_env \<Rightarrow> string \<Rightarrow> bool" where
  "tls_known env name \<longleftrightarrow> name \<in> set [[], ''true'', ''false'', ''skip-verify''] \<or> de_tls env name \<noteq> None"

definition options_wf :: "'key dsn_env \<Rightarrow> 'key conn_config \<Rightarrow> bool" where
  "options_wf env cfg \<longleftrightarrow>
     clean (cf_Collation cfg) \<and> - (2 ^ 63) \<le> cf_MaxAllowedPacket cfg \<and> cf_MaxAllowedPacket cfg < 2 ^ 63 \<and>
     cf_Loc cfg \<noteq> [] \<and> de_location env (cf_Loc cfg) = Some (cf_Loc cfg) \<and>
     cf_Timeout cfg < 2 ^ 63 \<and> cf_ReadTimeout cfg < 2 ^ 63 \<and> cf_WriteTimeout cfg < 2 ^ 63 \<and>
     cf_pubKey cfg = de_pubKey env (cf_ServerPubKey cfg) \<and> (cf_ServerPubKey cfg = [] \<or> cf_pubKey cfg \<noteq> None) \<and>
     tls_known env (cf_TLSConfig cfg) \<and> (cf_TLSConfig cfg = ''false'' \<or> cf_tls cfg = tls_of env (cf_TLSConfig cfg))"

definition params_wf :: "(string \<times> string) list \<Rightarrow> bool" where
  "params_wf ps \<longleftrightarrow>
     distinct (map fst ps) \<and> (\<forall>k \<in> fst ` set ps. clean k \<and> CHR ''='' \<notin> set k \<and> k \<notin> set dsn_keys)"

lemma parse_int64_range: "parse_int64 s = Some n \<Longrightarrow> - (2 ^ 63) \<le> n \<and> n < 2 ^ 63"
  by (auto simp: parse_int64_def Let_def split: if_splits option.splits)

lemma env_tls:
  assumes "env_ok env" "de_tls env n = Some y"
  shows "n \<noteq> ''true'' \<and> n \<noteq> ''false'' \<and> n \<noteq> ''skip-verify'' \<and> n \<noteq> []"
proof -
  have "\<not> snd (readBool n)" "lowered n \<noteq> ''skip-verify''" "n \<noteq> []" using assms unfolding env_ok_def by auto
  moreover have "snd (readBool ''true'')" "snd (readBool ''false'')" "lowered ''skip-verify'' = ''skip-verify''" by code_simp+
  ultimately show ?thesis by auto
qed

lemma dsn_param_simps:
  "dsn_param env ''allowAllFiles'' value cfg = bool_param value (\<lambda>b. cfg\<lparr>cf_AllowAllFiles := b\<rparr>)"
  "dsn_param env ''allowCleartextPasswords'' value cfg = bool_param value (\<lambda>b. cfg\<lparr>cf_AllowCleartextPasswords := b\<rparr>)"
  "dsn_param env ''allowNativePasswords'' value cfg = bool_param value (\<lambda>b. cfg\<lparr>cf_AllowNativePasswords := b\<rparr>)"
  "dsn_param env ''allowOldPasswords'' value cfg = bool_param value (\<lambda>b. cfg\<lparr>cf_AllowOldPasswords := b\<rparr>)"
  "dsn_param env ''clientFoundRows'' value cfg = bool_param value (\<lambda>b. cfg\<lparr>cf_ClientFoundRows := b\<rparr>)"
  "dsn_param env ''columnsWithAlias'' value cfg = bool_param value (\<lambda>b. cfg\<lparr>cf_ColumnsWithAlias := b\<rparr>)"
  "dsn_param env ''interpolateParams'' value cfg = bool_param value (\<lambda>b. cfg\<lparr>cf_InterpolateParams := b\<rparr>)"
  "dsn_param env ''multiStatements'' value cfg = bool_param value (\<lambda>b. cfg\<lparr>cf_MultiStatements := b\<rparr>)"
  "dsn_param env ''parseTime'' value cfg = bool_param value (\<lambda>b. cfg\<lparr>cf_ParseTime := b\<rparr>)"
  "dsn_param env ''rejectReadOnly'' value cfg = bool_param value (\<lambda>b. cfg\<lparr>cf_RejectReadOnly := b\<rparr>)"
  "dsn_param env ''readTimeout'' value cfg = duration_param env value (\<lambda>d. cfg\<lparr>cf_ReadTimeout := d\<rparr>)"
  "dsn_param env ''timeout'' value cfg = duration_param env value (\<lambda>d. cfg\<lparr>cf_Timeout := d\<rparr>)"
  "dsn_param env ''writeTimeout'' value cfg = duration_param env value (\<lambda>d. cfg\<lparr>cf_WriteTimeout := d\<rparr>)"
  "dsn_param env ''collation'' value cfg = Inr (Inr (cfg\<lparr>cf_Collation := value\<rparr>))"
  "dsn_param env ''compress'' value cfg = Inr (Inl DsnCompression)"
  "dsn_param env ''strict'' value cfg = Inl strict_panic"
  "dsn_param env ''loc'' value cfg =
     unescaped value (\<lambda>name. case de_location env name of None \<Rightarrow> Inl (DsnBadLocation name) | Some l \<Rightarrow> Inr (cfg\<lparr>cf_Loc := l\<rparr>))"
  "dsn_param env ''serverPubKey'' value cfg =
     unescaped value (\<lambda>name. case de_pubKey env name of None \<Rightarrow> Inl (DsnUnknownKey name)
       | Some pk \<Rightarrow> Inr (cfg\<lparr>cf_ServerPubKey := name, cf_pubKey := Some pk\<rparr>))"
  "dsn_param env ''tls'' value cfg = tls_param env value cfg"
  "dsn_param env ''maxAllowedPacket'' value cfg =
     Inr (case parse_int64 value of None \<Rightarrow> Inl (DsnBadNumber value) | Some n \<Rightarrow> Inr (cfg\<lparr>cf_MaxAllowedPacket := n\<rparr>))"
  by (simp_all add: dsn_param_def strict_panic_def)

lemma dsn_param_other:
  "key \<notin> set dsn_keys \<Longrightarrow>
     dsn_param env key value cfg = unescaped value (\<lambda>v. Inr (cfg\<lparr>cf_Params := AList.update key v (cf_Params cfg)\<rparr>))"
  by (simp add: dsn_param_def dsn_keys_def)

text \<open>The fields that concern the well-formedness of options.\<close>

lemma bool_param_eq: "bool_param value f = Inr (Inr c) \<longleftrightarrow> (\<exists>b. readBool value = (b, True) \<and> c = f b)"
  by (cases "readBool value") (auto simp: bool_param_def)

lemma duration_param_eq: "duration_param env value f = Inr (Inr c) \<longleftrightarrow> (\<exists>d. de_duration env value = Some d \<and> c = f d)"
  by (auto simp: duration_param_def split: option.splits)

lemma unescaped_eq: "unescaped value f = Inr (Inr c) \<longleftrightarrow> (\<exists>s. QueryUnescape value = Inr s \<and> f s = Inr c)"
  by (auto simp: unescaped_def split: sum.splits)

lemma tls_param_eq:
  assumes "tls_param env value cfg = Inr (Inr c)"
  shows "\<exists>name t. c = cfg\<lparr>cf_TLSConfig := name, cf_tls := t\<rparr> \<and> (name = ''false'' \<and> t = cf_tls cfg \<or>
      name = ''true'' \<and> t = Some \<lparr>tls_ServerName = [], tls_InsecureSkipVerify = False\<rparr> \<or>
      name = ''skip-verify'' \<and> t = Some \<lparr>tls_ServerName = [], tls_InsecureSkipVerify = True\<rparr> \<or>
      t \<noteq> None \<and> de_tls env name = t)"
proof -
  obtain b valid where b: "readBool value = (b, valid)" by fastforce
  consider "valid" "b" | "valid" "\<not> b" | "\<not> valid" "lowered value = ''skip-verify''" | "\<not> valid" "lowered value \<noteq> ''skip-verify''"
    by blast
  then show ?thesis
  proof cases
    case 4
    then have u: "unescaped value (\<lambda>name. case de_tls env name of None \<Rightarrow> Inl (DsnUnknownTLS name)
      | Some t \<Rightarrow> Inr (cfg\<lparr>cf_TLSConfig := name, cf_tls := Some t\<rparr>)) = Inr (Inr c)"
      using assms b by (simp add: tls_param_def)
    then obtain name where "(case de_tls env name of None \<Rightarrow> Inl (DsnUnknownTLS name)
      | Some t \<Rightarrow> Inr (cfg\<lparr>cf_TLSConfig := name, cf_tls := Some t\<rparr>)) = Inr c"
      unfolding unescaped_eq by blast
    then obtain t where "de_tls env name = Some t" "c = cfg\<lparr>cf_TLSConfig := name, cf_tls := Some t\<rparr>"
      by (cases "de_tls env name") auto
    then show ?thesis by (intro exI [of _ name] exI [of _ "Some t"]) simp
  next
    case 1
    then have "c = cfg\<lparr>cf_TLSConfig := ''true'', cf_tls := Some \<lparr>tls_ServerName = [], tls_InsecureSkipVerify = False\<rparr>\<rparr>"
      using assms b by (simp add: tls_param_def)
    then show ?thesis by blast
  next
    case 2
    then have "c = cfg\<lparr>cf_TLSConfig := ''false'', cf_tls := cf_tls cfg\<rparr>"
      using assms b by (cases cfg) (auto simp: tls_param_def)
    then show ?thesis by blast
  next
    case 3
    then have "c = cfg\<lparr>cf_TLSConfig := ''skip-verify'', cf_tls := Some \<lparr>tls_ServerName = [], tls_InsecureSkipVerify = True\<rparr>\<rparr>"
      using assms b by (simp add: tls_param_def)
    then show ?thesis by blast
  qed
qed

lemmas param_eqs = bool_param_eq duration_param_eq unescaped_eq

lemma options_wf_flags [simp]:
  "options_wf env (cfg\<lparr>cf_AllowAllFiles := b\<rparr>) = options_wf env cfg"
  "options_wf env (cfg\<lparr>cf_AllowCleartextPasswords := b\<rparr>) = options_wf env cfg"
  "options_wf env (cfg\<lparr>cf_AllowNativePasswords := b\<rparr>) = options_wf env cfg"
  "options_wf env (cfg\<lparr>cf_AllowOldPasswords := b\<rparr>) = options_wf env cfg"
  "options_wf env (cfg\<lparr>cf_ClientFoundRows := b\<rparr>) = options_wf env cfg"
  "options_wf env (cfg\<lparr>cf_ColumnsWithAlias := b\<rparr>) = options_wf env cfg"
  "options_wf env (cfg\<lparr>cf_InterpolateParams := b\<rparr>) = options_wf env cfg"
  "options_wf env (cfg\<lparr>cf_MultiStatements := b\<rparr>) = options_wf env cfg"
  "options_wf env (cfg\<lparr>cf_ParseTime := b\<rparr>) = options_wf env cfg"
  "options_wf env (cfg\<lparr>cf_RejectReadOnly := b\<rparr>) = options_wf env cfg"
  "options_wf env (cfg\<lparr>cf_Params := ps\<rparr>) = options_wf env cfg"
  "options_wf env (cfg\<lparr>cf_User := s\<rparr>) = options_wf env cfg"
  "options_wf env (cfg\<lparr>cf_Passwd := s\<rparr>) = options_wf env cfg"
  "options_wf env (cfg\<lparr>cf_Net := s\<rparr>) = options_wf env cfg"
  "options_wf env (cfg\<lparr>cf_Addr := s\<rparr>) = options_wf env cfg"
  "options_wf env (cfg\<lparr>cf_DBName := s\<rparr>) = options_wf env cfg"
  by (simp_all add: options_wf_def)

lemma options_wf_fields:
  "options_wf env cfg \<Longrightarrow> clean v \<Longrightarrow> options_wf env (cfg\<lparr>cf_Collation := v\<rparr>)"
  "options_wf env cfg \<Longrightarrow> d < 2 ^ 63 \<Longrightarrow> options_wf env (cfg\<lparr>cf_Timeout := d\<rparr>)"
  "options_wf env cfg \<Longrightarrow> d < 2 ^ 63 \<Longrightarrow> options_wf env (cfg\<lparr>cf_ReadTimeout := d\<rparr>)"
  "options_wf env cfg \<Longrightarrow> d < 2 ^ 63 \<Longrightarrow> options_wf env (cfg\<lparr>cf_WriteTimeout := d\<rparr>)"
  "options_wf env cfg \<Longrightarrow> - (2 ^ 63) \<le> d \<Longrightarrow> d < 2 ^ 63 \<Longrightarrow> options_wf env (cfg\<lparr>cf_MaxAllowedPacket := d\<rparr>)"
  "options_wf env cfg \<Longrightarrow> de_pubKey env n = Some pk \<Longrightarrow> options_wf env (cfg\<lparr>cf_ServerPubKey := n, cf_pubKey := Some pk\<rparr>)"
  "options_wf env cfg \<Longrightarrow> l \<noteq> [] \<Longrightarrow> de_location env l = Some l \<Longrightarrow> options_wf env (cfg\<lparr>cf_Loc := l\<rparr>)"
  unfolding options_wf_def by auto

lemma dsn_param_wf:
  assumes "dsn_param env key value cfg = Inr (Inr c)" "env_ok env" "clean value" "options_wf env cfg"
  shows "options_wf env c"
proof (cases "key \<in> set dsn_keys")
  case False
  then show ?thesis using assms(1,4) by (auto simp: dsn_param_other param_eqs)
next
  case True
  have loc: "de_location env n = Some l \<Longrightarrow> l \<noteq> []" "de_location env n = Some l \<Longrightarrow> de_location env l = Some l" for n l
    using assms(2) unfolding env_ok_def by blast+
  have dur: "de_duration env s = Some d \<Longrightarrow> d < 2 ^ 63" for s d
    using assms(2) unfolding env_ok_def by blast
  show ?thesis
  proof (cases "key = ''tls''")
    case True
    then have "tls_param env value cfg = Inr (Inr c)" using assms(1) by (simp add: dsn_param_simps)
    from tls_param_eq [OF this] obtain name t where c: "c = cfg\<lparr>cf_TLSConfig := name, cf_tls := t\<rparr>"
      and t: "name = ''false'' \<and> t = cf_tls cfg \<or> name = ''true'' \<and> t = Some \<lparr>tls_ServerName = [], tls_InsecureSkipVerify = False\<rparr> \<or>
        name = ''skip-verify'' \<and> t = Some \<lparr>tls_ServerName = [], tls_InsecureSkipVerify = True\<rparr> \<or> t \<noteq> None \<and> de_tls env name = t"
      by blast
    then have "tls_known env name \<and> (name = ''false'' \<or> t = tls_of env name)"
      using env_tls [OF assms(2)] by (auto simp: tls_known_def tls_of_def)
    then show ?thesis using assms(4) unfolding options_wf_def c by auto
  next
    case not_tls: False
    show ?thesis
    proof (cases "key = ''loc''")
      case True
      then obtain n l where "de_location env n = Some l" "c = cfg\<lparr>cf_Loc := l\<rparr>"
        using assms(1) by (auto simp: dsn_param_simps param_eqs split: option.splits)
      with loc [OF this(1)] show ?thesis using assms(4) by (simp add: options_wf_fields)
    next
      case False
      have "key \<in> set (remove1 ''loc'' (remove1 ''tls'' dsn_keys))" using True not_tls False by (simp add: in_set_remove1)
      then show ?thesis
        using assms(1,3,4)
        by (auto simp: dsn_keys_def dsn_param_simps param_eqs split: option.splits
            intro!: options_wf_fields dest!: dur parse_int64_range)
    qed
  qed
qed

text \<open>What a parameter leaves as it is.\<close>

definition same_head :: "'key conn_config \<Rightarrow> 'key conn_config \<Rightarrow> bool" where
  "same_head a b \<longleftrightarrow>
     cf_User a = cf_User b \<and> cf_Passwd a = cf_Passwd b \<and> cf_Net a = cf_Net b \<and> cf_Addr a = cf_Addr b \<and> cf_DBName a = cf_DBName b"

lemma dsn_param_head:
  assumes "dsn_param env key value cfg = Inr (Inr c)"
  shows "same_head c cfg \<and> cf_Params c = (if key \<in> set dsn_keys then cf_Params cfg else cf_Params c) \<and>
    (key \<notin> set dsn_keys \<longrightarrow> (\<exists>v. QueryUnescape value = Inr v \<and> cf_Params c = AList.update key v (cf_Params cfg)))"
proof (cases "key \<in> set dsn_keys")
  case False
  then show ?thesis using assms by (auto simp: dsn_param_other param_eqs same_head_def)
next
  case True
  have "same_head c cfg \<and> cf_Params c = cf_Params cfg"
  proof (cases "key = ''tls''")
    case True
    then have "tls_param env value cfg = Inr (Inr c)" using assms by (simp add: dsn_param_simps)
    from tls_param_eq [OF this] show ?thesis by (auto simp: same_head_def)
  next
    case False
    then have "key \<in> set (remove1 ''tls'' dsn_keys)" using True by (simp add: in_set_remove1)
    then show ?thesis
      using assms by (auto simp: dsn_keys_def dsn_param_simps param_eqs same_head_def split: option.splits)
  qed
  with True show ?thesis by simp
qed

lemma split_on_pieces: "p \<in> set (split_on c s) \<Longrightarrow> c \<notin> set p \<and> set p \<subseteq> set s"
  by (induction s arbitrary: p) (auto split: list.splits if_splits, (metis list.set_intros set_ConsD subsetD insertE)+)

lemma params_wf_update:
  assumes "params_wf ps" "clean k" "CHR ''='' \<notin> set k" "k \<notin> set dsn_keys"
  shows "params_wf (AList.update k v ps)"
  using assms by (auto simp: params_wf_def distinct_update dom_update)

lemma dsn_params_wf:
  assumes "env_ok env"
  shows "dsn_params env vs cfg = Inr (Inr c) \<Longrightarrow> \<forall>v \<in> set vs. clean v \<Longrightarrow> options_wf env cfg \<Longrightarrow> params_wf (cf_Params cfg) \<Longrightarrow>
    options_wf env c \<and> params_wf (cf_Params c) \<and> same_head c cfg"
proof (induction vs arbitrary: cfg)
  case Nil
  then show ?case by (simp add: same_head_def)
next
  case (Cons v vs)
  show ?case
  proof (cases "cut_at CHR ''='' v")
    case None
    then show ?thesis using Cons by simp
  next
    case (Some kv)
    obtain k x where kv: "kv = (k, x)" by fastforce
    have v: "v = k @ CHR ''='' # x" "CHR ''='' \<notin> set k" using Some kv by (auto simp: cut_at_Some)
    then have kx: "clean k" "clean x" using Cons.prems(2) by (auto simp: clean_def)
    obtain d where d: "dsn_param env k x cfg = Inr (Inr d)" "dsn_params env vs d = Inr (Inr c)"
      using Cons.prems(1) Some kv by (auto simp: or_fail_eq)
    have "options_wf env d" by (rule dsn_param_wf [OF d(1) assms kx(2) Cons.prems(3)])
    moreover have "params_wf (cf_Params d)"
      using dsn_param_head [OF d(1)] params_wf_update [OF Cons.prems(4) kx(1) v(2)] Cons.prems(4) by (cases "k \<in> set dsn_keys") auto
    ultimately have "options_wf env c \<and> params_wf (cf_Params c) \<and> same_head c d"
      using Cons.IH [OF d(2)] Cons.prems(2) by simp
    then show ?thesis using dsn_param_head [OF d(1)] by (simp add: same_head_def)
  qed
qed

subsection \<open>Configurations from texts\<close>

definition parts_wf :: "'key conn_config \<Rightarrow> bool" where
  "parts_wf cfg \<longleftrightarrow>
     CHR '':'' \<notin> set (cf_User cfg) \<and> CHR ''@'' \<notin> set (cf_Net cfg) \<and> CHR ''('' \<notin> set (cf_Net cfg) \<and>
     CHR ''@'' \<notin> set (cf_Addr cfg)"

lemma same_head_parts: "same_head a b \<Longrightarrow> parts_wf a = parts_wf b"
  by (simp add: same_head_def parts_wf_def)

lemma new_options: "env_ok env \<Longrightarrow> options_wf env NewConfig" "params_wf (cf_Params NewConfig)" "parts_wf NewConfig"
proof -
  have "clean defaultCollation" by (simp add: clean_def defaultCollation_def)
  then show "env_ok env \<Longrightarrow> options_wf env NewConfig"
    using env_tls [of env "[]"]
    by (cases "de_tls env []") (auto simp: options_wf_def NewConfig_def env_ok_def defaultMaxAllowedPacket_def tls_known_def tls_of_def)
qed (simp_all add: params_wf_def parts_wf_def NewConfig_def)

text \<open>The options and parameters are not touched by what stands before the database.\<close>

definition same_options :: "'key conn_config \<Rightarrow> 'key conn_config \<Rightarrow> bool" where
  "same_options a b \<longleftrightarrow> (\<exists>u p n h. a = b\<lparr>cf_User := u, cf_Passwd := p, cf_Net := n, cf_Addr := h\<rparr>)"

lemma same_options_wf:
  "same_options a b \<Longrightarrow> options_wf env a = options_wf env b" "same_options a b \<Longrightarrow> cf_Params a = cf_Params b"
  by (auto simp: same_options_def options_wf_def)

lemma take_part_notin: "c \<notin> set (drop lo s) \<Longrightarrow> c \<notin> set (take n (drop k s))" if "lo \<le> k"
proof -
  have "set (take n (drop k s)) \<subseteq> set (drop lo s)"
    using that by (metis order_trans set_drop_subset_set_drop set_take_subset)
  then show "c \<notin> set (drop lo s) \<Longrightarrow> c \<notin> set (take n (drop k s))" by blast
qed

lemma dsn_user_wf:
  assumes "dsn_user dsn i NewConfig = Inr (lo, c)" "i < length dsn" "dsn ! i = CHR ''/''"
  shows "\<exists>u p. c = NewConfig\<lparr>cf_User := u, cf_Passwd := p\<rparr> \<and> CHR '':'' \<notin> set u \<and> CHR ''@'' \<notin> set (drop lo (take i dsn))"
proof (cases "last_index CHR ''@'' (take (i + 1) dsn)")
  case None
  then have "CHR ''@'' \<notin> set (take i dsn)" by (auto simp: last_index_None dest: in_set_takeD) (metis (no_types) set_take_subset_set_take subsetD le_SucI order_refl)
  moreover have "c = NewConfig" "lo = 0" using assms(1) None by (auto simp: dsn_user_def)
  ultimately show ?thesis
    by (intro exI [of _ "cf_User NewConfig"] exI [of _ "cf_Passwd NewConfig"]) (simp add: NewConfig_def)
next
  case (Some j)
  let ?k = "first_index CHR '':'' dsn 0 j"
  have j: "j \<le> i" "CHR ''@'' \<notin> set (drop (Suc j) (take (i + 1) dsn))" using last_index_SomeD [OF Some] assms(2) by auto
  have k: "?k \<le> j" using first_index_bounds [of 0 j dsn] j assms(2) by simp
  have u: "CHR '':'' \<notin> set (take ?k dsn)" using first_index_before [of 0 j dsn "CHR '':''"] j assms(2) by simp
  obtain p where c: "c = NewConfig\<lparr>cf_User := take ?k dsn, cf_Passwd := p\<rparr>" "lo = j + 1"
    using assms(1) Some k by (auto simp: dsn_user_def Let_def go_eq_Inr NewConfig_def split: if_splits)
  have "CHR ''@'' \<notin> set (drop (j + 1) (take i dsn))"
    using j(2) by (metis (no_types, lifting) Suc_eq_plus1 drop_take in_set_takeD take_take min_def diff_le_mono le_add1)
  then show ?thesis using c u by blast
qed

lemma dsn_address_wf:
  assumes "dsn_address dsn lo i cfg = Inr (Inr c)" "lo \<le> i" "i < length dsn" "CHR ''@'' \<notin> set (drop lo (take i dsn))"
    and "CHR ''@'' \<notin> set (cf_Addr cfg)"
  shows "\<exists>n h. c = cfg\<lparr>cf_Net := n, cf_Addr := h\<rparr> \<and> CHR ''@'' \<notin> set n \<and> CHR ''('' \<notin> set n \<and> CHR ''@'' \<notin> set h"
proof -
  let ?k = "first_index CHR ''('' dsn lo i"
  have k: "lo \<le> ?k" "?k \<le> i" using first_index_bounds [of lo i dsn] assms(2,3) by simp_all
  have n: "CHR ''('' \<notin> set (take (?k - lo) (drop lo dsn))"
    using first_index_before [of lo i dsn] assms(2,3) by simp
  have at: "CHR ''@'' \<notin> set (take (b - a) (drop a dsn))" if "lo \<le> a" "b \<le> i" for a b
  proof -
    have "take (b - a) (drop a dsn) = drop (a - lo) (take (b - lo) (drop lo dsn))"
      using that by (simp add: drop_take)
    moreover have "set (take (b - lo) (drop lo dsn)) \<subseteq> set (drop lo (take i dsn))"
      using that by (simp add: drop_take set_take_subset_set_take)
    ultimately show ?thesis using assms(4) by (metis in_set_dropD subsetD)
  qed
  show ?thesis
  proof (cases "?k < i")
    case False
    then have "c = cfg\<lparr>cf_Net := take (?k - lo) (drop lo dsn), cf_Addr := cf_Addr cfg\<rparr>"
      using assms(1,3) k by (cases cfg) (auto simp: dsn_address_def Let_def)
    then show ?thesis using n at [of lo ?k] k assms(5) by blast
  next
    case True
    have i: "dsn ! (i - 1) = CHR '')''" "?k + 1 \<le> i - 1"
      using assms(1,3) True by (auto simp: dsn_address_def Let_def or_fail_eq go_eq_Inr split: if_splits)
    then have "c = cfg\<lparr>cf_Net := take (?k - lo) (drop lo dsn), cf_Addr := take (i - 1 - (?k + 1)) (drop (?k + 1) dsn)\<rparr>"
      using assms(1,3) True k by (cases cfg) (auto simp: dsn_address_def Let_def)
    moreover have "CHR ''@'' \<notin> set (take (?k - lo) (drop lo dsn))" by (rule at) (use k in auto)
    moreover have "CHR ''@'' \<notin> set (take (i - 1 - (?k + 1)) (drop (?k + 1) dsn))" by (rule at) (use k in auto)
    ultimately show ?thesis using n by blast
  qed
qed

lemma dsn_database_wf:
  assumes "dsn_database env dsn i cfg = Inr (Inr c)" "i < length dsn" "CHR ''/'' \<notin> set (drop (i + 1) dsn)"
    and "env_ok env" "options_wf env cfg" "params_wf (cf_Params cfg)" "parts_wf cfg"
  shows "options_wf env c \<and> params_wf (cf_Params c) \<and> parts_wf c \<and> CHR ''/'' \<notin> set (cf_DBName c) \<and> CHR ''?'' \<notin> set (cf_DBName c)"
proof -
  let ?j = "first_index CHR ''?'' dsn (i + 1) (length dsn)"
  have j: "i + 1 \<le> ?j" "?j \<le> length dsn" using first_index_bounds [of "i + 1" "length dsn" dsn] assms(2) by simp_all
  let ?d = "take (?j - (i + 1)) (drop (i + 1) dsn)"
  have d: "CHR ''?'' \<notin> set ?d" "CHR ''/'' \<notin> set ?d"
    using first_index_before [of "i + 1" "length dsn" dsn] assms(2,3) by (auto dest: in_set_takeD)
  have "\<exists>b. options_wf env b \<and> params_wf (cf_Params b) \<and> parts_wf b \<and> c = b\<lparr>cf_DBName := ?d\<rparr>"
  proof (cases "?j < length dsn")
    case False
    then have "c = cfg\<lparr>cf_DBName := ?d\<rparr>" using assms(1) j by (simp add: dsn_database_def Let_def)
    then show ?thesis using assms(5-7) by blast
  next
    case True
    then obtain b where b: "parseDSNParams env cfg (drop (?j + 1) dsn) = Inr (Inr b)" "c = b\<lparr>cf_DBName := ?d\<rparr>"
      using assms(1) j by (auto simp: dsn_database_def Let_def or_fail_eq)
    have "\<forall>v \<in> set (split_on CHR ''&'' (drop (?j + 1) dsn)). clean v"
    proof
      fix v assume v: "v \<in> set (split_on CHR ''&'' (drop (?j + 1) dsn))"
      have "CHR ''/'' \<notin> set (drop (?j + 1) dsn)"
        using assms(3) j(1) by (meson le_SucI order_trans set_drop_subset_set_drop subsetD le_add1)
      then show "clean v" using split_on_pieces [OF v] by (auto simp: clean_def)
    qed
    then have "options_wf env b \<and> params_wf (cf_Params b) \<and> same_head b cfg"
      using dsn_params_wf [OF assms(4) b(1) [unfolded parseDSNParams_def]] assms(5,6) by blast
    then show ?thesis using b(2) assms(7) same_head_parts by blast
  qed
  then show ?thesis using d by (auto simp: options_wf_def parts_wf_def)
qed

text \<open>What \<open>ParseDSN\<close> returns, before the defaults are filled in.\<close>

lemma dsn_parts_wf:
  assumes "dsn_parts env dsn = Inr (Inr c)" "env_ok env"
  shows "options_wf env c \<and> params_wf (cf_Params c) \<and> parts_wf c \<and> CHR ''/'' \<notin> set (cf_DBName c) \<and> CHR ''?'' \<notin> set (cf_DBName c)"
proof (cases "last_index CHR ''/'' dsn")
  case None
  have c: "c = NewConfig" using assms(1) None by (auto simp: dsn_parts_def split: if_splits)
  have "cf_DBName c = []" "options_wf env c" "params_wf (cf_Params c)" "parts_wf c"
    unfolding c by (simp add: NewConfig_def) (rule new_options(1) [OF assms(2)] new_options(2) new_options(3))+
  then show ?thesis by simp
next
  case (Some i)
  note i = last_index_SomeD [OF Some]
  obtain cfg where cfg: "(if 0 < i then go_bind (dsn_user dsn i NewConfig) (\<lambda>(lo, cfg). dsn_address dsn lo i cfg)
      else Inr (Inr NewConfig)) = Inr (Inr cfg)" "dsn_database env dsn i cfg = Inr (Inr c)"
    using assms(1) Some unfolding dsn_parts_def by (auto simp: or_fail_eq)
  have head: "\<exists>u p n h. cfg = NewConfig\<lparr>cf_User := u, cf_Passwd := p, cf_Net := n, cf_Addr := h\<rparr> \<and>
    CHR '':'' \<notin> set u \<and> CHR ''@'' \<notin> set n \<and> CHR ''('' \<notin> set n \<and> CHR ''@'' \<notin> set h"
  proof (cases "0 < i")
    case True
    then obtain lo a where u: "dsn_user dsn i NewConfig = Inr (lo, a)" "dsn_address dsn lo i a = Inr (Inr cfg)"
      using cfg(1) by (auto simp: go_bind_eq_Inr)
    have lo: "lo \<le> i" using dsn_user_at [OF _ _ u(1)] i by blast
    obtain us p where a: "a = NewConfig\<lparr>cf_User := us, cf_Passwd := p\<rparr>" "CHR '':'' \<notin> set us" "CHR ''@'' \<notin> set (drop lo (take i dsn))"
      using dsn_user_wf [OF u(1)] i by blast
    have "CHR ''@'' \<notin> set (cf_Addr a)" by (simp add: a(1) NewConfig_def)
    from dsn_address_wf [OF u(2) lo _ a(3) this] i show ?thesis using a(1,2) by auto
  next
    case False
    then have "cfg = NewConfig" using cfg(1) by simp
    then show ?thesis
      by (intro exI [of _ "[]"]) (simp add: NewConfig_def)
  qed
  have "options_wf env cfg" using head new_options(1) [OF assms(2)] by auto
  moreover have "params_wf (cf_Params cfg)" "parts_wf cfg" using head by (auto simp: params_wf_def parts_wf_def NewConfig_def)
  ultimately show ?thesis using dsn_database_wf [OF cfg(2)] i assms(2) by simp
qed

end
