(* ===== verification/DsnRoundTrip.thy ===== *)
theory DsnRoundTrip
  imports DsnParsed
begin

text \<open>What \<open>FormatDSN\<close> prints of a configuration that \<open>ParseDSN\<close> returned is parsed to the same again.\<close>

subsection \<open>Parameters\<close>

fun param_text :: "string \<times> string \<Rightarrow> string" where
  "param_text (k, v) = k @ ''='' @ v"

fun run_pairs :: "'key dsn_env \<Rightarrow> (string \<times> string) list \<Rightarrow> 'key conn_config \<Rightarrow> (dsn_error + 'key conn_config) go" where
  "run_pairs env [] c = Inr (Inr c)"
| "run_pairs env ((k, v) # ps) c = or_fail (dsn_param env k v c) (run_pairs env ps)"

lemma dsn_params_pairs: "\<forall>q \<in> set ps. CHR ''='' \<notin> set (fst q) \<Longrightarrow> dsn_params env (map param_text ps) c = run_pairs env ps c"
proof (induction ps arbitrary: c)
  case (Cons q ps)
  obtain k v where q: "q = (k, v)" by fastforce
  then have "cut_at CHR ''='' (param_text q) = Some (k, v)" using Cons.prems by (simp add: cut_at_Some)
  moreover have "dsn_params env (map param_text ps) = run_pairs env ps" using Cons by (intro ext) simp
  ultimately show ?case using q by simp
qed simp

lemma split_params:
  "\<forall>q \<in> set (p # ps). CHR ''&'' \<notin> set (param_text q) \<Longrightarrow>
     split_on CHR ''&'' (param_text p @ write_params True ps) = map param_text (p # ps)"
proof (induction ps arbitrary: p)
  case Nil
  then show ?case by (simp add: split_on_clean)
next
  case (Cons q ps)
  obtain k v where "q = (k, v)" by fastforce
  then have "write_params True (q # ps) = CHR ''&'' # param_text q @ write_params True ps" by simp
  then show ?case using Cons split_on_append [of "CHR ''&''" "param_text p"] by simp
qed

definition clean_pair :: "string \<times> string \<Rightarrow> bool" where
  "clean_pair q \<longleftrightarrow> clean (fst q) \<and> CHR ''='' \<notin> set (fst q) \<and> clean (snd q)"

lemma clean_pair_text: "clean_pair q \<Longrightarrow> clean (param_text q)"
  by (cases q) (auto simp: clean_pair_def clean_def)

lemma write_params_slash: "\<forall>q \<in> set ps. clean_pair q \<Longrightarrow> CHR ''/'' \<notin> set (write_params b ps)"
  by (induction b ps rule: write_params.induct) (auto simp: clean_pair_def clean_def)

lemma dsn_database_back:
  assumes "dsn = pre @ ''/'' @ db @ write_params False ps" "CHR ''?'' \<notin> set db" "\<forall>q \<in> set ps. clean_pair q"
  shows "dsn_database env dsn (length pre) c = or_fail (run_pairs env ps c) (\<lambda>c. Inr (Inr (c\<lparr>cf_DBName := db\<rparr>)))"
proof (cases ps)
  case Nil
  have "first_index CHR ''?'' dsn (length pre + 1) (length dsn) = length dsn"
    using first_index_none [OF assms(2), of "pre @ ''/''" "[]"] assms(1) Nil by simp
  then show ?thesis using assms(1) Nil by (simp add: dsn_database_def Let_def)
next
  case (Cons p qs)
  obtain k v where p: "p = (k, v)" by fastforce
  define d where "d = param_text p @ write_params True qs"
  have w: "write_params False ps = CHR ''?'' # d" using Cons p by (simp add: d_def)
  then have dsn: "dsn = (pre @ ''/'') @ db @ CHR ''?'' # d @ []" using assms(1) by simp
  have j: "first_index CHR ''?'' dsn (length pre + 1) (length dsn) = length pre + 1 + length db"
    using first_index_found [OF assms(2), of "pre @ ''/''" d "[]"] unfolding dsn by (simp add: add.assoc)
  have split: "split_on CHR ''&'' d = map param_text ps"
    using split_params [of p qs] assms(3) clean_pair_text Cons by (auto simp: clean_def d_def)
  have run: "dsn_params env (map param_text ps) c = run_pairs env ps c"
    by (rule dsn_params_pairs) (use assms(3) in \<open>auto simp: clean_pair_def\<close>)
  have "drop (length pre + 1 + length db + 1) dsn = d" "length pre + 1 + length db < length dsn"
    "take (length db) (drop (length pre + 1) dsn) = db"
    unfolding dsn by simp_all
  then show ?thesis using split run j by (simp add: dsn_database_def Let_def parseDSNParams_def)
qed

subsection \<open>What stands before the database\<close>

lemma dsn_address_back:
  assumes "dsn = a @ net @ ''('' @ addr @ '')'' @ ''/'' @ rest" "CHR ''('' \<notin> set net"
  shows "dsn_address dsn (length a) (length a + length net + length addr + 2) c = Inr (Inr (c\<lparr>cf_Addr := addr, cf_Net := net\<rparr>))"
proof -
  have k: "first_index CHR ''('' dsn (length a) (length a + length net + length addr + 2) = length a + length net"
    using first_index_found [OF assms(2), of a "addr @ '')''" "''/'' @ rest"] assms(1) by simp
  have "dsn ! (length a + length net + length addr + 2 - 1) = CHR '')''"
    "take (length addr) (drop (length a + length net + 1) dsn) = addr" "take (length net) (drop (length a) dsn) = net"
    "length a + length net + length addr + 2 < length dsn"
    using assms(1) by (simp_all add: nth_append)
  then show ?thesis using k by (simp add: dsn_address_def Let_def)
qed

definition user_text :: "string \<Rightarrow> string \<Rightarrow> string" where
  "user_text u p = (if u \<noteq> [] then u @ (if p \<noteq> [] then '':'' @ p else []) @ ''@'' else [])"

lemma dsn_user_back:
  assumes "dsn = user_text u p @ b @ ''/'' @ rest" "CHR ''@'' \<notin> set b" "CHR '':'' \<notin> set u" "u = [] \<longrightarrow> p = []"
  shows "dsn_user dsn (length (user_text u p) + length b) NewConfig = Inr (length (user_text u p), NewConfig\<lparr>cf_User := u, cf_Passwd := p\<rparr>)"
proof (cases "u = []")
  case True
  then have "last_index CHR ''@'' (take (length b + 1) dsn) = None"
    using assms(1,2) by (simp add: last_index_None user_text_def)
  then show ?thesis using True assms(4) by (simp add: dsn_user_def user_text_def NewConfig_def)
next
  case False
  let ?q = "if p \<noteq> [] then '':'' @ p else []"
  have t: "user_text u p = (u @ ?q) @ ''@''" using False by (simp add: user_text_def)
  have "take (length (user_text u p) + length b + 1) dsn = (u @ ?q) @ CHR ''@'' # (b @ ''/'')"
    using assms(1) t by simp
  then have j: "last_index CHR ''@'' (take (length (user_text u p) + length b + 1) dsn) = Some (length (u @ ?q))"
    using last_index_append [of "CHR ''@''" "b @ ''/''" "u @ ?q"] assms(2) by simp
  show ?thesis
  proof (cases "p = []")
    case True
    have "first_index CHR '':'' dsn 0 (length u) = length u"
      using first_index_none [OF assms(3), of "[]"] assms(1) t by simp
    then show ?thesis using j True assms(1) t by (simp add: dsn_user_def NewConfig_def)
  next
    case pw: False
    have "first_index CHR '':'' dsn 0 (length u + Suc (length p)) = length u"
      using first_index_found [OF assms(3), of "[]" p] assms(1) t pw by simp
    then show ?thesis using j pw assms(1) t by (simp add: dsn_user_def NewConfig_def)
  qed
qed

subsection \<open>Options\<close>

lemma run_shown:
  assumes "b \<Longrightarrow> dsn_param env k v c = Inr (Inr c')" "\<not> b \<Longrightarrow> c' = c"
  shows "run_pairs env (shown b k v @ ps) c = run_pairs env ps c'"
  using assms by (cases b) (simp_all add: shown_def)

lemma bool_words: "readBool ''true'' = (True, True)" "readBool ''false'' = (False, True)"
  by (simp_all add: readBool_def)

lemma run_flags:
  "run_pairs env (shown b ''allowAllFiles'' ''true'' @ ps) c = run_pairs env ps (c\<lparr>cf_AllowAllFiles := b \<or> cf_AllowAllFiles c\<rparr>)"
  "run_pairs env (shown b ''allowCleartextPasswords'' ''true'' @ ps) c = run_pairs env ps (c\<lparr>cf_AllowCleartextPasswords := b \<or> cf_AllowCleartextPasswords c\<rparr>)"
  "run_pairs env (shown b ''allowOldPasswords'' ''true'' @ ps) c = run_pairs env ps (c\<lparr>cf_AllowOldPasswords := b \<or> cf_AllowOldPasswords c\<rparr>)"
  "run_pairs env (shown b ''clientFoundRows'' ''true'' @ ps) c = run_pairs env ps (c\<lparr>cf_ClientFoundRows := b \<or> cf_ClientFoundRows c\<rparr>)"
  "run_pairs env (shown b ''columnsWithAlias'' ''true'' @ ps) c = run_pairs env ps (c\<lparr>cf_ColumnsWithAlias := b \<or> cf_ColumnsWithAlias c\<rparr>)"
  "run_pairs env (shown b ''interpolateParams'' ''true'' @ ps) c = run_pairs env ps (c\<lparr>cf_InterpolateParams := b \<or> cf_InterpolateParams c\<rparr>)"
  "run_pairs env (shown b ''multiStatements'' ''true'' @ ps) c = run_pairs env ps (c\<lparr>cf_MultiStatements := b \<or> cf_MultiStatements c\<rparr>)"
  "run_pairs env (shown b ''parseTime'' ''true'' @ ps) c = run_pairs env ps (c\<lparr>cf_ParseTime := b \<or> cf_ParseTime c\<rparr>)"
  "run_pairs env (shown b ''rejectReadOnly'' ''true'' @ ps) c = run_pairs env ps (c\<lparr>cf_RejectReadOnly := b \<or> cf_RejectReadOnly c\<rparr>)"
  "run_pairs env (shown b ''allowNativePasswords'' ''false'' @ ps) c =
     run_pairs env ps (c\<lparr>cf_AllowNativePasswords := \<not> b \<and> cf_AllowNativePasswords c\<rparr>)"
  by (rule run_shown; cases c; simp add: dsn_param_simps bool_param_def bool_words)+

lemma run_collation:
  "run_pairs env (shown b ''collation'' v @ ps) c = run_pairs env ps (c\<lparr>cf_Collation := if b then v else cf_Collation c\<rparr>)"
  by (rule run_shown; cases c; simp add: dsn_param_simps)

lemma run_number:
  assumes "- (2 ^ 63) \<le> n" "n < 2 ^ 63"
  shows "run_pairs env (shown b ''maxAllowedPacket'' (strconv_Itoa n) @ ps) c =
    run_pairs env ps (c\<lparr>cf_MaxAllowedPacket := if b then n else cf_MaxAllowedPacket c\<rparr>)"
  by (rule run_shown; cases c; simp add: dsn_param_simps parse_int64_Itoa [OF assms])

lemma run_duration:
  assumes "env_ok env" "d < 2 ^ 63"
  shows "run_pairs env (shown (0 < d) ''timeout'' (de_duration_text env d) @ ps) c =
      run_pairs env ps (c\<lparr>cf_Timeout := if 0 < d then d else cf_Timeout c\<rparr>)"
    "run_pairs env (shown (0 < d) ''readTimeout'' (de_duration_text env d) @ ps) c =
      run_pairs env ps (c\<lparr>cf_ReadTimeout := if 0 < d then d else cf_ReadTimeout c\<rparr>)"
    "run_pairs env (shown (0 < d) ''writeTimeout'' (de_duration_text env d) @ ps) c =
      run_pairs env ps (c\<lparr>cf_WriteTimeout := if 0 < d then d else cf_WriteTimeout c\<rparr>)"
proof -
  have dur: "0 < d \<Longrightarrow> de_duration env (de_duration_text env d) = Some d" using assms unfolding env_ok_def by blast
  show "run_pairs env (shown (0 < d) ''timeout'' (de_duration_text env d) @ ps) c =
      run_pairs env ps (c\<lparr>cf_Timeout := if 0 < d then d else cf_Timeout c\<rparr>)"
    "run_pairs env (shown (0 < d) ''readTimeout'' (de_duration_text env d) @ ps) c =
      run_pairs env ps (c\<lparr>cf_ReadTimeout := if 0 < d then d else cf_ReadTimeout c\<rparr>)"
    "run_pairs env (shown (0 < d) ''writeTimeout'' (de_duration_text env d) @ ps) c =
      run_pairs env ps (c\<lparr>cf_WriteTimeout := if 0 < d then d else cf_WriteTimeout c\<rparr>)"
    by (rule run_shown; cases c; simp add: dsn_param_simps duration_param_def dur)+
qed

lemma run_location:
  assumes "de_location env l = Some l"
  shows "run_pairs env (shown b ''loc'' (QueryEscape l) @ ps) c = run_pairs env ps (c\<lparr>cf_Loc := if b then l else cf_Loc c\<rparr>)"
  by (rule run_shown; cases c; simp add: dsn_param_simps unescaped_def QueryUnescape_escape assms)

lemma run_key:
  assumes "n = [] \<or> de_pubKey env n \<noteq> None"
  shows "run_pairs env (shown (n \<noteq> []) ''serverPubKey'' (QueryEscape n) @ ps) c =
    run_pairs env ps (c\<lparr>cf_ServerPubKey := if n \<noteq> [] then n else cf_ServerPubKey c, cf_pubKey := if n \<noteq> [] then de_pubKey env n else cf_pubKey c\<rparr>)"
  by (rule run_shown; use assms in \<open>cases c; auto simp: dsn_param_simps unescaped_def QueryUnescape_escape\<close>)

lemma run_tls:
  assumes "env_ok env" "tls_known env n"
  shows "run_pairs env (shown (n \<noteq> []) ''tls'' (QueryEscape n) @ ps) c =
    run_pairs env ps (c\<lparr>cf_TLSConfig := if n \<noteq> [] then n else cf_TLSConfig c, cf_tls := if n = [] \<or> n = ''false'' then cf_tls c else tls_of env n\<rparr>)"
proof (rule run_shown)
  assume n: "n \<noteq> []"
  have esc: "QueryEscape ''true'' = ''true''" "QueryEscape ''false'' = ''false''" "QueryEscape ''skip-verify'' = ''skip-verify''"
    "lowered ''skip-verify'' = ''skip-verify''" "readBool ''skip-verify'' = (False, False)"
    by code_simp+
  consider "n = ''true''" | "n = ''false''" | "n = ''skip-verify''" | t where "de_tls env n = Some t"
    using assms(2) n by (auto simp: tls_known_def)
  then show "dsn_param env ''tls'' (QueryEscape n) c =
    Inr (Inr (c\<lparr>cf_TLSConfig := if n \<noteq> [] then n else cf_TLSConfig c, cf_tls := if n = [] \<or> n = ''false'' then cf_tls c else tls_of env n\<rparr>))"
  proof cases
    case 4
    have "\<not> snd (readBool n)" "lowered n \<noteq> ''skip-verify''" using assms(1) 4 unfolding env_ok_def by auto
    then have "\<not> snd (readBool (QueryEscape n))" "lowered (QueryEscape n) \<noteq> ''skip-verify''"
      using readBool_escape lowered_escape by blast+
    then show ?thesis
      using 4 n env_tls [OF assms(1) 4] by (simp add: dsn_param_simps tls_param_def case_prod_unfold unescaped_def QueryUnescape_escape tls_of_def)
  qed (cases c; simp add: dsn_param_simps tls_param_def esc bool_words tls_of_def)+
qed (cases c; simp)

text \<open>The options of \<open>cfg\<close>, read into a new configuration.\<close>

lemma options_back:
  assumes "env_ok env" "options_wf env cfg" "cf_Collation cfg \<noteq> []"
    and "0 \<le> cf_Timeout cfg" "0 \<le> cf_ReadTimeout cfg" "0 \<le> cf_WriteTimeout cfg" "cf_TLSConfig cfg = ''false'' \<longrightarrow> cf_tls cfg = None"
  shows "run_pairs env (option_pairs env cfg @ ps) (NewConfig\<lparr>cf_User := u, cf_Passwd := p, cf_Addr := h, cf_Net := n\<rparr>) =
    run_pairs env ps (cfg\<lparr>cf_User := u, cf_Passwd := p, cf_Addr := h, cf_Net := n, cf_DBName := [], cf_Params := []\<rparr>)"
proof -
  have wf: "- (2 ^ 63) \<le> cf_MaxAllowedPacket cfg" "cf_MaxAllowedPacket cfg < 2 ^ 63"
    "cf_Loc cfg \<noteq> []" "de_location env (cf_Loc cfg) = Some (cf_Loc cfg)"
    "cf_Timeout cfg < 2 ^ 63" "cf_ReadTimeout cfg < 2 ^ 63" "cf_WriteTimeout cfg < 2 ^ 63"
    "cf_pubKey cfg = de_pubKey env (cf_ServerPubKey cfg)" "cf_ServerPubKey cfg = [] \<or> cf_pubKey cfg \<noteq> None"
    "tls_known env (cf_TLSConfig cfg)" "cf_TLSConfig cfg = ''false'' \<or> cf_tls cfg = tls_of env (cf_TLSConfig cfg)"
    using assms(2) unfolding options_wf_def by blast+
  have key: "cf_ServerPubKey cfg = [] \<or> de_pubKey env (cf_ServerPubKey cfg) \<noteq> None" using wf(8,9) by simp
  have none: "cf_ServerPubKey cfg = [] \<Longrightarrow> cf_pubKey cfg = None" using wf(8) assms(1) by (simp add: env_ok_def)
  have tls_none: "cf_TLSConfig cfg = [] \<Longrightarrow> cf_tls cfg = None"
    using wf(11) env_tls [OF assms(1), of "[]"] by (cases "de_tls env []") (auto simp: tls_of_def)
  have tls: "cf_TLSConfig cfg \<noteq> ''false'' \<Longrightarrow> tls_of env (cf_TLSConfig cfg) = cf_tls cfg"
    using wf(11) by auto
  let ?c = "\<lparr>cf_User = u, cf_Passwd = p, cf_Net = n, cf_Addr = h, cf_DBName = [], cf_Params = [],
      cf_Collation = if cf_Collation cfg \<noteq> defaultCollation \<and> cf_Collation cfg \<noteq> [] then cf_Collation cfg else defaultCollation,
      cf_Loc = if cf_Loc cfg \<noteq> ''UTC'' \<and> cf_Loc cfg \<noteq> [] then cf_Loc cfg else ''UTC'',
      cf_MaxAllowedPacket =
        if cf_MaxAllowedPacket cfg \<noteq> defaultMaxAllowedPacket then cf_MaxAllowedPacket cfg else defaultMaxAllowedPacket,
      cf_ServerPubKey = if cf_ServerPubKey cfg \<noteq> [] then cf_ServerPubKey cfg else [],
      cf_pubKey = if cf_ServerPubKey cfg \<noteq> [] then de_pubKey env (cf_ServerPubKey cfg) else None,
      cf_TLSConfig = if cf_TLSConfig cfg \<noteq> [] then cf_TLSConfig cfg else [],
      cf_tls = if cf_TLSConfig cfg = [] \<or> cf_TLSConfig cfg = ''false'' then None else tls_of env (cf_TLSConfig cfg),
      cf_Timeout = if 0 < cf_Timeout cfg then cf_Timeout cfg else 0,
      cf_ReadTimeout = if 0 < cf_ReadTimeout cfg then cf_ReadTimeout cfg else 0,
      cf_WriteTimeout = if 0 < cf_WriteTimeout cfg then cf_WriteTimeout cfg else 0,
      cf_AllowAllFiles = cf_AllowAllFiles cfg, cf_AllowCleartextPasswords = cf_AllowCleartextPasswords cfg,
      cf_AllowNativePasswords = cf_AllowNativePasswords cfg, cf_AllowOldPasswords = cf_AllowOldPasswords cfg,
      cf_ClientFoundRows = cf_ClientFoundRows cfg, cf_ColumnsWithAlias = cf_ColumnsWithAlias cfg,
      cf_InterpolateParams = cf_InterpolateParams cfg, cf_MultiStatements = cf_MultiStatements cfg,
      cf_ParseTime = cf_ParseTime cfg, cf_RejectReadOnly = cf_RejectReadOnly cfg\<rparr>"
  have "run_pairs env (option_pairs env cfg @ ps) (NewConfig\<lparr>cf_User := u, cf_Passwd := p, cf_Addr := h, cf_Net := n\<rparr>) =
      run_pairs env ps ?c"
    by (simp add: option_pairs_def NewConfig_def run_flags run_collation run_number [OF wf(1,2)] run_duration(1) [OF assms(1) wf(5)]
      run_duration(2) [OF assms(1) wf(6)] run_duration(3) [OF assms(1) wf(7)] run_location [OF wf(4)] run_key [OF key]
      run_tls [OF assms(1) wf(10)])
  also have "?c = cfg\<lparr>cf_User := u, cf_Passwd := p, cf_Addr := h, cf_Net := n, cf_DBName := [], cf_Params := []\<rparr>"
    by (rule conn_config.equality; use assms(3-7) wf(3,8) none tls_none tls in simp)
  finally show ?thesis .
qed

lemma option_pairs_clean:
  assumes "env_ok env" "options_wf env cfg"
  shows "\<forall>q \<in> set (option_pairs env cfg). clean_pair q"
proof -
  have dur: "clean (de_duration_text env d)" if "0 < d" "d < 2 ^ 63" for d
    using assms(1) that unfolding env_ok_def by blast
  have c: "clean (cf_Collation cfg)" "cf_Timeout cfg < 2 ^ 63" "cf_ReadTimeout cfg < 2 ^ 63" "cf_WriteTimeout cfg < 2 ^ 63"
    using assms(2) unfolding options_wf_def by blast+
  have e: "clean (QueryEscape s)" for s by (simp add: clean_def QueryEscape_clean)
  have n: "clean (strconv_Itoa i)" for i
  proof -
    have "\<not> is_digit CHR ''/''" "\<not> is_digit CHR ''&''" by (simp_all add: is_digit_def)
    then show ?thesis by (auto simp: clean_def strconv_Itoa_def dest: decimal_digits)
  qed
  have word: "clean ''true''" "clean ''false''" by (simp_all add: clean_def)
  have key: "k \<in> set dsn_keys \<Longrightarrow> clean k \<and> CHR ''='' \<notin> set k" for k by (auto simp: dsn_keys_def clean_def)
  have shown: "\<forall>q \<in> set (shown b k v). clean_pair q" if "k \<in> set dsn_keys" "b \<Longrightarrow> clean v" for b k v
    using key [OF that(1)] that(2) by (simp add: shown_def clean_pair_def)
  show ?thesis
    unfolding option_pairs_def set_append ball_Un
    by (intro conjI shown; use dur c e n word in \<open>simp add: dsn_keys_def\<close>)
qed

lemma sorted_params_wf: "params_wf ps \<Longrightarrow> params_wf (sort_key fst ps)"
  by (simp add: params_wf_def distinct_map)

lemma user_pairs_back:
  "params_wf (qs @ ps) \<Longrightarrow> cf_Params c = qs \<Longrightarrow>
     run_pairs env (map (\<lambda>(k, v). (k, QueryEscape v)) ps) c = Inr (Inr (c\<lparr>cf_Params := qs @ ps\<rparr>))"
proof (induction ps arbitrary: c qs)
  case Nil
  then show ?case by (cases c) simp
next
  case (Cons q ps)
  obtain k v where q: "q = (k, v)" by fastforce
  have k: "k \<notin> set dsn_keys" "k \<notin> fst ` set qs" using Cons.prems(1) q by (auto simp: params_wf_def)
  have "AList.update k v qs = qs @ [(k, v)]" using k(2) by (induction qs) auto
  then have "dsn_param env k (QueryEscape v) c = Inr (Inr (c\<lparr>cf_Params := qs @ [(k, v)]\<rparr>))"
    using k(1) Cons.prems(2) by (simp add: dsn_param_other unescaped_def QueryUnescape_escape)
  moreover have "params_wf ((qs @ [q]) @ ps)" using Cons.prems(1) by simp
  ultimately show ?case using Cons.IH [of "qs @ [q]"] q by simp
qed

subsection \<open>Texts\<close>

lemma FormatDSN_parts:
  assumes "cf_Net cfg \<noteq> []" "cf_Addr cfg \<noteq> []"
  shows "FormatDSN env cfg =
    (user_text (cf_User cfg) (cf_Passwd cfg) @ cf_Net cfg @ ''('' @ cf_Addr cfg @ '')'') @ ''/'' @ cf_DBName cfg @
      write_params False (option_pairs env cfg @ user_pairs cfg)"
  using assms by (simp add: FormatDSN_def user_text_def)

lemma user_pairs_clean: "params_wf (cf_Params cfg) \<Longrightarrow> \<forall>q \<in> set (user_pairs cfg). clean_pair q"
  by (auto simp: user_pairs_def params_wf_def clean_pair_def clean_def QueryEscape_clean)

lemma dsn_parts_steps:
  assumes "last_index CHR ''/'' dsn = Some i" "0 < i" "dsn_user dsn i NewConfig = Inr (lo, a)"
    and "dsn_address dsn lo i a = Inr (Inr b)" "dsn_database env dsn i b = Inr (Inr c)"
  shows "dsn_parts env dsn = Inr (Inr c)"
  using assms by (simp add: dsn_parts_def)

lemma dsn_parts_back:
  assumes "env_ok env" "options_wf env cfg" "params_wf (cf_Params cfg)" "parts_wf cfg"
    and "cf_Net cfg \<noteq> []" "cf_Addr cfg \<noteq> []" "CHR ''/'' \<notin> set (cf_DBName cfg)" "CHR ''?'' \<notin> set (cf_DBName cfg)"
    and "cf_User cfg = [] \<longrightarrow> cf_Passwd cfg = []" "cf_Collation cfg \<noteq> []"
    and "0 \<le> cf_Timeout cfg" "0 \<le> cf_ReadTimeout cfg" "0 \<le> cf_WriteTimeout cfg" "cf_TLSConfig cfg = ''false'' \<longrightarrow> cf_tls cfg = None"
  shows "dsn_parts env (FormatDSN env cfg) = Inr (Inr (cfg\<lparr>cf_Params := sort_key fst (cf_Params cfg)\<rparr>))"
proof -
  let ?ut = "user_text (cf_User cfg) (cf_Passwd cfg)"
  let ?ps = "option_pairs env cfg @ user_pairs cfg" and ?pre = "?ut @ cf_Net cfg @ ''('' @ cf_Addr cfg @ '')''"
  let ?dsn = "FormatDSN env cfg"
  let ?rest = "cf_DBName cfg @ write_params False ?ps"
  have dsn: "?dsn = ?pre @ ''/'' @ ?rest" using FormatDSN_parts [OF assms(5,6), of env] by simp
  have clean: "\<forall>q \<in> set ?ps. clean_pair q"
    using option_pairs_clean [OF assms(1,2)] user_pairs_clean [OF assms(3)] by auto
  then have "CHR ''/'' \<notin> set ?rest" using assms(7) write_params_slash [of ?ps] by simp
  then have i: "last_index CHR ''/'' ?dsn = Some (length ?pre)"
    using last_index_append [of _ ?rest ?pre] dsn by simp
  have at: "CHR ''@'' \<notin> set (cf_Net cfg @ ''('' @ cf_Addr cfg @ '')'')" and u: "CHR '':'' \<notin> set (cf_User cfg)"
    and n: "CHR ''('' \<notin> set (cf_Net cfg)"
    using assms(4) by (simp_all add: parts_wf_def)
  let ?c = "NewConfig\<lparr>cf_User := cf_User cfg, cf_Passwd := cf_Passwd cfg\<rparr>"
  have "dsn_user ?dsn (length ?ut + length (cf_Net cfg @ ''('' @ cf_Addr cfg @ '')'')) NewConfig = Inr (length ?ut, ?c)"
    by (rule dsn_user_back [OF _ at u assms(9)]) (use dsn in simp)
  then have user: "dsn_user ?dsn (length ?pre) NewConfig = Inr (length ?ut, ?c)" by simp
  have "dsn_address ?dsn (length ?ut) (length ?ut + length (cf_Net cfg) + length (cf_Addr cfg) + 2) ?c =
      Inr (Inr (?c\<lparr>cf_Addr := cf_Addr cfg, cf_Net := cf_Net cfg\<rparr>))"
    by (rule dsn_address_back [OF _ n]) (use dsn in simp)
  then have addr: "dsn_address ?dsn (length ?ut) (length ?pre) ?c = Inr (Inr (?c\<lparr>cf_Addr := cf_Addr cfg, cf_Net := cf_Net cfg\<rparr>))"
    by (simp add: add.assoc)
  have "run_pairs env ?ps (?c\<lparr>cf_Addr := cf_Addr cfg, cf_Net := cf_Net cfg\<rparr>) =
      run_pairs env (user_pairs cfg) (cfg\<lparr>cf_DBName := [], cf_Params := []\<rparr>)"
    using options_back [OF assms(1,2,10-14), where u = "cf_User cfg" and p = "cf_Passwd cfg" and h = "cf_Addr cfg" and n = "cf_Net cfg"] by simp
  also have "\<dots> = Inr (Inr (cfg\<lparr>cf_DBName := [], cf_Params := sort_key fst (cf_Params cfg)\<rparr>))"
    using user_pairs_back [of "[]" "sort_key fst (cf_Params cfg)" "cfg\<lparr>cf_DBName := [], cf_Params := []\<rparr>" env] sorted_params_wf [OF assms(3)]
    by (simp add: user_pairs_def)
  finally have "dsn_database env ?dsn (length ?pre) (?c\<lparr>cf_Addr := cf_Addr cfg, cf_Net := cf_Net cfg\<rparr>) =
      Inr (Inr (cfg\<lparr>cf_Params := sort_key fst (cf_Params cfg)\<rparr>))"
    using dsn_database_back [OF dsn assms(8) clean, of env] by simp
  from dsn_parts_steps [OF i _ user addr this] show ?thesis by simp
qed

subsection \<open>Configurations that were parsed\<close>

lemma server_name_eq: "\<exists>t. server_name d = d\<lparr>cf_tls := t\<rparr> \<and> (t = None \<longrightarrow> cf_tls d = None)"
proof (cases "server_name d = d")
  case True
  then show ?thesis by (intro exI [of _ "cf_tls d"]) (cases d, simp)
next
  case False
  then obtain t where "server_name d = d\<lparr>cf_tls := Some t\<rparr>"
    by (auto simp: server_name_def split: option.splits if_splits prod.splits)
  then show ?thesis by blast
qed

lemma cfg_normalize_eq:
  assumes "cfg_normalize c = Inr cfg"
  shows "\<exists>net addr. cfg = server_name (c\<lparr>cf_Net := net, cf_Addr := addr\<rparr>) \<and> net \<noteq> [] \<and> addr \<noteq> [] \<and>
    \<not> (cf_InterpolateParams c \<and> cf_Collation c \<in> set unsafeCollations) \<and>
    (CHR ''@'' \<notin> set (cf_Net c) \<longrightarrow> CHR ''@'' \<notin> set net) \<and> (CHR ''('' \<notin> set (cf_Net c) \<longrightarrow> CHR ''('' \<notin> set net) \<and>
    (CHR ''@'' \<notin> set (cf_Addr c) \<longrightarrow> CHR ''@'' \<notin> set addr)"
proof -
  define net where "net = (if cf_Net c = [] then ''tcp'' else cf_Net c)"
  have safe: "\<not> (cf_InterpolateParams c \<and> cf_Collation c \<in> set unsafeCollations)"
    using assms by (auto simp: cfg_normalize_def)
  then obtain addr where a: "default_addr net (cf_Addr c) = Inr addr" "cfg = server_name (c\<lparr>cf_Net := net, cf_Addr := addr\<rparr>)"
    using assms by (auto simp: cfg_normalize_def net_def Let_def split: sum.splits)
  have "addr \<noteq> []" "CHR ''@'' \<notin> set (cf_Addr c) \<longrightarrow> CHR ''@'' \<notin> set addr"
    using a(1) by (auto simp: default_addr_def ensureHavePort_def JoinHostPort_def split: if_splits)
  moreover have "net \<noteq> []" "CHR ''@'' \<notin> set (cf_Net c) \<longrightarrow> CHR ''@'' \<notin> set net" "CHR ''('' \<notin> set (cf_Net c) \<longrightarrow> CHR ''('' \<notin> set net"
    by (simp_all add: net_def)
  ultimately show ?thesis using a(2) safe by blast
qed

text \<open>What \<open>FormatDSN\<close> can show: it prints no password without a user, no empty collation and no negative timeout.\<close>

definition prints_in_full :: "'key conn_config \<Rightarrow> bool" where
  "prints_in_full cfg \<longleftrightarrow>
     (cf_User cfg = [] \<longrightarrow> cf_Passwd cfg = []) \<and> cf_Collation cfg \<noteq> [] \<and>
     0 \<le> cf_Timeout cfg \<and> 0 \<le> cf_ReadTimeout cfg \<and> 0 \<le> cf_WriteTimeout cfg \<and>
     (cf_TLSConfig cfg = ''false'' \<longrightarrow> cf_tls cfg = None) \<and>
     (cf_Net cfg = ''tcp'' \<longrightarrow> SplitHostPort (cf_Addr cfg) \<noteq> None)"

text \<open>What holds of every configuration that \<open>ParseDSN\<close> returns.\<close>

definition config_wf :: "'key dsn_env \<Rightarrow> 'key conn_config \<Rightarrow> bool" where
  "config_wf env cfg \<longleftrightarrow>
     cf_Net cfg \<noteq> [] \<and> cf_Addr cfg \<noteq> [] \<and> parts_wf cfg \<and>
     CHR ''/'' \<notin> set (cf_DBName cfg) \<and> CHR ''?'' \<notin> set (cf_DBName cfg) \<and> params_wf (cf_Params cfg) \<and>
     \<not> (cf_InterpolateParams cfg \<and> cf_Collation cfg \<in> set unsafeCollations) \<and>
     (\<exists>t. options_wf env (cfg\<lparr>cf_tls := t\<rparr>) \<and> cfg = server_name (cfg\<lparr>cf_tls := t\<rparr>))"

lemma ParseDSN_wf:
  assumes "ParseDSN env dsn = Inr (Inr cfg)" "env_ok env"
  shows "config_wf env cfg"
proof -
  obtain c where c: "dsn_parts env dsn = Inr (Inr c)" "cfg_normalize c = Inr cfg"
    using assms(1) by (auto simp: ParseDSN_def or_fail_eq)
  note wf = dsn_parts_wf [OF c(1) assms(2)]
  obtain net addr where n: "cfg = server_name (c\<lparr>cf_Net := net, cf_Addr := addr\<rparr>)" "net \<noteq> []" "addr \<noteq> []"
    "\<not> (cf_InterpolateParams c \<and> cf_Collation c \<in> set unsafeCollations)"
    "CHR ''@'' \<notin> set net" "CHR ''('' \<notin> set net" "CHR ''@'' \<notin> set addr"
    using cfg_normalize_eq [OF c(2)] wf unfolding parts_wf_def by blast
  obtain t where t: "cfg = (c\<lparr>cf_Net := net, cf_Addr := addr\<rparr>)\<lparr>cf_tls := t\<rparr>"
    using server_name_eq n(1) by blast
  then have "cfg\<lparr>cf_tls := cf_tls c\<rparr> = c\<lparr>cf_Net := net, cf_Addr := addr\<rparr>" by (cases c) simp
  then have "options_wf env (cfg\<lparr>cf_tls := cf_tls c\<rparr>) \<and> cfg = server_name (cfg\<lparr>cf_tls := cf_tls c\<rparr>)"
    using wf n(1) by simp
  then have ex: "\<exists>t. options_wf env (cfg\<lparr>cf_tls := t\<rparr>) \<and> cfg = server_name (cfg\<lparr>cf_tls := t\<rparr>)" by blast
  have "cf_Net cfg = net" "cf_Addr cfg = addr" "cf_DBName cfg = cf_DBName c" "cf_Params cfg = cf_Params c" "cf_User cfg = cf_User c"
    "cf_InterpolateParams cfg = cf_InterpolateParams c" "cf_Collation cfg = cf_Collation c"
    by (simp_all add: t)
  then have "cf_Net cfg \<noteq> [] \<and> cf_Addr cfg \<noteq> [] \<and> parts_wf cfg \<and> CHR ''/'' \<notin> set (cf_DBName cfg) \<and> CHR ''?'' \<notin> set (cf_DBName cfg) \<and>
      params_wf (cf_Params cfg) \<and> \<not> (cf_InterpolateParams cfg \<and> cf_Collation cfg \<in> set unsafeCollations)"
    using n(2-) wf by (simp add: parts_wf_def)
  with ex show ?thesis unfolding config_wf_def by blast
qed

lemma printed_is_parsed:
  assumes "config_wf env cfg" "env_ok env" "prints_in_full cfg"
  shows "ParseDSN env (FormatDSN env cfg) = Inr (Inr (cfg\<lparr>cf_Params := sort_key fst (cf_Params cfg)\<rparr>))"
proof -
  obtain t where t: "options_wf env (cfg\<lparr>cf_tls := t\<rparr>)" "cfg = server_name (cfg\<lparr>cf_tls := t\<rparr>)"
    using assms(1) by (auto simp: config_wf_def)
  let ?d = "cfg\<lparr>cf_tls := t\<rparr>" and ?ps = "sort_key fst (cf_Params cfg)"
  have none: "cf_tls cfg = None \<longrightarrow> t = None"
    using server_name_eq [of ?d] t(2) by (metis conn_config.select_convs(13) conn_config.surjective conn_config.update_convs(13))
  have fmt: "FormatDSN env cfg = FormatDSN env ?d" by (simp add: FormatDSN_def option_pairs_def user_pairs_def)
  have "dsn_parts env (FormatDSN env ?d) = Inr (Inr (?d\<lparr>cf_Params := sort_key fst (cf_Params ?d)\<rparr>))"
    by (rule dsn_parts_back [OF assms(2) t(1)])
      (use assms(1,3) none in \<open>simp_all add: config_wf_def prints_in_full_def parts_wf_def\<close>)
  then have parts: "dsn_parts env (FormatDSN env cfg) = Inr (Inr (?d\<lparr>cf_Params := ?ps\<rparr>))" by (simp add: fmt)
  have safe: "\<not> (cf_InterpolateParams cfg \<and> cf_Collation cfg \<in> set unsafeCollations)" "cf_Net cfg \<noteq> []" "cf_Addr cfg \<noteq> []"
    "cf_Net cfg = ''tcp'' \<longrightarrow> SplitHostPort (cf_Addr cfg) \<noteq> None"
    using assms(1,3) by (simp_all add: config_wf_def prints_in_full_def)
  have "default_addr (cf_Net cfg) (cf_Addr cfg) = Inr (cf_Addr cfg)"
    using safe by (auto simp: default_addr_def ensureHavePort_def)
  then have norm: "cfg_normalize (?d\<lparr>cf_Params := ?ps\<rparr>) = Inr (server_name (?d\<lparr>cf_Params := ?ps\<rparr>))"
    using safe by (cases cfg) (simp add: cfg_normalize_def)
  have "server_name (?d\<lparr>cf_Params := ?ps\<rparr>) = (server_name ?d)\<lparr>cf_Params := ?ps\<rparr>"
    by (auto simp: server_name_def split: option.splits)
  then show ?thesis using parts norm t(2) by (simp add: ParseDSN_def)
qed

end
