(* ===== verification/PropsDsn.thy ===== *)
theory PropsDsn
  imports DsnRoundTrip
begin

text \<open>The properties of data source names.\<close>

text \<open>An environment with two locations, durations in nanoseconds, and nothing registered.\<close>

definition sample_dsn_env :: "unit dsn_env" where
  "sample_dsn_env =
     \<lparr>de_location = (\<lambda>n. if n = [] \<or> n = ''UTC'' then Some ''UTC'' else if n = ''Asia/Seoul'' then Some n else None),
      de_duration = (\<lambda>s. if drop (length s - 2) s = ''ns'' then parse_int64 (take (length s - 2) s) else None),
      de_duration_text = (\<lambda>d. strconv_Itoa d @ ''ns''),
      de_pubKey = (\<lambda>n. None), de_tls = (\<lambda>n. None)\<rparr>"

lemma sample_dsn_env_ok: "env_ok sample_dsn_env"
proof -
  have "clean (strconv_Itoa d @ ''ns'')" for d
  proof -
    have "\<not> is_digit CHR ''/''" "\<not> is_digit CHR ''&''" by (simp_all add: is_digit_def)
    then show ?thesis by (auto simp: clean_def strconv_Itoa_def dest: decimal_digits)
  qed
  moreover have "parse_int64 (strconv_Itoa d) = Some d" if "0 < d" "d < 2 ^ 63" for d
    by (rule parse_int64_Itoa) (use that in simp_all)
  moreover have "parse_int64 s = Some d \<Longrightarrow> d < 2 ^ 63" for s d using parse_int64_range by blast
  ultimately show ?thesis by (simp add: env_ok_def sample_dsn_env_def)
qed

definition sample_dsn :: string where
  "sample_dsn = ''userid:p@ss/word@tcp(db.local)/?loc=Asia%2FSeoul&charset=utf8&autocommit=1''"

definition sample_config :: "unit conn_config" where
  "sample_config = NewConfig
     \<lparr>cf_User := ''userid'', cf_Passwd := ''p@ss/word'', cf_Net := ''tcp'', cf_Addr := ''db.local:3306'',
      cf_Loc := ''Asia/Seoul'', cf_Params := [(''charset'', ''utf8''), (''autocommit'', ''1'')]\<rparr>"

lemma sample_dsn_parsed: "ParseDSN sample_dsn_env sample_dsn = Inr (Inr sample_config)"
  by code_simp

lemma sample_config_printed: "prints_in_full sample_config"
proof -
  have "SplitHostPort ''db.local:3306'' = Some (''db.local'', ''3306'')" by code_simp
  then show ?thesis by (simp add: prints_in_full_def sample_config_def NewConfig_def defaultCollation_def)
qed

lemma sample_printed:
  "FormatDSN sample_dsn_env sample_config = ''userid:p@ss/word@tcp(db.local:3306)/?loc=Asia%2FSeoul&autocommit=1&charset=utf8''"
proof -
  have "QueryEscape ''Asia/Seoul'' = ''Asia%2FSeoul''" "QueryEscape ''utf8'' = ''utf8''" "QueryEscape ''1'' = ''1''" by code_simp+
  moreover have "sort_key fst [(''charset'', ''utf8''), (''autocommit'', ''1'')] = [(''autocommit'', ''1''), (''charset'', ''utf8'')]"
    by (simp add: less_char_def)
  ultimately show ?thesis
    by (simp add: FormatDSN_def option_pairs_def shown_def user_pairs_def sample_config_def NewConfig_def defaultCollation_def)
qed

text \<open>C15: A configuration that was read from a data source name is printed to a name that gives the same configuration
  again, with the parameters in the order of their names. What \<open>FormatDSN\<close> does not print is excluded: a password without
  a user, an empty collation, negative timeouts, TLS that \<open>tls=false\<close> left on, and an address that is not one of a host and
  a port.\<close>

theorem parsed_dsn_is_printed:
  assumes "ParseDSN env dsn = Inr (Inr cfg)" "env_ok env" "prints_in_full cfg"
  shows "ParseDSN env (FormatDSN env cfg) = Inr (Inr (cfg\<lparr>cf_Params := sort_key fst (cf_Params cfg)\<rparr>))"
  by (rule printed_is_parsed [OF ParseDSN_wf [OF assms(1,2)] assms(2,3)])

theorem parsed_dsn_is_printed_witness:
  "ParseDSN sample_dsn_env (FormatDSN sample_dsn_env sample_config) =
     Inr (Inr (sample_config\<lparr>cf_Params := sort_key fst (cf_Params sample_config)\<rparr>)) \<and>
   FormatDSN sample_dsn_env sample_config = ''userid:p@ss/word@tcp(db.local:3306)/?loc=Asia%2FSeoul&autocommit=1&charset=utf8''"
proof
  show "ParseDSN sample_dsn_env (FormatDSN sample_dsn_env sample_config) =
     Inr (Inr (sample_config\<lparr>cf_Params := sort_key fst (cf_Params sample_config)\<rparr>))"
    by (rule parsed_dsn_is_printed [OF sample_dsn_parsed sample_dsn_env_ok sample_config_printed])
  show "FormatDSN sample_dsn_env sample_config = ''userid:p@ss/word@tcp(db.local:3306)/?loc=Asia%2FSeoul&autocommit=1&charset=utf8''"
    by (simp add: sample_printed)
qed

text \<open>C27: Parsing a data source name panics only for the removed option \<open>strict\<close>, and a configuration it returns is
  well-formed: it has a network and an address, user, network, address and database hold none of the marks that end them,
  its parameters are distinct and no options, no query is interpolated with an unsafe collation, and the public key and the
  TLS configuration are those registered under their names.\<close>

theorem parsed_config_well_formed:
  assumes "env_ok env"
  shows "(\<forall>p. ParseDSN env dsn = Inl p \<longrightarrow> p = strict_panic) \<and>
    (\<forall>cfg. ParseDSN env dsn = Inr (Inr cfg) \<longrightarrow>
      cf_Net cfg \<noteq> [] \<and> cf_Addr cfg \<noteq> [] \<and> CHR '':'' \<notin> set (cf_User cfg) \<and>
      {CHR ''@'', CHR ''(''} \<inter> set (cf_Net cfg) = {} \<and> CHR ''@'' \<notin> set (cf_Addr cfg) \<and>
      {CHR ''/'', CHR ''?''} \<inter> set (cf_DBName cfg) = {} \<and>
      distinct (map fst (cf_Params cfg)) \<and> fst ` set (cf_Params cfg) \<inter> set dsn_keys = {} \<and>
      \<not> (cf_InterpolateParams cfg \<and> cf_Collation cfg \<in> set unsafeCollations) \<and>
      cf_pubKey cfg = de_pubKey env (cf_ServerPubKey cfg) \<and> tls_known env (cf_TLSConfig cfg))"
proof (intro conjI allI impI)
  fix p assume "ParseDSN env dsn = Inl p"
  then show "p = strict_panic" by (rule ParseDSN_panic)
next
  fix cfg assume h: "ParseDSN env dsn = Inr (Inr cfg)"
  note wf = ParseDSN_wf [OF h assms, unfolded config_wf_def parts_wf_def params_wf_def]
  then obtain t where "options_wf env (cfg\<lparr>cf_tls := t\<rparr>)" by blast
  then show "cf_pubKey cfg = de_pubKey env (cf_ServerPubKey cfg)" "tls_known env (cf_TLSConfig cfg)"
    unfolding options_wf_def by simp_all
qed (use ParseDSN_wf [OF _ assms, unfolded config_wf_def parts_wf_def params_wf_def] in blast)+

theorem parsed_config_well_formed_witness:
  "cf_Net sample_config \<noteq> [] \<and> {CHR ''/'', CHR ''?''} \<inter> set (cf_DBName sample_config) = {} \<and>
   fst ` set (cf_Params sample_config) \<inter> set dsn_keys = {}"
  using parsed_config_well_formed [OF sample_dsn_env_ok, of sample_dsn] sample_dsn_parsed by blast

text \<open>A bracketed address without a port gets a second pair of brackets.\<close>

lemma bracketed_address: "ensureHavePort ''[::1]'' = ''[[::1]]:3306''"
  by code_simp

text \<open>A second \<open>tls=false\<close> names TLS off and leaves it on.\<close>

lemma tls_stays_on:
  "ParseDSN sample_dsn_env ''/?tls=true&tls=false'' =
     Inr (Inr (NewConfig\<lparr>cf_Net := ''tcp'', cf_Addr := ''127.0.0.1:3306'', cf_TLSConfig := ''false'',
       cf_tls := Some \<lparr>tls_ServerName = ''127.0.0.1'', tls_InsecureSkipVerify = False\<rparr>\<rparr>))"
  by code_simp

end
