(* ===== verification/MgoDial.thy ===== *)
theory MgoDial
  imports GoUrl MgoWrite
begin

text \<open>
  \<open>session.go\<close>: the connection strings of MongoDB (\<open>extractURL\<close>, \<open>ParseURL\<close>) and the session that \<open>Dial\<close> makes for
  one, with \<open>InitConnection\<close> and \<open>GetSession\<close> of \<open>mongo_helper.go\<close> on top. The cluster behind a session is not
  modelled; the answer to the first ping is a parameter. A \<open>DialServer\<close> is present or absent.
\<close>

subsection \<open>Connection strings\<close>

datatype url_error =
    UrlBadPair string | UrlNoUser | UrlBadUser string | UrlBadPassword
  | UrlBadValue string string | UrlNegative string string | UrlLongName string | UrlUnsupported string string
  | UrlTagsWithPrimary

record url_info =
  ui_addrs :: "string list"
  ui_user :: string
  ui_pass :: string
  ui_db :: string
  ui_options :: "(string \<times> string) list"

definition isOptSep :: "char \<Rightarrow> bool" where
  "isOptSep c \<longleftrightarrow> c = CHR '';'' \<or> c = CHR ''&''"

text \<open>\<open>strings.FieldsFunc(s, isOptSep)\<close>\<close>

fun option_fields :: "string \<Rightarrow> string \<Rightarrow> string list" where
  "option_fields w [] = (if w = [] then [] else [w])"
| "option_fields w (c # s) =
     (if isOptSep c then (if w = [] then [] else [w]) @ option_fields [] s else option_fields (w @ [c]) s)"

fun url_options :: "string list \<Rightarrow> url_error + (string \<times> string) list" where
  "url_options [] = Inr []"
| "url_options (pair # ps) =
     (case cut_at CHR ''='' pair of
        None \<Rightarrow> Inl (UrlBadPair pair)
      | Some (key, value) \<Rightarrow>
          if key = [] \<or> value = [] then Inl (UrlBadPair pair) else map_sum id ((#) (key, value)) (url_options ps))"

text \<open>The part before the first \<open>c\<close>, and what is behind it.\<close>

definition cut_or_all :: "char \<Rightarrow> string \<Rightarrow> string \<times> string option" where
  "cut_or_all c s = (case cut_at c s of None \<Rightarrow> (s, None) | Some (a, b) \<Rightarrow> (a, Some b))"

definition url_user :: "string \<Rightarrow> url_error + string \<times> string" where
  "url_user creds =
     (let (u, p) = cut_or_all CHR '':'' creds in
      if u = [] then Inl UrlNoUser
      else
        (case QueryUnescape u of
           Inl e \<Rightarrow> Inl (UrlBadUser u)
         | Inr user \<Rightarrow>
             (case p of
                None \<Rightarrow> Inr (user, [])
              | Some p \<Rightarrow> (case QueryUnescape p of Inl e \<Rightarrow> Inl UrlBadPassword | Inr pass \<Rightarrow> Inr (user, pass)))))"

definition url_hosts :: "string \<Rightarrow> string \<times> string \<Rightarrow> (string \<times> string) list \<Rightarrow> url_info" where
  "url_hosts s cred opts =
     (let (hosts, db) = cut_or_all CHR ''/'' s in
      \<lparr>ui_addrs = split_on CHR '','' hosts, ui_user = fst cred, ui_pass = snd cred,
       ui_db = (case db of None \<Rightarrow> [] | Some d \<Rightarrow> d), ui_options = opts\<rparr>)"

definition url_authority :: "string \<Rightarrow> (string \<times> string) list \<Rightarrow> url_error + url_info" where
  "url_authority s opts =
     (case cut_at CHR ''@'' s of
        None \<Rightarrow> Inr (url_hosts s ([], []) opts)
      | Some (creds, rest) \<Rightarrow> map_sum id (\<lambda>cred. url_hosts rest cred opts) (url_user creds))"

definition url_scheme :: string where
  "url_scheme = ''mongodb://''"

definition extractURL :: "string \<Rightarrow> url_error + url_info" where
  "extractURL s =
     (let s = (if has_prefix s url_scheme then drop (length url_scheme) s else s) in
      case cut_at CHR ''?'' s of
        None \<Rightarrow> url_authority s []
      | Some (a, b) \<Rightarrow> (case url_options (option_fields [] b) of Inl e \<Rightarrow> Inl e | Inr opts \<Rightarrow> url_authority a opts))"

subsection \<open>Options\<close>

definition Primary :: nat where "Primary = 2"
definition PrimaryPreferred :: nat where "PrimaryPreferred = 3"
definition Secondary :: nat where "Secondary = 4"
definition SecondaryPreferred :: nat where "SecondaryPreferred = 5"
definition Nearest :: nat where "Nearest = 6"
definition Eventual :: nat where "Eventual = 0"
definition Strong :: nat where "Strong = 2"

text \<open>\<open>strconv.ParseBool\<close>\<close>

definition ParseBool :: "string \<Rightarrow> bool option" where
  "ParseBool s =
     (if s \<in> set [''1'', ''t'', ''T'', ''TRUE'', ''true'', ''True''] then Some True
      else if s \<in> set [''0'', ''f'', ''F'', ''FALSE'', ''false'', ''False''] then Some False
      else None)"

type_synonym tag_set = "(string \<times> string) list"

record dial_opts =
  do_ssl :: bool
  do_direct :: bool
  do_mechanism :: string
  do_service :: string
  do_source :: string
  do_setName :: string
  do_poolLimit :: int
  do_appName :: string
  do_mode :: nat
  do_tagSets :: "tag_set list"
  do_minPoolSize :: int
  do_maxIdleTimeMS :: int
  do_safe :: safe_mode

definition no_safe :: safe_mode where
  "no_safe = \<lparr>safe_W = 0, safe_WMode = [], safe_RMode = [], safe_WTimeout = 0, safe_FSync = False, safe_J = False\<rparr>"

definition no_opts :: dial_opts where
  "no_opts =
     \<lparr>do_ssl = False, do_direct = False, do_mechanism = [], do_service = [], do_source = [], do_setName = [],
      do_poolLimit = 0, do_appName = [], do_mode = Primary, do_tagSets = [], do_minPoolSize = 0,
      do_maxIdleTimeMS = 0, do_safe = no_safe\<rparr>"

definition url_number :: "string \<Rightarrow> string \<Rightarrow> bool \<Rightarrow> (int \<Rightarrow> dial_opts) \<Rightarrow> url_error + dial_opts" where
  "url_number key value negative f =
     (case parse_int64 value of
        None \<Rightarrow> Inl (UrlBadValue key value)
      | Some n \<Rightarrow> if n < 0 \<and> \<not> negative then Inl (UrlNegative key value) else Inr (f n))"

fun url_tags :: "string list \<Rightarrow> tag_set option" where
  "url_tags [] = Some []"
| "url_tags (tag # ts) =
     (case split_on CHR '':'' tag of
        [k, v] \<Rightarrow> map_option ((#) (strings_TrimSpace k, strings_TrimSpace v)) (url_tags ts)
      | _ \<Rightarrow> None)"

definition url_mode :: "string \<Rightarrow> nat option" where
  "url_mode value =
     map_of [(''nearest'', Nearest), (''primary'', Primary), (''primaryPreferred'', PrimaryPreferred),
       (''secondary'', Secondary), (''secondaryPreferred'', SecondaryPreferred)] value"

definition url_option :: "string \<Rightarrow> string \<Rightarrow> dial_opts \<Rightarrow> url_error + dial_opts" where
  "url_option key value opts =
     (if key = ''ssl'' then Inr (if ParseBool value = Some True then opts\<lparr>do_ssl := True\<rparr> else opts)
      else if key = ''authSource'' then Inr (opts\<lparr>do_source := value\<rparr>)
      else if key = ''authMechanism'' then Inr (opts\<lparr>do_mechanism := value\<rparr>)
      else if key = ''gssapiServiceName'' then Inr (opts\<lparr>do_service := value\<rparr>)
      else if key = ''replicaSet'' then Inr (opts\<lparr>do_setName := value\<rparr>)
      else if key = ''w'' then Inr (opts\<lparr>do_safe := (do_safe opts)\<lparr>safe_WMode := value\<rparr>\<rparr>)
      else if key = ''j'' then
        (case ParseBool value of
           None \<Rightarrow> Inl (UrlBadValue key value)
         | Some b \<Rightarrow> Inr (opts\<lparr>do_safe := (do_safe opts)\<lparr>safe_J := b\<rparr>\<rparr>))
      else if key = ''wtimeoutMS'' then
        url_number key value False (\<lambda>n. opts\<lparr>do_safe := (do_safe opts)\<lparr>safe_WTimeout := n\<rparr>\<rparr>)
      else if key = ''maxPoolSize'' then url_number key value True (\<lambda>n. opts\<lparr>do_poolLimit := n\<rparr>)
      else if key = ''appName'' then
        (if 128 < length value then Inl (UrlLongName value) else Inr (opts\<lparr>do_appName := value\<rparr>))
      else if key = ''readPreference'' then
        (case url_mode value of None \<Rightarrow> Inl (UrlBadValue key value) | Some mode \<Rightarrow> Inr (opts\<lparr>do_mode := mode\<rparr>))
      else if key = ''readPreferenceTags'' then
        (case url_tags (split_on CHR '','' value) of
           None \<Rightarrow> Inl (UrlBadValue key value)
         | Some doc \<Rightarrow> Inr (opts\<lparr>do_tagSets := do_tagSets opts @ [doc]\<rparr>))
      else if key = ''minPoolSize'' then url_number key value False (\<lambda>n. opts\<lparr>do_minPoolSize := n\<rparr>)
      else if key = ''maxIdleTimeMS'' then url_number key value False (\<lambda>n. opts\<lparr>do_maxIdleTimeMS := n\<rparr>)
      else if key = ''connect'' \<and> value = ''direct'' then Inr (opts\<lparr>do_direct := True\<rparr>)
      else if key = ''connect'' \<and> value = ''replicaSet'' then Inr opts
      else Inl (UrlUnsupported key value))"

fun read_options :: "(string \<times> string) list \<Rightarrow> dial_opts \<Rightarrow> url_error + dial_opts" where
  "read_options [] opts = Inr opts"
| "read_options ((key, value) # os) opts =
     (case url_option key value opts of Inl e \<Rightarrow> Inl e | Inr opts \<Rightarrow> read_options os opts)"

subsection \<open>What is dialled\<close>

record DialInfo =
  di_Addrs :: "string list"
  di_Timeout :: int
  di_Database :: string
  di_ReplicaSetName :: string
  di_Source :: string
  di_Service :: string
  di_ServiceHost :: string
  di_Mechanism :: string
  di_Username :: string
  di_Password :: string
  di_PoolLimit :: int
  di_PoolTimeout :: int
  di_ReadTimeout :: int
  di_WriteTimeout :: int
  di_AppName :: string
  di_ReadPreference :: "(nat \<times> tag_set list) option"
  di_Safe :: safe_mode
  di_FailFast :: bool
  di_Direct :: bool
  di_MinPoolSize :: int
  di_MaxIdleTimeMS :: int
  di_DialServer :: bool

definition ParseURL :: "string \<Rightarrow> url_error + DialInfo" where
  "ParseURL url =
     (case extractURL url of
        Inl e \<Rightarrow> Inl e
      | Inr u \<Rightarrow>
          (case read_options (ui_options u) no_opts of
             Inl e \<Rightarrow> Inl e
           | Inr opts \<Rightarrow>
               if do_mode opts = Primary \<and> do_tagSets opts \<noteq> [] then Inl UrlTagsWithPrimary
               else Inr
                 \<lparr>di_Addrs = ui_addrs u, di_Timeout = 0, di_Database = ui_db u, di_ReplicaSetName = do_setName opts,
                  di_Source = do_source opts, di_Service = do_service opts, di_ServiceHost = [],
                  di_Mechanism = do_mechanism opts, di_Username = ui_user u, di_Password = ui_pass u,
                  di_PoolLimit = do_poolLimit opts, di_PoolTimeout = 0, di_ReadTimeout = 0, di_WriteTimeout = 0,
                  di_AppName = do_appName opts, di_ReadPreference = Some (do_mode opts, do_tagSets opts),
                  di_Safe = do_safe opts, di_FailFast = False, di_Direct = do_direct opts,
                  di_MinPoolSize = do_minPoolSize opts, di_MaxIdleTimeMS = do_maxIdleTimeMS opts,
                  di_DialServer = do_ssl opts\<rparr>))"

text \<open>\<open>Copy\<close> builds a new value from the fields it names; the others are zero.\<close>

definition DialInfo_Copy :: "DialInfo \<Rightarrow> DialInfo" where
  "DialInfo_Copy i =
     \<lparr>di_Addrs = di_Addrs i, di_Timeout = di_Timeout i, di_Database = di_Database i,
      di_ReplicaSetName = di_ReplicaSetName i, di_Source = di_Source i, di_Service = di_Service i,
      di_ServiceHost = di_ServiceHost i, di_Mechanism = di_Mechanism i, di_Username = di_Username i,
      di_Password = di_Password i, di_PoolLimit = di_PoolLimit i, di_PoolTimeout = di_PoolTimeout i,
      di_ReadTimeout = di_ReadTimeout i, di_WriteTimeout = di_WriteTimeout i, di_AppName = di_AppName i,
      di_ReadPreference = di_ReadPreference i, di_Safe = no_safe, di_FailFast = di_FailFast i,
      di_Direct = di_Direct i, di_MinPoolSize = di_MinPoolSize i, di_MaxIdleTimeMS = di_MaxIdleTimeMS i,
      di_DialServer = di_DialServer i\<rparr>"

definition DefaultConnectionPoolLimit :: int where
  "DefaultConnectionPoolLimit = 4096"

definition with_defaults :: "DialInfo \<Rightarrow> DialInfo" where
  "with_defaults i =
     i\<lparr>di_PoolLimit := if di_PoolLimit i = 0 then DefaultConnectionPoolLimit else di_PoolLimit i,
       di_ReadTimeout := if di_ReadTimeout i = 0 then di_Timeout i else di_ReadTimeout i,
       di_WriteTimeout := if di_WriteTimeout i = 0 then di_Timeout i else di_WriteTimeout i\<rparr>"

text \<open>The port that is missing behind the last \<open>]\<close> or \<open>:\<close>.\<close>

definition with_port :: "string \<Rightarrow> string" where
  "with_port addr =
     (case find (\<lambda>c. c \<in> set '']:'') (rev addr) of
        Some c \<Rightarrow> if c = CHR '':'' then addr else addr @ '':27017''
      | None \<Rightarrow> addr @ '':27017'')"

subsection \<open>Sessions\<close>

record credential =
  cr_Username :: string
  cr_Password :: string
  cr_Mechanism :: string
  cr_Service :: string
  cr_ServiceHost :: string
  cr_Source :: string

record dial_session =
  ds_settings :: mongo_session
  ds_seeds :: "string list"
  ds_defaultdb :: string
  ds_sourcedb :: string
  ds_dialCred :: "credential option"
  ds_creds :: "credential list"
  ds_consistency :: nat
  ds_slaveOk :: bool
  ds_serverTags :: "tag_set list"
  ds_syncTimeout :: int
  ds_dialInfo :: DialInfo

definition session_SetMode :: "nat \<Rightarrow> dial_session \<Rightarrow> dial_session" where
  "session_SetMode mode s = s\<lparr>ds_consistency := mode, ds_slaveOk := (mode \<noteq> Strong)\<rparr>"

definition session_SetSafe :: "safe_mode option \<Rightarrow> dial_session \<Rightarrow> dial_session" where
  "session_SetSafe safe s = s\<lparr>ds_settings := SetSafe safe (ds_settings s)\<rparr>"

definition newSession :: "nat \<Rightarrow> string list \<Rightarrow> DialInfo \<Rightarrow> dial_session" where
  "newSession mode seeds info =
     session_SetSafe (Some no_safe) (session_SetMode mode
       \<lparr>ds_settings = \<lparr>ms_safeOp = None, ms_bypassValidation = False, ms_readConcern = []\<rparr>, ds_seeds = seeds,
        ds_defaultdb = [], ds_sourcedb = [], ds_dialCred = None, ds_creds = [], ds_consistency = 0, ds_slaveOk = False,
        ds_serverTags = [], ds_syncTimeout = di_Timeout info, ds_dialInfo = info\<rparr>)"

definition login_source :: "DialInfo \<Rightarrow> string" where
  "login_source info =
     (if di_Source info \<noteq> [] then di_Source info
      else if di_Database info \<noteq> [] then di_Database info else ''admin'')"

definition login_credential :: "DialInfo \<Rightarrow> credential option" where
  "login_credential info =
     (if di_Username info = [] then None
      else Some
        \<lparr>cr_Username = di_Username info, cr_Password = di_Password info, cr_Mechanism = di_Mechanism info,
         cr_Service = di_Service info, cr_ServiceHost = di_ServiceHost info,
         cr_Source = (if di_Source info = [] \<and> di_Mechanism info \<in> set [''GSSAPI'', ''PLAIN'', ''MONGODB-X509'']
           then ''$external'' else login_source info)\<rparr>)"

definition DialWithInfo :: "(dial_session \<Rightarrow> mongo_err option) \<Rightarrow> DialInfo \<Rightarrow> mongo_err + dial_session" where
  "DialWithInfo ping dialInfo =
     (let info = with_defaults (DialInfo_Copy dialInfo);
          s = (newSession Eventual (map with_port (di_Addrs info)) info)
            \<lparr>ds_defaultdb := if di_Database info = [] then ''test'' else di_Database info,
             ds_sourcedb := login_source info, ds_dialCred := login_credential info,
             ds_creds := (case login_credential info of None \<Rightarrow> [] | Some c \<Rightarrow> [c])\<rparr>
      in case ping s of
           Some e \<Rightarrow> Inl e
         | None \<Rightarrow>
             (let s = session_SetSafe (Some (di_Safe info)) s
              in Inr
                (case di_ReadPreference info of
                   Some (mode, tagSets) \<Rightarrow> session_SetMode mode (s\<lparr>ds_serverTags := tagSets\<rparr>)
                 | None \<Rightarrow> session_SetMode Strong s)))"

definition DialWithTimeout ::
  "(dial_session \<Rightarrow> mongo_err option) \<Rightarrow> string \<Rightarrow> int \<Rightarrow> (url_error + mongo_err) + dial_session" where
  "DialWithTimeout ping url timeout =
     (case ParseURL url of
        Inl e \<Rightarrow> Inl (Inl e)
      | Inr info \<Rightarrow> map_sum Inr id (DialWithInfo ping (info\<lparr>di_Timeout := timeout\<rparr>)))"

text \<open>Durations in nanoseconds.\<close>

definition session_SetSocketTimeout :: "int \<Rightarrow> dial_session \<Rightarrow> dial_session" where
  "session_SetSocketTimeout d s =
     s\<lparr>ds_dialInfo := (ds_dialInfo s)\<lparr>di_Timeout := d, di_ReadTimeout := d, di_WriteTimeout := d\<rparr>\<rparr>"

definition Dial :: "(dial_session \<Rightarrow> mongo_err option) \<Rightarrow> string \<Rightarrow> (url_error + mongo_err) + dial_session" where
  "Dial ping url =
     map_sum id (\<lambda>s. session_SetSocketTimeout (60 * 10 ^ 9) (s\<lparr>ds_syncTimeout := 60 * 10 ^ 9\<rparr>))
       (DialWithTimeout ping url (10 * 10 ^ 9))"

text \<open>\<open>Clone\<close>: a session of its own, with the settings of the first.\<close>

definition copySession :: "bool \<Rightarrow> dial_session \<Rightarrow> dial_session" where
  "copySession keepCreds s =
     s\<lparr>ds_creds := if keepCreds then ds_creds s else (case ds_dialCred s of None \<Rightarrow> [] | Some c \<Rightarrow> [c])\<rparr>"

definition session_Clone :: "dial_session \<Rightarrow> dial_session" where
  "session_Clone s = copySession True s"

text \<open>\<open>InitConnection\<close> ends the program when it fails; \<open>GetSession\<close> clones.\<close>

definition InitConnection :: "(dial_session \<Rightarrow> mongo_err option) \<Rightarrow> string \<Rightarrow> dial_session option" where
  "InitConnection ping uri = (case Dial ping uri of Inl e \<Rightarrow> None | Inr s \<Rightarrow> Some s)"

definition GetSession :: "dial_session \<Rightarrow> dial_session" where
  "GetSession connection = session_Clone connection"

end
