(* ===== verification/PropsDial.thy ===== *)
theory PropsDial
  imports MgoDial
begin

text \<open>The properties of connection strings and of the sessions that are dialled for them.\<close>

subsection \<open>Connection strings\<close>

lemma QueryEscape_marks: "c \<in> set ''?@:/,'' \<Longrightarrow> c \<notin> set (QueryEscape s)"
proof
  assume c: "c \<in> set ''?@:/,''" "c \<in> set (QueryEscape s)"
  have "\<not> url_safe CHR ''?''" "\<not> url_safe CHR ''@''" "\<not> url_safe CHR '':''" "\<not> url_safe CHR '',''" by code_simp+
  then show False using QueryEscape_chars [OF c(2)] c(1) by auto
qed

lemma cut_at_append: "c \<notin> set a \<Longrightarrow> cut_at c (a @ c # b) = Some (a, b)"
  by (simp add: cut_at_Some)

lemma cut_at_None: "c \<notin> set a \<Longrightarrow> cut_at c a = None"
proof -
  assume "c \<notin> set a"
  then have "dropWhile (\<lambda>x. x \<noteq> c) a = []" by (induction a) auto
  then show ?thesis by (simp only: cut_at_def list.case)
qed

fun join_hosts :: "string list \<Rightarrow> string" where
  "join_hosts [] = []"
| "join_hosts (h # hs) = (if hs = [] then h else h @ '','' @ join_hosts hs)"

lemma split_hosts:
  "hs \<noteq> [] \<Longrightarrow> \<forall>h \<in> set hs. CHR '','' \<notin> set h \<Longrightarrow> split_on CHR '','' (join_hosts hs) = hs"
  by (induction hs) (simp_all add: split_on_clean split_on_append)

lemma join_hosts_clean: "\<forall>h \<in> set hs. c \<notin> set h \<Longrightarrow> c \<noteq> CHR '','' \<Longrightarrow> c \<notin> set (join_hosts hs)"
  by (induction hs) auto

definition db_text :: "string \<Rightarrow> string" where
  "db_text db = (if db = [] then [] else ''/'' @ db)"

definition collector_uri :: "string \<Rightarrow> string \<Rightarrow> string list \<Rightarrow> string \<Rightarrow> string" where
  "collector_uri user pass hosts db =
     ''mongodb://'' @ QueryEscape user @ '':'' @ QueryEscape pass @ ''@'' @ join_hosts hosts @ db_text db @ ''?connect=direct''"

lemma extractURL_parts:
  assumes "CHR ''?'' \<notin> set a" "url_options (option_fields [] b) = Inr os"
  shows "extractURL (url_scheme @ a @ CHR ''?'' # b) = url_authority a os"
proof -
  have "has_prefix (url_scheme @ r) url_scheme" for r by (simp add: has_prefix_iff)
  then show ?thesis using assms by (simp add: extractURL_def Let_def cut_at_append)
qed

lemma url_authority_user:
  "CHR ''@'' \<notin> set creds \<Longrightarrow> url_user creds = Inr cred \<Longrightarrow> url_authority (creds @ CHR ''@'' # h) os = Inr (url_hosts h cred os)"
  by (simp add: url_authority_def cut_at_append)

lemma url_user_escaped:
  "user \<noteq> [] \<Longrightarrow> url_user (QueryEscape user @ CHR '':'' # QueryEscape pass) = Inr (user, pass)"
proof -
  assume "user \<noteq> []"
  then have "QueryEscape user \<noteq> []" by (cases user) (auto simp: QueryEscape_def escape_char_def)
  then show ?thesis using QueryEscape_marks
    by (simp add: url_user_def cut_or_all_def cut_at_append QueryUnescape_escape)
qed

lemma url_hosts_joined:
  assumes "hosts \<noteq> []" "\<forall>h \<in> set hosts. set h \<inter> set ''?/,'' = {}"
  shows "url_hosts (join_hosts hosts @ db_text db) (user, pass) os =
    \<lparr>ui_addrs = hosts, ui_user = user, ui_pass = pass, ui_db = db, ui_options = os\<rparr>"
proof -
  have "split_on CHR '','' (join_hosts hosts) = hosts" by (rule split_hosts) (use assms in fastforce)+
  moreover have "CHR ''/'' \<notin> set (join_hosts hosts)" by (rule join_hosts_clean; use assms(2) in fastforce)
  ultimately show ?thesis by (simp add: url_hosts_def cut_or_all_def db_text_def cut_at_append cut_at_None)
qed

lemma collector_uri_extracted:
  assumes "user \<noteq> []" "hosts \<noteq> []" "\<forall>h \<in> set hosts. set h \<inter> set ''?/,'' = {}" "CHR ''?'' \<notin> set db"
  shows "extractURL (collector_uri user pass hosts db) =
    Inr \<lparr>ui_addrs = hosts, ui_user = user, ui_pass = pass, ui_db = db, ui_options = [(''connect'', ''direct'')]\<rparr>"
proof -
  define creds where "creds = QueryEscape user @ CHR '':'' # QueryEscape pass"
  define place where "place = join_hosts hosts @ db_text db"
  have "CHR ''?'' \<notin> set (join_hosts hosts)" by (rule join_hosts_clean; use assms(3) in fastforce)
  then have q: "CHR ''?'' \<notin> set (creds @ CHR ''@'' # place)"
    using assms(4) QueryEscape_marks by (auto simp: db_text_def creds_def place_def)
  have opts: "url_options (option_fields [] ''connect=direct'') = Inr [(''connect'', ''direct'')]" by code_simp
  have at: "CHR ''@'' \<notin> set creds" using QueryEscape_marks by (auto simp: creds_def)
  have uri: "collector_uri user pass hosts db = url_scheme @ (creds @ CHR ''@'' # place) @ CHR ''?'' # ''connect=direct''"
    by (simp add: collector_uri_def url_scheme_def creds_def place_def)
  have "extractURL (collector_uri user pass hosts db) = Inr (url_hosts place (user, pass) [(''connect'', ''direct'')])"
    unfolding uri extractURL_parts [OF q opts]
    by (rule url_authority_user [OF at]) (simp add: creds_def url_user_escaped assms(1))
  then show ?thesis by (simp only: place_def url_hosts_joined [OF assms(2,3)])
qed

text \<open>C16: A connection string in the form that \<open>InitConnection\<close> asks for gives back the user name and the password that were
  escaped into it, whatever bytes they have, and its hosts and database.\<close>

theorem connection_string_read:
  assumes "user \<noteq> []" "hosts \<noteq> []" "\<forall>h \<in> set hosts. set h \<inter> set ''?/,'' = {}" "CHR ''?'' \<notin> set db"
  shows "\<exists>info. ParseURL (collector_uri user pass hosts db) = Inr info \<and> di_Username info = user \<and> di_Password info = pass \<and>
    di_Addrs info = hosts \<and> di_Database info = db \<and> di_Direct info"
proof -
  have "read_options [(''connect'', ''direct'')] no_opts = Inr (no_opts\<lparr>do_direct := True\<rparr>)"
    by (simp add: url_option_def)
  then show ?thesis
    by (simp add: ParseURL_def collector_uri_extracted [OF assms] no_opts_def)
qed

theorem connection_string_read_witness:
  "\<exists>info. ParseURL (collector_uri ''mrte'' ''p@ss:w/rd?'' [''127.0.0.1:27017'', ''db2''] ''mrte2'') = Inr info \<and>
    di_Username info = ''mrte'' \<and> di_Password info = ''p@ss:w/rd?'' \<and> di_Addrs info = [''127.0.0.1:27017'', ''db2''] \<and>
    di_Database info = ''mrte2'' \<and> di_Direct info"
  by (rule connection_string_read) simp_all

subsection \<open>Write concern\<close>

definition plain_safety :: get_last_error where
  "plain_safety = \<lparr>gle_W = NoW, gle_WTimeout = 0, gle_FSync = False, gle_J = False\<rparr>"

lemma SetSafe_none: "ms_safeOp (SetSafe (Some no_safe) s) = Some plain_safety"
  by (simp add: SetSafe_def ensureSafe_def no_safe_def wanted_w_def plain_safety_def)

lemma dialled_safety:
  assumes "DialWithInfo ping info = Inr s"
  shows "ms_safeOp (ds_settings s) = Some plain_safety"
proof -
  have "di_Safe (with_defaults (DialInfo_Copy info)) = no_safe" by (simp add: with_defaults_def DialInfo_Copy_def)
  then show ?thesis
    using assms SetSafe_none
    by (auto simp: DialWithInfo_def Let_def session_SetMode_def session_SetSafe_def split: option.splits)
qed

text \<open>C28: Whatever a connection string asks of writes by \<open>w\<close>, \<open>j\<close> and \<open>wtimeoutMS\<close>, the sessions that the collector inserts with
  check for errors and ask for nothing more: \<open>DialInfo.Copy\<close> does not copy \<open>Safe\<close>.\<close>

theorem write_concern_dropped:
  assumes "Dial ping url = Inr connection"
  shows "ms_safeOp (ds_settings (GetSession connection)) = Some plain_safety \<and>
    write_concern (ms_safeOp (ds_settings (GetSession connection))) = GD [(bytes_of_string ''getLastError'', GInt 1)]"
proof -
  obtain info s where s: "DialWithInfo ping info = Inr s"
    "connection = session_SetSocketTimeout (60 * 10 ^ 9) (s\<lparr>ds_syncTimeout := 60 * 10 ^ 9\<rparr>)"
    using assms by (auto simp: Dial_def DialWithTimeout_def map_sum_def split: sum.splits)
  have "ms_safeOp (ds_settings (GetSession connection)) = Some plain_safety"
    using dialled_safety [OF s(1)]
    by (simp add: s(2) GetSession_def session_Clone_def copySession_def session_SetSocketTimeout_def)
  then show ?thesis by (simp add: write_concern_def gle_doc_def plain_safety_def)
qed

definition durable_uri :: string where
  "durable_uri = ''mongodb://127.0.0.1:27017?w=majority&j=true''"

lemma durable_uri_asks:
  "\<exists>info. ParseURL durable_uri = Inr info \<and> safe_WMode (di_Safe info) = ''majority'' \<and> safe_J (di_Safe info)"
proof -
  have "extractURL durable_uri = Inr \<lparr>ui_addrs = [''127.0.0.1:27017''], ui_user = [], ui_pass = [], ui_db = [],
      ui_options = [(''w'', ''majority''), (''j'', ''true'')]\<rparr>"
    by code_simp
  then show ?thesis by (simp add: ParseURL_def url_option_def ParseBool_def no_opts_def)
qed

theorem write_concern_dropped_witness:
  "\<exists>info s. ParseURL durable_uri = Inr info \<and> safe_WMode (di_Safe info) = ''majority'' \<and> safe_J (di_Safe info) \<and>
    Dial (\<lambda>s. None) durable_uri = Inr s \<and> ms_safeOp (ds_settings (GetSession s)) = Some plain_safety"
proof -
  obtain info where i: "ParseURL durable_uri = Inr info" "safe_WMode (di_Safe info) = ''majority''" "safe_J (di_Safe info)"
    using durable_uri_asks by blast
  obtain s where s: "Dial (\<lambda>s. None) durable_uri = Inr s"
    using i(1) by (simp add: Dial_def DialWithTimeout_def DialWithInfo_def Let_def)
  from write_concern_dropped [OF s] i s show ?thesis by blast
qed

end
