(* ===== verification/Fifo.thy ===== *)
theory Fifo
  imports Main
begin

text \<open>
  The contract of a first-in first-out queue, for every data structure of the sources that is one: \<open>ok\<close> is the
  invariant of the structure and \<open>content\<close> its elements in order. An operation that is not possible is \<open>None\<close>.
\<close>

datatype 'a fifo_op = Send 'a | Recv

fun fifo_run ::
  "('c \<Rightarrow> 'a \<Rightarrow> 'c option) \<Rightarrow> ('c \<Rightarrow> ('a \<times> 'c) option) \<Rightarrow> 'a fifo_op list \<Rightarrow> 'c \<Rightarrow> ('a list \<times> 'c) option" where
  "fifo_run send recv [] c = Some ([], c)"
| "fifo_run send recv (Send x # ops) c = (case send c x of None \<Rightarrow> None | Some c \<Rightarrow> fifo_run send recv ops c)"
| "fifo_run send recv (Recv # ops) c =
     (case recv c of
        None \<Rightarrow> None
      | Some (x, c) \<Rightarrow> map_option (\<lambda>(got, c). (x # got, c)) (fifo_run send recv ops c))"

fun sent_by :: "'a fifo_op list \<Rightarrow> 'a list" where
  "sent_by [] = []"
| "sent_by (Send x # ops) = x # sent_by ops"
| "sent_by (Recv # ops) = sent_by ops"

locale fifo =
  fixes send :: "'c \<Rightarrow> 'a \<Rightarrow> 'c option"
    and recv :: "'c \<Rightarrow> ('a \<times> 'c) option"
    and content :: "'c \<Rightarrow> 'a list"
    and ok :: "'c \<Rightarrow> bool"
  assumes send_ok: "send c x = Some c' \<Longrightarrow> ok c \<Longrightarrow> ok c'"
    and send_content: "send c x = Some c' \<Longrightarrow> ok c \<Longrightarrow> content c' = content c @ [x]"
    and recv_ok: "recv c = Some (x, c') \<Longrightarrow> ok c \<Longrightarrow> ok c'"
    and recv_content: "recv c = Some (x, c') \<Longrightarrow> ok c \<Longrightarrow> content c = x # content c'"
    and recv_blocks: "ok c \<Longrightarrow> recv c = None \<longleftrightarrow> content c = []"
begin

lemma recv_cases:
  "ok c \<Longrightarrow> content c = x # xs \<Longrightarrow> \<exists>c'. recv c = Some (x, c') \<and> ok c' \<and> content c' = xs"
  using recv_blocks [of c] recv_content [of c] recv_ok [of c] by (cases "recv c") force+

text \<open>In any order of operations, what came out and what is left is what was there and what was sent.\<close>

lemma run_content:
  "fifo_run send recv ops c = Some (got, c') \<Longrightarrow> ok c \<Longrightarrow> ok c' \<and> got @ content c' = content c @ sent_by ops"
proof (induction ops arbitrary: c got)
  case (Cons a ops)
  show ?case
  proof (cases a)
    case (Send x)
    with Cons.prems obtain d where d: "send c x = Some d" "fifo_run send recv ops d = Some (got, c')"
      by (auto split: option.splits)
    from Cons.IH [OF d(2) send_ok [OF d(1) Cons.prems(2)]] show ?thesis
      by (simp add: Send send_content [OF d(1) Cons.prems(2)])
  next
    case Recv
    with Cons.prems obtain x d rest where d: "recv c = Some (x, d)" "fifo_run send recv ops d = Some (rest, c')" "got = x # rest"
      by (auto split: option.splits)
    from Cons.IH [OF d(2) recv_ok [OF d(1) Cons.prems(2)]] show ?thesis
      by (simp add: Recv d(3) recv_content [OF d(1) Cons.prems(2)])
  qed
qed simp

end

text \<open>A queue of bounded capacity.\<close>

locale channel = fifo +
  fixes cap :: nat
  assumes send_blocks: "ok c \<Longrightarrow> send c x = None \<longleftrightarrow> cap \<le> length (content c)"
begin

lemma send_bounded: "send c x = Some c' \<Longrightarrow> ok c \<Longrightarrow> length (content c') \<le> cap"
  using send_blocks [of c x] send_content [of c x c'] by force

lemma recv_bounded:
  "recv c = Some (x, c') \<Longrightarrow> length (content c) \<le> cap \<Longrightarrow> ok c \<Longrightarrow> length (content c') \<le> cap"
  using recv_content [of c x c'] by simp

end

end
