(* ===== verification/MgoRing.thy ===== *)
theory MgoRing
  imports Fifo MrteTypes
begin

text \<open>
  \<open>mgo/queue.go\<close>: the ring of documents between the reader of a socket and an iterator. An element is a value or
  nil, which is also what an empty queue gives. Positions are natural numbers; the ring is a \<open>fifo\<close>.
\<close>

record 'a mgo_queue =
  q_elems :: "'a option list"
  q_nelems :: nat
  q_popi :: nat
  q_pushi :: nat

definition queue_Len :: "'a mgo_queue \<Rightarrow> nat" where
  "queue_Len q = q_nelems q"

definition newcap :: "nat \<Rightarrow> nat" where
  "newcap curcap = (if curcap = 0 then 8 else if curcap < 1024 then curcap * 2 else curcap + curcap div 4)"

definition queue_expand :: "'a mgo_queue \<Rightarrow> 'a mgo_queue go" where
  "queue_expand q =
     (let cur = length (q_elems q); new = newcap cur in
      if q_popi q = 0 then Inr (q\<lparr>q_elems := q_elems q @ replicate (new - cur) None, q_pushi := cur\<rparr>)
      else
        go_bind (go_slice (q_elems q) 0 (q_popi q)) (\<lambda>front.
        go_bind (go_slice_from (q_elems q) (q_popi q)) (\<lambda>back.
          let newpopi = new - (cur - q_popi q)
          in Inr (q\<lparr>q_elems := front @ replicate (newpopi - q_popi q) None @ back, q_popi := newpopi\<rparr>))))"

definition next_index :: "nat \<Rightarrow> 'b list \<Rightarrow> nat go" where
  "next_index i xs = go_bind (go_rem (int i + 1) (int (length xs))) (\<lambda>r. Inr (nat r))"

definition queue_Push :: "'a option \<Rightarrow> 'a mgo_queue \<Rightarrow> 'a mgo_queue go" where
  "queue_Push elem q =
     go_bind (if q_nelems q = length (q_elems q) then queue_expand q else Inr q) (\<lambda>q.
     go_bind (go_store (q_elems q) (int (q_pushi q)) elem) (\<lambda>elems.
     go_bind (next_index (q_pushi q) elems) (\<lambda>i.
       Inr (q\<lparr>q_elems := elems, q_nelems := q_nelems q + 1, q_pushi := i\<rparr>))))"

definition queue_Pop :: "'a mgo_queue \<Rightarrow> ('a option \<times> 'a mgo_queue) go" where
  "queue_Pop q =
     (if q_nelems q = 0 then Inr (None, q)
      else
        go_bind (go_at (q_elems q) (q_popi q)) (\<lambda>elem.
        go_bind (go_store (q_elems q) (int (q_popi q)) None) (\<lambda>elems.
        go_bind (next_index (q_popi q) elems) (\<lambda>i.
          Inr (elem, q\<lparr>q_elems := elems, q_nelems := q_nelems q - 1, q_popi := i\<rparr>)))))"

definition new_queue :: "'a mgo_queue" where
  "new_queue = \<lparr>q_elems = [], q_nelems = 0, q_popi = 0, q_pushi = 0\<rparr>"

subsection \<open>The ring holds a list\<close>

definition ring_item :: "'a mgo_queue \<Rightarrow> nat \<Rightarrow> 'a option" where
  "ring_item q k = q_elems q ! ((q_popi q + k) mod length (q_elems q))"

definition ring_content :: "'a mgo_queue \<Rightarrow> 'a option list" where
  "ring_content q = map (ring_item q) [0..<q_nelems q]"

definition ring_ok :: "'a mgo_queue \<Rightarrow> bool" where
  "ring_ok q \<longleftrightarrow>
     (if q_elems q = [] then q_nelems q = 0 \<and> q_popi q = 0 \<and> q_pushi q = 0
      else q_nelems q \<le> length (q_elems q) \<and> q_popi q < length (q_elems q) \<and>
        q_pushi q = (q_popi q + q_nelems q) mod length (q_elems q))"

lemma newcap_grows: "n < newcap n"
  by (auto simp: newcap_def div_greater_zero_iff)

lemma next_index_ring: "xs \<noteq> [] \<Longrightarrow> next_index i xs = Inr ((i + 1) mod length xs)"
  by (simp add: next_index_def go_rem_nonneg nat_mod_distrib nat_add_distrib)

text \<open>The ring is unrolled, so that there is room behind the last element.\<close>

lemma expand_ring:
  assumes "ring_ok q" "q_nelems q = length (q_elems q)"
  shows "\<exists>q'. queue_expand q = Inr q' \<and> ring_ok q' \<and> q_nelems q' = q_nelems q \<and>
    length (q_elems q') = newcap (length (q_elems q)) \<and> ring_content q' = ring_content q"
proof (cases "q_popi q = 0")
  case True
  let ?cur = "length (q_elems q)"
  define q' where "q' = q\<lparr>q_elems := q_elems q @ replicate (newcap ?cur - ?cur) None, q_pushi := ?cur\<rparr>"
  have "queue_expand q = Inr q'" by (simp add: queue_expand_def True Let_def q'_def)
  moreover have "ring_ok q'" using assms True newcap_grows [of ?cur] by (auto simp: ring_ok_def q'_def)
  moreover have "ring_content q' = ring_content q"
    using assms(2) True newcap_grows [of ?cur] by (auto simp: ring_content_def ring_item_def q'_def nth_append)
  ultimately show ?thesis using newcap_grows [of ?cur] by (auto simp: q'_def intro!: exI [of _ q'])
next
  case False
  let ?cur = "length (q_elems q)" and ?p = "q_popi q"
  define new where "new = newcap ?cur"
  define at where "at = new - (?cur - ?p)"
  have p: "0 < ?p" "?p < ?cur" "q_elems q \<noteq> []" "q_pushi q = ?p"
    using assms False by (auto simp: ring_ok_def split: if_splits)
  have new: "?cur < new" unfolding new_def by (rule newcap_grows)
  have at: "?p < at" "at + (?cur - ?p) = new" "at < new" using p new by (auto simp: at_def)
  define q' where "q' = q\<lparr>q_elems := take ?p (q_elems q) @ replicate (at - ?p) None @ drop ?p (q_elems q), q_popi := at\<rparr>"
  have len: "length (q_elems q') = new" using p at new by (simp add: q'_def)
  have "queue_expand q = Inr q'" using p False by (simp add: queue_expand_def Let_def q'_def at_def new_def)
  moreover have "ring_ok q'"
  proof -
    have "(at + ?cur) mod new = ?p"
    proof -
      have "at + ?cur = new + ?p" using p at by linarith
      then show ?thesis using p new by simp
    qed
    moreover have "q_elems q' \<noteq> []" using len new by force
    ultimately show ?thesis using p at new len assms(2) by (simp add: ring_ok_def q'_def)
  qed
  moreover have "ring_item q' k = ring_item q k" if "k < ?cur" for k
  proof (cases "k < ?cur - ?p")
    case True
    then have "(at + k) mod new = at + k" "(?p + k) mod ?cur = ?p + k" using at by auto
    moreover have "\<not> at + k - ?p < at - ?p" using at by linarith
    ultimately show ?thesis using p at len True by (simp add: ring_item_def q'_def nth_append)
  next
    case False
    then obtain j where j: "k = ?cur - ?p + j" by (metis le_Suc_ex not_less)
    then have "at + k = new + j" "?p + k = ?cur + j" "j < ?p" using that p at by linarith+
    moreover have "(new + j) mod new = j" "(?cur + j) mod ?cur = j" using \<open>j < ?p\<close> p new by simp_all
    ultimately show ?thesis using len p by (simp add: ring_item_def q'_def nth_append)
  qed
  then have "ring_content q' = ring_content q" using assms(2) by (simp add: ring_content_def q'_def)
  ultimately show ?thesis using len by (auto simp: new_def q'_def intro!: exI [of _ q'])
qed

lemma push_room:
  fixes q :: "'a mgo_queue" and x :: "'a option"
  assumes "ring_ok q" "q_nelems q < length (q_elems q)"
  defines "q' \<equiv> q\<lparr>q_elems := (q_elems q)[q_pushi q := x], q_nelems := q_nelems q + 1,
    q_pushi := (q_pushi q + 1) mod length (q_elems q)\<rparr>"
  shows "queue_Push x q = Inr q'" "ring_ok q'" "ring_content q' = ring_content q @ [x]"
proof -
  have ne: "q_elems q \<noteq> []" using assms(2) by auto
  then have ok: "q_popi q < length (q_elems q)" "q_pushi q = (q_popi q + q_nelems q) mod length (q_elems q)"
    using assms(1) by (auto simp: ring_ok_def)
  then have pushi: "q_pushi q < length (q_elems q)" using ne by simp
  show "queue_Push x q = Inr q'"
    using assms(2) pushi ne by (simp add: queue_Push_def go_store_def next_index_ring q'_def)
  show "ring_ok q'" using assms(2) ok ne by (simp add: ring_ok_def q'_def mod_Suc_eq)
  have "ring_item q' k = ring_item q k" if "k < q_nelems q" for k
  proof -
    have "(q_popi q + k) mod length (q_elems q) \<noteq> (q_popi q + q_nelems q) mod length (q_elems q)"
    proof
      assume "(q_popi q + k) mod length (q_elems q) = (q_popi q + q_nelems q) mod length (q_elems q)"
      then have "k mod length (q_elems q) = q_nelems q mod length (q_elems q)" by (simp add: nat_mod_eq_iff)
      then show False using that assms(2) by simp
    qed
    then show ?thesis by (simp add: ring_item_def q'_def ok(2))
  qed
  moreover have "ring_item q' (q_nelems q) = x" using pushi by (simp add: ring_item_def q'_def ok(2))
  ultimately show "ring_content q' = ring_content q @ [x]" by (simp add: ring_content_def) (simp add: q'_def)
qed

lemma push_ring:
  assumes "ring_ok q"
  shows "\<exists>q'. queue_Push x q = Inr q' \<and> ring_ok q' \<and> ring_content q' = ring_content q @ [x]"
proof (cases "q_nelems q = length (q_elems q)")
  case True
  from expand_ring [OF assms True] obtain p where p: "queue_expand q = Inr p" "ring_ok p" "q_nelems p = q_nelems q"
    "length (q_elems p) = newcap (length (q_elems q))" "ring_content p = ring_content q" by blast
  then have room: "q_nelems p < length (q_elems p)" using True newcap_grows by simp
  then have "queue_Push x q = queue_Push x p" using p(1) True by (simp add: queue_Push_def)
  with push_room [OF p(2) room, of x] p(5) show ?thesis by auto
next
  case False
  then have "q_nelems q < length (q_elems q)" using assms by (auto simp: ring_ok_def split: if_splits)
  from push_room [OF assms this, of x] show ?thesis by blast
qed

lemma pop_ring:
  assumes "ring_ok q" "q_nelems q \<noteq> 0"
  shows "\<exists>x q'. queue_Pop q = Inr (x, q') \<and> ring_ok q' \<and> ring_content q = x # ring_content q'"
proof -
  let ?n = "length (q_elems q)"
  have ok: "q_elems q \<noteq> []" "q_nelems q \<le> ?n" "q_popi q < ?n" "q_pushi q = (q_popi q + q_nelems q) mod ?n"
    using assms by (auto simp: ring_ok_def split: if_splits)
  define q' where "q' = q\<lparr>q_elems := (q_elems q)[q_popi q := None], q_nelems := q_nelems q - 1, q_popi := (q_popi q + 1) mod ?n\<rparr>"
  have "queue_Pop q = Inr (q_elems q ! q_popi q, q')"
    using assms(2) ok by (simp add: queue_Pop_def go_store_def next_index_ring q'_def)
  moreover have "ring_ok q'"
  proof -
    obtain m where m: "q_nelems q = Suc m" using assms(2) by (cases "q_nelems q") auto
    have "q_pushi q = ((q_popi q + 1) mod ?n + (q_nelems q - 1)) mod ?n"
      by (simp add: ok(4) m mod_add_left_eq)
    then show ?thesis using ok by (simp add: ring_ok_def q'_def)
  qed
  moreover have "ring_item q' k = ring_item q (Suc k)" if "Suc k < q_nelems q" for k
  proof -
    have "(q_popi q + Suc k) mod ?n \<noteq> q_popi q"
    proof
      assume "(q_popi q + Suc k) mod ?n = q_popi q"
      then have "(q_popi q + Suc k) mod ?n = (q_popi q + 0) mod ?n" using ok(3) by simp
      then have "Suc k mod ?n = 0 mod ?n" by (simp only: nat_mod_eq_iff) simp
      then show False using that ok(2) by simp
    qed
    moreover have "((q_popi q + 1) mod ?n + k) mod ?n = (q_popi q + Suc k) mod ?n" by (simp add: mod_add_left_eq)
    ultimately show ?thesis by (simp add: ring_item_def q'_def)
  qed
  then have "ring_content q = (q_elems q ! q_popi q) # ring_content q'"
    using assms(2) ok(3) by (cases "q_nelems q") (auto simp: ring_content_def q'_def ring_item_def upt_conv_Cons map_Suc_upt [symmetric] simp del: upt_Suc)
  ultimately show ?thesis by blast
qed

text \<open>The contract, with \<open>Pop\<close> of an empty queue as a receive that is not possible.\<close>

definition ring_send :: "'a mgo_queue \<Rightarrow> 'a option \<Rightarrow> 'a mgo_queue option" where
  "ring_send q x = (case queue_Push x q of Inl e \<Rightarrow> None | Inr q' \<Rightarrow> Some q')"

definition ring_recv :: "'a mgo_queue \<Rightarrow> ('a option \<times> 'a mgo_queue) option" where
  "ring_recv q = (if queue_Len q = 0 then None else case queue_Pop q of Inl e \<Rightarrow> None | Inr r \<Rightarrow> Some r)"

lemma length_ring_content: "length (ring_content q) = queue_Len q"
  by (simp add: ring_content_def queue_Len_def)

interpretation ring: fifo ring_send ring_recv ring_content ring_ok
proof unfold_locales
  fix c c' :: "'a mgo_queue" and x
  assume ok: "ring_ok c"
  show "ring_send c x = Some c' \<Longrightarrow> ring_ok c'" "ring_send c x = Some c' \<Longrightarrow> ring_content c' = ring_content c @ [x]"
    using push_ring [OF ok, of x] by (auto simp: ring_send_def)
  show "ring_recv c = Some (x, c') \<Longrightarrow> ring_ok c'" "ring_recv c = Some (x, c') \<Longrightarrow> ring_content c = x # ring_content c'"
    using pop_ring [OF ok] by (auto simp: ring_recv_def queue_Len_def split: if_splits)
  show "ring_recv c = None \<longleftrightarrow> ring_content c = []"
    using pop_ring [OF ok] length_ring_content [of c] by (auto simp: ring_recv_def queue_Len_def)
qed

subsection \<open>Runs\<close>

datatype 'a queue_op = Push "'a option" | Pop

fun queue_run :: "'a queue_op list \<Rightarrow> 'a mgo_queue \<Rightarrow> ('a option list \<times> 'a mgo_queue) go" where
  "queue_run [] q = Inr ([], q)"
| "queue_run (Push x # ops) q = go_bind (queue_Push x q) (queue_run ops)"
| "queue_run (Pop # ops) q =
     go_bind (queue_Pop q) (\<lambda>(x, q). go_bind (queue_run ops q) (\<lambda>(out, q). Inr (x # out, q)))"

text \<open>The same operations on a list.\<close>

fun list_run :: "'a queue_op list \<Rightarrow> 'a option list \<Rightarrow> 'a option list \<times> 'a option list" where
  "list_run [] l = ([], l)"
| "list_run (Push x # ops) l = list_run ops (l @ [x])"
| "list_run (Pop # ops) l =
     (case l of
        [] \<Rightarrow> (let (out, l) = list_run ops [] in (None # out, l))
      | x # l \<Rightarrow> (let (out, l) = list_run ops l in (x # out, l)))"

lemma queue_Push_sends: "ring_ok q \<Longrightarrow> \<exists>q'. queue_Push x q = Inr q' \<and> ring_send q x = Some q'"
  using push_ring [of q x] by (auto simp: ring_send_def)

lemma queue_Pop_receives:
  "ring_ok q \<Longrightarrow> queue_Pop q = (case ring_recv q of None \<Rightarrow> Inr (None, q) | Some r \<Rightarrow> Inr r)"
  using pop_ring [of q] by (auto simp: ring_recv_def queue_Len_def queue_Pop_def)

lemma queue_run_list:
  "ring_ok q \<Longrightarrow> \<exists>q'. queue_run ops q = Inr (fst (list_run ops (ring_content q)), q') \<and> ring_ok q' \<and>
    ring_content q' = snd (list_run ops (ring_content q))"
proof (induction ops arbitrary: q)
  case (Cons a ops)
  note ok = Cons.prems and IH = Cons.IH
  show ?case
  proof (cases a)
    case (Push x)
    from queue_Push_sends [OF ok] obtain p where p: "queue_Push x q = Inr p" "ring_send q x = Some p" by blast
    from IH [OF ring.send_ok [OF p(2) ok]] show ?thesis
      by (simp add: Push p(1) ring.send_content [OF p(2) ok])
  next
    case Pop
    show ?thesis
    proof (cases "ring_content q")
      case Nil
      then have "queue_Pop q = Inr (None, q)"
        using ring.recv_blocks [OF ok] by (simp add: queue_Pop_receives [OF ok])
      with IH [OF ok] show ?thesis by (auto simp: Pop Nil split_beta)
    next
      case (Cons x l)
      from ring.recv_cases [OF ok this] obtain p where p: "ring_recv q = Some (x, p)" "ring_ok p" "ring_content p = l" by blast
      with IH [OF p(2)] show ?thesis by (auto simp: Pop Cons queue_Pop_receives [OF ok] split_beta)
    qed
  qed
qed simp

lemma new_queue_ok: "ring_ok new_queue" "ring_content new_queue = []"
  by (simp_all add: ring_ok_def ring_content_def new_queue_def)

text \<open>C25: The ring buffer is a queue: whatever is pushed and popped, in any order and past any growth of the ring, \<open>Pop\<close> gives
  the elements in the order in which they were pushed and nil when there is none, \<open>Len\<close> is their number, and no index
  leaves the ring.\<close>

theorem ring_is_a_queue:
  "\<exists>q. queue_run ops new_queue = Inr (fst (list_run ops []), q) \<and> queue_Len q = length (snd (list_run ops []))"
  using queue_run_list [OF new_queue_ok(1), of ops]
  by (auto simp: new_queue_ok(2) length_ring_content [symmetric])

end
