(* ===== verification/DriverOpen.thy ===== *)
theory DriverOpen
  imports DriverDsn DriverAuth
begin

text \<open>
  \<open>Open\<close> of \<open>driver.go\<close>: a data source name, the connection that is dialled for it, and the connection phase. What
  dialling gives is a function of the configuration, and \<open>order\<close> is the order in which the parameters are seen.
\<close>

definition dsn_Open ::
  "'key dsn_env \<Rightarrow> ('key conn_config \<Rightarrow> driver_error + net_conn) \<Rightarrow> 'key crypto \<Rightarrow>
   (net_conn \<Rightarrow> driver_error + net_conn) \<Rightarrow> (bytes \<Rightarrow> driver_error + 'time) \<Rightarrow>
   ((string \<times> string) list \<Rightarrow> (string \<times> string) list) \<Rightarrow> infile_world \<Rightarrow> (bytes \<Rightarrow> bytes) \<Rightarrow> string \<Rightarrow>
   ((dsn_error + driver_error) + 'key mysqlConn) go" where
  "dsn_Open env dial cr tls_client pdt order world spare dsn =
     go_bind (ParseDSN env dsn) (\<lambda>r.
       case r of
         Inl e \<Rightarrow> Inr (Inl (Inl e))
       | Inr cfg \<Rightarrow>
           (case dial cfg of
              Inl e \<Rightarrow> Inr (Inl (Inr e))
            | Inr nc \<Rightarrow>
                go_bind (driver_Open cr tls_client pdt (order (cf_Params cfg)) (new_conn cfg nc world spare)) (\<lambda>(res, mc).
                  Inr (case res of Inl e \<Rightarrow> Inl (Inr e) | Inr _ \<Rightarrow> Inr mc))))"

end
