(* ===== verification/GopacketLayers.thy ===== *)
theory GopacketLayers
  imports MrteTypes
begin

text \<open>
  The vendored \<open>google/gopacket\<close> decoders that the slow parser uses: Ethernet, 802.1Q, IPv4,
  IPv6 with its hop-by-hop header, the IPv6 extension skipper, TCP and Payload.

  A decoder returns whether it called \<open>SetTruncated\<close>, together with the decoded layer, an
  error or a panic. A slice taken past the length but inside the capacity of its byte array does
  not panic in Go; where the code does this (an option longer than the options area) the next
  check returns an error, so the model takes what is there and reaches the same check.
\<close>

subsection \<open>Layer types and enumerations\<close>

datatype LayerType =
    LayerTypeZero | LayerTypePayload | LayerTypeFragment
  | LayerTypeEthernet | LayerTypeDot1Q | LayerTypeLLC | LayerTypeARP
  | LayerTypeIPv4 | LayerTypeIPv6
  | LayerTypeIPv6HopByHop | LayerTypeIPv6Routing | LayerTypeIPv6Fragment | LayerTypeIPv6Destination
  | LayerTypeTCP | LayerTypeUDP | LayerTypeDNS
  | LayerTypeNamed string

text \<open>The tables of \<open>enums.go\<close>: a value without an entry has the zero layer type.\<close>

definition EthernetType_LayerType :: "16 word \<Rightarrow> LayerType" where
  "EthernetType_LayerType t =
     (if t = 0 then LayerTypeLLC
      else if t = 0x0800 then LayerTypeIPv4
      else if t = 0x86DD then LayerTypeIPv6
      else if t = 0x0806 then LayerTypeARP
      else if t = 0x8100 then LayerTypeDot1Q
      else if t = 0x8863 \<or> t = 0x8864 then LayerTypeNamed ''PPPoE''
      else if t = 0x9000 then LayerTypeNamed ''EthernetCTP''
      else if t = 0x2000 then LayerTypeNamed ''CiscoDiscovery''
      else if t = 0x01a2 then LayerTypeNamed ''NortelDiscovery''
      else if t = 0x88cc then LayerTypeNamed ''LinkLayerDiscovery''
      else if t = 0x8847 \<or> t = 0x8848 then LayerTypeNamed ''MPLS''
      else if t = 0x888e then LayerTypeNamed ''EAPOL''
      else if t = 0x88a8 then LayerTypeDot1Q
      else if t = 0x6558 then LayerTypeEthernet
      else LayerTypeZero)"

definition IPProtocol_LayerType :: "byte \<Rightarrow> LayerType" where
  "IPProtocol_LayerType p =
     (if p = 4 then LayerTypeIPv4
      else if p = 6 then LayerTypeTCP
      else if p = 17 then LayerTypeUDP
      else if p = 1 then LayerTypeNamed ''ICMPv4''
      else if p = 58 then LayerTypeNamed ''ICMPv6''
      else if p = 132 then LayerTypeNamed ''SCTP''
      else if p = 41 then LayerTypeIPv6
      else if p = 94 then LayerTypeIPv4
      else if p = 97 then LayerTypeNamed ''EtherIP''
      else if p = 27 then LayerTypeNamed ''RUDP''
      else if p = 47 then LayerTypeNamed ''GRE''
      else if p = 0 then LayerTypeIPv6HopByHop
      else if p = 43 then LayerTypeIPv6Routing
      else if p = 44 then LayerTypeIPv6Fragment
      else if p = 60 then LayerTypeIPv6Destination
      else if p = 51 then LayerTypeNamed ''IPSecAH''
      else if p = 50 then LayerTypeNamed ''IPSecESP''
      else if p = 136 then LayerTypeNamed ''UDPLite''
      else if p = 137 then LayerTypeNamed ''MPLS''
      else if p = 59 then LayerTypePayload
      else if p = 2 then LayerTypeNamed ''IGMP''
      else if p = 112 then LayerTypeNamed ''VRRP''
      else LayerTypeZero)"

definition tcpPortLayerType :: "16 word \<Rightarrow> LayerType" where
  "tcpPortLayerType port = (if port = 53 then LayerTypeDNS else LayerTypeZero)"

definition TCPPort_LayerType :: "16 word \<Rightarrow> LayerType" where
  "TCPPort_LayerType port =
     (let lt = tcpPortLayerType port in if lt \<noteq> LayerTypeZero then lt else LayerTypePayload)"

subsection \<open>Decoder results\<close>

type_synonym 'a dec = "bool \<times> 'a or_err go"

definition dec_bind :: "'a go \<Rightarrow> ('a \<Rightarrow> 'b dec) \<Rightarrow> 'b dec" where
  "dec_bind m f = (case m of Inl p \<Rightarrow> (False, Inl p) | Inr x \<Rightarrow> f x)"

definition dec_ok :: "bool \<Rightarrow> 'a \<Rightarrow> 'a dec" where
  "dec_ok t x = (t, Inr (Inr x))"

definition dec_err :: "bool \<Rightarrow> string \<Rightarrow> 'a dec" where
  "dec_err t e = (t, Inr (Inl e))"

lemma dec_bind_simps [simp]:
  "dec_bind (Inl p) f = (False, Inl p)"
  "dec_bind (Inr x) f = f x"
  by (simp_all add: dec_bind_def)

lemma dec_bind_ok:
  "dec_bind m f = (t, Inr (Inr y)) \<longleftrightarrow> (\<exists>x. m = Inr x \<and> f x = (t, Inr (Inr y)))"
  by (cases m) simp_all

lemma dec_ok_err [simp]:
  "dec_ok t x = (t', Inr (Inr y)) \<longleftrightarrow> t' = t \<and> y = x"
  "dec_err t e = (t', Inr (Inr y)) \<longleftrightarrow> False"
  "snd (dec_ok t x) = Inr (Inr x)" "snd (dec_err t e) = Inr (Inl e)"
  by (auto simp: dec_ok_def dec_err_def)

definition read_be16 :: "bytes \<Rightarrow> nat \<Rightarrow> 16 word go" where
  "read_be16 data i = go_bind (go_slice data i (i + 2)) be_uint16"

definition read_be32 :: "bytes \<Rightarrow> nat \<Rightarrow> 32 word go" where
  "read_be32 data i = go_bind (go_slice data i (i + 4)) be_uint32"

subsection \<open>Ethernet and 802.1Q\<close>

record Ethernet =
  eth_SrcMAC :: bytes
  eth_DstMAC :: bytes
  eth_EthernetType :: "16 word"
  eth_Length :: "16 word"
  eth_Contents :: bytes
  eth_Payload :: bytes

definition Ethernet_DecodeFromBytes :: "bytes \<Rightarrow> Ethernet \<Rightarrow> Ethernet dec" where
  "Ethernet_DecodeFromBytes data eth =
     (if length data < 14 then dec_err False ''Ethernet packet too small''
      else
        dec_bind (go_slice data 0 6) (\<lambda>dst. dec_bind (go_slice data 6 12) (\<lambda>src.
        dec_bind (read_be16 data 12) (\<lambda>ty.
        dec_bind (go_slice data 0 14) (\<lambda>contents. dec_bind (go_slice_from data 14) (\<lambda>payload.
        let eth = eth\<lparr>eth_DstMAC := dst, eth_SrcMAC := src, eth_EthernetType := ty,
                      eth_Contents := contents, eth_Payload := payload\<rparr>
        in if ty < 0x0600 then
             let eth = eth\<lparr>eth_Length := ty, eth_EthernetType := 0\<rparr>;
                 cmp = int (length payload) - int (unat ty)
             in if cmp < 0 then dec_ok True eth
                else if 0 < cmp then
                  dec_bind (go_slice payload 0 (length payload - nat cmp)) (\<lambda>p.
                    dec_ok False (eth\<lparr>eth_Payload := p\<rparr>))
                else dec_ok False eth
           else dec_ok False eth))))))"

definition Ethernet_NextLayerType :: "Ethernet \<Rightarrow> LayerType" where
  "Ethernet_NextLayerType eth = EthernetType_LayerType (eth_EthernetType eth)"

record Dot1Q =
  dq_Priority :: byte
  dq_DropEligible :: bool
  dq_VLANIdentifier :: "16 word"
  dq_Type :: "16 word"
  dq_Contents :: bytes
  dq_Payload :: bytes

definition Dot1Q_DecodeFromBytes :: "bytes \<Rightarrow> Dot1Q \<Rightarrow> Dot1Q dec" where
  "Dot1Q_DecodeFromBytes data d =
     dec_bind (go_at data 0) (\<lambda>b0.
     dec_bind (read_be16 data 0) (\<lambda>vlan.
     dec_bind (read_be16 data 2) (\<lambda>ty.
     dec_bind (go_slice data 0 4) (\<lambda>contents. dec_bind (go_slice_from data 4) (\<lambda>payload.
       dec_ok False
         \<lparr>dq_Priority = drop_bit 5 (b0 AND 0xE0), dq_DropEligible = (b0 AND 0x10 \<noteq> 0),
          dq_VLANIdentifier = vlan AND 0x0FFF, dq_Type = ty,
          dq_Contents = contents, dq_Payload = payload\<rparr>)))))"

definition Dot1Q_NextLayerType :: "Dot1Q \<Rightarrow> LayerType" where
  "Dot1Q_NextLayerType d = EthernetType_LayerType (dq_Type d)"

subsection \<open>IPv4\<close>

record IPv4Option =
  o4_OptionType :: byte
  o4_OptionLength :: byte
  o4_OptionData :: bytes

record IPv4 =
  ip4_Version :: byte
  ip4_IHL :: byte
  ip4_TOS :: byte
  ip4_Length :: "16 word"
  ip4_Id :: "16 word"
  ip4_Flags :: byte
  ip4_FragOffset :: "16 word"
  ip4_TTL :: byte
  ip4_Protocol :: byte
  ip4_Checksum :: "16 word"
  ip4_SrcIP :: bytes
  ip4_DstIP :: bytes
  ip4_Options :: "IPv4Option list"
  ip4_Padding :: bytes
  ip4_Contents :: bytes
  ip4_Payload :: bytes

text \<open>
  The option loop. The \<open>break\<close> of the end-of-options case leaves the \<open>switch\<close>, not the loop,
  and that case appends the option once more than the others.
\<close>

function IPv4_options :: "bytes \<Rightarrow> IPv4Option list \<Rightarrow> bytes \<Rightarrow> (IPv4Option list \<times> bytes) or_err go" where
  "IPv4_options [] opts pad = Inr (Inr (opts, pad))"
| "IPv4_options (t # ds) opts pad =
     (if t = 0 then
        let opt = \<lparr>o4_OptionType = t, o4_OptionLength = 1, o4_OptionData = []\<rparr>
        in IPv4_options ds (opts @ [opt] @ [opt]) ds
      else if t = 1 then
        IPv4_options ds (opts @ [\<lparr>o4_OptionType = t, o4_OptionLength = 1, o4_OptionData = []\<rparr>]) pad
      else
        case ds of
          [] \<Rightarrow> Inl IndexOutOfRange
        | l # _ \<Rightarrow>
            let n = unat l in
            if n < 2 then Inl SliceOutOfRange
            else
              let opt = \<lparr>o4_OptionType = t, o4_OptionLength = l,
                         o4_OptionData = take (n - 2) (drop 2 (t # ds))\<rparr>
              in if n \<le> length (t # ds)
                 then IPv4_options (drop n (t # ds)) (opts @ [opt]) pad
                 else Inr (Inl (''IP option length exceeds remaining IP header size, option type '' @
                   decimal (unat t) @ '' length '' @ decimal n)))"
  by pat_completeness auto
termination
  by (relation "measure (\<lambda>(d, opts, pad). length d)") auto

text \<open>The second half of the decoder: the data are cut, and the header fields are set.\<close>

definition IPv4_take_options :: "bytes \<Rightarrow> bool \<Rightarrow> nat \<Rightarrow> IPv4 \<Rightarrow> IPv4 dec" where
  "IPv4_take_options data trunc hlen ip =
     dec_bind (go_slice data 0 hlen) (\<lambda>contents.
     dec_bind (go_slice_from data hlen) (\<lambda>payload.
     dec_bind (go_slice data 20 hlen) (\<lambda>area.
     case IPv4_options area [] (ip4_Padding ip) of
       Inl p \<Rightarrow> (trunc, Inl p)
     | Inr (Inl e) \<Rightarrow> dec_err trunc e
     | Inr (Inr (opts, pad)) \<Rightarrow>
         dec_ok trunc (ip\<lparr>ip4_Options := opts, ip4_Padding := pad,
                         ip4_Contents := contents, ip4_Payload := payload\<rparr>))))"

definition IPv4_check_lengths :: "bytes \<Rightarrow> IPv4 \<Rightarrow> IPv4 dec" where
  "IPv4_check_lengths data ip =
     (let ihl = ip4_IHL ip; len = ip4_Length ip; hlen = unat (ihl * 4)
      in if len < 20 then
           dec_err False (''Invalid (too small) IP length ('' @ decimal (unat len) @ '' < 20)'')
         else if ihl < 5 then
           dec_err False (''Invalid (too small) IP header length ('' @ decimal (unat ihl) @ '' < 5)'')
         else if unat len < hlen then
           dec_err False (''Invalid IP header length > IP length ('' @ decimal (unat ihl) @ '' > '' @
             decimal (unat len) @ '')'')
         else if unat len < length data then IPv4_take_options (take (unat len) data) False hlen ip
         else if length data < unat len then
           (if length data < unat ihl * 4 then dec_err True ''Not all IP header bytes available''
            else IPv4_take_options data True hlen ip)
         else IPv4_take_options data False hlen ip)"

definition IPv4_DecodeFromBytes :: "bytes \<Rightarrow> IPv4 \<Rightarrow> IPv4 dec" where
  "IPv4_DecodeFromBytes data ip =
     dec_bind (read_be16 data 6) (\<lambda>flagsfrags.
     dec_bind (go_at data 0) (\<lambda>b0. dec_bind (go_at data 1) (\<lambda>b1.
     dec_bind (read_be16 data 2) (\<lambda>len0. dec_bind (read_be16 data 4) (\<lambda>ident.
     dec_bind (go_at data 8) (\<lambda>b8. dec_bind (go_at data 9) (\<lambda>b9.
     dec_bind (read_be16 data 10) (\<lambda>csum.
     dec_bind (go_slice data 12 16) (\<lambda>src. dec_bind (go_slice data 16 20) (\<lambda>dst.
       IPv4_check_lengths data
         \<lparr>ip4_Version = drop_bit 4 b0, ip4_IHL = b0 AND 0x0F, ip4_TOS = b1,
          ip4_Length = (if len0 = 0 then word_of_nat (length data) else len0),
          ip4_Id = ident, ip4_Flags = ucast (drop_bit 13 flagsfrags),
          ip4_FragOffset = flagsfrags AND 0x1FFF, ip4_TTL = b8, ip4_Protocol = b9,
          ip4_Checksum = csum, ip4_SrcIP = src, ip4_DstIP = dst,
          ip4_Options = [], ip4_Padding = ip4_Padding ip,
          ip4_Contents = data, ip4_Payload = []\<rparr>))))))))))"

definition IPv4_NextLayerType :: "IPv4 \<Rightarrow> LayerType" where
  "IPv4_NextLayerType i =
     (if ip4_Flags i AND 1 \<noteq> 0 \<or> ip4_FragOffset i \<noteq> 0 then LayerTypeFragment
      else IPProtocol_LayerType (ip4_Protocol i))"


subsection \<open>IPv6, its hop-by-hop options and the extension skipper\<close>

definition IPProtocol_String :: "byte \<Rightarrow> string" where
  "IPProtocol_String p =
     (if p = 4 \<or> p = 94 then ''IPv4'' else if p = 6 then ''TCP'' else if p = 17 then ''UDP''
      else if p = 1 then ''ICMPv4'' else if p = 58 then ''ICMPv6'' else if p = 132 then ''SCTP''
      else if p = 41 then ''IPv6'' else if p = 97 then ''EtherIP'' else if p = 27 then ''RUDP''
      else if p = 47 then ''GRE'' else if p = 0 then ''IPv6HopByHop''
      else if p = 43 then ''IPv6Routing'' else if p = 44 then ''IPv6Fragment''
      else if p = 60 then ''IPv6Destination'' else if p = 51 then ''IPSecAH''
      else if p = 50 then ''IPSecESP'' else if p = 136 then ''UDPLite'' else if p = 137 then ''MPLS''
      else if p = 59 then ''NoNextHeader'' else if p = 2 then ''IGMP'' else if p = 112 then ''VRRP''
      else ''UnknownIPProtocol('' @ decimal (unat p) @ '')'')"

record ipv6HeaderTLVOption =
  tlv_OptionType :: byte
  tlv_OptionLength :: byte
  tlv_ActualLength :: nat
  tlv_OptionData :: bytes

record ipv6ExtensionBase =
  ext_NextHeader :: byte
  ext_HeaderLength :: byte
  ext_ActualLength :: nat
  ext_Contents :: bytes
  ext_Payload :: bytes

record IPv6 =
  ip6_Version :: byte
  ip6_TrafficClass :: byte
  ip6_FlowLabel :: "32 word"
  ip6_Length :: "16 word"
  ip6_NextHeader :: byte
  ip6_HopLimit :: byte
  ip6_SrcIP :: bytes
  ip6_DstIP :: bytes
  ip6_HopByHop :: bool                  \<comment> \<open>the pointer to the field \<open>hbh\<close> is not nil\<close>
  ip6_hbh_base :: ipv6ExtensionBase
  ip6_hbh_Options :: "ipv6HeaderTLVOption list"
  ip6_Contents :: bytes
  ip6_Payload :: bytes

definition decodeIPv6HeaderTLVOption :: "bytes \<Rightarrow> ipv6HeaderTLVOption go" where
  "decodeIPv6HeaderTLVOption data =
     go_bind (go_at data 0) (\<lambda>b0.
     if b0 = 0
     then Inr \<lparr>tlv_OptionType = 0, tlv_OptionLength = 0, tlv_ActualLength = 1, tlv_OptionData = []\<rparr>
     else
       go_bind (go_at data 1) (\<lambda>b1.
       let n = unat b1 + 2 in
       go_bind (go_slice data 2 n) (\<lambda>d.
         Inr \<lparr>tlv_OptionType = b0, tlv_OptionLength = b1, tlv_ActualLength = n, tlv_OptionData = d\<rparr>)))"

definition decodeIPv6ExtensionBase :: "bytes \<Rightarrow> ipv6ExtensionBase go" where
  "decodeIPv6ExtensionBase data =
     go_bind (go_at data 0) (\<lambda>b0. go_bind (go_at data 1) (\<lambda>b1.
     let n = unat b1 * 8 + 8 in
     go_bind (go_slice data 0 n) (\<lambda>contents. go_bind (go_slice_from data n) (\<lambda>payload.
       Inr \<lparr>ext_NextHeader = b0, ext_HeaderLength = b1, ext_ActualLength = n,
            ext_Contents = contents, ext_Payload = payload\<rparr>))))"

lemma tlv_ActualLength_pos: "decodeIPv6HeaderTLVOption data = Inr opt \<Longrightarrow> 0 < tlv_ActualLength opt"
  by (auto simp: decodeIPv6HeaderTLVOption_def go_bind_eq_Inr Let_def split: if_splits)

text \<open>
  The option loop of \<open>IPv6HopByHop.DecodeFromBytes\<close>. It appends to the options the layer holds
  already, and what it has appended stays when a later option panics.
\<close>

function hbh_options ::
  "bytes \<Rightarrow> nat \<Rightarrow> nat \<Rightarrow> ipv6HeaderTLVOption list \<Rightarrow> ipv6HeaderTLVOption list \<times> unit go" where
  "hbh_options data offset actual opts =
     (if offset < actual then
        case go_bind (go_slice_from data offset) decodeIPv6HeaderTLVOption of
          Inl p \<Rightarrow> (opts, Inl p)
        | Inr opt \<Rightarrow> hbh_options data (offset + tlv_ActualLength opt) actual (opts @ [opt])
      else (opts, Inr ()))"
  by pat_completeness auto
termination
  by (relation "measure (\<lambda>(data, offset, actual, opts). actual - offset)")
    (auto simp: go_bind_eq_Inr dest!: tlv_ActualLength_pos)

declare hbh_options.simps [simp del]

definition IPv6HopByHopOptionJumbogram :: byte where
  "IPv6HopByHopOptionJumbogram = 0xC2"

definition ipv6MaxPayloadLength :: nat where
  "ipv6MaxPayloadLength = 65535"

fun first_option :: "byte \<Rightarrow> ipv6HeaderTLVOption list \<Rightarrow> ipv6HeaderTLVOption option" where
  "first_option ty [] = None"
| "first_option ty (t # ts) = (if tlv_OptionType t = ty then Some t else first_option ty ts)"

definition getIPv6HopByHopJumboLength ::
  "ipv6HeaderTLVOption list \<Rightarrow> ((32 word \<times> bool) or_err) go" where
  "getIPv6HopByHopJumboLength opts =
     (case first_option IPv6HopByHopOptionJumbogram opts of
        None \<Rightarrow> Inr (Inr (0, False))
      | Some tlv \<Rightarrow>
          if length (tlv_OptionData tlv) \<noteq> 4
          then Inr (Inl ''Jumbo length TLV data must have length 4'')
          else go_bind (be_uint32 (tlv_OptionData tlv)) (\<lambda>l.
            if unat l \<le> ipv6MaxPayloadLength
            then Inr (Inl (''Jumbo length cannot be less than '' @ decimal (ipv6MaxPayloadLength + 1)))
            else Inr (Inr (l, True))))"

text \<open>The fixed header, up to the assignment of \<open>BaseLayer\<close>.\<close>

definition ip6_fixed_header :: "bytes \<Rightarrow> IPv6 \<Rightarrow> IPv6 go" where
  "ip6_fixed_header data ip6 =
     go_bind (go_at data 0) (\<lambda>b0.
     go_bind (read_be16 data 0) (\<lambda>w0. go_bind (read_be32 data 0) (\<lambda>d0.
     go_bind (read_be16 data 4) (\<lambda>len.
     go_bind (go_at data 6) (\<lambda>nh. go_bind (go_at data 7) (\<lambda>hl.
     go_bind (go_slice data 8 24) (\<lambda>src. go_bind (go_slice data 24 40) (\<lambda>dst.
     go_bind (go_slice data 0 40) (\<lambda>contents. go_bind (go_slice_from data 40) (\<lambda>payload.
       Inr (ip6\<lparr>ip6_Version := drop_bit 4 b0, ip6_TrafficClass := ucast (drop_bit 4 w0 AND 0x00FF),
                ip6_FlowLabel := d0 AND 0x000FFFFF, ip6_Length := len, ip6_NextHeader := nh,
                ip6_HopLimit := hl, ip6_SrcIP := src, ip6_DstIP := dst, ip6_HopByHop := False,
                ip6_Contents := contents, ip6_Payload := payload\<rparr>)))))))))))"

text \<open>Cutting the payload at \<open>pEnd\<close>; a short payload sets \<open>Truncated\<close>.\<close>

definition ip6_cut_payload :: "nat \<Rightarrow> IPv6 \<Rightarrow> IPv6 \<times> bool \<times> unit or_err go" where
  "ip6_cut_payload pEnd ip6 =
     (let short = (length (ip6_Payload ip6) < pEnd);
          pEnd = (if short then length (ip6_Payload ip6) else pEnd)
      in (ip6\<lparr>ip6_Payload := take pEnd (ip6_Payload ip6)\<rparr>, short, Inr (Inr ())))"

definition IPv6_DecodeFromBytes :: "bytes \<Rightarrow> IPv6 \<Rightarrow> IPv6 \<times> bool \<times> unit or_err go" where
  "IPv6_DecodeFromBytes data ip0 =
     (case ip6_fixed_header data ip0 of
        Inl p \<Rightarrow> (ip0, False, Inl p)
      | Inr ip6 \<Rightarrow>
          let plain =
            (\<lambda>ip6. if ip6_Length ip6 = 0
              then (ip6, False, Inr (Inl (''IPv6 length 0, but next header is '' @
                     IPProtocol_String (ip6_NextHeader ip6) @ '', not HopByHop'')))
              else ip6_cut_payload (unat (ip6_Length ip6)) ip6)
          in if ip6_NextHeader ip6 = 0 then
               (case decodeIPv6ExtensionBase (ip6_Payload ip6) of
                  Inl p \<Rightarrow> (ip6, False, Inl p)
                | Inr base \<Rightarrow>
                    case hbh_options (ip6_Payload ip6) 2 (ext_ActualLength base) (ip6_hbh_Options ip6) of
                      (opts, Inl p) \<Rightarrow>
                        (ip6\<lparr>ip6_hbh_base := base, ip6_hbh_Options := opts\<rparr>, False, Inl p)
                    | (opts, Inr _) \<Rightarrow>
                        let ip6 = ip6\<lparr>ip6_hbh_base := base, ip6_hbh_Options := opts, ip6_HopByHop := True\<rparr>
                        in (case getIPv6HopByHopJumboLength opts of
                              Inl p \<Rightarrow> (ip6, False, Inl p)
                            | Inr (Inl e) \<Rightarrow> (ip6, False, Inr (Inl e))
                            | Inr (Inr (l, jumbo)) \<Rightarrow>
                                if jumbo \<and> ip6_Length ip6 = 0 then ip6_cut_payload (unat l) ip6
                                else if jumbo \<and> ip6_Length ip6 \<noteq> 0 then
                                  (ip6, False, Inr (Inl ''IPv6 has jumbo length and IPv6 length is not 0''))
                                else if \<not> jumbo \<and> ip6_Length ip6 = 0 then
                                  (ip6, False, Inr (Inl
                                    ''IPv6 length 0, but HopByHop header does not have jumbogram option''))
                                else plain ip6))
             else plain ip6)"

definition IPv6_NextLayerType :: "IPv6 \<Rightarrow> LayerType" where
  "IPv6_NextLayerType i =
     (if ip6_HopByHop i then IPProtocol_LayerType (ext_NextHeader (ip6_hbh_base i))
      else IPProtocol_LayerType (ip6_NextHeader i))"

record IPv6ExtensionSkipper =
  skip_NextHeader :: byte
  skip_Contents :: bytes
  skip_Payload :: bytes

definition IPv6ExtensionSkipper_DecodeFromBytes ::
  "bytes \<Rightarrow> IPv6ExtensionSkipper \<Rightarrow> IPv6ExtensionSkipper dec" where
  "IPv6ExtensionSkipper_DecodeFromBytes data i =
     dec_bind (decodeIPv6ExtensionBase data) (\<lambda>extension.
     dec_bind (go_slice data 0 (ext_ActualLength extension)) (\<lambda>contents.
     dec_bind (go_slice_from data (ext_ActualLength extension)) (\<lambda>payload.
       dec_ok False \<lparr>skip_NextHeader = ext_NextHeader extension, skip_Contents = contents,
                     skip_Payload = payload\<rparr>)))"

definition IPv6ExtensionSkipper_NextLayerType :: "IPv6ExtensionSkipper \<Rightarrow> LayerType" where
  "IPv6ExtensionSkipper_NextLayerType i = IPProtocol_LayerType (skip_NextHeader i)"

subsection \<open>TCP and Payload\<close>

record TCPOption =
  tcpopt_OptionType :: byte
  tcpopt_OptionLength :: byte
  tcpopt_OptionData :: bytes

record TCP =
  tcp_SrcPort :: "16 word"
  tcp_DstPort :: "16 word"
  tcp_Seq :: "32 word"
  tcp_Ack :: "32 word"
  tcp_DataOffset :: byte
  tcp_FIN :: bool
  tcp_SYN :: bool
  tcp_RST :: bool
  tcp_PSH :: bool
  tcp_ACK :: bool
  tcp_URG :: bool
  tcp_ECE :: bool
  tcp_CWR :: bool
  tcp_NS :: bool
  tcp_Window :: "16 word"
  tcp_Checksum :: "16 word"
  tcp_Urgent :: "16 word"
  tcp_sPort :: bytes
  tcp_dPort :: bytes
  tcp_Options :: "TCPOption list"
  tcp_Padding :: bytes
  tcp_Contents :: bytes
  tcp_Payload :: bytes

text \<open>
  The option loop: as in IPv4 the \<open>break\<close> of the end-of-list case leaves only the \<open>switch\<close>,
  so the bytes after it are read as options too.
\<close>

function TCP_options :: "bytes \<Rightarrow> TCPOption list \<Rightarrow> bytes \<Rightarrow> (TCPOption list \<times> bytes) or_err go" where
  "TCP_options [] opts pad = Inr (Inr (opts, pad))"
| "TCP_options (t # ds) opts pad =
     (if t = 0 then
        TCP_options ds (opts @ [\<lparr>tcpopt_OptionType = t, tcpopt_OptionLength = 1, tcpopt_OptionData = []\<rparr>]) ds
      else if t = 1 then
        TCP_options ds (opts @ [\<lparr>tcpopt_OptionType = t, tcpopt_OptionLength = 1, tcpopt_OptionData = []\<rparr>]) pad
      else
        case ds of
          [] \<Rightarrow> Inl IndexOutOfRange
        | l # _ \<Rightarrow>
            let n = unat l in
            if n < 2 then Inr (Inl (''Invalid TCP option length '' @ decimal n @ '' < 2''))
            else if length (t # ds) < n then
              Inr (Inl (''Invalid TCP option length '' @ decimal n @ '' exceeds remaining '' @
                decimal (length (t # ds)) @ '' bytes''))
            else
              TCP_options (drop n (t # ds))
                (opts @ [\<lparr>tcpopt_OptionType = t, tcpopt_OptionLength = l,
                         tcpopt_OptionData = take (n - 2) (drop 2 (t # ds))\<rparr>]) pad)"
  by pat_completeness auto
termination
  by (relation "measure (\<lambda>(d, opts, pad). length d)") auto

definition TCP_take_options :: "bytes \<Rightarrow> TCP \<Rightarrow> TCP dec" where
  "TCP_take_options data tcp =
     (let off = tcp_DataOffset tcp; dataStart = unat off * 4
      in if off < 5 then dec_err False (''Invalid TCP data offset '' @ decimal (unat off) @ '' < 5'')
         else if length data < dataStart then dec_err True ''TCP data offset greater than packet length''
         else
           dec_bind (go_slice data 0 dataStart) (\<lambda>contents.
           dec_bind (go_slice_from data dataStart) (\<lambda>payload.
           dec_bind (go_slice data 20 dataStart) (\<lambda>area.
           case TCP_options area [] (tcp_Padding tcp) of
             Inl p \<Rightarrow> (False, Inl p)
           | Inr (Inl e) \<Rightarrow> dec_err False e
           | Inr (Inr (opts, pad)) \<Rightarrow>
               dec_ok False (tcp\<lparr>tcp_Options := opts, tcp_Padding := pad,
                                tcp_Contents := contents, tcp_Payload := payload\<rparr>)))))"

definition TCP_DecodeFromBytes :: "bytes \<Rightarrow> TCP \<Rightarrow> TCP dec" where
  "TCP_DecodeFromBytes data tcp =
     dec_bind (read_be16 data 0) (\<lambda>srcPort. dec_bind (go_slice data 0 2) (\<lambda>sPort.
     dec_bind (read_be16 data 2) (\<lambda>dstPort. dec_bind (go_slice data 2 4) (\<lambda>dPort.
     dec_bind (read_be32 data 4) (\<lambda>sq. dec_bind (read_be32 data 8) (\<lambda>ack.
     dec_bind (go_at data 12) (\<lambda>b12. dec_bind (go_at data 13) (\<lambda>b13.
     dec_bind (read_be16 data 14) (\<lambda>window. dec_bind (read_be16 data 16) (\<lambda>csum.
     dec_bind (read_be16 data 18) (\<lambda>urgent.
       TCP_take_options data
         \<lparr>tcp_SrcPort = srcPort, tcp_DstPort = dstPort, tcp_Seq = sq, tcp_Ack = ack,
          tcp_DataOffset = drop_bit 4 b12,
          tcp_FIN = (b13 AND 0x01 \<noteq> 0), tcp_SYN = (b13 AND 0x02 \<noteq> 0),
          tcp_RST = (b13 AND 0x04 \<noteq> 0), tcp_PSH = (b13 AND 0x08 \<noteq> 0),
          tcp_ACK = (b13 AND 0x10 \<noteq> 0), tcp_URG = (b13 AND 0x20 \<noteq> 0),
          tcp_ECE = (b13 AND 0x40 \<noteq> 0), tcp_CWR = (b13 AND 0x80 \<noteq> 0),
          tcp_NS = (b12 AND 0x01 \<noteq> 0),
          tcp_Window = window, tcp_Checksum = csum, tcp_Urgent = urgent,
          tcp_sPort = sPort, tcp_dPort = dPort, tcp_Options = [], tcp_Padding = tcp_Padding tcp,
          tcp_Contents = tcp_Contents tcp, tcp_Payload = tcp_Payload tcp\<rparr>)))))))))))"

definition TCP_NextLayerType :: "TCP \<Rightarrow> LayerType" where
  "TCP_NextLayerType t =
     (let lt = TCPPort_LayerType (tcp_DstPort t)
      in if lt = LayerTypePayload then TCPPort_LayerType (tcp_SrcPort t) else lt)"

definition Payload_DecodeFromBytes :: "bytes \<Rightarrow> bytes \<Rightarrow> bytes dec" where
  "Payload_DecodeFromBytes data p = dec_ok False data"

definition Payload_LayerPayload :: "bytes \<Rightarrow> bytes" where
  "Payload_LayerPayload p = []"

end
