(* ===== verification/GopacketParser.thy ===== *)
theory GopacketParser
  imports GopacketLayers
begin

text \<open>
  The vendored \<open>gopacket/parser.go\<close>: a \<open>DecodingLayerParser\<close> over the seven layers the
  collector hands it, and the contract of a decoding layer that makes its loop end.
\<close>

subsection \<open>The contract of a decoding layer\<close>

text \<open>
  A decoder turns the bytes and the old layer into the new layer, the truncation flag and an
  outcome. What the parser relies on is that the payload of a decoded layer is a contiguous part
  of the bytes and shorter than them.
\<close>

type_synonym 'l step = "'l \<times> bool \<times> unit or_err go"

definition keep_on_error :: "'l \<Rightarrow> 'l dec \<Rightarrow> 'l step" where
  "keep_on_error l d =
     (case d of
        (t, Inl p) \<Rightarrow> (l, t, Inl p)
      | (t, Inr (Inl e)) \<Rightarrow> (l, t, Inr (Inl e))
      | (t, Inr (Inr l')) \<Rightarrow> (l', t, Inr (Inr ())))"

lemma keep_on_error_ok:
  "keep_on_error l d = (l', t, Inr (Inr ())) \<longleftrightarrow> d = (t, Inr (Inr l'))"
  by (auto simp: keep_on_error_def split: prod.splits sum.splits)

text \<open>The layer as one field of a larger state, read with \<open>get\<close> and written with \<open>put\<close>.\<close>

definition on_field :: "('s \<Rightarrow> 'l) \<Rightarrow> ('l \<Rightarrow> 's \<Rightarrow> 's) \<Rightarrow> (bytes \<Rightarrow> 'l \<Rightarrow> 'l step) \<Rightarrow> bytes \<Rightarrow> 's \<Rightarrow> 's step" where
  "on_field get put decode data s = (case decode data (get s) of (l, t, r) \<Rightarrow> (put l s, t, r))"

locale decoding_layer =
  fixes decode :: "bytes \<Rightarrow> 'l \<Rightarrow> 'l step"
    and payload :: "'l \<Rightarrow> bytes"
  assumes payload_within: "decode data l = (l', t, Inr (Inr ())) \<Longrightarrow> sublist (payload l') data"
    and payload_shorter:
      "decode data l = (l', t, Inr (Inr ())) \<Longrightarrow> data \<noteq> [] \<Longrightarrow> length (payload l') < length data"
begin

lemma on_field_advance:
  assumes "\<And>l s. get (put l s) = l" "on_field get put decode data s = (s', t, Inr (Inr ()))"
    and "data \<noteq> []"
  shows "sublist (payload (get s')) data \<and> length (payload (get s')) < length data"
proof -
  from assms(2) obtain l where "decode data (get s) = (l, t, Inr (Inr ()))" "s' = put l s"
    by (auto simp: on_field_def split: prod.splits)
  then show ?thesis
    using assms(1,3) payload_within payload_shorter by auto
qed

end

lemma sublist_drop: "sublist (drop n xs) xs"
  by (metis append_take_drop_id sublist_def append_Nil2)

lemma sublist_take: "sublist (take n xs) xs"
  by (metis append_take_drop_id sublist_def append_Nil)

lemma sublist_drop_take: "sublist (drop m (take n xs)) xs"
  by (meson sublist_drop sublist_take sublist_order.order_trans)

lemma sublist_take_drop: "sublist (take n (drop m xs)) xs"
  by (meson sublist_drop sublist_take sublist_order.order_trans)

lemmas sublist_parts [simp] = sublist_drop sublist_take sublist_drop_take sublist_take_drop

lemmas decoder_ok = dec_bind_ok Let_def go_slice_eq_Inr go_slice_from_eq_Inr go_at_eq_Inr

lemma Ethernet_payload:
  assumes "Ethernet_DecodeFromBytes data l = (t, Inr (Inr l'))"
  shows "14 \<le> length data \<and> (\<exists>n. eth_Payload l' = take n (drop 14 data))"
  using assms
  by (auto simp: Ethernet_DecodeFromBytes_def decoder_ok split: if_splits
      intro: exI [of _ "length data"])

lemma Dot1Q_payload:
  assumes "Dot1Q_DecodeFromBytes data l = (t, Inr (Inr l'))"
  shows "4 \<le> length data \<and> dq_Payload l' = drop 4 data"
  using assms by (auto simp: Dot1Q_DecodeFromBytes_def decoder_ok)

lemma unat_times_4: "unat (w :: byte) < 64 \<Longrightarrow> unat (w * 4) = 4 * unat w"
  by (simp add: unat_word_ariths)

lemma nibble_times_4: "unat ((b AND 15 :: byte) * 4) = 4 * unat (b AND 15)"
  by (rule unat_times_4) (simp add: nibbles)

lemma five_words: "\<not> (w :: byte) < 5 \<Longrightarrow> 20 \<le> 4 * unat w"
  by (simp add: word_less_nat_alt)

lemma IPv4_take_options_ok:
  assumes "IPv4_take_options data trunc hlen ip = (t, Inr (Inr l'))"
  shows "ip4_Payload l' = drop hlen data \<and> hlen \<le> length data \<and> 20 \<le> hlen"
  using assms
  by (auto simp: IPv4_take_options_def dec_bind_ok go_eq_Inr split: sum.splits prod.splits)

lemma IPv4_check_lengths_ok:
  assumes "IPv4_check_lengths data ip = (t, Inr (Inr l'))"
  shows "\<exists>n. ip4_Payload l' = drop (unat (ip4_IHL ip * 4)) (take n data) \<and> 20 \<le> unat (ip4_IHL ip * 4)"
  using assms
  by (auto simp: IPv4_check_lengths_def Let_def dest!: IPv4_take_options_ok split: if_splits
      intro: exI [of _ "length data"])

lemma IPv4_payload:
  assumes "IPv4_DecodeFromBytes data l = (t, Inr (Inr l'))"
  shows "\<exists>m n. ip4_Payload l' = drop m (take n data) \<and> 20 \<le> m"
  using assms
  by (auto simp: IPv4_DecodeFromBytes_def dec_bind_ok dest!: IPv4_check_lengths_ok)

lemma extension_base_ok:
  assumes "decodeIPv6ExtensionBase data = Inr b"
  shows "8 \<le> ext_ActualLength b \<and> ext_ActualLength b \<le> length data \<and>
    ext_Payload b = drop (ext_ActualLength b) data"
  using assms by (auto simp: decodeIPv6ExtensionBase_def go_eq_Inr Let_def)

lemma skipper_payload:
  assumes "IPv6ExtensionSkipper_DecodeFromBytes data l = (t, Inr (Inr l'))"
  shows "\<exists>m. skip_Payload l' = drop m data \<and> 8 \<le> m"
  using assms
  by (auto simp: IPv6ExtensionSkipper_DecodeFromBytes_def dec_bind_ok go_eq_Inr dest: extension_base_ok)

lemma ip6_fixed_header_ok:
  assumes "ip6_fixed_header data l = Inr l'"
  shows "ip6_Payload l' = drop 40 data \<and> ip6_hbh_Options l' = ip6_hbh_Options l \<and>
    ip6_SrcIP l' = take 16 (drop 8 data) \<and> 40 \<le> length data"
  using assms by (auto simp: ip6_fixed_header_def go_eq_Inr)

lemma ip6_cut_payload_ok:
  "ip6_cut_payload n l = (l', t, Inr (Inr ())) \<Longrightarrow> \<exists>k. ip6_Payload l' = take k (ip6_Payload l)"
  by (auto simp: ip6_cut_payload_def Let_def intro: exI [of _ "length (ip6_Payload l)"])

lemma IPv6_payload:
  assumes "IPv6_DecodeFromBytes data l = (l', t, Inr (Inr ()))"
  shows "\<exists>n. ip6_Payload l' = take n (drop 40 data)"
  using assms
  by (auto simp: IPv6_DecodeFromBytes_def Let_def split: sum.splits prod.splits if_splits
      dest!: ip6_cut_payload_ok ip6_fixed_header_ok)

lemma TCP_payload:
  assumes "TCP_DecodeFromBytes data l = (t, Inr (Inr l'))"
  shows "\<exists>m. tcp_Payload l' = drop m data \<and> 20 \<le> m"
  using assms
  by (auto simp: TCP_DecodeFromBytes_def TCP_take_options_def Let_def dec_bind_ok go_eq_Inr
      split: if_splits sum.splits prod.splits)

subsection \<open>The seven layers keep the contract\<close>

lemma shorter_part:
  "xs \<noteq> [] \<Longrightarrow> 0 < m \<Longrightarrow> min (length xs) n - m < length xs"
  "xs \<noteq> [] \<Longrightarrow> 0 < m \<Longrightarrow> min (length xs - m) n < length xs"
  by (auto simp: min_def simp flip: length_greater_0_conv)

interpretation ethernet_layer:
  decoding_layer "\<lambda>d l. keep_on_error l (Ethernet_DecodeFromBytes d l)" eth_Payload
  by unfold_locales (auto simp: keep_on_error_ok dest!: Ethernet_payload)

interpretation dot1q_layer:
  decoding_layer "\<lambda>d l. keep_on_error l (Dot1Q_DecodeFromBytes d l)" dq_Payload
  by unfold_locales (auto simp: keep_on_error_ok dest!: Dot1Q_payload)

interpretation ipv4_layer:
  decoding_layer "\<lambda>d l. keep_on_error l (IPv4_DecodeFromBytes d l)" ip4_Payload
  by unfold_locales (auto simp: keep_on_error_ok shorter_part dest!: IPv4_payload)

interpretation ipv6_layer: decoding_layer IPv6_DecodeFromBytes ip6_Payload
  by unfold_locales (auto simp: shorter_part dest!: IPv6_payload)

interpretation skipper_layer:
  decoding_layer "\<lambda>d l. keep_on_error l (IPv6ExtensionSkipper_DecodeFromBytes d l)" skip_Payload
  by unfold_locales (auto simp: keep_on_error_ok dest!: skipper_payload)

interpretation tcp_layer:
  decoding_layer "\<lambda>d l. keep_on_error l (TCP_DecodeFromBytes d l)" tcp_Payload
  by unfold_locales (auto simp: keep_on_error_ok dest!: TCP_payload)

interpretation payload_layer:
  decoding_layer "\<lambda>d l. keep_on_error l (Payload_DecodeFromBytes d l)" Payload_LayerPayload
  by unfold_locales (auto simp: keep_on_error_ok Payload_LayerPayload_def)

subsection \<open>DecodingLayerParser\<close>

text \<open>
  The layers behind the pointers handed to \<open>NewDecodingLayerParser\<close>, with the parser's own
  \<open>Truncated\<close> flag. They live as long as the worker and are overwritten packet by packet.
\<close>

record Layers =
  l_eth :: Ethernet
  l_dot1q :: Dot1Q
  l_ip4 :: IPv4
  l_ip6 :: IPv6
  l_ip6ext :: IPv6ExtensionSkipper
  l_tcp :: TCP
  l_payload :: bytes
  l_Truncated :: bool

datatype decoder =
  D_Ethernet | D_Dot1Q | D_IPv4 | D_IPv6 | D_IPv6ExtensionSkipper | D_TCP | D_Payload

fun CanDecode :: "decoder \<Rightarrow> LayerType list" where
  "CanDecode D_Ethernet = [LayerTypeEthernet]"
| "CanDecode D_Dot1Q = [LayerTypeDot1Q]"
| "CanDecode D_IPv4 = [LayerTypeIPv4]"
| "CanDecode D_IPv6 = [LayerTypeIPv6]"
| "CanDecode D_IPv6ExtensionSkipper =
     [LayerTypeIPv6HopByHop, LayerTypeIPv6Routing, LayerTypeIPv6Fragment, LayerTypeIPv6Destination]"
| "CanDecode D_TCP = [LayerTypeTCP]"
| "CanDecode D_Payload = [LayerTypePayload]"

type_synonym decoders = "LayerType \<rightharpoonup> decoder"

definition AddDecodingLayer :: "decoder \<Rightarrow> decoders \<Rightarrow> decoders" where
  "AddDecodingLayer d decs = fold (\<lambda>typ m. m(typ \<mapsto> d)) (CanDecode d) decs"

definition NewDecodingLayerParser :: "decoder list \<Rightarrow> decoders" where
  "NewDecodingLayerParser ds = fold AddDecodingLayer ds Map.empty"

text \<open>The method calls on the interface value, by the decoder behind it.\<close>

fun DecodeFromBytes :: "decoder \<Rightarrow> bytes \<Rightarrow> Layers \<Rightarrow> Layers step" where
  "DecodeFromBytes D_Ethernet = on_field l_eth (\<lambda>l s. s\<lparr>l_eth := l\<rparr>)
     (\<lambda>d l. keep_on_error l (Ethernet_DecodeFromBytes d l))"
| "DecodeFromBytes D_Dot1Q = on_field l_dot1q (\<lambda>l s. s\<lparr>l_dot1q := l\<rparr>)
     (\<lambda>d l. keep_on_error l (Dot1Q_DecodeFromBytes d l))"
| "DecodeFromBytes D_IPv4 = on_field l_ip4 (\<lambda>l s. s\<lparr>l_ip4 := l\<rparr>)
     (\<lambda>d l. keep_on_error l (IPv4_DecodeFromBytes d l))"
| "DecodeFromBytes D_IPv6 = on_field l_ip6 (\<lambda>l s. s\<lparr>l_ip6 := l\<rparr>) IPv6_DecodeFromBytes"
| "DecodeFromBytes D_IPv6ExtensionSkipper = on_field l_ip6ext (\<lambda>l s. s\<lparr>l_ip6ext := l\<rparr>)
     (\<lambda>d l. keep_on_error l (IPv6ExtensionSkipper_DecodeFromBytes d l))"
| "DecodeFromBytes D_TCP = on_field l_tcp (\<lambda>l s. s\<lparr>l_tcp := l\<rparr>)
     (\<lambda>d l. keep_on_error l (TCP_DecodeFromBytes d l))"
| "DecodeFromBytes D_Payload = on_field l_payload (\<lambda>l s. s\<lparr>l_payload := l\<rparr>)
     (\<lambda>d l. keep_on_error l (Payload_DecodeFromBytes d l))"

fun NextLayerType :: "decoder \<Rightarrow> Layers \<Rightarrow> LayerType" where
  "NextLayerType D_Ethernet s = Ethernet_NextLayerType (l_eth s)"
| "NextLayerType D_Dot1Q s = Dot1Q_NextLayerType (l_dot1q s)"
| "NextLayerType D_IPv4 s = IPv4_NextLayerType (l_ip4 s)"
| "NextLayerType D_IPv6 s = IPv6_NextLayerType (l_ip6 s)"
| "NextLayerType D_IPv6ExtensionSkipper s = IPv6ExtensionSkipper_NextLayerType (l_ip6ext s)"
| "NextLayerType D_TCP s = TCP_NextLayerType (l_tcp s)"
| "NextLayerType D_Payload s = LayerTypeZero"

fun LayerPayload :: "decoder \<Rightarrow> Layers \<Rightarrow> bytes" where
  "LayerPayload D_Ethernet s = eth_Payload (l_eth s)"
| "LayerPayload D_Dot1Q s = dq_Payload (l_dot1q s)"
| "LayerPayload D_IPv4 s = ip4_Payload (l_ip4 s)"
| "LayerPayload D_IPv6 s = ip6_Payload (l_ip6 s)"
| "LayerPayload D_IPv6ExtensionSkipper s = skip_Payload (l_ip6ext s)"
| "LayerPayload D_TCP s = tcp_Payload (l_tcp s)"
| "LayerPayload D_Payload s = Payload_LayerPayload (l_payload s)"

lemma LayerPayload_advances:
  assumes "DecodeFromBytes d data s = (s', t, Inr (Inr ()))" "data \<noteq> []"
  shows "sublist (LayerPayload d s') data \<and> length (LayerPayload d s') < length data"
proof (cases d)
  case D_Ethernet
  then show ?thesis
    using assms ethernet_layer.on_field_advance [of l_eth "\<lambda>l s. s\<lparr>l_eth := l\<rparr>"] by simp
next
  case D_Dot1Q
  then show ?thesis
    using assms dot1q_layer.on_field_advance [of l_dot1q "\<lambda>l s. s\<lparr>l_dot1q := l\<rparr>"] by simp
next
  case D_IPv4
  then show ?thesis
    using assms ipv4_layer.on_field_advance [of l_ip4 "\<lambda>l s. s\<lparr>l_ip4 := l\<rparr>"] by simp
next
  case D_IPv6
  then show ?thesis
    using assms ipv6_layer.on_field_advance [of l_ip6 "\<lambda>l s. s\<lparr>l_ip6 := l\<rparr>"] by simp
next
  case D_IPv6ExtensionSkipper
  then show ?thesis
    using assms skipper_layer.on_field_advance [of l_ip6ext "\<lambda>l s. s\<lparr>l_ip6ext := l\<rparr>"] by simp
next
  case D_TCP
  then show ?thesis
    using assms tcp_layer.on_field_advance [of l_tcp "\<lambda>l s. s\<lparr>l_tcp := l\<rparr>"] by simp
next
  case D_Payload
  then show ?thesis
    using assms payload_layer.on_field_advance [of l_payload "\<lambda>l s. s\<lparr>l_payload := l\<rparr>"] by simp
qed

text \<open>
  \<open>DecodeLayers\<close>: the loop over the remaining data. \<open>IgnorePanic\<close> is false, so the deferred
  \<open>panicToError\<close> turns a panic of a decoder into an error; what was decoded before an error stays
  in \<open>decoded\<close>. \<open>None\<close> is success and \<open>Some\<close> the error.
\<close>

definition LayerType_String :: "LayerType \<Rightarrow> string" where
  "LayerType_String t =
     (case t of
        LayerTypeZero \<Rightarrow> ''Unknown''
      | LayerTypePayload \<Rightarrow> ''Payload''
      | LayerTypeFragment \<Rightarrow> ''Fragment''
      | LayerTypeEthernet \<Rightarrow> ''Ethernet''
      | LayerTypeDot1Q \<Rightarrow> ''Dot1Q''
      | LayerTypeLLC \<Rightarrow> ''LLC''
      | LayerTypeARP \<Rightarrow> ''ARP''
      | LayerTypeIPv4 \<Rightarrow> ''IPv4''
      | LayerTypeIPv6 \<Rightarrow> ''IPv6''
      | LayerTypeIPv6HopByHop \<Rightarrow> ''IPv6HopByHop''
      | LayerTypeIPv6Routing \<Rightarrow> ''IPv6Routing''
      | LayerTypeIPv6Fragment \<Rightarrow> ''IPv6Fragment''
      | LayerTypeIPv6Destination \<Rightarrow> ''IPv6Destination''
      | LayerTypeTCP \<Rightarrow> ''TCP''
      | LayerTypeUDP \<Rightarrow> ''UDP''
      | LayerTypeDNS \<Rightarrow> ''DNS''
      | LayerTypeNamed n \<Rightarrow> n)"

definition panicToError :: "go_panic \<Rightarrow> string" where
  "panicToError p =
     ''panic: '' @ (case p of
        IndexOutOfRange \<Rightarrow> ''runtime error: index out of range''
      | SliceOutOfRange \<Rightarrow> ''runtime error: slice bounds out of range''
      | DivideByZero \<Rightarrow> ''runtime error: integer divide by zero''
      | NilDereference \<Rightarrow> ''runtime error: invalid memory address or nil pointer dereference''
      | ExplicitPanic m \<Rightarrow> m)"

function decode_loop ::
  "decoders \<Rightarrow> LayerType \<Rightarrow> bytes \<Rightarrow> LayerType list \<Rightarrow> Layers \<Rightarrow> Layers \<times> LayerType list \<times> string option"
where
  "decode_loop decs typ data decoded s =
     (if data = [] then (s, decoded, None)
      else case decs typ of
          None \<Rightarrow> (s, decoded, Some (''No decoder for layer type '' @ LayerType_String typ))
        | Some d \<Rightarrow>
            case DecodeFromBytes d data s of
              (s', t, Inl p) \<Rightarrow> (s'\<lparr>l_Truncated := l_Truncated s \<or> t\<rparr>, decoded, Some (panicToError p))
            | (s', t, Inr (Inl e)) \<Rightarrow> (s'\<lparr>l_Truncated := l_Truncated s \<or> t\<rparr>, decoded, Some e)
            | (s', t, Inr (Inr u)) \<Rightarrow>
                decode_loop decs (NextLayerType d s') (LayerPayload d s') (decoded @ [typ])
                  (s'\<lparr>l_Truncated := l_Truncated s \<or> t\<rparr>))"
  by pat_completeness auto
termination
  by (relation "measure (\<lambda>(decs, typ, data, decoded, s). length data)")
    (auto dest!: LayerPayload_advances [OF sym])

declare decode_loop.simps [simp del]

definition DecodeLayers ::
  "decoders \<Rightarrow> LayerType \<Rightarrow> bytes \<Rightarrow> Layers \<Rightarrow> Layers \<times> LayerType list \<times> string option" where
  "DecodeLayers decs first data s = decode_loop decs first data [] (s\<lparr>l_Truncated := False\<rparr>)"

end
