(* ===== verification/Flows.thy ===== *)
theory Flows
  imports GopacketLayers
begin

text \<open>
  The vendored \<open>gopacket/flows.go\<close> and \<open>layers/endpoints.go\<close>: endpoints and flows as fixed
  16-byte arrays with a length, their hash, and their text form, which is where the slow parser
  takes the client address from. \<open>net.IP.String\<close> and \<open>net.HardwareAddr.String\<close> are the standard
  library's.
\<close>

subsection \<open>net.IP.String and net.HardwareAddr.String\<close>

fun hex_nat :: "nat \<Rightarrow> string" where
  "hex_nat n = (if n < 16 then [hex_digit n] else hex_nat (n div 16) @ [hex_digit (n mod 16)])"

declare hex_nat.simps [simp del]

fun join :: "string \<Rightarrow> string list \<Rightarrow> string" where
  "join sep [] = ''''"
| "join sep [s] = s"
| "join sep (s # t # ss) = s @ sep @ join sep (t # ss)"

fun groups16 :: "bytes \<Rightarrow> nat list" where
  "groups16 (hi # lo # bs) = (256 * unat hi + unat lo) # groups16 bs"
| "groups16 _ = []"

text \<open>The first longest run of zero groups, as its start and length.\<close>

definition zero_run :: "nat list \<Rightarrow> nat \<times> nat" where
  "zero_run gs =
     foldl (\<lambda>(s, l) i. let n = length (takeWhile (\<lambda>g. g = 0) (drop i gs)) in if l < n then (i, n) else (s, l))
       (0, 0) [0..<length gs]"

definition ipv6_text :: "nat list \<Rightarrow> string" where
  "ipv6_text gs =
     (case zero_run gs of (s, l) \<Rightarrow>
        if l \<le> 1 then join '':'' (map hex_nat gs)
        else join '':'' (map hex_nat (take s gs)) @ ''::'' @ join '':'' (map hex_nat (drop (s + l) gs)))"

definition ipv4_text :: "bytes \<Rightarrow> string" where
  "ipv4_text b = join ''.'' (map (\<lambda>x. decimal (unat x)) b)"

definition net_IP_String :: "bytes \<Rightarrow> string" where
  "net_IP_String ip =
     (if ip = [] then ''<nil>''
      else if length ip = 4 then ipv4_text ip
      else if length ip = 16 then
        (if take 12 ip = replicate 10 0 @ [0xFF, 0xFF] then ipv4_text (drop 12 ip)
         else ipv6_text (groups16 ip))
      else ''?'' @ hex_encode ip)"

definition net_HardwareAddr_String :: "bytes \<Rightarrow> string" where
  "net_HardwareAddr_String a = join '':'' (map (\<lambda>b. hex_encode [b]) a)"

text \<open>The verb \<open>%v\<close> on a byte slice or array.\<close>

definition fmt_bytes :: "bytes \<Rightarrow> string" where
  "fmt_bytes b = ''['' @ join '' '' (map (\<lambda>x. decimal (unat x)) b) @ '']''"

subsection \<open>Endpoints\<close>

definition MaxEndpointSize :: nat where
  "MaxEndpointSize = 16"

definition EndpointInvalid :: int where "EndpointInvalid = 0"
definition EndpointIPv4 :: int where "EndpointIPv4 = 1"
definition EndpointIPv6 :: int where "EndpointIPv6 = 2"
definition EndpointMAC :: int where "EndpointMAC = 3"
definition EndpointTCPPort :: int where "EndpointTCPPort = 4"
definition EndpointUDPPort :: int where "EndpointUDPPort = 5"
definition EndpointSCTPPort :: int where "EndpointSCTPPort = 6"
definition EndpointRUDPPort :: int where "EndpointRUDPPort = 7"
definition EndpointUDPLitePort :: int where "EndpointUDPLitePort = 8"
definition EndpointPPP :: int where "EndpointPPP = 9"

lemmas endpoint_types = EndpointInvalid_def EndpointIPv4_def EndpointIPv6_def EndpointMAC_def
  EndpointTCPPort_def EndpointUDPPort_def EndpointSCTPPort_def EndpointRUDPPort_def
  EndpointUDPLitePort_def EndpointPPP_def

record Endpoint =
  e_typ :: int
  e_len :: nat
  e_raw :: bytes

text \<open>\<open>copy\<close> into a zeroed 16-byte array.\<close>

definition into_array :: "bytes \<Rightarrow> bytes" where
  "into_array b = take MaxEndpointSize (b @ replicate MaxEndpointSize 0)"

definition NewEndpoint :: "int \<Rightarrow> bytes \<Rightarrow> Endpoint go" where
  "NewEndpoint typ raw =
     (if MaxEndpointSize < length raw
      then Inl (ExplicitPanic ''raw byte length greater than MaxEndpointSize'')
      else Inr \<lparr>e_typ = typ, e_len = length raw, e_raw = into_array raw\<rparr>)"

definition Endpoint_Raw :: "Endpoint \<Rightarrow> bytes" where
  "Endpoint_Raw a = take (e_len a) (e_raw a)"

fun bytes_less :: "bytes \<Rightarrow> bytes \<Rightarrow> bool" where
  "bytes_less _ [] = False"
| "bytes_less [] (_ # _) = True"
| "bytes_less (x # xs) (y # ys) = (x < y \<or> (x = y \<and> bytes_less xs ys))"

definition Endpoint_LessThan :: "Endpoint \<Rightarrow> Endpoint \<Rightarrow> bool" where
  "Endpoint_LessThan a b =
     (e_typ a < e_typ b \<or> (e_typ a = e_typ b \<and> bytes_less (Endpoint_Raw a) (Endpoint_Raw b)))"

text \<open>The formatters registered in \<open>layers/endpoints.go\<close>.\<close>

definition port_text :: "bytes \<Rightarrow> string go" where
  "port_text b = go_bind (be_uint16 b) (\<lambda>w. Inr (strconv_Itoa (uint w)))"

definition endpoint_formatter :: "int \<Rightarrow> (bytes \<Rightarrow> string go) option" where
  "endpoint_formatter t =
     (if t = EndpointInvalid then Some (\<lambda>b. Inr (fmt_bytes b))
      else if t = EndpointIPv4 \<or> t = EndpointIPv6 then Some (\<lambda>b. Inr (net_IP_String b))
      else if t = EndpointMAC then Some (\<lambda>b. Inr (net_HardwareAddr_String b))
      else if t = EndpointTCPPort \<or> t = EndpointUDPPort \<or> t = EndpointSCTPPort \<or> t = EndpointUDPLitePort
        then Some port_text
      else if t = EndpointRUDPPort then Some (\<lambda>b. go_bind (go_at b 0) (\<lambda>w. Inr (strconv_Itoa (uint w))))
      else if t = EndpointPPP then Some (\<lambda>b. Inr ''point'')
      else None)"

definition EndpointType_String :: "int \<Rightarrow> string" where
  "EndpointType_String t =
     (if t = EndpointInvalid then ''invalid'' else if t = EndpointIPv4 then ''IPv4''
      else if t = EndpointIPv6 then ''IPv6'' else if t = EndpointMAC then ''MAC''
      else if t = EndpointTCPPort then ''TCP'' else if t = EndpointUDPPort then ''UDP''
      else if t = EndpointSCTPPort then ''SCTP'' else if t = EndpointRUDPPort then ''RUDP''
      else if t = EndpointUDPLitePort then ''UDPLite'' else if t = EndpointPPP then ''PPP''
      else strconv_Itoa t)"

definition Endpoint_String :: "Endpoint \<Rightarrow> string go" where
  "Endpoint_String a =
     (case endpoint_formatter (e_typ a) of
        Some f \<Rightarrow> f (take (e_len a) (e_raw a))
      | None \<Rightarrow> Inr (EndpointType_String (e_typ a) @ '':'' @ fmt_bytes (e_raw a)))"

definition fnvBasis :: "64 word" where "fnvBasis = 14695981039346656037"
definition fnvPrime :: "64 word" where "fnvPrime = 1099511628211"

definition fnvHash :: "bytes \<Rightarrow> 64 word" where
  "fnvHash s = foldl (\<lambda>h b. (h XOR ucast b) * fnvPrime) fnvBasis s"

definition Endpoint_FastHash :: "Endpoint \<Rightarrow> 64 word" where
  "Endpoint_FastHash a = (fnvHash (Endpoint_Raw a) XOR word_of_int (e_typ a)) * fnvPrime"

subsection \<open>Flows\<close>

record Flow =
  f_typ :: int
  f_slen :: nat
  f_dlen :: nat
  f_src :: bytes
  f_dst :: bytes

definition NewFlow :: "int \<Rightarrow> bytes \<Rightarrow> bytes \<Rightarrow> Flow go" where
  "NewFlow t src dst =
     (if MaxEndpointSize < length src \<or> MaxEndpointSize < length dst
      then Inl (ExplicitPanic ''flow raw byte length greater than MaxEndpointSize'')
      else Inr \<lparr>f_typ = t, f_slen = length src, f_dlen = length dst,
                f_src = into_array src, f_dst = into_array dst\<rparr>)"

definition FlowFromEndpoints :: "Endpoint \<Rightarrow> Endpoint \<Rightarrow> Flow or_err" where
  "FlowFromEndpoints src dst =
     (if e_typ src \<noteq> e_typ dst
      then Inl (''Mismatched endpoint types: '' @ EndpointType_String (e_typ src) @ ''->'' @
             EndpointType_String (e_typ dst))
      else Inr \<lparr>f_typ = e_typ src, f_slen = e_len src, f_dlen = e_len dst,
                f_src = e_raw src, f_dst = e_raw dst\<rparr>)"

definition Flow_FastHash :: "Flow \<Rightarrow> 64 word" where
  "Flow_FastHash f =
     ((fnvHash (take (f_slen f) (f_src f)) + fnvHash (take (f_dlen f) (f_dst f)))
       XOR word_of_int (f_typ f)) * fnvPrime"

definition Flow_Endpoints :: "Flow \<Rightarrow> Endpoint \<times> Endpoint" where
  "Flow_Endpoints f =
     (\<lparr>e_typ = f_typ f, e_len = f_slen f, e_raw = f_src f\<rparr>,
      \<lparr>e_typ = f_typ f, e_len = f_dlen f, e_raw = f_dst f\<rparr>)"

definition Flow_Src :: "Flow \<Rightarrow> Endpoint" where
  "Flow_Src f = fst (Flow_Endpoints f)"

definition Flow_Dst :: "Flow \<Rightarrow> Endpoint" where
  "Flow_Dst f = snd (Flow_Endpoints f)"

definition Flow_String :: "Flow \<Rightarrow> string go" where
  "Flow_String f =
     (case Flow_Endpoints f of (s, d) \<Rightarrow>
        go_bind (Endpoint_String s) (\<lambda>ss. go_bind (Endpoint_String d) (\<lambda>ds. Inr (ss @ ''->'' @ ds))))"

definition Flow_Reverse :: "Flow \<Rightarrow> Flow" where
  "Flow_Reverse f =
     \<lparr>f_typ = f_typ f, f_slen = f_dlen f, f_dlen = f_slen f, f_src = f_dst f, f_dst = f_src f\<rparr>"

definition IPv4_NetworkFlow :: "IPv4 \<Rightarrow> Flow go" where
  "IPv4_NetworkFlow i = NewFlow EndpointIPv4 (ip4_SrcIP i) (ip4_DstIP i)"

definition IPv6_NetworkFlow :: "IPv6 \<Rightarrow> Flow go" where
  "IPv6_NetworkFlow i = NewFlow EndpointIPv6 (ip6_SrcIP i) (ip6_DstIP i)"

definition TCP_TransportFlow :: "TCP \<Rightarrow> Flow go" where
  "TCP_TransportFlow t = NewFlow EndpointTCPPort (tcp_sPort t) (tcp_dPort t)"

subsection \<open>A flow gives back the endpoints it was made of\<close>

lemma take_into_array: "length b \<le> MaxEndpointSize \<Longrightarrow> take (length b) (into_array b) = b"
  by (simp add: into_array_def)

lemma length_into_array [simp, go_lens]: "length (into_array b) = MaxEndpointSize"
  by (simp add: into_array_def)

lemma NewFlow_endpoints:
  assumes "length src \<le> MaxEndpointSize" "length dst \<le> MaxEndpointSize"
  shows "\<exists>f. NewFlow t src dst = Inr f \<and> f_typ f = t \<and>
     Endpoint_Raw (Flow_Src f) = src \<and> Endpoint_Raw (Flow_Dst f) = dst"
  using assms
  by (auto simp: NewFlow_def Flow_Src_def Flow_Dst_def Flow_Endpoints_def Endpoint_Raw_def take_into_array)

lemma Flow_Reverse_Reverse: "Flow_Reverse (Flow_Reverse f) = f"
  by (simp add: Flow_Reverse_def)

lemma Flow_FastHash_symmetric: "Flow_FastHash (Flow_Reverse f) = Flow_FastHash f"
  by (simp add: Flow_FastHash_def Flow_Reverse_def add.commute)

lemma FlowFromEndpoints_endpoints:
  "FlowFromEndpoints s d = Inr f \<Longrightarrow> Flow_Endpoints f = (s, d)"
  by (auto simp: FlowFromEndpoints_def Flow_Endpoints_def split: if_splits)

lemma Endpoint_String_src:
  assumes "length src \<le> MaxEndpointSize" "NewFlow t src dst = Inr f" "t = EndpointIPv4 \<or> t = EndpointIPv6"
  shows "Endpoint_String (Flow_Src f) = Inr (net_IP_String src)"
  using assms
  by (auto simp: NewFlow_def Flow_Src_def Flow_Endpoints_def Endpoint_String_def endpoint_formatter_def
      take_into_array endpoint_types split: if_splits)

end
