(* ===== verification/SlowParser.thy ===== *)
theory SlowParser
  imports PacketParser GopacketParser Flows
begin

text \<open>
  \<open>mrte/gopacket_packet_parser.go\<close>: the request of a packet decoded by \<open>gopacket\<close>, and how it
  relates to the parser written by hand.
\<close>

text \<open>
  The loop over the decoded layer types; \<open>netFlow\<close> is \<open>None\<close> while \<open>foundNetLayer\<close> is false. The
  result \<open>Inr (Inr None)\<close> is the pair of a nil request and a nil error.
\<close>

fun slow_loop ::
  "LayerType list \<Rightarrow> Flow option \<Rightarrow> IPv4 \<Rightarrow> IPv6 \<Rightarrow> TCP \<Rightarrow> int \<Rightarrow> (MysqlRequest option or_err) go"
where
  "slow_loop [] netFlow ip4 ip6 tcp now =
     Inr (Inl ''Could not find IPv4 or IPv6 or Tcp layer'')"
| "slow_loop (typ # decoded) netFlow ip4 ip6 tcp now =
     (if typ = LayerTypeIPv4 then
        go_bind (IPv4_NetworkFlow ip4) (\<lambda>f. slow_loop decoded (Some f) ip4 ip6 tcp now)
      else if typ = LayerTypeIPv6 then
        go_bind (IPv6_NetworkFlow ip6) (\<lambda>f. slow_loop decoded (Some f) ip4 ip6 tcp now)
      else if typ = LayerTypeTCP then
        (case netFlow of
           Some f \<Rightarrow>
             if length (tcp_Payload tcp) = 0 then Inr (Inr None)
             else
               go_bind (Endpoint_String (Flow_Src f)) (\<lambda>srcIp.
               let srcPort = to_int32 (uint (tcp_SrcPort tcp));
                   srcPort = (if srcPort < 0 then to_int32 (srcPort * -1) else srcPort)
               in Inr (Inr (Some \<lparr>AlreadyParsed = False, SrcIp = srcIp, SrcPort = srcPort,
                     Data = tcp_Payload tcp, CapturedAt = now, ParsedRequest = None\<rparr>)))
         | None \<Rightarrow> slow_loop decoded netFlow ip4 ip6 tcp now)
      else slow_loop decoded netFlow ip4 ip6 tcp now)"

definition ParsePacketSlow ::
  "LayerType list \<Rightarrow> IPv4 \<Rightarrow> IPv6 \<Rightarrow> TCP \<Rightarrow> int \<Rightarrow> (MysqlRequest option or_err) go" where
  "ParsePacketSlow decoded ip4 ip6 tcp now = slow_loop decoded None ip4 ip6 tcp now"

text \<open>The parser of one worker (\<open>sendUserPacket\<close>), over its seven layers.\<close>

definition worker_decoders :: decoders where
  "worker_decoders =
     NewDecodingLayerParser
       [D_Ethernet, D_Dot1Q, D_IPv4, D_IPv6, D_IPv6ExtensionSkipper, D_TCP, D_Payload]"

definition slow_parse ::
  "bytes \<Rightarrow> int \<Rightarrow> Layers \<Rightarrow> Layers \<times> (MysqlRequest option or_err) go" where
  "slow_parse data now s =
     (case DecodeLayers worker_decoders LayerTypeEthernet data s of
        (s', decoded, Some err) \<Rightarrow> (s', Inr (Inl err))
      | (s', decoded, None) \<Rightarrow> (s', ParsePacketSlow decoded (l_ip4 s') (l_ip6 s') (l_tcp s') now))"

lemma worker_decoders_simps [simp]:
  "worker_decoders LayerTypeEthernet = Some D_Ethernet"
  "worker_decoders LayerTypeDot1Q = Some D_Dot1Q"
  "worker_decoders LayerTypeIPv4 = Some D_IPv4"
  "worker_decoders LayerTypeIPv6 = Some D_IPv6"
  "worker_decoders LayerTypeTCP = Some D_TCP"
  "worker_decoders LayerTypePayload = Some D_Payload"
  by (simp_all add: worker_decoders_def NewDecodingLayerParser_def AddDecodingLayer_def)

lemma worker_decoders_unsupported:
  "worker_decoders LayerTypeZero = None" "worker_decoders LayerTypeFragment = None"
  "worker_decoders LayerTypeDNS = None" "worker_decoders LayerTypeUDP = None"
  "worker_decoders (LayerTypeNamed n) = None"
  by (simp_all add: worker_decoders_def NewDecodingLayerParser_def AddDecodingLayer_def)

subsection \<open>What a successful decoding leaves in the layers\<close>

lemma read_be16_ok: "read_be16 data i = Inr w \<Longrightarrow> w = word_of_nat (u16_at data i) \<and> Suc i < length data"
proof -
  assume "read_be16 data i = Inr w"
  then have i: "Suc i < length data" and w: "be_uint16 (take 2 (drop i data)) = Inr w"
    by (auto simp: read_be16_def go_eq_Inr)
  with be_uint16_at [OF i] show ?thesis by simp
qed

lemma read_be16_at: "Suc i < length data \<Longrightarrow> read_be16 data i = Inr (word_of_nat (u16_at data i))"
  by (simp add: read_be16_def be_uint16_at)

lemma Ethernet_IPv4_ok:
  assumes "14 \<le> length d" "u16_at d 12 = 0x0800"
  shows "\<exists>l'. Ethernet_DecodeFromBytes d l = (False, Inr (Inr l')) \<and>
     eth_EthernetType l' = 0x0800 \<and> eth_Payload l' = drop 14 d"
  using assms by (simp add: Ethernet_DecodeFromBytes_def read_be16_at Let_def)

lemma IPv4_take_options_fields:
  assumes "IPv4_take_options data trunc hlen ip = (t, Inr (Inr l'))"
  shows "ip4_SrcIP l' = ip4_SrcIP ip \<and> ip4_DstIP l' = ip4_DstIP ip \<and> ip4_Protocol l' = ip4_Protocol ip \<and>
     ip4_Payload l' = drop hlen data"
  using assms
  by (auto simp: IPv4_take_options_def dec_bind_ok go_eq_Inr split: sum.splits prod.splits)

lemma IPv4_check_lengths_fields:
  assumes "IPv4_check_lengths data ip = (t, Inr (Inr l'))"
  shows "ip4_SrcIP l' = ip4_SrcIP ip \<and> ip4_DstIP l' = ip4_DstIP ip \<and> ip4_Protocol l' = ip4_Protocol ip \<and>
     ip4_Payload l' = drop (unat (ip4_IHL ip * 4)) (take (unat (ip4_Length ip)) data)"
  using assms
  by (auto simp: IPv4_check_lengths_def Let_def split: if_splits dest!: IPv4_take_options_fields)

lemma IPv4_ok:
  assumes "IPv4_DecodeFromBytes data l = (t, Inr (Inr l'))" "u16_at data 2 \<noteq> 0"
  shows "20 \<le> length data \<and> ip4_SrcIP l' = take 4 (drop 12 data) \<and> ip4_DstIP l' = take 4 (drop 16 data) \<and>
     ip4_Protocol l' = data ! 9 \<and> ip4_Payload l' = tcp_segment data"
proof -
  have nz: "(word_of_nat (u16_at data 2) :: 16 word) \<noteq> 0"
    using assms(2) unat_u16_at [of data 2] by (metis unat_0)
  from assms(1) nz show ?thesis
    unfolding IPv4_DecodeFromBytes_def dec_bind_ok
    by (auto simp: go_eq_Inr tcp_segment_def ip_header_bytes_def nibble_times_4
        dest!: read_be16_ok IPv4_check_lengths_fields)
qed

lemma high_nibble: "unat (drop_bit 4 (w :: byte)) = unat w div 16"
  by (simp only: unat_drop_bit_eq) (simp add: drop_bit_eq_div)

lemma TCP_ok:
  assumes "TCP_DecodeFromBytes data l = (t, Inr (Inr l'))"
  shows "20 \<le> length data \<and> tcp_SrcPort l' = word_of_nat (u16_at data 0) \<and>
     tcp_Payload l' = drop (tcp_data_offset data) data"
  using assms
  by (auto simp: TCP_DecodeFromBytes_def TCP_take_options_def Let_def dec_bind_ok go_eq_Inr
      tcp_data_offset_def high_nibble mult.commute
      dest!: read_be16_ok split: if_splits sum.splits prod.splits)

lemma decode_loop_step:
  assumes "decode_loop decs typ data decoded s = (s', ds, None)" "data \<noteq> []"
  shows "\<exists>d s1 t. decs typ = Some d \<and> DecodeFromBytes d data s = (s1, t, Inr (Inr ())) \<and>
     decode_loop decs (NextLayerType d s1) (LayerPayload d s1) (decoded @ [typ])
       (s1\<lparr>l_Truncated := l_Truncated s \<or> t\<rparr>) = (s', ds, None)"
  using assms
  by (subst (asm) decode_loop.simps) (auto split: option.splits prod.splits sum.splits)

lemma decode_loop_Nil [simp]: "decode_loop decs typ [] decoded s = (s, decoded, None)"
  by (simp add: decode_loop.simps)

lemma TCP_NextLayerType_cases: "TCP_NextLayerType t = LayerTypeDNS \<or> TCP_NextLayerType t = LayerTypePayload"
  by (auto simp: TCP_NextLayerType_def TCPPort_LayerType_def tcpPortLayerType_def Let_def)

lemma ipv4_text_dotted: "length ip = 4 \<Longrightarrow> ipv4_text ip = dotted ip"
  by (auto simp: length_Suc_conv numeral_eq_Suc ipv4_text_def dotted_def)

lemma net_IP_String_dotted: "length ip = 4 \<Longrightarrow> net_IP_String ip = dotted ip"
  by (auto simp: net_IP_String_def ipv4_text_dotted)

subsection \<open>The two parsers agree on IPv4 over Ethernet\<close>

lemma on_field_decoded:
  "on_field get put (\<lambda>d l. keep_on_error l (f d l)) data s = (s1, t, Inr (Inr ())) \<longleftrightarrow>
     (\<exists>l. f data (get s) = (t, Inr (Inr l)) \<and> s1 = put l s)"
proof -
  obtain l' t' r' where k: "keep_on_error (get s) (f data (get s)) = (l', t', r')"
    by (metis prod.exhaust)
  then show ?thesis
    using keep_on_error_ok [of "get s" "f data (get s)"]
    by (auto simp: on_field_def keep_on_error_def)
qed

lemma slow_agrees_with_fast:
  assumes slow: "slow_parse d now s = (s', Inr (Inr (Some r)))"
    and ethertype: "u16_at d 12 = 0x0800"
    and proto: "ip_area d DLT_EN10MB ! 9 = IP_TCP"
    and no_tso: "u16_at (ip_area d DLT_EN10MB) 2 \<noteq> 0"
  shows "ParsePacketFast d DLT_EN10MB now = Inr (Inr r)"
proof -
  let ?ip = "ip_area d DLT_EN10MB"
  let ?seg = "tcp_segment ?ip"
  have ip: "?ip = drop 14 d"
    by (simp add: ip_area_def ethernet_header_length_def)
  let ?s0 = "s\<lparr>l_Truncated := False\<rparr>"
  from slow obtain ds where ds: "decode_loop worker_decoders LayerTypeEthernet d [] ?s0 = (s', ds, None)"
    and parse: "ParsePacketSlow ds (l_ip4 s') (l_ip6 s') (l_tcp s') now = Inr (Inr (Some r))"
    by (auto simp: slow_parse_def DecodeLayers_def split: prod.splits option.splits)
  have "d \<noteq> []"
    using ds parse by (auto simp: ParsePacketSlow_def)
  with decode_loop_step [OF ds] obtain l1 s1 t1 where
    l1: "Ethernet_DecodeFromBytes d (l_eth s) = (t1, Inr (Inr l1))" and s1: "s1 = ?s0\<lparr>l_eth := l1\<rparr>" and
    loop1: "decode_loop worker_decoders (Ethernet_NextLayerType l1) (eth_Payload l1)
      [LayerTypeEthernet] (s1\<lparr>l_Truncated := t1\<rparr>) = (s', ds, None)"
    by (auto simp: on_field_decoded)
  from Ethernet_payload [OF l1] have len: "14 \<le> length d" by simp
  obtain l where "Ethernet_DecodeFromBytes d (l_eth s) = (False, Inr (Inr l))"
    "eth_EthernetType l = 0x0800" "eth_Payload l = drop 14 d"
    using Ethernet_IPv4_ok [OF len ethertype] by blast
  with l1 have l1': "Ethernet_NextLayerType l1 = LayerTypeIPv4" "eth_Payload l1 = ?ip"
    by (auto simp: ip Ethernet_NextLayerType_def EthernetType_LayerType_def)
  have "?ip \<noteq> []"
    using loop1 l1' parse by (auto simp: ParsePacketSlow_def)
  with decode_loop_step [OF loop1] obtain l2 s2 t2 where
    l2: "IPv4_DecodeFromBytes ?ip (l_ip4 s) = (t2, Inr (Inr l2))" and
    s2: "s2 = s1\<lparr>l_Truncated := t1, l_ip4 := l2\<rparr>" and
    loop2: "decode_loop worker_decoders (IPv4_NextLayerType l2) (ip4_Payload l2)
      [LayerTypeEthernet, LayerTypeIPv4] (s2\<lparr>l_Truncated := t1 \<or> t2\<rparr>) = (s', ds, None)"
    using l1' by (auto simp: on_field_decoded s1)
  note ip4 = IPv4_ok [OF l2 no_tso]
  have "ip4_Payload l2 \<noteq> []"
    using loop2 parse by (auto simp: ParsePacketSlow_def IPv4_NetworkFlow_def NewFlow_def go_bind_eq_Inr)
  with ip4 have seg: "?seg \<noteq> []" "ip4_Payload l2 = ?seg" by auto
  have "IPv4_NextLayerType l2 = LayerTypeTCP"
    using decode_loop_step [OF loop2] ip4 proto seg
    by (auto simp: IPv4_NextLayerType_def worker_decoders_unsupported IPProtocol_LayerType_def IP_TCP_def
        split: if_splits)
  with decode_loop_step [OF loop2] seg obtain l3 s3 t3 where
    l3: "TCP_DecodeFromBytes ?seg (l_tcp s) = (t3, Inr (Inr l3))" and
    s3: "s3 = s2\<lparr>l_Truncated := t1 \<or> t2, l_tcp := l3\<rparr>" and
    loop3: "decode_loop worker_decoders (TCP_NextLayerType l3) (tcp_Payload l3)
      [LayerTypeEthernet, LayerTypeIPv4, LayerTypeTCP] (s3\<lparr>l_Truncated := (t1 \<or> t2) \<or> t3\<rparr>) = (s', ds, None)"
    by (auto simp: on_field_decoded s1 s2)
  have layers: "l_ip4 s' = l2 \<and> l_tcp s' = l3 \<and>
      (\<exists>more. ds = LayerTypeEthernet # LayerTypeIPv4 # LayerTypeTCP # more)"
  proof (cases "tcp_Payload l3 = []")
    case True
    with loop3 show ?thesis by (auto simp: s2 s3)
  next
    case False
    with decode_loop_step [OF loop3] TCP_NextLayerType_cases [of l3] show ?thesis
      by (auto simp: worker_decoders_unsupported on_field_decoded Payload_LayerPayload_def s2 s3)
  qed
  note tcp = TCP_ok [OF l3]
  have flow: "IPv4_NetworkFlow l2 = Inr f \<Longrightarrow>
      Endpoint_String (Flow_Src f) = Inr (dotted (take 4 (drop 12 ?ip)))" for f
  proof -
    assume f: "IPv4_NetworkFlow l2 = Inr f"
    have "length (ip4_SrcIP l2) = 4" using ip4 by auto
    then show ?thesis
      using f ip4 Endpoint_String_src [of "ip4_SrcIP l2" EndpointIPv4 "ip4_DstIP l2" f]
      by (simp add: IPv4_NetworkFlow_def net_IP_String_dotted MaxEndpointSize_def)
  qed
  have "r = \<lparr>AlreadyParsed = False, SrcIp = dotted (take 4 (drop 12 ?ip)), SrcPort = int (u16_at ?seg 0),
       Data = drop (tcp_data_offset ?seg) ?seg, CapturedAt = now, ParsedRequest = None\<rparr>"
    using parse layers tcp
    by (auto simp: ParsePacketSlow_def go_bind_eq_Inr flow Let_def split: if_splits)
  then show ?thesis
    using len ethertype proto ip4 tcp by (simp add: ParsePacketFast_eq Let_def DLT_EN10MB_def)
qed

subsection \<open>Invariants of the decoding loop\<close>

text \<open>
  A property of the layers decoded so far, the data still to decode and the layers themselves
  that every successful decoder call preserves holds at the end, error or not.
\<close>

definition loop_invariant :: "decoders \<Rightarrow> (LayerType list \<Rightarrow> bytes \<Rightarrow> Layers \<Rightarrow> bool) \<Rightarrow> bool" where
  "loop_invariant decs P \<longleftrightarrow>
     (\<forall>ty d data decoded s s' t. decs ty = Some d \<longrightarrow> data \<noteq> [] \<longrightarrow> P decoded data s \<longrightarrow>
        DecodeFromBytes d data s = (s', t, Inr (Inr ())) \<longrightarrow>
        P (decoded @ [ty]) (LayerPayload d s') (s'\<lparr>l_Truncated := l_Truncated s \<or> t\<rparr>))"

lemma decode_loop_invariant:
  "loop_invariant decs P \<Longrightarrow> decode_loop decs ty data decoded s = (s', ds, None) \<Longrightarrow>
   P decoded data s \<Longrightarrow> \<exists>rest. P ds rest s'"
proof (induction decs ty data decoded s arbitrary: s' ds rule: decode_loop.induct)
  case (1 decs ty data decoded s)
  show ?case
  proof (cases "data = []")
    case True
    with "1.prems" show ?thesis by auto
  next
    case False
    from decode_loop_step [OF "1.prems"(2) False] obtain d s1 t where
      d: "decs ty = Some d" "DecodeFromBytes d data s = (s1, t, Inr (Inr ()))" and
      rest: "decode_loop decs (NextLayerType d s1) (LayerPayload d s1) (decoded @ [ty])
        (s1\<lparr>l_Truncated := l_Truncated s \<or> t\<rparr>) = (s', ds, None)" by blast
    have "P (decoded @ [ty]) (LayerPayload d s1) (s1\<lparr>l_Truncated := l_Truncated s \<or> t\<rparr>)"
      using "1.prems"(1,3) d False by (auto simp: loop_invariant_def)
    with "1.IH" [OF False d(1) d(2)[symmetric] refl refl refl "1.prems"(1) rest]
    show ?thesis .
  qed
qed

text \<open>The addresses of the network layers fit an endpoint, so building a flow does not panic.\<close>

definition addresses_ok :: "Layers \<Rightarrow> bool" where
  "addresses_ok s \<longleftrightarrow> length (ip4_SrcIP (l_ip4 s)) \<le> 16 \<and> length (ip4_DstIP (l_ip4 s)) \<le> 16 \<and>
     length (ip6_SrcIP (l_ip6 s)) \<le> 16 \<and> length (ip6_DstIP (l_ip6 s)) \<le> 16"

lemma IPv4_addresses:
  assumes "IPv4_DecodeFromBytes data l = (t, Inr (Inr l'))"
  shows "length (ip4_SrcIP l') \<le> 16 \<and> length (ip4_DstIP l') \<le> 16"
  using assms unfolding IPv4_DecodeFromBytes_def dec_bind_ok
  by (auto simp: go_eq_Inr dest!: IPv4_check_lengths_fields)

lemma ip6_fixed_header_addresses:
  "ip6_fixed_header data l = Inr l' \<Longrightarrow> length (ip6_SrcIP l') \<le> 16 \<and> length (ip6_DstIP l') \<le> 16"
  by (auto simp: ip6_fixed_header_def go_eq_Inr)

lemma ip6_cut_payload_addresses:
  "ip6_cut_payload n l = (l', x) \<Longrightarrow> ip6_SrcIP l' = ip6_SrcIP l \<and> ip6_DstIP l' = ip6_DstIP l"
  by (auto simp: ip6_cut_payload_def Let_def)

lemma IPv6_addresses:
  assumes "IPv6_DecodeFromBytes data l = (l', x)"
    and "length (ip6_SrcIP l) \<le> 16 \<and> length (ip6_DstIP l) \<le> 16"
  shows "length (ip6_SrcIP l') \<le> 16 \<and> length (ip6_DstIP l') \<le> 16"
  using assms
  by (auto simp: IPv6_DecodeFromBytes_def Let_def split: sum.splits prod.splits if_splits
      dest!: ip6_cut_payload_addresses ip6_fixed_header_addresses)

lemma keep_on_error_cases:
  "keep_on_error l d = (l', x) \<Longrightarrow> l' = l \<or> (\<exists>t. d = (t, Inr (Inr l')))"
  by (auto simp: keep_on_error_def split: prod.splits sum.splits)

lemma DecodeFromBytes_addresses:
  assumes "DecodeFromBytes d data s = (s', x)" "addresses_ok s"
  shows "addresses_ok s'"
  using assms
  by (cases d) (auto simp: on_field_def addresses_ok_def split: prod.splits
      dest!: keep_on_error_cases dest: IPv4_addresses IPv6_addresses)

lemma decode_loop_addresses:
  "decode_loop decs ty data decoded s = (s', ds, e) \<Longrightarrow> addresses_ok s \<Longrightarrow> addresses_ok s'"
proof (induction decs ty data decoded s rule: decode_loop.induct)
  case (1 decs ty data decoded s)
  show ?case
  proof (cases "data = [] \<or> decs ty = None")
    case True
    with "1.prems" show ?thesis
      by (subst (asm) decode_loop.simps) (auto split: if_splits)
  next
    case False
    then obtain d where d: "decs ty = Some d" "data \<noteq> []" by auto
    obtain s1 t r where dec: "DecodeFromBytes d data s = (s1, t, r)" by (metis prod.exhaust)
    have ok1: "addresses_ok (s1\<lparr>l_Truncated := l_Truncated s \<or> t\<rparr>)"
      using DecodeFromBytes_addresses [OF dec "1.prems"(2)] by (simp add: addresses_ok_def)
    consider p where "r = Inl p" | e where "r = Inr (Inl e)" | "r = Inr (Inr ())"
      by (metis sum.exhaust old.unit.exhaust)
    then show ?thesis
    proof cases
      case 3
      with "1.prems"(1) d dec have "decode_loop decs (NextLayerType d s1) (LayerPayload d s1) (decoded @ [ty])
          (s1\<lparr>l_Truncated := l_Truncated s \<or> t\<rparr>) = (s', ds, e)"
        by (subst (asm) decode_loop.simps) simp
      from "1.IH" [OF d(2,1) dec[unfolded 3, symmetric] refl refl refl this ok1] show ?thesis .
    next
      case (1 p)
      then have "decode_loop decs ty data decoded s =
          (s1\<lparr>l_Truncated := l_Truncated s \<or> t\<rparr>, decoded, Some (panicToError p))"
        using d dec by (subst decode_loop.simps) simp
      with "1.prems"(1) ok1 show ?thesis by simp
    next
      case (2 err)
      then have "decode_loop decs ty data decoded s =
          (s1\<lparr>l_Truncated := l_Truncated s \<or> t\<rparr>, decoded, Some err)"
        using d dec by (subst decode_loop.simps) simp
      with "1.prems"(1) ok1 show ?thesis by simp
    qed
  qed
qed

lemma Endpoint_String_net: "\<exists>t. Endpoint_String \<lparr>e_typ = EndpointIPv4, e_len = n, e_raw = b\<rparr> = Inr t"
  "\<exists>t. Endpoint_String \<lparr>e_typ = EndpointIPv6, e_len = n, e_raw = b\<rparr> = Inr t"
  by (auto simp: Endpoint_String_def endpoint_formatter_def endpoint_types)

definition net_flow :: "Flow option \<Rightarrow> bool" where
  "net_flow f \<longleftrightarrow> (case f of None \<Rightarrow> True | Some f \<Rightarrow> f_typ f = EndpointIPv4 \<or> f_typ f = EndpointIPv6)"

lemma slow_loop_total:
  assumes "length (ip4_SrcIP ip4) \<le> 16" "length (ip4_DstIP ip4) \<le> 16"
    "length (ip6_SrcIP ip6) \<le> 16" "length (ip6_DstIP ip6) \<le> 16"
  shows "net_flow f \<Longrightarrow> \<exists>r. slow_loop ds f ip4 ip6 tcp now = Inr r"
proof (induction ds arbitrary: f)
  case (Cons ty ds)
  have 4: "\<exists>g. IPv4_NetworkFlow ip4 = Inr g \<and> net_flow (Some g)"
    and 6: "\<exists>g. IPv6_NetworkFlow ip6 = Inr g \<and> net_flow (Some g)"
    using assms by (auto simp: IPv4_NetworkFlow_def IPv6_NetworkFlow_def NewFlow_def net_flow_def MaxEndpointSize_def)
  have str: "\<exists>t. Endpoint_String (Flow_Src g) = Inr t" if "net_flow (Some g)" for g
    using that Endpoint_String_net [of "f_slen g" "f_src g"]
    by (auto simp: net_flow_def Flow_Src_def Flow_Endpoints_def)
  show ?case
  proof (cases f)
    case None
    with 4 6 Cons show ?thesis by auto
  next
    case (Some g)
    with str [of g] 4 6 Cons show ?thesis by (auto simp: Let_def)
  qed
qed simp

lemma slow_parse_total:
  assumes "slow_parse d now s = (s', r)" "addresses_ok s"
  shows "addresses_ok s' \<and> (\<exists>x. r = Inr x)"
proof -
  obtain s1 ds e where dl: "DecodeLayers worker_decoders LayerTypeEthernet d s = (s1, ds, e)"
    by (metis prod.exhaust)
  have "addresses_ok s1"
    using decode_loop_addresses [of worker_decoders LayerTypeEthernet d "[]" "s\<lparr>l_Truncated := False\<rparr>" s1 ds e]
      dl assms(2) by (simp add: DecodeLayers_def addresses_ok_def)
  moreover from this obtain x where x: "slow_loop ds None (l_ip4 s1) (l_ip6 s1) (l_tcp s1) now = Inr x"
    using slow_loop_total [of "l_ip4 s1" "l_ip6 s1" None ds "l_tcp s1" now]
    by (auto simp: addresses_ok_def net_flow_def)
  ultimately show ?thesis
    using assms(1) dl by (cases e) (auto simp: slow_parse_def ParsePacketSlow_def x)
qed

text \<open>The payload of the decoded TCP layer is a contiguous part of the packet.\<close>

definition payload_inside :: "bytes \<Rightarrow> LayerType list \<Rightarrow> bytes \<Rightarrow> Layers \<Rightarrow> bool" where
  "payload_inside d decoded data s \<longleftrightarrow>
     sublist data d \<and> (LayerTypeTCP \<in> set decoded \<longrightarrow> sublist (tcp_Payload (l_tcp s)) d)"

lemma worker_decoders_tcp:
  "worker_decoders ty = Some d \<Longrightarrow> (ty = LayerTypeTCP \<longleftrightarrow> d = D_TCP)"
  by (auto simp: worker_decoders_def NewDecodingLayerParser_def AddDecodingLayer_def split: if_splits)

lemma DecodeFromBytes_tcp_frame:
  "DecodeFromBytes d data s = (s', x) \<Longrightarrow> d \<noteq> D_TCP \<Longrightarrow> l_tcp s' = l_tcp s"
  by (cases d) (auto simp: on_field_def split: prod.splits)

lemma payload_inside_invariant: "loop_invariant worker_decoders (payload_inside d)"
  unfolding loop_invariant_def
proof (intro allI impI)
  fix ty dec data decoded s s' t
  assume dec: "worker_decoders ty = Some dec" and ne: "data \<noteq> []" and
    inv: "payload_inside d decoded data s" and ok: "DecodeFromBytes dec data s = (s', t, Inr (Inr ()))"
  have data: "sublist data d" using inv by (simp add: payload_inside_def)
  from LayerPayload_advances [OF ok ne] have "sublist (LayerPayload dec s') data" by simp
  with data have sub: "sublist (LayerPayload dec s') d"
    by (meson sublist_order.order_trans)
  show "payload_inside d (decoded @ [ty]) (LayerPayload dec s') (s'\<lparr>l_Truncated := l_Truncated s \<or> t\<rparr>)"
  proof (cases "dec = D_TCP")
    case True
    with sub show ?thesis by (simp add: payload_inside_def)
  next
    case False
    with worker_decoders_tcp [OF dec] DecodeFromBytes_tcp_frame [OF ok] sub inv show ?thesis
      by (simp add: payload_inside_def)
  qed
qed

lemma slow_loop_data:
  "slow_loop ds f ip4 ip6 tcp now = Inr (Inr (Some r)) \<Longrightarrow> LayerTypeTCP \<in> set ds \<and> Data r = tcp_Payload tcp"
proof (induction ds arbitrary: f)
  case (Cons ty ds)
  then show ?case
    by (auto simp: go_bind_eq_Inr Let_def split: if_splits option.splits)
qed simp

lemma slow_parse_data_inside:
  assumes "slow_parse d now s = (s', Inr (Inr (Some r)))"
  shows "sublist (Data r) d"
proof -
  from assms obtain ds where
    ds: "decode_loop worker_decoders LayerTypeEthernet d [] (s\<lparr>l_Truncated := False\<rparr>) = (s', ds, None)"
    and r: "slow_loop ds None (l_ip4 s') (l_ip6 s') (l_tcp s') now = Inr (Inr (Some r))"
    by (auto simp: slow_parse_def DecodeLayers_def ParsePacketSlow_def split: prod.splits option.splits)
  from decode_loop_invariant [OF payload_inside_invariant ds, of d] obtain rest where
    "payload_inside d ds rest s'" by (auto simp: payload_inside_def)
  with slow_loop_data [OF r] show ?thesis by (simp add: payload_inside_def)
qed

subsection \<open>Hop-by-hop options outlive their packet\<close>

text \<open>
  The option list of the embedded hop-by-hop header is only ever appended to, and the search for
  a jumbo length takes the first match; so one jumbogram decides for all later packets of the
  same worker that carry a hop-by-hop header.
\<close>

lemma hbh_options_extends: "\<exists>newer. fst (hbh_options data offset actual opts) = opts @ newer"
proof (induction data offset actual opts rule: hbh_options.induct)
  case (1 data offset actual opts)
  show ?case
  proof (cases "offset < actual")
    case True
    show ?thesis
    proof (cases "go_bind (go_slice_from data offset) decodeIPv6HeaderTLVOption")
      case (Inl p)
      with True show ?thesis by (simp add: hbh_options.simps)
    next
      case (Inr opt)
      from "1.IH" [OF True Inr] obtain newer where
        "fst (hbh_options data (offset + tlv_ActualLength opt) actual (opts @ [opt])) = opts @ opt # newer"
        by auto
      with True Inr show ?thesis by (subst hbh_options.simps) simp
    qed
  qed (simp add: hbh_options.simps)
qed

lemma first_option_append:
  "first_option ty opts = Some tlv \<Longrightarrow> first_option ty (opts @ newer) = Some tlv"
  by (induction opts) (auto split: if_splits)

definition has_jumbo :: "ipv6HeaderTLVOption list \<Rightarrow> bool" where
  "has_jumbo opts \<longleftrightarrow>
     (\<exists>tlv l. first_option IPv6HopByHopOptionJumbogram opts = Some tlv \<and> length (tlv_OptionData tlv) = 4 \<and>
        be_uint32 (tlv_OptionData tlv) = Inr l \<and> ipv6MaxPayloadLength < unat l)"

lemma jumbo_length_found:
  "has_jumbo opts \<Longrightarrow> \<exists>l. getIPv6HopByHopJumboLength (opts @ newer) = Inr (Inr (l, True))"
  by (auto simp: has_jumbo_def getIPv6HopByHopJumboLength_def first_option_append)

lemma stale_jumbo_rejects:
  assumes stale: "has_jumbo (ip6_hbh_Options l)"
    and hdr: "ip6_fixed_header data l = Inr h" "ip6_NextHeader h = 0" "ip6_Length h \<noteq> 0"
    and ext: "decodeIPv6ExtensionBase (ip6_Payload h) = Inr b"
    and opts: "snd (hbh_options (ip6_Payload h) 2 (ext_ActualLength b) (ip6_hbh_Options h)) = Inr ()"
  shows "snd (snd (IPv6_DecodeFromBytes data l)) =
    Inr (Inl ''IPv6 has jumbo length and IPv6 length is not 0'')"
proof -
  have same: "ip6_hbh_Options h = ip6_hbh_Options l"
    using ip6_fixed_header_ok [OF hdr(1)] by simp
  obtain newer where newer: "hbh_options (ip6_Payload h) 2 (ext_ActualLength b) (ip6_hbh_Options h) =
      (ip6_hbh_Options l @ newer, Inr ())"
    using hbh_options_extends [of "ip6_Payload h" 2 "ext_ActualLength b" "ip6_hbh_Options h"] opts same
    by (metis prod.collapse)
  obtain n where n: "getIPv6HopByHopJumboLength (ip6_hbh_Options l @ newer) = Inr (Inr (n, True))"
    using jumbo_length_found [OF stale] by blast
  show ?thesis
    using hdr ext newer n by (simp add: IPv6_DecodeFromBytes_def Let_def)
qed

end
