(* ===== verification/Worker.thy ===== *)
theory Worker
  imports SlowParser MongoHelper
begin

text \<open>
  The worker of \<open>MRTECollector.go\<close>, \<open>sendUserPacket\<close>: it receives captured packets and
  requests made by the program, puts requests that arrive in several TCP segments together,
  parses them, and writes them to its queue collection in batches.

  One record holds the locals of the goroutine with the entries of the global slices and maps
  that belong to its index: the batch buffer, the incomplete requests, the layers of its
  gopacket parser and its counters. A step of the loop is one receive or one tick, followed by
  the check for a flush. The readings of the clock and the answer of the server to a bulk
  insert are arguments. Log output is not modelled.
\<close>

definition queueBatchSize :: nat where
  "queueBatchSize = 30"

record Config =
  fastPacketParsing :: bool
  onlySelect :: bool
  packetExpireTimeoutSeconds :: int
  threads :: int
  mongo_db :: string
  mongo_collection :: string
  linkType :: int

record MysqlPacket =
  IsParsed :: bool
  RawData :: bytes
  Request :: "MysqlRequest option"

record Worker =
  workerIdx :: int
  forceFlush :: bool
  batched :: nat
  batches :: "MysqlRequest option list"
  parser_layers :: Layers
  requestMap :: "string \<rightharpoonup> MysqlRequest"
  assembledPackets :: "64 word"
  expiredPackets :: "64 word"
  validPackets :: "64 word"
  mqErrorCounter :: "64 word"

subsection \<open>Receiving a packet\<close>

text \<open>\<open>batches[batched] = r; batched++\<close>\<close>

definition push_batch :: "MysqlRequest \<Rightarrow> Worker \<Rightarrow> Worker go" where
  "push_batch r w =
     go_bind (go_store (batches w) (int (batched w)) (Some r)) (\<lambda>bs.
       Inr (w\<lparr>batches := bs, batched := batched w + 1\<rparr>))"

text \<open>\<open>int(4 + (0xFFFFFF & binary.LittleEndian.Uint32(data)))\<close>\<close>

definition payload_size :: "bytes \<Rightarrow> nat go" where
  "payload_size data = go_bind (le_uint32 data) (\<lambda>u. Inr (unat (4 + (0xFFFFFF AND u))))"

definition request_key :: "MysqlRequest \<Rightarrow> string" where
  "request_key mp = SrcIp mp @ '':'' @ strconv_Itoa (SrcPort mp)"

definition expired :: "Config \<Rightarrow> int \<Rightarrow> MysqlRequest \<Rightarrow> bool" where
  "expired cfg now p \<longleftrightarrow> packetExpireTimeoutSeconds cfg < whole_seconds (now - CapturedAt p)"

text \<open>\<open>delete(mysqlRequestMaps[workerIdx], key); expiredPackets[workerIdx]++\<close>\<close>

definition drop_request :: "string \<Rightarrow> Worker \<Rightarrow> Worker" where
  "drop_request key w =
     w\<lparr>requestMap := (requestMap w)(key := None), expiredPackets := expiredPackets w + 1\<rparr>"

text \<open>
  The checks of a stored partial request \<open>p\<close>: the age, then the comparison of its length with
  the size in the header of the new packet. The flag is \<open>ok\<close>.
\<close>

definition check_stored :: "Config \<Rightarrow> int \<Rightarrow> string \<Rightarrow> MysqlRequest \<Rightarrow> MysqlRequest \<Rightarrow> Worker \<Rightarrow>
    (Worker \<times> bool) go" where
  "check_stored cfg now key p mp w =
     (let (w, ok) = (if expired cfg now p then (drop_request key w, False) else (w, True))
      in go_bind (payload_size (Data mp)) (\<lambda>payloadSize.
           if length (Data p) = payloadSize then Inr (drop_request key w, False) else Inr (w, ok)))"

text \<open>The branch for a stored partial request: \<open>p\<close> is a copy of the map's value.\<close>

definition assemble_request :: "Config \<Rightarrow> string \<Rightarrow> MysqlRequest \<Rightarrow> MysqlRequest \<Rightarrow> Worker \<Rightarrow> Worker go" where
  "assemble_request cfg key p mp w =
     (let p = p\<lparr>Data := Data p @ Data mp\<rparr>
      in go_bind (payload_size (Data p)) (\<lambda>payloadSize.
           if payloadSize \<le> length (Data p) then
             go_bind (ParsePacket (Data p) (onlySelect cfg)) (\<lambda>r.
             go_bind (case r of
                 Inr parsedDoc \<Rightarrow>
                   push_batch (p\<lparr>ParsedRequest := Some parsedDoc\<rparr>) (w\<lparr>validPackets := validPackets w + 1\<rparr>)
               | Inl err \<Rightarrow> Inr w) (\<lambda>w.
               Inr (w\<lparr>requestMap := (requestMap w)(key := None)\<rparr>)))
           else Inr (w\<lparr>assembledPackets := assembledPackets w + 1\<rparr>)))"

text \<open>The branch without one.\<close>

definition direct_request :: "Config \<Rightarrow> string \<Rightarrow> MysqlRequest \<Rightarrow> Worker \<Rightarrow> Worker go" where
  "direct_request cfg key mp w =
     go_bind (payload_size (Data mp)) (\<lambda>payloadSize.
       if payloadSize \<le> length (Data mp) then
         go_bind (ParsePacket (Data mp) (onlySelect cfg)) (\<lambda>r.
           case r of
             Inr parsedDoc \<Rightarrow>
               push_batch (mp\<lparr>ParsedRequest := Some parsedDoc\<rparr>) (w\<lparr>validPackets := validPackets w + 1\<rparr>)
           | Inl err \<Rightarrow> Inr w)
       else Inr (w\<lparr>assembledPackets := assembledPackets w + 1,
                  requestMap := (requestMap w)(key \<mapsto> mp)\<rparr>))"

definition handle_request :: "Config \<Rightarrow> int \<Rightarrow> MysqlRequest \<Rightarrow> Worker \<Rightarrow> Worker go" where
  "handle_request cfg now mp w =
     (if length (strings_TrimSpace (string_of_bytes (Data mp))) = 0 then Inr w
      else
        let key = request_key mp in
        case requestMap w key of
          Some p \<Rightarrow>
            go_bind (check_stored cfg now key p mp w) (\<lambda>(w, ok).
              if ok then assemble_request cfg key p mp w else direct_request cfg key mp w)
        | None \<Rightarrow> direct_request cfg key mp w)"

text \<open>\<open>captured\<close> is the clock at the parser's \<open>time.Now\<close>, \<open>now\<close> that of \<open>time.Since\<close>.\<close>

definition receive :: "Config \<Rightarrow> int \<Rightarrow> int \<Rightarrow> MysqlPacket \<Rightarrow> Worker \<Rightarrow> Worker go" where
  "receive cfg captured now pkt w =
     (if IsParsed pkt then
        (case Request pkt of Some r \<Rightarrow> push_batch r w | None \<Rightarrow> Inr w)
      else if fastPacketParsing cfg then
        go_bind (ParsePacketFast (RawData pkt) (linkType cfg) captured) (\<lambda>r.
          case r of Inl err \<Rightarrow> Inr w | Inr mp \<Rightarrow> handle_request cfg now mp w)
      else
        (case slow_parse (RawData pkt) captured (parser_layers w) of
           (s, r) \<Rightarrow>
             let w = w\<lparr>parser_layers := s\<rparr> in
             go_bind r (\<lambda>r.
               case r of
                 Inl err \<Rightarrow> Inr w
               | Inr None \<Rightarrow> Inr w
               | Inr (Some mp) \<Rightarrow> handle_request cfg now mp w)))"

subsection \<open>Flushing the batch\<close>

fun clear_from :: "nat \<Rightarrow> nat \<Rightarrow> MysqlRequest option list \<Rightarrow> MysqlRequest option list go" where
  "clear_from idx 0 bs = Inr bs"
| "clear_from idx (Suc n) bs = go_bind (go_store bs (int idx) None) (clear_from (idx + 1) n)"

definition flush_batch :: "Config \<Rightarrow> string option \<Rightarrow> Worker \<Rightarrow> (Worker \<times> mongo_cmd list) go" where
  "flush_batch cfg answer w =
     (if queueBatchSize \<le> batched w \<or> forceFlush w then
        go_bind
          (if 0 < batched w then
             go_bind (go_slice (batches w) 0 (batched w)) (\<lambda>bs.
             go_bind (InsertBulkPackets (mongo_db cfg) (mongo_collection cfg) (workerIdx w) bs answer)
               (\<lambda>(cmd, inserted).
             go_bind (clear_from 0 20 (batches w)) (\<lambda>cleared.
               Inr (w\<lparr>mqErrorCounter := mqErrorCounter w + word_of_int (int (batched w) - int inserted),
                      batches := cleared\<rparr>, [cmd]))))
           else Inr (w, []))
          (\<lambda>(w, cmds). Inr (w\<lparr>batched := 0, forceFlush := False\<rparr>, cmds))
      else Inr (w, []))"

subsection \<open>One turn of the loop\<close>

datatype worker_event =
    Received MysqlPacket int int
  | Ticked

definition select_case :: "Config \<Rightarrow> worker_event \<Rightarrow> Worker \<Rightarrow> Worker go" where
  "select_case cfg ev w =
     (case ev of
        Received pkt captured now \<Rightarrow> receive cfg captured now pkt w
      | Ticked \<Rightarrow> Inr (w\<lparr>forceFlush := True\<rparr>))"

definition worker_turn :: "Config \<Rightarrow> string option \<Rightarrow> worker_event \<Rightarrow> Worker \<Rightarrow>
    (Worker \<times> mongo_cmd list) go" where
  "worker_turn cfg answer ev w = go_bind (select_case cfg ev w) (flush_batch cfg answer)"

subsection \<open>The other goroutine that changes a worker's data\<close>

text \<open>
  \<open>flushExpiredRequest\<close>, called by the status goroutine, deletes the requests that are too old
  from the worker's map. The range loop visits every entry once and reads the clock for each:
  \<open>clock k\<close> is the reading at the entry of \<open>k\<close>. It is taken as one action; the code does not
  exclude the worker while the loop runs.
\<close>

definition flushExpiredRequest :: "Config \<Rightarrow> (string \<Rightarrow> int) \<Rightarrow> Worker \<Rightarrow> Worker" where
  "flushExpiredRequest cfg clock w =
     w\<lparr>requestMap := (\<lambda>k.
        case requestMap w k of
          None \<Rightarrow> None
        | Some p \<Rightarrow> if expired cfg (clock k) p then None else Some p)\<rparr>"

datatype worker_action =
    Turn worker_event "string option"
  | Expire "string \<Rightarrow> int"

fun worker_act :: "Config \<Rightarrow> worker_action \<Rightarrow> Worker \<Rightarrow> (Worker \<times> mongo_cmd list) go" where
  "worker_act cfg (Turn ev answer) w = worker_turn cfg answer ev w"
| "worker_act cfg (Expire clock) w = Inr (flushExpiredRequest cfg clock w, [])"

fun worker_run :: "Config \<Rightarrow> worker_action list \<Rightarrow> Worker \<Rightarrow> (Worker \<times> mongo_cmd list) go" where
  "worker_run cfg [] w = Inr (w, [])"
| "worker_run cfg (a # as) w =
     go_bind (worker_act cfg a w) (\<lambda>(w, cmds).
     go_bind (worker_run cfg as w) (\<lambda>(w, more). Inr (w, cmds @ more)))"

text \<open>A new goroutine: \<open>make\<close> of the buffer, and the zero values of the layers.\<close>

definition zero_layers :: Layers where
  "zero_layers =
     \<lparr>l_eth = \<lparr>eth_SrcMAC = [], eth_DstMAC = [], eth_EthernetType = 0, eth_Length = 0,
               eth_Contents = [], eth_Payload = []\<rparr>,
      l_dot1q = \<lparr>dq_Priority = 0, dq_DropEligible = False, dq_VLANIdentifier = 0, dq_Type = 0,
                 dq_Contents = [], dq_Payload = []\<rparr>,
      l_ip4 = \<lparr>ip4_Version = 0, ip4_IHL = 0, ip4_TOS = 0, ip4_Length = 0, ip4_Id = 0, ip4_Flags = 0,
               ip4_FragOffset = 0, ip4_TTL = 0, ip4_Protocol = 0, ip4_Checksum = 0, ip4_SrcIP = [],
               ip4_DstIP = [], ip4_Options = [], ip4_Padding = [], ip4_Contents = [], ip4_Payload = []\<rparr>,
      l_ip6 = \<lparr>ip6_Version = 0, ip6_TrafficClass = 0, ip6_FlowLabel = 0, ip6_Length = 0,
               ip6_NextHeader = 0, ip6_HopLimit = 0, ip6_SrcIP = [], ip6_DstIP = [], ip6_HopByHop = False,
               ip6_hbh_base = \<lparr>ext_NextHeader = 0, ext_HeaderLength = 0, ext_ActualLength = 0,
                               ext_Contents = [], ext_Payload = []\<rparr>,
               ip6_hbh_Options = [], ip6_Contents = [], ip6_Payload = []\<rparr>,
      l_ip6ext = \<lparr>skip_NextHeader = 0, skip_Contents = [], skip_Payload = []\<rparr>,
      l_tcp = \<lparr>tcp_SrcPort = 0, tcp_DstPort = 0, tcp_Seq = 0, tcp_Ack = 0, tcp_DataOffset = 0,
               tcp_FIN = False, tcp_SYN = False, tcp_RST = False, tcp_PSH = False, tcp_ACK = False,
               tcp_URG = False, tcp_ECE = False, tcp_CWR = False, tcp_NS = False, tcp_Window = 0,
               tcp_Checksum = 0, tcp_Urgent = 0, tcp_sPort = [], tcp_dPort = [], tcp_Options = [],
               tcp_Padding = [], tcp_Contents = [], tcp_Payload = []\<rparr>,
      l_payload = [], l_Truncated = False\<rparr>"

definition new_worker :: "int \<Rightarrow> Worker" where
  "new_worker idx =
     \<lparr>workerIdx = idx, forceFlush = False, batched = 0, batches = replicate queueBatchSize None,
      parser_layers = zero_layers, requestMap = Map.empty,
      assembledPackets = 0, expiredPackets = 0, validPackets = 0, mqErrorCounter = 0\<rparr>"

subsection \<open>The batch buffer is a bounded queue\<close>

text \<open>
  The contract between the code that accepts requests and the batch buffer: within its capacity,
  a push does not fail and appends. The client adds the requests of a turn one by one.
\<close>

locale bounded_buffer =
  fixes push :: "'r \<Rightarrow> 'q \<Rightarrow> 'q go"
    and items :: "'q \<Rightarrow> 'r list"
    and ok :: "'q \<Rightarrow> bool"
    and capacity :: nat
  assumes push_ok: "ok q \<Longrightarrow> length (items q) < capacity \<Longrightarrow>
      \<exists>q'. push r q = Inr q' \<and> ok q' \<and> items q' = items q @ [r]"
    and push_full: "ok q \<Longrightarrow> length (items q) = capacity \<Longrightarrow> push r q = Inl IndexOutOfRange"
begin

lemma push_cases:
  assumes "ok q" "length (items q) < capacity" "push r q = Inr q'"
  shows "ok q' \<and> items q' = items q @ [r]"
  using push_ok [OF assms(1,2), of r] assms(3) by auto

lemma push_never_panics: "ok q \<Longrightarrow> length (items q) < capacity \<Longrightarrow> \<not> panics (push r q)"
  using push_ok [of q r] by (auto simp: not_panics_iff)

end

definition pending :: "Worker \<Rightarrow> MysqlRequest list" where
  "pending w = map the (take (batched w) (batches w))"

definition buffer_ok :: "Worker \<Rightarrow> bool" where
  "buffer_ok w \<longleftrightarrow> length (batches w) = queueBatchSize \<and> batched w \<le> queueBatchSize \<and>
     None \<notin> set (take (batched w) (batches w))"

lemma length_pending: "buffer_ok w \<Longrightarrow> length (pending w) = batched w"
  by (simp add: pending_def buffer_ok_def)

lemma filled_part: "buffer_ok w \<Longrightarrow> take (batched w) (batches w) = map Some (pending w)"
proof -
  have eq: "None \<notin> set xs \<Longrightarrow> xs = map Some (map the xs)" for xs :: "'a option list"
    by (induction xs) auto
  assume "buffer_ok w"
  then have "None \<notin> set (take (batched w) (batches w))" by (simp add: buffer_ok_def)
  then show ?thesis unfolding pending_def by (rule eq)
qed

lemma push_batch_room:
  assumes "buffer_ok w" "batched w < queueBatchSize"
  shows "push_batch r w = Inr (w\<lparr>batches := (batches w)[batched w := Some r], batched := batched w + 1\<rparr>)"
  using assms by (simp add: push_batch_def go_store_def buffer_ok_def)

lemma take_update_Suc: "n < length xs \<Longrightarrow> take (Suc n) (xs[n := x]) = take n xs @ [x]"
  by (simp add: take_Suc_conv_app_nth)

interpretation batch: bounded_buffer push_batch pending buffer_ok queueBatchSize
proof unfold_locales
  fix w r
  assume ok: "buffer_ok w" and room: "length (pending w) < queueBatchSize"
  then have "batched w < queueBatchSize" by (simp add: length_pending)
  with ok show "\<exists>q'. push_batch r w = Inr q' \<and> buffer_ok q' \<and> pending q' = pending w @ [r]"
    by (auto simp: push_batch_room) (auto simp: buffer_ok_def pending_def take_update_Suc)
next
  fix w r
  assume "buffer_ok w" and "length (pending w) = queueBatchSize"
  then show "push_batch r w = Inl IndexOutOfRange"
    by (simp add: length_pending) (simp add: push_batch_def go_store_def buffer_ok_def)
qed

text \<open>A push touches only the buffer.\<close>

lemma push_batch_frame:
  assumes "push_batch r w = Inr w'"
  shows "requestMap w' = requestMap w \<and> parser_layers w' = parser_layers w \<and>
     forceFlush w' = forceFlush w \<and> workerIdx w' = workerIdx w \<and> batched w' = batched w + 1 \<and>
     mqErrorCounter w' = mqErrorCounter w"
  using assms by (auto simp: push_batch_def go_bind_eq_Inr)

lemma buffer_frame [simp]:
  "pending (w\<lparr>requestMap := m\<rparr>) = pending w" "buffer_ok (w\<lparr>requestMap := m\<rparr>) = buffer_ok w"
  "pending (w\<lparr>validPackets := v\<rparr>) = pending w" "buffer_ok (w\<lparr>validPackets := v\<rparr>) = buffer_ok w"
  "pending (w\<lparr>expiredPackets := v\<rparr>) = pending w" "buffer_ok (w\<lparr>expiredPackets := v\<rparr>) = buffer_ok w"
  "pending (w\<lparr>assembledPackets := v\<rparr>) = pending w" "buffer_ok (w\<lparr>assembledPackets := v\<rparr>) = buffer_ok w"
  "pending (w\<lparr>parser_layers := s\<rparr>) = pending w" "buffer_ok (w\<lparr>parser_layers := s\<rparr>) = buffer_ok w"
  "pending (w\<lparr>forceFlush := b\<rparr>) = pending w" "buffer_ok (w\<lparr>forceFlush := b\<rparr>) = buffer_ok w"
  by (simp_all add: pending_def buffer_ok_def)

lemma new_worker_ok: "buffer_ok (new_worker idx)" "pending (new_worker idx) = []"
  by (simp_all add: buffer_ok_def pending_def new_worker_def)

subsection \<open>The size in the packet header\<close>

definition header_size :: "bytes \<Rightarrow> nat" where
  "header_size data = 4 + unat (data ! 0) + 256 * unat (data ! 1) + 65536 * unat (data ! 2)"

lemma payload_size_eq: "4 \<le> length data \<Longrightarrow> payload_size data = Inr (header_size data)"
proof -
  assume len: "4 \<le> length data"
  let ?u = "ucast (data ! 0) OR push_bit 8 (ucast (data ! 1)) OR push_bit 16 (ucast (data ! 2)) OR
    push_bit 24 (ucast (data ! 3)) :: 32 word"
  have le: "le_uint32 data = Inr ?u"
  proof -
    from len have "data \<noteq> []" "Suc 0 < length data" by auto
    with len show ?thesis by (simp add: le_uint32_def)
  qed
  have v: "unat (0xFFFFFF AND ?u) = unat (data ! 0) + 256 * unat (data ! 1) + 65536 * unat (data ! 2)"
    by (rule le24_value)
  have add: "unat (4 + u) = 4 + unat u" if "unat u < 16777216" for u :: "32 word"
    using that by (simp add: unat_word_ariths)
  have "unat (0xFFFFFF AND ?u) < 16777216"
    unfolding v using byte_lt_256 [of "data ! 0"] byte_lt_256 [of "data ! 1"] byte_lt_256 [of "data ! 2"]
    by simp
  then have "unat (4 + (0xFFFFFF AND ?u)) = header_size data"
    by (simp only: add v header_size_def)
  then show ?thesis
    unfolding payload_size_def le by simp
qed

lemma payload_size_short: "length data < 4 \<Longrightarrow> payload_size data = Inl IndexOutOfRange"
  by (simp add: payload_size_def le_uint32_def go_at_def)

lemma header_size_append: "4 \<le> length a \<Longrightarrow> header_size (a @ b) = header_size a"
proof -
  assume "4 \<le> length a"
  then have "a \<noteq> []" "Suc 0 < length a" "2 < length a" by auto
  then show ?thesis by (simp add: header_size_def nth_append)
qed

end
