(* ===== verification/WorkerSpec.thy ===== *)
theory WorkerSpec
  imports Worker
begin

text \<open>
  What a worker promises, without its buffer: an event turns the incomplete requests and the
  parser's layers into new ones and accepts a list of requests. The detailed worker implements
  this, and every accepted request is written exactly once and in order.
\<close>

subsection \<open>The specification\<close>

definition blank :: "bytes \<Rightarrow> bool" where
  "blank data \<longleftrightarrow> strings_TrimSpace (string_of_bytes data) = ''''"

text \<open>
  The stored part that a new segment continues: there is none when it is too old, or when its
  length is the size in the new segment's header.
\<close>

definition carried :: "Config \<Rightarrow> int \<Rightarrow> (string \<rightharpoonup> MysqlRequest) \<Rightarrow> MysqlRequest \<Rightarrow> MysqlRequest option" where
  "carried cfg now m mp =
     (case m (request_key mp) of
        None \<Rightarrow> None
      | Some p \<Rightarrow> if expired cfg now p \<or> length (Data p) = header_size (Data mp) then None else Some p)"

definition whole_request :: "Config \<Rightarrow> int \<Rightarrow> (string \<rightharpoonup> MysqlRequest) \<Rightarrow> MysqlRequest \<Rightarrow> MysqlRequest" where
  "whole_request cfg now m mp =
     (case carried cfg now m mp of None \<Rightarrow> mp | Some p \<Rightarrow> p\<lparr>Data := Data p @ Data mp\<rparr>)"

definition complete :: "bytes \<Rightarrow> bool" where
  "complete data \<longleftrightarrow> header_size data \<le> length data"

definition parsed :: "Config \<Rightarrow> MysqlRequest \<Rightarrow> MysqlRequest list" where
  "parsed cfg r =
     (case ParsePacket (Data r) (onlySelect cfg) of
        Inr (Inr doc) \<Rightarrow> [r\<lparr>ParsedRequest := Some doc\<rparr>]
      | _ \<Rightarrow> [])"

type_synonym store = "(string \<rightharpoonup> MysqlRequest) \<times> Layers"

definition spec_request ::
  "Config \<Rightarrow> int \<Rightarrow> MysqlRequest \<Rightarrow> (string \<rightharpoonup> MysqlRequest) \<Rightarrow> ((string \<rightharpoonup> MysqlRequest) \<times> MysqlRequest list) go"
where
  "spec_request cfg now mp m =
     (if blank (Data mp) then Inr (m, [])
      else if length (Data mp) < 4 then Inl IndexOutOfRange
      else
        let r = whole_request cfg now m mp; key = request_key mp
        in if complete (Data r) then Inr (m(key := None), parsed cfg r)
           else Inr (if carried cfg now m mp = None then m(key \<mapsto> mp) else m, []))"

definition on_map ::
  "Layers \<Rightarrow> ((string \<rightharpoonup> MysqlRequest) \<times> MysqlRequest list) go \<Rightarrow> (store \<times> MysqlRequest list) go" where
  "on_map l x = go_bind x (\<lambda>(m, out). Inr ((m, l), out))"

definition spec_event :: "Config \<Rightarrow> worker_event \<Rightarrow> store \<Rightarrow> (store \<times> MysqlRequest list) go" where
  "spec_event cfg ev st =
     (case ev of
        Ticked \<Rightarrow> Inr (st, [])
      | Received pkt captured now \<Rightarrow>
          (case st of (m, l) \<Rightarrow>
             if IsParsed pkt then Inr (st, case Request pkt of None \<Rightarrow> [] | Some r \<Rightarrow> [r])
             else if fastPacketParsing cfg then
               go_bind (ParsePacketFast (RawData pkt) (linkType cfg) captured) (\<lambda>r.
                 case r of Inl err \<Rightarrow> Inr (st, []) | Inr mp \<Rightarrow> on_map l (spec_request cfg now mp m))
             else
               (case slow_parse (RawData pkt) captured l of
                  (l', r) \<Rightarrow> go_bind r (\<lambda>r.
                    case r of
                      Inl err \<Rightarrow> Inr ((m, l'), [])
                    | Inr None \<Rightarrow> Inr ((m, l'), [])
                    | Inr (Some mp) \<Rightarrow> on_map l' (spec_request cfg now mp m)))))"

fun spec_act :: "Config \<Rightarrow> worker_action \<Rightarrow> store \<Rightarrow> (store \<times> MysqlRequest list) go" where
  "spec_act cfg (Turn ev answer) st = spec_event cfg ev st"
| "spec_act cfg (Expire clock) (m, l) =
     Inr ((\<lambda>k. case m k of None \<Rightarrow> None | Some p \<Rightarrow> if expired cfg (clock k) p then None else Some p, l), [])"

fun spec_run :: "Config \<Rightarrow> worker_action list \<Rightarrow> store \<Rightarrow> (store \<times> MysqlRequest list) go" where
  "spec_run cfg [] st = Inr (st, [])"
| "spec_run cfg (a # as) st =
     go_bind (spec_act cfg a st) (\<lambda>(st, out).
     go_bind (spec_run cfg as st) (\<lambda>(st, more). Inr (st, out @ more)))"

subsection \<open>The request handler implements it\<close>

definition store_of :: "Worker \<Rightarrow> store" where
  "store_of w = (requestMap w, parser_layers w)"

text \<open>\<open>w'\<close> is \<open>w\<close> with the incomplete requests replaced and the requests \<open>out\<close> accepted.\<close>

definition accepts :: "Worker \<Rightarrow> (string \<rightharpoonup> MysqlRequest) \<Rightarrow> MysqlRequest list \<Rightarrow> Worker \<Rightarrow> bool" where
  "accepts w m out w' \<longleftrightarrow> buffer_ok w' \<and> requestMap w' = m \<and> pending w' = pending w @ out \<and>
     parser_layers w' = parser_layers w \<and> forceFlush w' = forceFlush w \<and>
     workerIdx w' = workerIdx w \<and> mqErrorCounter w' = mqErrorCounter w"

lemma ParsePacket_cases:
  obtains doc where "ParsePacket data b = Inr (Inr doc)" | err where "ParsePacket data b = Inr (Inl err)"
  using ParsePacket_total [of data b] by (metis sum.exhaust)

lemma accept_parsed:
  assumes "buffer_ok w" "batched w < queueBatchSize"
  shows "\<exists>w'. go_bind (ParsePacket (Data r) (onlySelect cfg)) (\<lambda>x.
            case x of
              Inr doc \<Rightarrow> push_batch (r\<lparr>ParsedRequest := Some doc\<rparr>) (w\<lparr>validPackets := validPackets w + 1\<rparr>)
            | Inl err \<Rightarrow> Inr w) = Inr w' \<and> accepts w (requestMap w) (parsed cfg r) w'"
proof (cases rule: ParsePacket_cases [of "Data r" "onlySelect cfg"])
  case (1 doc)
  let ?w = "w\<lparr>validPackets := validPackets w + 1\<rparr>"
  have ok: "buffer_ok ?w" "length (pending ?w) < queueBatchSize"
    using assms by (simp_all add: length_pending)
  from batch.push_ok [OF ok, of "r\<lparr>ParsedRequest := Some doc\<rparr>"]
  obtain w' where "push_batch (r\<lparr>ParsedRequest := Some doc\<rparr>) ?w = Inr w'" "buffer_ok w'"
    "pending w' = pending ?w @ [r\<lparr>ParsedRequest := Some doc\<rparr>]" by blast
  with 1 push_batch_frame [OF this(1)] show ?thesis
    by (simp add: accepts_def parsed_def)
next
  case (2 err)
  with assms show ?thesis by (simp add: accepts_def parsed_def)
qed

lemma direct_request_spec:
  assumes "buffer_ok w" "batched w < queueBatchSize" "4 \<le> length (Data mp)"
  shows "\<exists>w'. direct_request cfg key mp w = Inr w' \<and>
     (if complete (Data mp) then accepts w (requestMap w) (parsed cfg mp) w'
      else accepts w ((requestMap w)(key \<mapsto> mp)) [] w')"
  using accept_parsed [OF assms(1,2), of mp cfg] assms
  by (auto simp: direct_request_def payload_size_eq complete_def accepts_def)

lemma assemble_request_spec:
  assumes "buffer_ok w" "batched w < queueBatchSize" "4 \<le> length (Data p @ Data mp)"
  shows "\<exists>w'. assemble_request cfg key p mp w = Inr w' \<and>
     (let r = p\<lparr>Data := Data p @ Data mp\<rparr> in
      if complete (Data r) then accepts w ((requestMap w)(key := None)) (parsed cfg r) w'
      else accepts w (requestMap w) [] w')"
proof -
  let ?r = "p\<lparr>Data := Data p @ Data mp\<rparr>"
  from accept_parsed [OF assms(1,2), of ?r cfg] obtain w1 where
    w1: "go_bind (ParsePacket (Data ?r) (onlySelect cfg)) (\<lambda>x.
            case x of
              Inr doc \<Rightarrow> push_batch (?r\<lparr>ParsedRequest := Some doc\<rparr>) (w\<lparr>validPackets := validPackets w + 1\<rparr>)
            | Inl err \<Rightarrow> Inr w) = Inr w1" and acc: "accepts w (requestMap w) (parsed cfg ?r) w1"
    by blast
  obtain x where x: "ParsePacket (Data ?r) (onlySelect cfg) = Inr x"
    using ParsePacket_total by blast
  show ?thesis
  proof (cases "complete (Data ?r)")
    case True
    then have "assemble_request cfg key p mp w = Inr (w1\<lparr>requestMap := (requestMap w1)(key := None)\<rparr>)"
      using w1 assms x by (simp add: assemble_request_def payload_size_eq complete_def)
    moreover have "accepts w ((requestMap w)(key := None)) (parsed cfg ?r)
        (w1\<lparr>requestMap := (requestMap w1)(key := None)\<rparr>)"
      using acc by (simp add: accepts_def)
    ultimately show ?thesis using True by (simp add: Let_def)
  next
    case False
    then show ?thesis
      using assms by (auto simp: assemble_request_def payload_size_eq complete_def Let_def accepts_def)
  qed
qed

lemma accepts_trans: "accepts w m out w1 \<Longrightarrow> accepts w1 m' out' w2 \<Longrightarrow> accepts w m' (out @ out') w2"
  by (simp add: accepts_def)

lemma accepts_room: "accepts w m [] w' \<Longrightarrow> buffer_ok w \<Longrightarrow> batched w' = batched w"
  by (metis accepts_def append_Nil2 length_pending)

lemma check_stored_spec:
  assumes "buffer_ok w" "4 \<le> length (Data mp)" "requestMap w (request_key mp) = Some p"
  shows "\<exists>w'. check_stored cfg now (request_key mp) p mp w =
       Inr (w', carried cfg now (requestMap w) mp \<noteq> None) \<and>
     accepts w (if carried cfg now (requestMap w) mp = None
       then (requestMap w)(request_key mp := None) else requestMap w) [] w'"
  using assms
  by (auto simp: check_stored_def payload_size_eq carried_def drop_request_def accepts_def Let_def)

lemma check_stored_short:
  "length (Data mp) < 4 \<Longrightarrow> check_stored cfg now key p mp w = Inl IndexOutOfRange"
  by (simp add: check_stored_def payload_size_short Let_def split: prod.split)

lemma handle_request_spec:
  assumes ok: "buffer_ok w" and room: "batched w < queueBatchSize"
  shows "case spec_request cfg now mp (requestMap w) of
       Inl e \<Rightarrow> handle_request cfg now mp w = Inl e
     | Inr (m, out) \<Rightarrow> \<exists>w'. handle_request cfg now mp w = Inr w' \<and> accepts w m out w'"
proof -
  let ?key = "request_key mp"
  consider "blank (Data mp)" | "\<not> blank (Data mp)" "length (Data mp) < 4" |
    "\<not> blank (Data mp)" "4 \<le> length (Data mp)" by linarith
  then show ?thesis
  proof cases
    case 1
    then show ?thesis
      using ok by (simp add: spec_request_def handle_request_def blank_def accepts_def)
  next
    case 2
    then show ?thesis
      by (simp add: spec_request_def handle_request_def blank_def Let_def direct_request_def
          payload_size_short check_stored_short split: option.split)
  next
    case 3
    then have notblank: "length (strings_TrimSpace (string_of_bytes (Data mp))) \<noteq> 0"
      by (simp add: blank_def)
    show ?thesis
    proof (cases "requestMap w ?key")
      case None
      then have c: "carried cfg now (requestMap w) mp = None" "(requestMap w)(?key := None) = requestMap w"
        by (auto simp: carried_def)
      from direct_request_spec [OF ok room, of mp cfg ?key] 3 None c notblank show ?thesis
        by (auto simp: spec_request_def handle_request_def whole_request_def Let_def)
    next
      case (Some p)
      from check_stored_spec [OF ok 3(2) Some, of cfg now] obtain w1 where
        w1: "check_stored cfg now ?key p mp w = Inr (w1, carried cfg now (requestMap w) mp \<noteq> None)"
        and acc: "accepts w (if carried cfg now (requestMap w) mp = None
          then (requestMap w)(?key := None) else requestMap w) [] w1"
        by blast
      have ok1: "buffer_ok w1" "batched w1 < queueBatchSize"
        using acc room accepts_room [OF acc ok] by (auto simp: accepts_def)
      show ?thesis
      proof (cases "carried cfg now (requestMap w) mp")
        case None
        with acc have m1: "requestMap w1 = (requestMap w)(?key := None)" by (simp add: accepts_def)
        from direct_request_spec [OF ok1 3(2), of cfg ?key] obtain w2 where
          "direct_request cfg ?key mp w1 = Inr w2" and
          "if complete (Data mp) then accepts w1 (requestMap w1) (parsed cfg mp) w2
           else accepts w1 ((requestMap w1)(?key \<mapsto> mp)) [] w2" by blast
        with acc None Some 3 m1 notblank w1 show ?thesis
          by (auto simp: spec_request_def handle_request_def whole_request_def Let_def
              dest: accepts_trans split: if_splits)
      next
        case carry: (Some p')
        then have p': "p' = p" "carried cfg now (requestMap w) mp = Some p"
          using Some by (auto simp: carried_def split: if_splits)
        have len: "4 \<le> length (Data p @ Data mp)" using 3 by simp
        from acc p' have m1: "requestMap w1 = requestMap w" by (simp add: accepts_def)
        from assemble_request_spec [OF ok1 len, of cfg ?key] obtain w2 where
          "assemble_request cfg ?key p mp w1 = Inr w2" and
          "let r = p\<lparr>Data := Data p @ Data mp\<rparr> in
           if complete (Data r) then accepts w1 ((requestMap w1)(?key := None)) (parsed cfg r) w2
           else accepts w1 (requestMap w1) [] w2" by blast
        with acc p' Some 3 m1 notblank w1 show ?thesis
          by (auto simp: spec_request_def handle_request_def whole_request_def Let_def
              dest: accepts_trans split: if_splits)
      qed
    qed
  qed
qed

text \<open>One event: the worker accepts what the specification says, or panics as it says.\<close>

lemma select_case_spec:
  assumes ok: "buffer_ok w" and room: "batched w < queueBatchSize"
  shows "case spec_event cfg ev (store_of w) of
       Inl e \<Rightarrow> select_case cfg ev w = Inl e
     | Inr ((m, l), out) \<Rightarrow> \<exists>w'. select_case cfg ev w = Inr w' \<and>
         accepts (w\<lparr>parser_layers := l, forceFlush := forceFlush w \<or> ev = Ticked\<rparr>) m out w' \<and>
         length out \<le> 1"
proof (cases ev)
  case Ticked
  then show ?thesis
    using ok by (simp add: spec_event_def select_case_def store_of_def accepts_def)
next
  case (Received pkt captured now)
  have handled: "case on_map l (spec_request cfg now mp (requestMap w)) of
       Inl e \<Rightarrow> handle_request cfg now mp w' = Inl e
     | Inr ((m, l), out) \<Rightarrow> \<exists>w2. handle_request cfg now mp w' = Inr w2 \<and>
         accepts (w\<lparr>parser_layers := l\<rparr>) m out w2 \<and> length out \<le> 1"
    if "w' = w\<lparr>parser_layers := l\<rparr>" for mp l w'
  proof -
    have "length out \<le> 1" if "spec_request cfg now mp (requestMap w) = Inr (m, out)" for m out
      using that by (auto simp: spec_request_def parsed_def Let_def split: if_splits sum.splits)
    moreover have "buffer_ok w'" "batched w' < queueBatchSize" "requestMap w' = requestMap w"
      using ok room that by simp_all
    ultimately show ?thesis
      using handle_request_spec [of w' cfg now mp] that
      by (auto simp: on_map_def split: sum.splits)
  qed
  consider "IsParsed pkt" | "\<not> IsParsed pkt" "fastPacketParsing cfg" |
    "\<not> IsParsed pkt" "\<not> fastPacketParsing cfg" by blast
  then show ?thesis
  proof cases
    case 1
    show ?thesis
    proof (cases "Request pkt")
      case None
      with 1 Received ok show ?thesis
        by (simp add: spec_event_def select_case_def receive_def store_of_def accepts_def)
    next
      case (Some r)
      have "length (pending w) < queueBatchSize" using ok room by (simp add: length_pending)
      from batch.push_ok [OF ok this, of r] obtain w' where
        w': "push_batch r w = Inr w'" "buffer_ok w'" "pending w' = pending w @ [r]" by blast
      with 1 Received Some push_batch_frame [OF w'(1)] show ?thesis
        by (simp add: spec_event_def select_case_def receive_def store_of_def accepts_def)
    qed
  next
    case 2
    obtain x where x: "ParsePacketFast (RawData pkt) (linkType cfg) captured = Inr x"
      using ParsePacketFast_total by (metis not_panics_iff)
    show ?thesis
    proof (cases x)
      case (Inl err)
      with 2 x Received ok show ?thesis
        by (simp add: spec_event_def select_case_def receive_def store_of_def accepts_def)
    next
      case (Inr mp)
      have "select_case cfg ev w = handle_request cfg now mp w"
        "spec_event cfg ev (store_of w) = on_map (parser_layers w) (spec_request cfg now mp (requestMap w))"
        using 2 x Received Inr
        by (simp_all add: spec_event_def select_case_def receive_def store_of_def)
      with handled [of w "parser_layers w" mp] Received show ?thesis
        by (auto split: sum.splits)
    qed
  next
    case 3
    obtain l r where lr: "slow_parse (RawData pkt) captured (parser_layers w) = (l, r)"
      by (metis prod.exhaust)
    consider e where "r = Inl e" | err where "r = Inr (Inl err)" | "r = Inr (Inr None)" |
      mp where "r = Inr (Inr (Some mp))" by (metis sum.exhaust option.exhaust)
    then show ?thesis
    proof cases
      case (4 mp)
      have "select_case cfg ev w = handle_request cfg now mp (w\<lparr>parser_layers := l\<rparr>)"
        "spec_event cfg ev (store_of w) = on_map l (spec_request cfg now mp (requestMap w))"
        using 3 4 lr Received
        by (simp_all add: spec_event_def select_case_def receive_def store_of_def)
      with handled [of "w\<lparr>parser_layers := l\<rparr>" l mp] Received show ?thesis
        by (auto split: sum.splits)
    qed (use 3 lr Received ok in
        \<open>simp_all add: spec_event_def select_case_def receive_def store_of_def accepts_def\<close>)
  qed
qed

subsection \<open>Flushing\<close>

definition cmd_docs :: "mongo_cmd \<Rightarrow> bson_M list" where
  "cmd_docs c = (case c of BulkInsert db coll ds \<Rightarrow> ds | InsertDocs db coll ds \<Rightarrow> ds | _ \<Rightarrow> [])"

lemma clear_from_ok: "idx + n \<le> length bs \<Longrightarrow> \<exists>bs'. clear_from idx n bs = Inr bs' \<and> length bs' = length bs"
proof (induction n arbitrary: idx bs)
  case (Suc n)
  from Suc.IH [of "Suc idx" "bs[idx := None]"] Suc.prems show ?case
    by (simp add: go_store_def)
qed simp

definition batch_cmd :: "Config \<Rightarrow> Worker \<Rightarrow> mongo_cmd" where
  "batch_cmd cfg w =
     BulkInsert (mongo_db cfg) (getCollectionName (mongo_collection cfg) (workerIdx w))
       (map request_doc (pending w))"

definition must_flush :: "Worker \<Rightarrow> bool" where
  "must_flush w \<longleftrightarrow> queueBatchSize \<le> batched w \<or> forceFlush w"

lemma flush_batch_wait: "\<not> must_flush w \<Longrightarrow> flush_batch cfg answer w = Inr (w, [])"
  by (simp add: flush_batch_def must_flush_def)

lemma flush_batch_now:
  assumes ok: "buffer_ok w" and flush: "must_flush w"
  shows "\<exists>w'. flush_batch cfg answer w = Inr (w', if pending w = [] then [] else [batch_cmd cfg w]) \<and>
     buffer_ok w' \<and> store_of w' = store_of w \<and> workerIdx w' = workerIdx w \<and>
     pending w' = [] \<and> batched w' = 0 \<and> \<not> forceFlush w' \<and>
     mqErrorCounter w' = mqErrorCounter w + (if answer = None then 0 else word_of_nat (length (pending w)))"
proof (cases "batched w = 0")
  case True
  then have "pending w = []" by (simp add: pending_def)
  with flush ok True show ?thesis
    by (auto simp: flush_batch_def must_flush_def buffer_ok_def store_of_def pending_def)
next
  case False
  have len: "length (batches w) = queueBatchSize" "batched w \<le> length (batches w)"
    using ok by (simp_all add: buffer_ok_def)
  have ne: "pending w \<noteq> []" using False length_pending [OF ok] by auto
  obtain bs where bs: "clear_from 0 20 (batches w) = Inr bs" "length bs = queueBatchSize"
    using clear_from_ok [of 0 20 "batches w"] len by (auto simp: queueBatchSize_def)
  have slice: "go_slice (batches w) 0 (batched w) = Inr (map Some (pending w))"
    using len filled_part [OF ok] by simp
  have ins: "InsertBulkPackets (mongo_db cfg) (mongo_collection cfg) (workerIdx w) (map Some (pending w)) answer
      = Inr (batch_cmd cfg w, if answer = None then batched w else 0)"
    by (simp add: InsertBulkPackets_ok batch_cmd_def length_pending [OF ok])
  let ?w = "w\<lparr>mqErrorCounter := mqErrorCounter w + word_of_int (int (batched w) -
      int (if answer = None then batched w else 0)), batches := bs, batched := 0, forceFlush := False\<rparr>"
  have "flush_batch cfg answer w = Inr (?w, [batch_cmd cfg w])"
    using flush False by (simp add: flush_batch_def must_flush_def slice ins bs)
  moreover have "buffer_ok ?w" "pending ?w = []"
    using bs by (simp_all add: buffer_ok_def pending_def)
  ultimately show ?thesis
    using ne by (simp add: store_of_def length_pending [OF ok])
qed

subsection \<open>The worker implements the specification\<close>

definition worker_inv :: "Worker \<Rightarrow> bool" where
  "worker_inv w \<longleftrightarrow> buffer_ok w \<and> batched w < queueBatchSize \<and> \<not> forceFlush w"

lemma new_worker_inv: "worker_inv (new_worker idx)"
  by (simp add: worker_inv_def new_worker_ok) (simp add: new_worker_def queueBatchSize_def)

definition batch_sized :: "mongo_cmd \<Rightarrow> bool" where
  "batch_sized c \<longleftrightarrow> 1 \<le> length (cmd_docs c) \<and> length (cmd_docs c) \<le> queueBatchSize"

lemma worker_turn_spec:
  assumes "worker_inv w"
  shows "case spec_event cfg ev (store_of w) of
       Inl e \<Rightarrow> worker_turn cfg answer ev w = Inl e
     | Inr (st, out) \<Rightarrow> \<exists>w' cmds. worker_turn cfg answer ev w = Inr (w', cmds) \<and>
         worker_inv w' \<and> store_of w' = st \<and> workerIdx w' = workerIdx w \<and>
         map request_doc (pending w @ out) = concat (map cmd_docs cmds) @ map request_doc (pending w') \<and>
         (\<forall>c \<in> set cmds. batch_sized c \<and>
            (\<exists>ds. c = BulkInsert (mongo_db cfg) (getCollectionName (mongo_collection cfg) (workerIdx w)) ds)) \<and>
         (ev = Ticked \<longrightarrow> pending w' = [])"
proof -
  have ok: "buffer_ok w" and room: "batched w < queueBatchSize" and nf: "\<not> forceFlush w"
    using assms by (simp_all add: worker_inv_def)
  note sel = select_case_spec [OF ok room, of cfg ev]
  show ?thesis
  proof (cases "spec_event cfg ev (store_of w)")
    case (Inl e)
    with sel show ?thesis by (simp add: worker_turn_def)
  next
    case (Inr r)
    obtain m l out where r: "r = ((m, l), out)" by (metis prod.exhaust)
    from sel Inr r obtain w1 where w1: "select_case cfg ev w = Inr w1" and
      acc: "accepts (w\<lparr>parser_layers := l, forceFlush := forceFlush w \<or> ev = Ticked\<rparr>) m out w1"
      and out: "length out \<le> 1" by auto
    have ok1: "buffer_ok w1" and p1: "pending w1 = pending w @ out" and st1: "store_of w1 = (m, l)"
      and f1: "forceFlush w1 \<longleftrightarrow> ev = Ticked" and i1: "workerIdx w1 = workerIdx w"
      using acc nf by (simp_all add: accepts_def store_of_def)
    have full: "length (pending w1) \<le> queueBatchSize"
      using out room length_pending [OF ok] by (simp add: p1)
    have cmd_ok: "batch_sized (batch_cmd cfg w1) \<and> (\<exists>ds. batch_cmd cfg w1 =
        BulkInsert (mongo_db cfg) (getCollectionName (mongo_collection cfg) (workerIdx w)) ds)"
      if "pending w1 \<noteq> []"
      using that full i1 by (cases "pending w1") (auto simp: batch_cmd_def batch_sized_def cmd_docs_def)
    show ?thesis
    proof (cases "must_flush w1")
      case True
      from flush_batch_now [OF ok1 True, of cfg answer] obtain w2 where
        "flush_batch cfg answer w1 = Inr (w2, if pending w1 = [] then [] else [batch_cmd cfg w1])"
        "worker_inv w2" "store_of w2 = (m, l)" "workerIdx w2 = workerIdx w" "pending w2 = []"
        using st1 i1 by (auto simp: worker_inv_def queueBatchSize_def)
      with cmd_ok Inr r w1 p1 show ?thesis
        by (auto simp: worker_turn_def batch_cmd_def cmd_docs_def)
    next
      case False
      then have "worker_inv w1" "ev \<noteq> Ticked"
        using ok1 f1 by (auto simp: worker_inv_def must_flush_def)
      with flush_batch_wait [OF False] Inr r w1 p1 st1 i1 show ?thesis
        by (simp add: worker_turn_def)
    qed
  qed
qed

text \<open>One action keeps the invariant and writes or keeps what the specification accepts.\<close>

definition writes :: "Config \<Rightarrow> Worker \<Rightarrow> MysqlRequest list \<Rightarrow> Worker \<Rightarrow> mongo_cmd list \<Rightarrow> bool" where
  "writes cfg w out w' cmds \<longleftrightarrow>
     worker_inv w' \<and> workerIdx w' = workerIdx w \<and>
     map request_doc (pending w @ out) = concat (map cmd_docs cmds) @ map request_doc (pending w') \<and>
     (\<forall>c \<in> set cmds. batch_sized c \<and>
        (\<exists>ds. c = BulkInsert (mongo_db cfg) (getCollectionName (mongo_collection cfg) (workerIdx w)) ds))"

lemma writes_trans:
  assumes one: "writes cfg w out w1 cmds" and two: "writes cfg w1 out2 w2 cmds2"
  shows "writes cfg w (out @ out2) w2 (cmds @ cmds2)"
proof -
  have docs: "map request_doc (pending w @ out) = concat (map cmd_docs cmds) @ map request_doc (pending w1)"
    and docs2: "map request_doc (pending w1 @ out2) = concat (map cmd_docs cmds2) @ map request_doc (pending w2)"
    using one two by (simp_all add: writes_def)
  have "map request_doc (pending w @ out @ out2) = map request_doc (pending w @ out) @ map request_doc out2"
    by simp
  also have "\<dots> = concat (map cmd_docs cmds) @ map request_doc (pending w1 @ out2)"
    by (simp only: docs) simp
  also have "\<dots> = concat (map cmd_docs (cmds @ cmds2)) @ map request_doc (pending w2)"
    by (simp only: docs2) simp
  finally show ?thesis
    using one two by (auto simp: writes_def)
qed

lemma worker_act_spec:
  assumes "worker_inv w"
  shows "case spec_act cfg a (store_of w) of
       Inl e \<Rightarrow> worker_act cfg a w = Inl e
     | Inr (st, out) \<Rightarrow> \<exists>w' cmds. worker_act cfg a w = Inr (w', cmds) \<and> store_of w' = st \<and>
         writes cfg w out w' cmds"
proof (cases a)
  case (Turn ev answer)
  then show ?thesis
    using worker_turn_spec [OF assms, where cfg = cfg and ev = ev and answer = answer]
    by (fastforce simp: writes_def split: sum.splits)
next
  case (Expire clock)
  then show ?thesis
    using assms
    by (simp add: store_of_def flushExpiredRequest_def writes_def worker_inv_def)
qed

text \<open>A whole run, from the start or from any turn of the loop.\<close>

lemma worker_run_spec:
  "worker_inv w \<Longrightarrow>
   case spec_run cfg as (store_of w) of
     Inl e \<Rightarrow> worker_run cfg as w = Inl e
   | Inr (st, out) \<Rightarrow> \<exists>w' cmds. worker_run cfg as w = Inr (w', cmds) \<and> store_of w' = st \<and>
       writes cfg w out w' cmds"
proof (induction as arbitrary: w)
  case Nil
  then show ?case by (simp add: writes_def)
next
  case (Cons a as)
  note act = worker_act_spec [OF Cons.prems, of cfg a]
  show ?case
  proof (cases "spec_act cfg a (store_of w)")
    case (Inl p)
    with act show ?thesis by simp
  next
    case (Inr r)
    obtain st out where r: "r = (st, out)" by (metis prod.exhaust)
    from act Inr r obtain w1 cmds where w1: "worker_act cfg a w = Inr (w1, cmds)" "store_of w1 = st"
      "writes cfg w out w1 cmds" by auto
    then have "worker_inv w1" by (simp add: writes_def)
    note IH = Cons.IH [OF this]
    show ?thesis
    proof (cases "spec_run cfg as st")
      case (Inl p)
      with IH Inr r w1 show ?thesis by simp
    next
      case rest: (Inr r2)
      obtain st2 out2 where r2: "r2 = (st2, out2)" by (metis prod.exhaust)
      from IH rest r2 w1 obtain w2 cmds2 where "worker_run cfg as w1 = Inr (w2, cmds2)" "store_of w2 = st2"
        "writes cfg w1 out2 w2 cmds2" by auto
      with w1 Inr r rest r2 writes_trans [OF w1(3)] show ?thesis by auto
    qed
  qed
qed

subsection \<open>What the store holds\<close>

text \<open>Every stored request is an incomplete one under its own key.\<close>

definition store_ok :: "(string \<rightharpoonup> MysqlRequest) \<Rightarrow> bool" where
  "store_ok m \<longleftrightarrow> (\<forall>k r. m k = Some r \<longrightarrow>
     k = request_key r \<and> \<not> complete (Data r) \<and> 4 \<le> length (Data r) \<and> \<not> blank (Data r))"

lemma store_okD:
  "store_ok m \<Longrightarrow> m k = Some r \<Longrightarrow>
     k = request_key r \<and> \<not> complete (Data r) \<and> 4 \<le> length (Data r) \<and> \<not> blank (Data r)"
  by (auto simp: store_ok_def)

lemma store_ok_delete: "store_ok m \<Longrightarrow> store_ok (m(k := None))"
  by (auto simp: store_ok_def)

lemma spec_request_store_ok:
  assumes "store_ok m" "spec_request cfg now mp m = Inr (m', out)"
  shows "store_ok m'"
proof -
  have "\<not> complete (Data mp)" if "\<not> complete (Data (whole_request cfg now m mp))" "carried cfg now m mp = None"
    using that by (simp add: whole_request_def)
  with assms show ?thesis
    by (auto simp: spec_request_def Let_def store_ok_delete split: if_splits)
      (auto simp: store_ok_def)
qed

text \<open>An event leaves the incomplete requests alone or handles one decoded packet.\<close>

lemma on_map_eq_Inr: "on_map l x = Inr (st, out) \<longleftrightarrow> (\<exists>m. x = Inr (m, out) \<and> st = (m, l))"
  by (auto simp: on_map_def go_bind_eq_Inr)

lemma spec_event_cases:
  assumes "spec_event cfg ev st = Inr (st', out)"
  obtains "fst st' = fst st"
  | pkt captured now mp where "ev = Received pkt captured now" "\<not> IsParsed pkt"
      "spec_request cfg now mp (fst st) = Inr (fst st', out)"
      "if fastPacketParsing cfg
       then ParsePacketFast (RawData pkt) (linkType cfg) captured = Inr (Inr mp)
       else snd (slow_parse (RawData pkt) captured (snd st)) = Inr (Inr (Some mp))"
proof (cases ev)
  case Ticked
  with assms that(1) show ?thesis by (simp add: spec_event_def)
next
  case (Received pkt captured now)
  obtain m l where st: "st = (m, l)" by (metis prod.exhaust)
  consider "IsParsed pkt" | "\<not> IsParsed pkt" "fastPacketParsing cfg" |
    "\<not> IsParsed pkt" "\<not> fastPacketParsing cfg" by blast
  then show ?thesis
  proof cases
    case 1
    with assms Received that(1) st show ?thesis by (simp add: spec_event_def)
  next
    case 2
    with assms Received st obtain r where r: "ParsePacketFast (RawData pkt) (linkType cfg) captured = Inr r"
      and res: "(case r of Inl err \<Rightarrow> Inr (st, []) | Inr mp \<Rightarrow> on_map l (spec_request cfg now mp m)) = Inr (st', out)"
      by (auto simp: spec_event_def go_bind_eq_Inr)
    show ?thesis
    proof (cases r)
      case (Inl err)
      with res that(1) show ?thesis by simp
    next
      case (Inr mp)
      with res r 2 Received st that(2) show ?thesis by (auto simp: on_map_eq_Inr)
    qed
  next
    case 3
    obtain l' x where sp: "slow_parse (RawData pkt) captured l = (l', x)" by (metis prod.exhaust)
    with assms Received st 3 obtain r where r: "x = Inr r"
      and res: "(case r of Inl err \<Rightarrow> Inr ((m, l'), []) | Inr None \<Rightarrow> Inr ((m, l'), [])
         | Inr (Some mp) \<Rightarrow> on_map l' (spec_request cfg now mp m)) = Inr (st', out)"
      by (auto simp: spec_event_def go_bind_eq_Inr)
    consider err where "r = Inl err" | "r = Inr None" | mp where "r = Inr (Some mp)"
      by (metis sum.exhaust option.exhaust)
    then show ?thesis
    proof cases
      case (3 mp)
      with res r sp \<open>\<not> fastPacketParsing cfg\<close> \<open>\<not> IsParsed pkt\<close> Received st that(2) show ?thesis
        by (auto simp: on_map_eq_Inr)
    qed (use res st that(1) in auto)
  qed
qed

lemma spec_event_store_ok:
  assumes "store_ok (fst st)" "spec_event cfg ev st = Inr (st', out)"
  shows "store_ok (fst st')"
  using assms(2,1) by (cases rule: spec_event_cases) (auto intro: spec_request_store_ok)

lemma spec_act_store_ok:
  assumes "store_ok (fst st)" "spec_act cfg a st = Inr (st', out)"
  shows "store_ok (fst st')"
proof (cases a)
  case (Turn ev answer)
  with assms show ?thesis by (auto intro: spec_event_store_ok)
next
  case (Expire clock)
  with assms show ?thesis
    by (cases st) (auto simp: store_ok_def split: option.splits if_splits)
qed

lemma spec_run_store_ok:
  "store_ok (fst st) \<Longrightarrow> spec_run cfg as st = Inr (st', out) \<Longrightarrow> store_ok (fst st')"
proof (induction as arbitrary: st out)
  case (Cons a as)
  from Cons.prems(2) obtain st1 out1 more where
    "spec_act cfg a st = Inr (st1, out1)" "spec_run cfg as st1 = Inr (st', more)"
    by (auto simp: go_bind_eq_Inr)
  with Cons show ?case by (blast intro: spec_act_store_ok)
qed simp

subsection \<open>Requests in one and in several segments\<close>

lemma spec_request_complete:
  assumes "\<not> blank (Data mp)" "4 \<le> length (Data mp)" "m (request_key mp) = None" "complete (Data mp)"
  shows "spec_request cfg now mp m = Inr (m, parsed cfg mp)"
  using assms by (auto simp: spec_request_def whole_request_def carried_def Let_def)

lemma spec_request_first:
  assumes "\<not> blank (Data mp)" "4 \<le> length (Data mp)" "m (request_key mp) = None" "\<not> complete (Data mp)"
  shows "spec_request cfg now mp m = Inr (m(request_key mp \<mapsto> mp), [])"
  using assms by (auto simp: spec_request_def whole_request_def carried_def Let_def)

lemma spec_request_next:
  assumes "\<not> blank (Data b)" "4 \<le> length (Data b)" "m (request_key b) = Some a"
    "\<not> expired cfg now a" "length (Data a) \<noteq> header_size (Data b)"
  shows "spec_request cfg now b m =
     (if complete (Data a @ Data b)
      then Inr (m(request_key b := None), parsed cfg (a\<lparr>Data := Data a @ Data b\<rparr>))
      else Inr (m, []))"
  using assms by (auto simp: spec_request_def whole_request_def carried_def Let_def)

subsection \<open>When a worker panics\<close>

text \<open>The request that a packet decodes to, with the parser the collector was started with.\<close>

definition decodes :: "Config \<Rightarrow> MysqlPacket \<Rightarrow> int \<Rightarrow> Layers \<Rightarrow> MysqlRequest \<Rightarrow> bool" where
  "decodes cfg pkt captured l mp \<longleftrightarrow> \<not> IsParsed pkt \<and>
     (if fastPacketParsing cfg then ParsePacketFast (RawData pkt) (linkType cfg) captured = Inr (Inr mp)
      else snd (slow_parse (RawData pkt) captured l) = Inr (Inr (Some mp)))"

definition too_short :: "bytes \<Rightarrow> bool" where
  "too_short data \<longleftrightarrow> \<not> blank data \<and> length data < 4"

lemma spec_request_Inl:
  "spec_request cfg now mp m = Inl e \<longleftrightarrow> too_short (Data mp) \<and> e = IndexOutOfRange"
  by (auto simp: spec_request_def too_short_def Let_def)

lemma on_map_Inl: "on_map l x = Inl e \<longleftrightarrow> x = Inl e"
  by (auto simp: on_map_def go_bind_eq_Inl)

lemma spec_event_Inl:
  assumes "addresses_ok l"
  shows "spec_event cfg ev (m, l) = Inl e \<longleftrightarrow>
    e = IndexOutOfRange \<and> (\<exists>pkt captured now mp. ev = Received pkt captured now \<and>
      decodes cfg pkt captured l mp \<and> too_short (Data mp))"
proof (cases ev)
  case Ticked
  then show ?thesis by (simp add: spec_event_def)
next
  case (Received pkt captured now)
  consider "IsParsed pkt" | "\<not> IsParsed pkt" "fastPacketParsing cfg" |
    "\<not> IsParsed pkt" "\<not> fastPacketParsing cfg" by blast
  then show ?thesis
  proof cases
    case 1
    with Received show ?thesis by (simp add: spec_event_def decodes_def)
  next
    case 2
    obtain r where r: "ParsePacketFast (RawData pkt) (linkType cfg) captured = Inr r"
      using ParsePacketFast_total by (metis not_panics_iff)
    with 2 Received show ?thesis
      by (cases r) (auto simp: spec_event_def decodes_def on_map_Inl spec_request_Inl)
  next
    case 3
    obtain l' x where sp: "slow_parse (RawData pkt) captured l = (l', x)" by (metis prod.exhaust)
    from slow_parse_total [OF sp assms] obtain r where r: "x = Inr r" by blast
    consider err where "r = Inl err" | "r = Inr None" | mp where "r = Inr (Some mp)"
      by (metis sum.exhaust option.exhaust)
    then show ?thesis
      using 3 Received sp r
      by cases (auto simp: spec_event_def decodes_def on_map_Inl spec_request_Inl)
  qed
qed

lemma spec_event_addresses:
  assumes "spec_event cfg ev (m, l) = Inr ((m', l'), out)" "addresses_ok l"
  shows "addresses_ok l'"
proof (cases ev)
  case Ticked
  with assms show ?thesis by (simp add: spec_event_def)
next
  case (Received pkt captured now)
  show ?thesis
  proof (cases "\<not> IsParsed pkt \<and> \<not> fastPacketParsing cfg")
    case True
    obtain l1 x where sp: "slow_parse (RawData pkt) captured l = (l1, x)" by (metis prod.exhaust)
    from slow_parse_total [OF sp assms(2)] have "addresses_ok l1" by simp
    moreover have "l' = l1"
    proof -
      consider p where "x = Inl p" | err where "x = Inr (Inl err)" | "x = Inr (Inr None)" |
        mp where "x = Inr (Inr (Some mp))" by (metis sum.exhaust option.exhaust)
      then show ?thesis
        using assms(1) Received True sp by cases (auto simp: spec_event_def on_map_eq_Inr)
    qed
    ultimately show ?thesis by simp
  next
    case False
    obtain r where r: "ParsePacketFast (RawData pkt) (linkType cfg) captured = Inr r"
      using ParsePacketFast_total by (metis not_panics_iff)
    with False assms Received show ?thesis
      by (cases r) (auto simp: spec_event_def on_map_eq_Inr split: if_splits)
  qed
qed

lemma worker_turn_panics:
  assumes "worker_inv w" "addresses_ok (parser_layers w)"
  shows "worker_turn cfg answer ev w = Inl e \<longleftrightarrow>
    e = IndexOutOfRange \<and> (\<exists>pkt captured now mp. ev = Received pkt captured now \<and>
      decodes cfg pkt captured (parser_layers w) mp \<and> too_short (Data mp))"
proof -
  have "worker_turn cfg answer ev w = Inl e \<longleftrightarrow> spec_event cfg ev (store_of w) = Inl e"
    using worker_turn_spec [OF assms(1), where cfg = cfg and ev = ev and answer = answer]
    by (auto split: sum.splits)
  then show ?thesis
    by (simp add: store_of_def spec_event_Inl [OF assms(2)])
qed

subsection \<open>Three segments\<close>

text \<open>
  A continuation that does not complete the stored request is joined to a copy of it only: the
  one thing it leaves behind is the counter.
\<close>

lemma continuation_not_stored:
  assumes "requestMap w (request_key b) = Some a" "\<not> blank (Data b)"
    "4 \<le> length (Data a)" "4 \<le> length (Data b)" "\<not> expired cfg now a"
    "length (Data a) \<noteq> header_size (Data b)" "\<not> complete (Data a @ Data b)"
  shows "handle_request cfg now b w = Inr (w\<lparr>assembledPackets := assembledPackets w + 1\<rparr>)"
  using assms
  by (simp add: handle_request_def blank_def Let_def check_stored_def payload_size_eq
      assemble_request_def complete_def)

text \<open>A stored request that is too old and of the new packet's size is counted as expired twice.\<close>

lemma expired_twice:
  assumes "expired cfg now p" "4 \<le> length (Data mp)" "length (Data p) = header_size (Data mp)"
  shows "check_stored cfg now key p mp w =
    Inr (w\<lparr>requestMap := (requestMap w)(key := None), expiredPackets := expiredPackets w + 2\<rparr>, False)"
  using assms by (simp add: check_stored_def payload_size_eq drop_request_def)

subsection \<open>The error counter\<close>

lemma worker_turn_errors:
  assumes "worker_inv w" "worker_turn cfg answer ev w = Inr (w', cmds)"
  shows "mqErrorCounter w' = mqErrorCounter w +
     (if answer = None then 0 else word_of_nat (length (concat (map cmd_docs cmds))))"
proof -
  have ok: "buffer_ok w" and room: "batched w < queueBatchSize"
    using assms(1) by (simp_all add: worker_inv_def)
  from assms(2) obtain w1 where w1: "select_case cfg ev w = Inr w1" "flush_batch cfg answer w1 = Inr (w', cmds)"
    by (auto simp: worker_turn_def go_bind_eq_Inr)
  from select_case_spec [OF ok room, of cfg ev] w1(1) obtain l m out where
    "accepts (w\<lparr>parser_layers := l, forceFlush := forceFlush w \<or> ev = Ticked\<rparr>) m out w1"
    by (auto split: sum.splits)
  then have ok1: "buffer_ok w1" and mq: "mqErrorCounter w1 = mqErrorCounter w"
    by (simp_all add: accepts_def)
  show ?thesis
  proof (cases "must_flush w1")
    case True
    with flush_batch_now [OF ok1 True, of cfg answer] w1(2) mq show ?thesis
      by (auto simp: batch_cmd_def cmd_docs_def split: if_splits)
  next
    case False
    with flush_batch_wait [OF False, of cfg answer] w1(2) mq show ?thesis by simp
  qed
qed

end
