(* ===== verification/Collector.thy ===== *)
theory Collector
  imports WorkerSpec MysqlHelper Fifo
begin

text \<open>
  The rest of \<open>MRTECollector.go\<close>: the goroutine that captures packets and hands them to the
  workers, the status goroutine, and the start-up, as one state and a step relation over it.
\<close>

definition channelBufferSize :: nat where
  "channelBufferSize = 1000"

subsection \<open>Channels\<close>

text \<open>A buffered channel: a send blocks (\<open>None\<close>) while the buffer is full, a receive while it is empty.\<close>

definition chan_send :: "nat \<Rightarrow> 'a list \<Rightarrow> 'a \<Rightarrow> 'a list option" where
  "chan_send cap ch x = (if length ch < cap then Some (ch @ [x]) else None)"

fun chan_recv :: "'a list \<Rightarrow> ('a \<times> 'a list) option" where
  "chan_recv [] = None"
| "chan_recv (x # ch) = Some (x, ch)"

text \<open>The contract the goroutines rely on: what is sent comes out in the same order. Every list is a channel.\<close>

interpretation packet_channel:
  channel "chan_send channelBufferSize :: MysqlPacket list \<Rightarrow> _" chan_recv "\<lambda>c. c" "\<lambda>c. True" channelBufferSize
  rewrites "\<And>P. (True \<Longrightarrow> P) \<equiv> Trueprop P"
proof -
  show "channel (chan_send channelBufferSize :: MysqlPacket list \<Rightarrow> _) chan_recv (\<lambda>c. c) (\<lambda>c. True) channelBufferSize"
  proof unfold_locales
    fix c :: "MysqlPacket list" and x c'
    show "chan_recv c = Some (x, c') \<Longrightarrow> c = x # c'" by (cases c) auto
    show "chan_recv c = None \<longleftrightarrow> c = []" by (cases c) auto
  qed (auto simp: chan_send_def split: if_splits)
qed simp

subsection \<open>The state\<close>

text \<open>
  The counters of the status goroutine: the values of the last report, and the two capture
  counters, which keep their value when \<open>Getstats\<close> fails.
\<close>

record Status =
  loopCounter :: int
  cPacketDropped :: "64 word"
  cPacketIfDropped :: "64 word"
  pPacketDropped :: "64 word"
  pPacketIfDropped :: "64 word"
  pTotalPackets :: "64 word"
  pAssembledPackets :: "64 word"
  pExpiredPackets :: "64 word"
  pValidPackets :: "64 word"
  pMqueueErrors :: "64 word"

record System =
  channels :: "MysqlPacket list list"
  workers :: "Worker list"
  totalPackets :: "64 word"
  queue_log :: "mongo_cmd list"
  sessions :: "ConnectionInfo list"     \<comment> \<open>what \<open>sendConnectionDefaultDatabase\<close> has still to send\<close>
  status :: Status

subsection \<open>Handing packets to the workers\<close>

definition send_packet :: "int \<Rightarrow> MysqlPacket \<Rightarrow> System \<Rightarrow> System option go" where
  "send_packet idx pkt s =
     (if idx < 0 \<or> int (length (channels s)) \<le> idx then Inl IndexOutOfRange
      else case chan_send channelBufferSize (channels s ! nat idx) pkt of
          None \<Rightarrow> Inr None
        | Some ch \<Rightarrow> Inr (Some (s\<lparr>channels := (channels s)[nat idx := ch]\<rparr>)))"

definition assembleUserPacket :: "Config \<Rightarrow> bytes \<Rightarrow> System \<Rightarrow> System option go" where
  "assembleUserPacket cfg data s =
     go_bind (GetPortNo data (linkType cfg)) (\<lambda>srcPortNo.
     go_bind (go_rem (uint srcPortNo) (threads cfg)) (\<lambda>workerIdx.
       send_packet workerIdx \<lparr>IsParsed = False, RawData = data, Request = None\<rparr> s))"

text \<open>
  One turn of the capture loop in \<open>main\<close>, for \<open>r > 0\<close>: the packet is counted, and with the fast
  parser a packet without room for application data is skipped.
\<close>

definition capture :: "Config \<Rightarrow> bytes \<Rightarrow> System \<Rightarrow> System option go" where
  "capture cfg data s =
     (let s = s\<lparr>totalPackets := totalPackets s + 1\<rparr>
      in if fastPacketParsing cfg \<and> length data \<le> 0x42 then Inr (Some s)
         else assembleUserPacket cfg data s)"

text \<open>The body of the loop of \<open>sendConnectionDefaultDatabase\<close>, for one session.\<close>

definition send_session :: "Config \<Rightarrow> int \<Rightarrow> ConnectionInfo \<Rightarrow> System \<Rightarrow> System option go" where
  "send_session cfg now session s =
     (let port = (if ci_SrcPort session < 0 then to_int32 (ci_SrcPort session * -1) else ci_SrcPort session)
      in go_bind (go_rem port (threads cfg)) (\<lambda>workerIdx.
           let mp = \<lparr>AlreadyParsed = True, SrcIp = ci_SrcIp session, SrcPort = port, Data = [],
                     CapturedAt = now, ParsedRequest = Some (ci_ParsedRequest session)\<rparr>
           in send_packet workerIdx \<lparr>IsParsed = True, RawData = [], Request = Some mp\<rparr> s))"

subsection \<open>The status goroutine\<close>

definition STATUS_INTERVAL_SECOND :: "64 word" where
  "STATUS_INTERVAL_SECOND = 1"

definition sum_counters :: "(Worker \<Rightarrow> 64 word) \<Rightarrow> Worker list \<Rightarrow> 64 word" where
  "sum_counters f ws = foldl (\<lambda>c w. c + f w) 0 ws"

text \<open>The line that is printed: the counts since the last line, and the length of the channels.\<close>

record StatusLine =
  l_total :: "64 word"
  l_valid :: "64 word"
  l_dropped :: "64 word"
  l_ifdropped :: "64 word"
  l_assembled :: "64 word"
  l_expired :: "64 word"
  l_waiting :: "64 word"
  l_mqerrors :: "64 word"

definition status_line :: "(64 word \<times> 64 word) option \<Rightarrow> System \<Rightarrow> StatusLine \<times> Status" where
  "status_line pcapStats s =
     (let st = status s;
          st = (case pcapStats of
                  None \<Rightarrow> st
                | Some (dropped, ifdropped) \<Rightarrow> st\<lparr>cPacketDropped := dropped, cPacketIfDropped := ifdropped\<rparr>);
          cTotalPackets = totalPackets s;
          cAssembledPackets = sum_counters assembledPackets (workers s);
          cExpiredPackets = sum_counters expiredPackets (workers s);
          cValidPackets = sum_counters validPackets (workers s);
          cMqueueErrors = sum_counters mqErrorCounter (workers s);
          cWaitQueuePackets = foldl (\<lambda>c ch. c + word_of_nat (length ch)) 0 (channels s)
      in (\<lparr>l_total = (cTotalPackets - pTotalPackets st) div STATUS_INTERVAL_SECOND,
           l_valid = (cValidPackets - pValidPackets st) div STATUS_INTERVAL_SECOND,
           l_dropped = (cPacketDropped st - pPacketDropped st) div STATUS_INTERVAL_SECOND,
           l_ifdropped = (cPacketIfDropped st - pPacketIfDropped st) div STATUS_INTERVAL_SECOND,
           l_assembled = (cAssembledPackets - pAssembledPackets st) div STATUS_INTERVAL_SECOND,
           l_expired = (cExpiredPackets - pExpiredPackets st) div STATUS_INTERVAL_SECOND,
           l_waiting = cWaitQueuePackets,
           l_mqerrors = (cMqueueErrors - pMqueueErrors st) div STATUS_INTERVAL_SECOND\<rparr>,
          st\<lparr>pTotalPackets := cTotalPackets, pValidPackets := cValidPackets,
             pPacketDropped := cPacketDropped st, pPacketIfDropped := cPacketIfDropped st,
             pAssembledPackets := cAssembledPackets, pExpiredPackets := cExpiredPackets,
             pMqueueErrors := cMqueueErrors\<rparr>))"

text \<open>
  \<open>checkMemoryUsage\<close>: \<open>statm\<close> is what reading \<open>/proc/self/statm\<close> gives; the sizes are \<open>int64\<close>.
\<close>

definition statm_resident :: nat where "statm_resident = 1"
definition STATM_FIELD_END :: nat where "STATM_FIELD_END = 7"

definition checkMemoryUsage :: "int \<Rightarrow> string option \<Rightarrow> int \<Rightarrow> unit go" where
  "checkMemoryUsage pageSize statm limit =
     (let procStatContents = (case statm of None \<Rightarrow> '''' | Some b \<Rightarrow> b);
          fields = strings_Fields procStatContents
      in go_bind
           (if STATM_FIELD_END - 1 \<le> length fields then
              go_bind (go_at fields statm_resident) (\<lambda>f.
                case parse_int64 f of
                  None \<Rightarrow> Inr 0
                | Some stat_value \<Rightarrow> Inr (to_int64 (stat_value * pageSize)))
            else Inr 0)
           (\<lambda>residentMemory.
              if limit < residentMemory then
                Inl (ExplicitPanic (''Memory usage is too high ('' @ strconv_Itoa residentMemory @ '' > '' @
                  strconv_Itoa limit @
                  ''), Increase memory limit or need to decrease memory usage''))
              else Inr ()))"

text \<open>
  One turn of \<open>printProcessStatus\<close> up to the sessions it loads. The counter is reset before the
  report and counted up at the end of the turn; the sends of the loaded sessions come in between
  as steps of their own, as each may block.
\<close>

definition expire_worker :: "Config \<Rightarrow> int \<Rightarrow> (string \<Rightarrow> int) \<Rightarrow> System \<Rightarrow> System go" where
  "expire_worker cfg idx clock s =
     (if idx < 0 \<or> int (length (workers s)) \<le> idx then Inl IndexOutOfRange
      else Inr (s\<lparr>workers := (workers s)[nat idx :=
             flushExpiredRequest cfg clock (workers s ! nat idx)]\<rparr>))"

record StatusInput =
  in_pcapStats :: "(64 word \<times> 64 word) option"
  in_clock :: "string \<Rightarrow> int"
  in_pageSize :: int
  in_statm :: "string option"
  in_processlist :: processlist_answer

definition status_turn :: "Config \<Rightarrow> StatusInput \<Rightarrow> System \<Rightarrow> (System \<times> StatusLine \<times> int) go" where
  "status_turn cfg inp s =
     (let lc = (if loopCounter (status s) mod 20 = 0 then 0 else loopCounter (status s));
          (line, st) = status_line (in_pcapStats inp) s;
          s = s\<lparr>status := st\<lparr>loopCounter := lc\<rparr>\<rparr>
      in go_bind (go_rem lc (threads cfg)) (\<lambda>workerIdx.
         go_bind (expire_worker cfg workerIdx (in_clock inp) s) (\<lambda>s.
         go_bind (checkMemoryUsage (in_pageSize inp) (in_statm inp) (512 * 1024 * 1024)) (\<lambda>_.
         go_bind (if lc mod 20 = 0 then GetSessionDefaultDatabase (in_processlist inp) else Inr [])
           (\<lambda>ss. Inr (s\<lparr>sessions := ss, status := (status s)\<lparr>loopCounter := lc + 1\<rparr>\<rparr>, line, workerIdx))))))"

subsection \<open>Start-up\<close>

definition init_status :: Status where
  "init_status =
     \<lparr>loopCounter = 0, cPacketDropped = 0, cPacketIfDropped = 0, pPacketDropped = 0,
      pPacketIfDropped = 0, pTotalPackets = 0, pAssembledPackets = 0, pExpiredPackets = 0,
      pValidPackets = 0, pMqueueErrors = 0\<rparr>"

definition init_system :: "Config \<Rightarrow> int \<Rightarrow> System" where
  "init_system cfg mongo_capped_size =
     \<lparr>channels = replicate (nat (threads cfg)) [],
      workers = map (\<lambda>i. new_worker (int i)) [0..<nat (threads cfg)],
      totalPackets = 0,
      queue_log = PrepareCollections (mongo_db cfg) (mongo_collection cfg) mongo_capped_size (threads cfg),
      sessions = [], status = init_status\<rparr>"

definition pcap_filter :: "int \<Rightarrow> string" where
  "pcap_filter port = ''tcp dst port '' @ strconv_Itoa port"

end
