(* ===== verification/CollectorRun.thy ===== *)
theory CollectorRun
  imports Collector
begin

text \<open>
  The collector as a state machine: one step is one turn of a goroutine. Its runs, projected to
  one worker, are runs of that worker on what was sent to its channel.
\<close>

datatype label =
    Captured bytes
  | Worked nat worker_action
  | Reported StatusInput StatusLine int
  | Sent ConnectionInfo int

inductive sys_step :: "Config \<Rightarrow> System \<Rightarrow> label \<Rightarrow> System \<Rightarrow> bool" for cfg where
  step_capture:
    "capture cfg data s = Inr (Some s') \<Longrightarrow> sys_step cfg s (Captured data) s'"
| step_receive:
    "i < length (workers s) \<Longrightarrow> i < length (channels s) \<Longrightarrow>
     chan_recv (channels s ! i) = Some (pkt, ch) \<Longrightarrow>
     worker_turn cfg answer (Received pkt captured now) (workers s ! i) = Inr (w, cmds) \<Longrightarrow>
     sys_step cfg s (Worked i (Turn (Received pkt captured now) answer))
       (s\<lparr>channels := (channels s)[i := ch], workers := (workers s)[i := w],
          queue_log := queue_log s @ cmds\<rparr>)"
| step_tick:
    "i < length (workers s) \<Longrightarrow>
     worker_turn cfg answer Ticked (workers s ! i) = Inr (w, cmds) \<Longrightarrow>
     sys_step cfg s (Worked i (Turn Ticked answer))
       (s\<lparr>workers := (workers s)[i := w], queue_log := queue_log s @ cmds\<rparr>)"
| step_report:
    "sessions s = [] \<Longrightarrow> status_turn cfg inp s = Inr (s', line, idx) \<Longrightarrow>
     sys_step cfg s (Reported inp line idx) s'"
| step_send:
    "sessions s = x # rest \<Longrightarrow> send_session cfg now x (s\<lparr>sessions := rest\<rparr>) = Inr (Some s') \<Longrightarrow>
     sys_step cfg s (Sent x now) s'"

inductive sys_run :: "Config \<Rightarrow> System \<Rightarrow> label list \<Rightarrow> System \<Rightarrow> bool" for cfg s0 where
  run_start: "sys_run cfg s0 [] s0"
| run_step: "sys_run cfg s0 ls s \<Longrightarrow> sys_step cfg s l s' \<Longrightarrow> sys_run cfg s0 (ls @ [l]) s'"

inductive_cases step_captureE: "sys_step cfg s (Captured data) s'"
inductive_cases step_workedE: "sys_step cfg s (Worked i a) s'"
inductive_cases step_reportE: "sys_step cfg s (Reported inp line idx) s'"
inductive_cases step_sentE: "sys_step cfg s (Sent x now) s'"

lemmas step_cases = step_captureE step_workedE step_reportE step_sentE

inductive_simps sys_step_captured: "sys_step cfg s (Captured data) s'"

subsection \<open>What one step changes\<close>

lemma send_packet_ok:
  assumes "send_packet idx pkt s = Inr (Some s')"
  shows "0 \<le> idx \<and> nat idx < length (channels s) \<and>
     (\<exists>ch. chan_send channelBufferSize (channels s ! nat idx) pkt = Some ch \<and>
        s' = s\<lparr>channels := (channels s)[nat idx := ch]\<rparr>)"
  using assms by (auto simp: send_packet_def split: if_splits option.splits)

definition raw_packet :: "bytes \<Rightarrow> MysqlPacket" where
  "raw_packet data = \<lparr>IsParsed = False, RawData = data, Request = None\<rparr>"

definition session_port :: "ConnectionInfo \<Rightarrow> int" where
  "session_port x = (if ci_SrcPort x < 0 then to_int32 (ci_SrcPort x * -1) else ci_SrcPort x)"

definition session_request :: "ConnectionInfo \<Rightarrow> int \<Rightarrow> MysqlRequest" where
  "session_request x now =
     \<lparr>AlreadyParsed = True, SrcIp = ci_SrcIp x, SrcPort = session_port x, Data = [],
      CapturedAt = now, ParsedRequest = Some (ci_ParsedRequest x)\<rparr>"

definition session_packet :: "ConnectionInfo \<Rightarrow> int \<Rightarrow> MysqlPacket" where
  "session_packet x now = \<lparr>IsParsed = True, RawData = [], Request = Some (session_request x now)\<rparr>"

text \<open>The worker a packet or a session is sent to, when there is one.\<close>

definition packet_worker :: "Config \<Rightarrow> bytes \<Rightarrow> int option" where
  "packet_worker cfg data =
     (if fastPacketParsing cfg \<and> length data \<le> 0x42 then None
      else case go_bind (GetPortNo data (linkType cfg)) (\<lambda>p. go_rem (uint p) (threads cfg)) of
          Inl e \<Rightarrow> None
        | Inr i \<Rightarrow> Some i)"

definition session_worker :: "Config \<Rightarrow> ConnectionInfo \<Rightarrow> int option" where
  "session_worker cfg x = (case go_rem (session_port x) (threads cfg) of Inl e \<Rightarrow> None | Inr i \<Rightarrow> Some i)"

lemma capture_cases:
  assumes "capture cfg data s = Inr (Some s')"
  obtains "packet_worker cfg data = None" "s' = s\<lparr>totalPackets := totalPackets s + 1\<rparr>"
  | i where "packet_worker cfg data = Some (int i)"
      "send_packet (int i) (raw_packet data) (s\<lparr>totalPackets := totalPackets s + 1\<rparr>) = Inr (Some s')"
proof (cases "fastPacketParsing cfg \<and> length data \<le> 0x42")
  case True
  with assms that(1) show ?thesis by (simp add: capture_def packet_worker_def)
next
  case False
  with assms obtain p i where p: "GetPortNo data (linkType cfg) = Inr p" "go_rem (uint p) (threads cfg) = Inr i"
    and send: "send_packet i (raw_packet data) (s\<lparr>totalPackets := totalPackets s + 1\<rparr>) = Inr (Some s')"
    by (auto simp: capture_def assembleUserPacket_def go_bind_eq_Inr raw_packet_def Let_def)
  from send_packet_ok [OF send] have i: "i = int (nat i)" by simp
  have "packet_worker cfg data = Some (int (nat i))"
    using False p i by (simp add: packet_worker_def)
  with send i that(2) [of "nat i"] show ?thesis by metis
qed

lemma send_session_cases:
  assumes "send_session cfg now x s = Inr (Some s')"
  obtains i where "session_worker cfg x = Some (int i)"
    "send_packet (int i) (session_packet x now) s = Inr (Some s')"
proof -
  from assms obtain i where i: "go_rem (session_port x) (threads cfg) = Inr i"
    and send: "send_packet i (session_packet x now) s = Inr (Some s')"
    by (auto simp: send_session_def go_bind_eq_Inr session_packet_def session_request_def
        session_port_def Let_def)
  from send_packet_ok [OF send] have "i = int (nat i)" by simp
  with i send that [of "nat i"] show ?thesis by (metis session_worker_def sum.case(2))
qed

lemma status_turn_ok:
  assumes "status_turn cfg inp s = Inr (s', line, idx)"
  shows "0 \<le> idx \<and> nat idx < length (workers s) \<and>
     workers s' = (workers s)[nat idx := flushExpiredRequest cfg (in_clock inp) (workers s ! nat idx)] \<and>
     channels s' = channels s \<and> queue_log s' = queue_log s \<and> totalPackets s' = totalPackets s"
  using assms
  by (auto simp: status_turn_def Let_def go_bind_eq_Inr expire_worker_def split: prod.splits if_splits)

subsection \<open>The shape of the state\<close>

definition sys_ok :: "Config \<Rightarrow> System \<Rightarrow> bool" where
  "sys_ok cfg s \<longleftrightarrow>
     length (channels s) = nat (threads cfg) \<and> length (workers s) = nat (threads cfg) \<and>
     (\<forall>i < length (workers s). worker_inv (workers s ! i) \<and> workerIdx (workers s ! i) = int i) \<and>
     (\<forall>ch \<in> set (channels s). length ch \<le> channelBufferSize)"

lemma init_system_ok: "sys_ok cfg (init_system cfg sz)"
  by (simp add: sys_ok_def init_system_def new_worker_inv) (simp add: new_worker_def)

lemma list_all_update: "\<forall>x \<in> set xs. P x \<Longrightarrow> P y \<Longrightarrow> \<forall>x \<in> set (xs[i := y]). P x"
  using set_update_subset_insert [of xs i y] by blast

lemma sys_ok_put_worker:
  assumes "sys_ok cfg s" "worker_inv w" "workerIdx w = int i"
  shows "sys_ok cfg (s\<lparr>workers := (workers s)[i := w]\<rparr>)"
  using assms by (cases "i < length (workers s)") (auto simp: sys_ok_def nth_list_update)

lemma sys_ok_put_channel:
  assumes "sys_ok cfg s" "length ch \<le> channelBufferSize"
  shows "sys_ok cfg (s\<lparr>channels := (channels s)[i := ch]\<rparr>)"
  using assms by (auto simp: sys_ok_def dest: set_update_subset_insert [THEN subsetD])

lemma sys_ok_frame [simp]:
  "sys_ok cfg (s\<lparr>totalPackets := n\<rparr>) = sys_ok cfg s" "sys_ok cfg (s\<lparr>queue_log := log\<rparr>) = sys_ok cfg s"
  "sys_ok cfg (s\<lparr>sessions := xs\<rparr>) = sys_ok cfg s" "sys_ok cfg (s\<lparr>status := st\<rparr>) = sys_ok cfg s"
  by (simp_all add: sys_ok_def)

lemma send_packet_sys_ok:
  assumes "sys_ok cfg s" "send_packet idx pkt s = Inr (Some s')"
  shows "sys_ok cfg s'"
proof -
  from send_packet_ok [OF assms(2)] obtain ch where
    ch: "chan_send channelBufferSize (channels s ! nat idx) pkt = Some ch"
    and s': "s' = s\<lparr>channels := (channels s)[nat idx := ch]\<rparr>" by blast
  show ?thesis
    unfolding s' by (rule sys_ok_put_channel [OF assms(1) packet_channel.send_bounded [OF ch]])
qed

lemma worker_turn_inv:
  assumes "worker_inv w" "worker_turn cfg answer ev w = Inr (w', cmds)"
  shows "worker_inv w' \<and> workerIdx w' = workerIdx w"
  using worker_turn_spec [OF assms(1), where cfg = cfg and ev = ev and answer = answer] assms(2)
  by (auto split: sum.splits)

lemma flush_inv: "worker_inv w \<Longrightarrow> worker_inv (flushExpiredRequest cfg clock w)"
  "workerIdx (flushExpiredRequest cfg clock w) = workerIdx w"
  by (simp_all add: worker_inv_def flushExpiredRequest_def)

lemma sys_step_ok: "sys_step cfg s l s' \<Longrightarrow> sys_ok cfg s \<Longrightarrow> sys_ok cfg s'"
proof (induction rule: sys_step.induct)
  case (step_capture data s s')
  from step_capture.hyps show ?case
  proof (cases rule: capture_cases)
    case 1
    with step_capture show ?thesis by simp
  next
    case (2 i)
    from send_packet_sys_ok [OF _ 2(2)] step_capture show ?thesis by simp
  qed
next
  case (step_receive i s pkt ch answer captured now w cmds)
  have "worker_inv (workers s ! i)" "workerIdx (workers s ! i) = int i"
    using step_receive by (simp_all add: sys_ok_def)
  with worker_turn_inv [OF this(1) step_receive.hyps(4)]
  have w: "worker_inv w" "workerIdx w = int i" by auto
  have "length (channels s ! i) \<le> channelBufferSize"
    using step_receive by (simp add: sys_ok_def)
  from packet_channel.recv_bounded [OF step_receive.hyps(3) this]
  have "sys_ok cfg (s\<lparr>channels := (channels s)[i := ch]\<rparr>)"
    by (rule sys_ok_put_channel [OF step_receive.prems])
  from sys_ok_put_worker [OF this w] show ?case by simp
next
  case (step_tick i s answer w cmds)
  have "worker_inv (workers s ! i)" "workerIdx (workers s ! i) = int i"
    using step_tick by (simp_all add: sys_ok_def)
  with worker_turn_inv [OF this(1) step_tick.hyps(2)]
  have "worker_inv w" "workerIdx w = int i" by auto
  from sys_ok_put_worker [OF step_tick.prems this] show ?case by simp
next
  case (step_report s inp s' line idx)
  note ok = status_turn_ok [OF step_report.hyps(2)]
  have "worker_inv (workers s ! nat idx)" "workerIdx (workers s ! nat idx) = int (nat idx)"
    using step_report ok by (simp_all add: sys_ok_def)
  then have "sys_ok cfg (s\<lparr>workers := (workers s)[nat idx :=
      flushExpiredRequest cfg (in_clock inp) (workers s ! nat idx)]\<rparr>)"
    by (intro sys_ok_put_worker [OF step_report.prems]) (simp_all add: flush_inv)
  with ok show ?case by (simp add: sys_ok_def)
next
  case (step_send s x rest now s')
  from send_session_cases [OF step_send.hyps(2)] obtain i where
    "send_packet (int i) (session_packet x now) (s\<lparr>sessions := rest\<rparr>) = Inr (Some s')" by metis
  from send_packet_sys_ok [OF _ this] step_send.prems show ?case by simp
qed

lemma sys_run_ok: "sys_run cfg s0 ls s \<Longrightarrow> sys_ok cfg s0 \<Longrightarrow> sys_ok cfg s"
  by (induction rule: sys_run.induct) (auto intro: sys_step_ok)

subsection \<open>Runs seen from one worker\<close>

text \<open>
  What a step does to worker \<open>i\<close>, what it sends to its channel, and which commands in the log
  are its own: those that insert into its collection.
\<close>

definition action_of :: "nat \<Rightarrow> label \<Rightarrow> worker_action list" where
  "action_of i l =
     (case l of
        Worked j a \<Rightarrow> if j = i then [a] else []
      | Reported inp line idx \<Rightarrow> if idx = int i then [Expire (in_clock inp)] else []
      | _ \<Rightarrow> [])"

definition packet_to :: "Config \<Rightarrow> nat \<Rightarrow> label \<Rightarrow> MysqlPacket list" where
  "packet_to cfg i l =
     (case l of
        Captured data \<Rightarrow> if packet_worker cfg data = Some (int i) then [raw_packet data] else []
      | Sent x now \<Rightarrow> if session_worker cfg x = Some (int i) then [session_packet x now] else []
      | _ \<Rightarrow> [])"

definition received :: "worker_action \<Rightarrow> MysqlPacket list" where
  "received a = (case a of Turn (Received pkt captured now) answer \<Rightarrow> [pkt] | _ \<Rightarrow> [])"

definition actions_of :: "nat \<Rightarrow> label list \<Rightarrow> worker_action list" where
  "actions_of i ls = concat (map (action_of i) ls)"

definition sent_to :: "Config \<Rightarrow> nat \<Rightarrow> label list \<Rightarrow> MysqlPacket list" where
  "sent_to cfg i ls = concat (map (packet_to cfg i) ls)"

definition received_by :: "nat \<Rightarrow> label list \<Rightarrow> MysqlPacket list" where
  "received_by i ls = concat (map received (actions_of i ls))"

definition inserts_into :: "string \<Rightarrow> mongo_cmd \<Rightarrow> bool" where
  "inserts_into coll c = (case c of BulkInsert db coll' ds \<Rightarrow> coll' = coll | _ \<Rightarrow> False)"

definition queue_cmds :: "Config \<Rightarrow> nat \<Rightarrow> System \<Rightarrow> mongo_cmd list" where
  "queue_cmds cfg i s =
     filter (inserts_into (getCollectionName (mongo_collection cfg) (int i))) (queue_log s)"

lemma projections_snoc [simp]:
  "actions_of i (ls @ [l]) = actions_of i ls @ action_of i l"
  "sent_to cfg i (ls @ [l]) = sent_to cfg i ls @ packet_to cfg i l"
  "received_by i (ls @ [l]) = received_by i ls @ concat (map received (action_of i l))"
  by (simp_all add: actions_of_def sent_to_def received_by_def)

lemma projections_Nil [simp]: "actions_of i [] = []" "sent_to cfg i [] = []" "received_by i [] = []"
  by (simp_all add: actions_of_def sent_to_def received_by_def)

lemma worker_run_snoc:
  assumes "worker_run cfg as w = Inr (w1, cmds)" "worker_act cfg a w1 = Inr (w2, cmds2)"
  shows "worker_run cfg (as @ [a]) w = Inr (w2, cmds @ cmds2)"
  using assms
proof (induction as arbitrary: w cmds)
  case (Cons b as)
  from Cons.prems(1) obtain w' cmds' rest where "worker_act cfg b w = Inr (w', cmds')"
    "worker_run cfg as w' = Inr (w1, rest)" "cmds = cmds' @ rest"
    by (auto simp: go_bind_eq_Inr)
  with Cons.IH [of w' rest] Cons.prems(2) show ?case by simp
qed simp

lemma send_packet_channels:
  assumes "send_packet (int j) pkt s = Inr (Some s')" "i < length (channels s)"
  shows "channels s' ! i = channels s ! i @ (if j = i then [pkt] else []) \<and> workers s' = workers s \<and>
     queue_log s' = queue_log s"
proof -
  from send_packet_ok [OF assms(1)] obtain ch where j: "j < length (channels s)" and
    ch: "chan_send channelBufferSize (channels s ! j) pkt = Some ch"
    and s': "s' = s\<lparr>channels := (channels s)[j := ch]\<rparr>" by auto
  from packet_channel.send_content [OF ch] j show ?thesis
    by (auto simp: s' nth_list_update)
qed

text \<open>Each step moves the packets of one channel in order.\<close>

lemma sys_step_fifo:
  assumes "sys_step cfg s l s'" "i < length (channels s)"
  shows "concat (map received (action_of i l)) @ channels s' ! i = channels s ! i @ packet_to cfg i l"
  using assms
proof (induction rule: sys_step.induct)
  case (step_capture data s s')
  from step_capture.hyps show ?case
  proof (cases rule: capture_cases)
    case 1
    then show ?thesis by (simp add: action_of_def packet_to_def)
  next
    case (2 j)
    with send_packet_channels [OF 2(2), of i] step_capture.prems show ?thesis
      by (auto simp: action_of_def packet_to_def)
  qed
next
  case (step_receive j s pkt ch answer captured now w cmds)
  from packet_channel.recv_content [OF step_receive.hyps(3)] step_receive show ?case
    by (auto simp: action_of_def packet_to_def received_def nth_list_update)
next
  case (step_tick j s answer w cmds)
  then show ?case by (simp add: action_of_def packet_to_def received_def)
next
  case (step_report s inp s' line idx)
  with status_turn_ok [OF step_report.hyps(2)] show ?case
    by (simp add: action_of_def packet_to_def received_def)
next
  case (step_send s x rest now s')
  from send_session_cases [OF step_send.hyps(2)] obtain j where
    j: "session_worker cfg x = Some (int j)"
      "send_packet (int j) (session_packet x now) (s\<lparr>sessions := rest\<rparr>) = Inr (Some s')" by metis
  with send_packet_channels [OF j(2), of i] step_send.prems show ?case
    by (auto simp: action_of_def packet_to_def)
qed

lemma sys_run_fifo:
  "sys_run cfg s0 ls s \<Longrightarrow> sys_ok cfg s0 \<Longrightarrow> i < nat (threads cfg) \<Longrightarrow>
   received_by i ls @ channels s ! i = channels s0 ! i @ sent_to cfg i ls"
proof (induction rule: sys_run.induct)
  case (run_step ls s l s')
  have "i < length (channels s)"
    using sys_run_ok [OF run_step.hyps(1)] run_step.prems by (simp add: sys_ok_def)
  from sys_step_fifo [OF run_step.hyps(2) this] run_step show ?case
    by (metis append.assoc projections_snoc(2,3))
qed simp

lemma filter_own_cmds:
  assumes "\<forall>c \<in> set cmds. \<exists>ds. c = BulkInsert db (getCollectionName pfx (int j)) ds"
  shows "filter (inserts_into (getCollectionName pfx (int i))) cmds = (if j = i then cmds else [])"
  using assms
proof (induction cmds)
  case (Cons c cmds)
  moreover have "inserts_into (getCollectionName pfx (int i)) c \<longleftrightarrow> j = i"
    using Cons.prems by (auto simp: inserts_into_def getCollectionName_inject)
  ultimately show ?case by auto
qed simp

lemma worker_turn_cmds:
  assumes "worker_inv w" "worker_turn cfg answer ev w = Inr (w', cmds)"
  shows "\<forall>c \<in> set cmds.
     \<exists>ds. c = BulkInsert (mongo_db cfg) (getCollectionName (mongo_collection cfg) (workerIdx w)) ds"
  using worker_turn_spec [OF assms(1), where cfg = cfg and ev = ev and answer = answer] assms(2)
  by (auto split: sum.splits)

text \<open>Each step is an action of at most one worker, which issues the commands it adds to the log.\<close>

lemma sys_step_worker:
  assumes "sys_step cfg s l s'" "sys_ok cfg s" "i < nat (threads cfg)"
  shows "action_of i l = [] \<and> workers s' ! i = workers s ! i \<and> queue_cmds cfg i s' = queue_cmds cfg i s \<or>
     (\<exists>a cmds. action_of i l = [a] \<and> worker_act cfg a (workers s ! i) = Inr (workers s' ! i, cmds) \<and>
        queue_cmds cfg i s' = queue_cmds cfg i s @ cmds)"
  using assms
proof (induction rule: sys_step.induct)
  case (step_capture data s s')
  have i: "i < length (channels s)" using step_capture.prems by (simp add: sys_ok_def)
  from step_capture.hyps show ?case
  proof (cases rule: capture_cases)
    case 1
    then show ?thesis by (simp add: action_of_def queue_cmds_def)
  next
    case (2 j)
    with send_packet_channels [OF 2(2), of i] i show ?thesis
      by (simp add: action_of_def queue_cmds_def)
  qed
next
  case (step_receive j s pkt ch answer captured now w cmds)
  have j: "worker_inv (workers s ! j)" "workerIdx (workers s ! j) = int j"
    using step_receive by (simp_all add: sys_ok_def)
  from filter_own_cmds [of cmds "mongo_db cfg" "mongo_collection cfg" j i]
    worker_turn_cmds [OF j(1) step_receive.hyps(4)] j(2) step_receive
  show ?case by (auto simp: action_of_def queue_cmds_def nth_list_update)
next
  case (step_tick j s answer w cmds)
  have j: "worker_inv (workers s ! j)" "workerIdx (workers s ! j) = int j"
    using step_tick by (simp_all add: sys_ok_def)
  from filter_own_cmds [of cmds "mongo_db cfg" "mongo_collection cfg" j i]
    worker_turn_cmds [OF j(1) step_tick.hyps(2)] j(2) step_tick
  show ?case by (auto simp: action_of_def queue_cmds_def nth_list_update)
next
  case (step_report s inp s' line idx)
  with status_turn_ok [OF step_report.hyps(2)] show ?case
    by (auto simp: action_of_def queue_cmds_def nth_list_update)
next
  case (step_send s x rest now s')
  have i: "i < length (channels s)" using step_send.prems by (simp add: sys_ok_def)
  from send_session_cases [OF step_send.hyps(2)] obtain j where
    j: "send_packet (int j) (session_packet x now) (s\<lparr>sessions := rest\<rparr>) = Inr (Some s')" by metis
  from send_packet_channels [OF j, of i] i show ?case
    by (simp add: action_of_def queue_cmds_def)
qed

lemma no_inserts_at_start: "queue_cmds cfg i (init_system cfg sz) = []"
  by (auto simp: queue_cmds_def init_system_def PrepareCollections_def prepare_from_eq
      reCreateCappedCollection_def inserts_into_def filter_empty_conv)

lemma sys_run_worker:
  "sys_run cfg (init_system cfg sz) ls s \<Longrightarrow> i < nat (threads cfg) \<Longrightarrow>
   worker_run cfg (actions_of i ls) (new_worker (int i)) = Inr (workers s ! i, queue_cmds cfg i s)"
proof (induction rule: sys_run.induct)
  case run_start
  then show ?case by (simp add: no_inserts_at_start) (simp add: init_system_def)
next
  case (run_step ls s l s')
  from sys_run_ok [OF run_step.hyps(1) init_system_ok] have "sys_ok cfg s" .
  from sys_step_worker [OF run_step.hyps(2) this run_step.prems] run_step worker_run_snoc show ?case
    by fastforce
qed

lemma sys_run_queue:
  assumes run: "sys_run cfg (init_system cfg sz) ls s" and i: "i < nat (threads cfg)"
  shows "\<exists>out. spec_run cfg (actions_of i ls) (Map.empty, zero_layers) = Inr (store_of (workers s ! i), out) \<and>
     concat (map cmd_docs (queue_cmds cfg i s)) @ map request_doc (pending (workers s ! i)) =
       map request_doc out"
proof -
  note w = sys_run_worker [OF run i]
  have st: "store_of (new_worker (int i)) = (Map.empty, zero_layers)"
    by (simp add: store_of_def new_worker_def)
  note spec = worker_run_spec [OF new_worker_inv, of cfg "actions_of i ls" "int i", unfolded st]
  show ?thesis
  proof (cases "spec_run cfg (actions_of i ls) (Map.empty, zero_layers)")
    case (Inl e)
    with spec w show ?thesis by simp
  next
    case (Inr r)
    obtain st out where r: "r = (st, out)" by (metis prod.exhaust)
    with Inr spec w show ?thesis
      by (auto simp: writes_def new_worker_ok)
  qed
qed

subsection \<open>Routing by port\<close>

lemma go_rem_mod:
  assumes "go_rem a b = Inr (int i)" "0 < b"
  shows "a mod b = int i"
proof (cases "0 \<le> a")
  case True
  with assms show ?thesis by (simp add: go_rem_nonneg)
next
  case False
  with assms have eq: "- ((- a) mod b) = int i"
    by (auto simp: go_rem_def sgn_if)
  then have "(- a) mod b = 0"
    using assms(2) pos_mod_sign [of b "- a"] by linarith
  then have "b dvd a" by (simp add: dvd_eq_mod_eq_0 [symmetric])
  with eq \<open>(- a) mod b = 0\<close> show ?thesis by simp
qed

definition routed :: "Config \<Rightarrow> nat \<Rightarrow> MysqlPacket \<Rightarrow> bool" where
  "routed cfg i pkt \<longleftrightarrow>
     (\<exists>data. pkt = raw_packet data \<and> packet_worker cfg data = Some (int i)) \<or>
     (\<exists>x now. pkt = session_packet x now \<and> session_worker cfg x = Some (int i))"

definition on_port :: "Config \<Rightarrow> nat \<Rightarrow> MysqlRequest \<Rightarrow> bool" where
  "on_port cfg i r \<longleftrightarrow> SrcPort r mod threads cfg = int i"

lemma packet_to_routed: "pkt \<in> set (packet_to cfg i l) \<Longrightarrow> routed cfg i pkt"
  by (auto simp: packet_to_def routed_def split: label.splits if_splits)

lemma sent_to_routed: "pkt \<in> set (sent_to cfg i ls) \<Longrightarrow> routed cfg i pkt"
  by (auto simp: sent_to_def dest: packet_to_routed)

lemma raw_packet_on_port:
  assumes "packet_worker cfg data = Some (int i)" "0 < threads cfg"
    and "ParsePacketFast data (linkType cfg) t = Inr (Inr mp)"
  shows "on_port cfg i mp"
proof -
  from GetPortNo_agrees [OF assms(3)] obtain p where
    p: "GetPortNo data (linkType cfg) = Inr p" "SrcPort mp = uint p" by blast
  with assms(1) have "go_rem (uint p) (threads cfg) = Inr (int i)"
    by (auto simp: packet_worker_def split: if_splits sum.splits)
  from go_rem_mod [OF this assms(2)] p show ?thesis by (simp add: on_port_def)
qed

lemma session_on_port:
  assumes "session_worker cfg x = Some (int i)" "0 < threads cfg"
  shows "on_port cfg i (session_request x now)"
  using assms go_rem_mod [of "session_port x" "threads cfg" i]
  by (auto simp: session_worker_def on_port_def session_request_def split: sum.splits)

definition store_on_port :: "Config \<Rightarrow> nat \<Rightarrow> (string \<rightharpoonup> MysqlRequest) \<Rightarrow> bool" where
  "store_on_port cfg i m \<longleftrightarrow> (\<forall>k r. m k = Some r \<longrightarrow> on_port cfg i r)"

lemma spec_request_on_port:
  assumes "spec_request cfg now mp m = Inr (m', out)" "store_on_port cfg i m" "on_port cfg i mp"
  shows "store_on_port cfg i m' \<and> (\<forall>r \<in> set out. on_port cfg i r)"
proof -
  have whole: "on_port cfg i (whole_request cfg now m mp)"
    using assms(2,3)
    by (auto simp: whole_request_def carried_def on_port_def store_on_port_def split: option.splits)
  then have "\<forall>r \<in> set (parsed cfg (whole_request cfg now m mp)). on_port cfg i r"
    by (auto simp: parsed_def on_port_def split: sum.splits)
  with assms show ?thesis
    by (auto simp: spec_request_def Let_def store_on_port_def split: if_splits)
qed

lemma spec_event_on_port:
  assumes fast: "fastPacketParsing cfg" and pos: "0 < threads cfg"
    and ev: "spec_event cfg ev (m, l) = Inr ((m', l'), out)"
    and pkts: "\<And>pkt. pkt \<in> set (received (Turn ev answer)) \<Longrightarrow> routed cfg i pkt"
    and store: "store_on_port cfg i m"
  shows "store_on_port cfg i m' \<and> (\<forall>r \<in> set out. on_port cfg i r)"
proof (cases ev)
  case Ticked
  with ev store show ?thesis by (simp add: spec_event_def)
next
  case (Received pkt captured now)
  with pkts have "routed cfg i pkt" by (simp add: received_def)
  then consider data where "pkt = raw_packet data" "packet_worker cfg data = Some (int i)"
    | x t where "pkt = session_packet x t" "session_worker cfg x = Some (int i)"
    by (auto simp: routed_def)
  then show ?thesis
  proof cases
    case (1 data)
    obtain r where r: "ParsePacketFast data (linkType cfg) captured = Inr r"
      using ParsePacketFast_total by (metis not_panics_iff)
    show ?thesis
    proof (cases r)
      case (Inl err)
      with ev Received 1 r fast store show ?thesis
        by (simp add: spec_event_def raw_packet_def)
    next
      case (Inr mp)
      with ev Received 1 r fast have "spec_request cfg now mp m = Inr (m', out)"
        by (auto simp: spec_event_def raw_packet_def on_map_eq_Inr)
      from spec_request_on_port [OF this store] raw_packet_on_port [OF 1(2) pos] r Inr
      show ?thesis by simp
    qed
  next
    case (2 x t)
    with ev Received have "out = [session_request x t]" "m' = m"
      by (auto simp: spec_event_def session_packet_def)
    with session_on_port [OF 2(2) pos] store show ?thesis by simp
  qed
qed

lemma spec_run_on_port:
  assumes fast: "fastPacketParsing cfg" and pos: "0 < threads cfg"
  shows "spec_run cfg as (m, l) = Inr ((m', l'), out) \<Longrightarrow> store_on_port cfg i m \<Longrightarrow>
    (\<And>pkt. pkt \<in> set (concat (map received as)) \<Longrightarrow> routed cfg i pkt) \<Longrightarrow>
    store_on_port cfg i m' \<and> (\<forall>r \<in> set out. on_port cfg i r)"
proof (induction as arbitrary: m l out)
  case (Cons a as)
  from Cons.prems(1) obtain m1 l1 out1 out2 where
    a: "spec_act cfg a (m, l) = Inr ((m1, l1), out1)" and
    as: "spec_run cfg as (m1, l1) = Inr ((m', l'), out2)" and out: "out = out1 @ out2"
    by (auto simp: go_bind_eq_Inr)
  have "store_on_port cfg i m1 \<and> (\<forall>r \<in> set out1. on_port cfg i r)"
  proof (cases a)
    case (Turn ev answer)
    with a have "spec_event cfg ev (m, l) = Inr ((m1, l1), out1)" by simp
    from spec_event_on_port [OF fast pos this, of answer i] Cons.prems Turn show ?thesis by auto
  next
    case (Expire clock)
    with a Cons.prems(2) show ?thesis
      by (auto simp: store_on_port_def split: option.splits if_splits)
  qed
  with Cons.IH [OF as] Cons.prems(3) out show ?case by auto
qed simp

lemma sys_run_on_port:
  assumes fast: "fastPacketParsing cfg" and run: "sys_run cfg (init_system cfg sz) ls s"
    and i: "i < nat (threads cfg)"
  shows "store_on_port cfg i (requestMap (workers s ! i)) \<and>
     (\<exists>out. spec_run cfg (actions_of i ls) (Map.empty, zero_layers) = Inr (store_of (workers s ! i), out) \<and>
        concat (map cmd_docs (queue_cmds cfg i s)) @ map request_doc (pending (workers s ! i)) =
          map request_doc out \<and> (\<forall>r \<in> set out. on_port cfg i r))"
proof -
  from sys_run_queue [OF run i] obtain out where
    out: "spec_run cfg (actions_of i ls) (Map.empty, zero_layers) = Inr (store_of (workers s ! i), out)"
    and docs: "concat (map cmd_docs (queue_cmds cfg i s)) @ map request_doc (pending (workers s ! i)) =
       map request_doc out" by blast
  have "received_by i ls @ channels s ! i = [] @ sent_to cfg i ls"
    using sys_run_fifo [OF run init_system_ok i] i by (simp add: init_system_def)
  then have "set (received_by i ls) \<subseteq> set (sent_to cfg i ls)"
    by (metis Un_upper1 append_Nil set_append)
  then have routed: "\<And>pkt. pkt \<in> set (concat (map received (actions_of i ls))) \<Longrightarrow> routed cfg i pkt"
    using sent_to_routed by (auto simp: received_by_def)
  have "0 < threads cfg" using i by simp
  from spec_run_on_port [OF fast this, of "actions_of i ls" Map.empty zero_layers] out routed docs
  show ?thesis by (auto simp: store_of_def store_on_port_def)
qed

end
