(* ===== verification/CollectorStatus.thy ===== *)
theory CollectorStatus
  imports CollectorRun
begin

text \<open>
  The capture and status goroutines in the runs of the collector: when the capture loop can
  panic, which worker each report expires, what the reported counts add up to, and when the
  memory check ends the program.
\<close>

subsection \<open>Capturing\<close>

lemma GetPortNo_no_panic:
  assumes "ethernet_header_length dlt < length data"
  shows "\<exists>p. GetPortNo data dlt = Inr p"
  using assms by (simp add: GetPortNo_eq Let_def)

lemma ethernet_header_length_le: "ethernet_header_length dlt \<le> 14"
  by (simp add: ethernet_header_length_def)

lemma send_packet_in_range:
  assumes "0 \<le> idx" "nat idx < length (channels s)"
  shows "send_packet idx pkt s =
     (if length (channels s ! nat idx) < channelBufferSize
      then Inr (Some (s\<lparr>channels := (channels s)[nat idx := channels s ! nat idx @ [pkt]]\<rparr>))
      else Inr None)"
  using assms by (auto simp: send_packet_def chan_send_def)

text \<open>With the fast parser the capture loop never panics: it skips, delivers or waits.\<close>

lemma capture_fast:
  assumes "fastPacketParsing cfg" "0 < threads cfg" "length (channels s) = nat (threads cfg)"
  shows "capture cfg data s =
     (let s1 = s\<lparr>totalPackets := totalPackets s + 1\<rparr> in
      if length data \<le> 0x42 then Inr (Some s1)
      else
        let ip = ip_area data (linkType cfg); h = ip_header_bytes ip;
            port = (if h + 2 \<le> length ip then u16_at ip h else 0);
            i = nat (int port mod threads cfg)
        in if length (channels s ! i) < channelBufferSize
           then Inr (Some (s1\<lparr>channels := (channels s)[i := channels s ! i @ [raw_packet data]]\<rparr>))
           else Inr None)"
proof (cases "length data \<le> 0x42")
  case False
  let ?ip = "ip_area data (linkType cfg)"
  let ?port = "if ip_header_bytes ?ip + 2 \<le> length ?ip then u16_at ?ip (ip_header_bytes ?ip) else 0"
  have "ethernet_header_length (linkType cfg) < length data"
    using False ethernet_header_length_le [of "linkType cfg"] by linarith
  from GetPortNo_eq [OF this]
  have port: "GetPortNo data (linkType cfg) = Inr (word_of_nat ?port)"
    by (simp add: Let_def)
  have "uint (word_of_nat ?port :: 16 word) = int ?port"
    by simp
  then have rem: "go_rem (uint (word_of_nat ?port :: 16 word)) (threads cfg) = Inr (int ?port mod threads cfg)"
    using assms(2) by (simp only:) (simp add: go_rem_nonneg)
  have range: "0 \<le> int ?port mod threads cfg" "nat (int ?port mod threads cfg) < length (channels s)"
    using assms(2,3) pos_mod_bound [of "threads cfg" "int ?port"] by (simp_all add: nat_less_iff)
  let ?s1 = "s\<lparr>totalPackets := totalPackets s + 1\<rparr>"
  have "assembleUserPacket cfg data ?s1 = send_packet (int ?port mod threads cfg) (raw_packet data) ?s1"
    unfolding assembleUserPacket_def port go_bind_simps rem raw_packet_def by simp
  also have "\<dots> = (if length (channels s ! nat (int ?port mod threads cfg)) < channelBufferSize
      then Inr (Some (?s1\<lparr>channels := (channels s)[nat (int ?port mod threads cfg) :=
             channels s ! nat (int ?port mod threads cfg) @ [raw_packet data]]\<rparr>))
      else Inr None)"
    using send_packet_in_range [of "int ?port mod threads cfg" ?s1] range by simp
  finally show ?thesis
    using False by (simp only: capture_def Let_def if_False simp_thms)
qed (use assms in \<open>simp add: capture_def Let_def\<close>)

subsection \<open>Which worker a report expires\<close>

fun is_report :: "label \<Rightarrow> bool" where
  "is_report (Reported inp line idx) = True"
| "is_report _ = False"

definition reports :: "label list \<Rightarrow> nat" where
  "reports ls = length (filter is_report ls)"

lemma reports_snoc [simp]: "reports (ls @ [l]) = reports ls + (if is_report l then 1 else 0)"
  by (simp add: reports_def)

lemma reports_Nil [simp]: "reports [] = 0"
  by (simp add: reports_def)

text \<open>The value of \<open>loopCounter\<close> before turn \<open>n\<close> of the status loop.\<close>

definition counter_before :: "nat \<Rightarrow> int" where
  "counter_before n = (if n = 0 then 0 else int ((n - 1) mod 20) + 1)"

lemma counter_reset:
  "(if counter_before n mod 20 = 0 then 0 else counter_before n) = int (n mod 20)"
proof (cases n)
  case (Suc m)
  have "int (Suc m mod 20) = (if m mod 20 = 19 then 0 else int (m mod 20) + 1)"
    by (auto simp: mod_Suc)
  moreover have "(int (m mod 20) + 1) mod 20 = 0 \<longleftrightarrow> m mod 20 = 19"
    by presburger
  ultimately show ?thesis
    by (simp add: counter_before_def Suc)
qed (simp add: counter_before_def)

lemma counter_before_Suc: "counter_before (Suc n) = int (n mod 20) + 1"
  by (simp add: counter_before_def)

lemma status_turn_counter:
  assumes "status_turn cfg inp s = Inr (s', line, idx)" "loopCounter (status s) = counter_before n"
  shows "go_rem (int (n mod 20)) (threads cfg) = Inr idx \<and> loopCounter (status s') = counter_before (Suc n) \<and>
     (if n mod 20 = 0 then GetSessionDefaultDatabase (in_processlist inp) = Inr (sessions s') else sessions s' = [])"
proof -
  have lc: "(if loopCounter (status s) mod 20 = 0 then 0 else loopCounter (status s)) = int (n mod 20)"
    unfolding assms(2) by (rule counter_reset)
  have z: "int (n mod 20) mod 20 = 0 \<longleftrightarrow> n mod 20 = 0"
    by presburger
  show ?thesis
    using assms(1) unfolding status_turn_def lc Let_def
    by (auto simp: go_bind_eq_Inr expire_worker_def counter_before_Suc z split: prod.splits if_splits)
qed

lemma send_packet_status: "send_packet i pkt s = Inr (Some s') \<Longrightarrow> status s' = status s \<and> totalPackets s' = totalPackets s"
  by (auto dest: send_packet_ok)

lemma other_step_status:
  assumes "sys_step cfg s l s'" "\<not> is_report l"
  shows "status s' = status s"
  using assms
proof (induction rule: sys_step.induct)
  case (step_capture data s s')
  from step_capture.hyps show ?case
    by (cases rule: capture_cases) (auto dest: send_packet_status)
next
  case (step_send s x rest now s')
  from send_session_cases [OF step_send.hyps(2)] obtain i where
    "send_packet (int i) (session_packet x now) (s\<lparr>sessions := rest\<rparr>) = Inr (Some s')" by metis
  from send_packet_status [OF this] show ?case by simp
qed auto

lemma sys_run_counter:
  "sys_run cfg (init_system cfg sz) ls s \<Longrightarrow> loopCounter (status s) = counter_before (reports ls)"
proof (induction rule: sys_run.induct)
  case run_start
  then show ?case by (simp add: init_system_def init_status_def counter_before_def)
next
  case (run_step ls s l s')
  show ?case
  proof (cases "is_report l")
    case True
    then obtain inp line idx where l: "l = Reported inp line idx" by (cases l) auto
    with run_step.hyps(2) have "status_turn cfg inp s = Inr (s', line, idx)"
      by (auto elim: step_reportE)
    from status_turn_counter [OF this run_step.IH] l show ?thesis by simp
  next
    case False
    with other_step_status [OF run_step.hyps(2)] run_step.IH show ?thesis by simp
  qed
qed

lemma sys_run_expires:
  assumes "sys_run cfg (init_system cfg sz) ls s" "sys_step cfg s (Reported inp line idx) s'" "0 < threads cfg"
  shows "idx = int (reports ls mod 20) mod threads cfg"
proof -
  have "status_turn cfg inp s = Inr (s', line, idx)"
    using assms(2) by (auto elim: step_reportE)
  from status_turn_counter [OF this sys_run_counter [OF assms(1)]] assms(3)
  show ?thesis by (simp add: go_rem_nonneg)
qed

text \<open>Within twenty reports a worker is visited exactly when its index is below twenty.\<close>

lemma visited_iff:
  fixes t i :: int
  assumes "0 < t" "0 \<le> i" "i < t"
  shows "(\<exists>k < 20. int k mod t = i) \<longleftrightarrow> i < 20"
proof
  assume "\<exists>k < 20. int k mod t = i"
  then obtain k where "k < 20" "int k mod t = i" by blast
  then show "i < 20"
    using zmod_le_nonneg_dividend [of "int k" t] by simp
next
  assume "i < 20"
  with assms have "nat i < 20" "int (nat i) mod t = i" by simp_all
  then show "\<exists>k < 20. int k mod t = i" by blast
qed

subsection \<open>What the reported counts add up to\<close>

definition line_of :: "label \<Rightarrow> StatusLine list" where
  "line_of l = (case l of Reported inp line idx \<Rightarrow> [line] | _ \<Rightarrow> [])"

definition lines_of :: "label list \<Rightarrow> StatusLine list" where
  "lines_of ls = concat (map line_of ls)"

definition total_of :: "(StatusLine \<Rightarrow> 64 word) \<Rightarrow> label list \<Rightarrow> 64 word" where
  "total_of f ls = sum_list (map f (lines_of ls))"

lemma total_of_simps [simp]:
  "total_of f [] = 0" "total_of f (ls @ [l]) = total_of f ls + sum_list (map f (line_of l))"
  by (simp_all add: total_of_def lines_of_def)

lemma status_line_deltas:
  assumes "status_line ps s = (line, st)"
  shows "l_total line = totalPackets s - pTotalPackets (status s) \<and> pTotalPackets st = totalPackets s \<and>
     l_valid line = sum_counters validPackets (workers s) - pValidPackets (status s) \<and>
     pValidPackets st = sum_counters validPackets (workers s) \<and>
     l_assembled line = sum_counters assembledPackets (workers s) - pAssembledPackets (status s) \<and>
     pAssembledPackets st = sum_counters assembledPackets (workers s) \<and>
     l_expired line = sum_counters expiredPackets (workers s) - pExpiredPackets (status s) \<and>
     pExpiredPackets st = sum_counters expiredPackets (workers s) \<and>
     l_mqerrors line = sum_counters mqErrorCounter (workers s) - pMqueueErrors (status s) \<and>
     pMqueueErrors st = sum_counters mqErrorCounter (workers s)"
  using assms
  by (auto simp: status_line_def Let_def STATUS_INTERVAL_SECOND_def split: option.splits)

lemma status_turn_line:
  assumes "status_turn cfg inp s = Inr (s', line, idx)"
  shows "\<exists>st. status_line (in_pcapStats inp) s = (line, st) \<and>
     pTotalPackets (status s') = pTotalPackets st \<and> pValidPackets (status s') = pValidPackets st \<and>
     pAssembledPackets (status s') = pAssembledPackets st \<and> pExpiredPackets (status s') = pExpiredPackets st \<and>
     pMqueueErrors (status s') = pMqueueErrors st"
  using assms
  by (auto simp: status_turn_def Let_def go_bind_eq_Inr expire_worker_def split: prod.splits if_splits)

definition reported_totals :: "label list \<Rightarrow> Status \<Rightarrow> bool" where
  "reported_totals ls st \<longleftrightarrow>
     total_of l_total ls = pTotalPackets st \<and> total_of l_valid ls = pValidPackets st \<and>
     total_of l_assembled ls = pAssembledPackets st \<and> total_of l_expired ls = pExpiredPackets st \<and>
     total_of l_mqerrors ls = pMqueueErrors st"

lemma sys_run_totals:
  "sys_run cfg (init_system cfg sz) ls s \<Longrightarrow> reported_totals ls (status s)"
proof (induction rule: sys_run.induct)
  case run_start
  then show ?case by (simp add: reported_totals_def init_system_def init_status_def)
next
  case (run_step ls s l s')
  show ?case
  proof (cases "is_report l")
    case True
    then obtain inp line idx where l: "l = Reported inp line idx" by (cases l) auto
    with run_step.hyps(2) have "status_turn cfg inp s = Inr (s', line, idx)"
      by (auto elim: step_reportE)
    from status_turn_line [OF this] status_line_deltas l run_step.IH show ?thesis
      by (fastforce simp: reported_totals_def line_of_def)
  next
    case False
    then have "line_of l = []" by (cases l) (simp_all add: line_of_def)
    with other_step_status [OF run_step.hyps(2) False] run_step.IH show ?thesis
      by (simp add: reported_totals_def)
  qed
qed

text \<open>The total is the number of captured packets.\<close>

fun is_capture :: "label \<Rightarrow> bool" where
  "is_capture (Captured data) = True"
| "is_capture _ = False"

lemma sys_step_total:
  "sys_step cfg s l s' \<Longrightarrow> totalPackets s' = totalPackets s + (if is_capture l then 1 else 0)"
proof (induction rule: sys_step.induct)
  case (step_capture data s s')
  from step_capture.hyps show ?case
    by (cases rule: capture_cases) (auto dest: send_packet_status)
next
  case (step_report s inp s' line idx)
  with status_turn_ok [OF step_report.hyps(2)] show ?case by simp
next
  case (step_send s x rest now s')
  from send_session_cases [OF step_send.hyps(2)] obtain i where
    "send_packet (int i) (session_packet x now) (s\<lparr>sessions := rest\<rparr>) = Inr (Some s')" by metis
  from send_packet_status [OF this] show ?case by simp
qed auto

lemma sys_run_captured:
  "sys_run cfg (init_system cfg sz) ls s \<Longrightarrow> totalPackets s = word_of_nat (length (filter is_capture ls))"
proof (induction rule: sys_run.induct)
  case run_start
  then show ?case by (simp add: init_system_def)
next
  case (run_step ls s l s')
  with sys_step_total [OF run_step.hyps(2)] show ?case by simp
qed

subsection \<open>The memory check\<close>

lemma checkMemoryUsage_panics_iff:
  "panics (checkMemoryUsage pageSize statm limit) \<longleftrightarrow>
   (let resident =
      (case statm of
         None \<Rightarrow> 0
       | Some b \<Rightarrow>
           if 6 \<le> length (strings_Fields b)
           then case parse_int64 (strings_Fields b ! 1) of None \<Rightarrow> 0 | Some v \<Rightarrow> to_int64 (v * pageSize)
           else 0)
    in limit < resident)"
proof -
  have nil: "strings_Fields '''' = []"
    by (simp add: strings_Fields_def fields_from.simps)
  show ?thesis
    by (auto simp: checkMemoryUsage_def Let_def STATM_FIELD_END_def statm_resident_def nil
        split: option.splits)
qed

end
