(* ===== verification/Samples.thy ===== *)
theory Samples
  imports CollectorStatus
begin

text \<open>
  Concrete inputs for the instances of the properties: an Ethernet frame with an IPv4 and a TCP
  header without options, from 10.0.0.1:40000 to 10.0.0.2:3306, and a \<open>COM_QUERY\<close> packet.
\<close>

definition sample_headers :: "nat \<Rightarrow> bytes" where
  "sample_headers n =
     [0, 0, 0, 0, 0, 1, 0, 0, 0, 0, 0, 2, 0x08, 0x00] @
     [0x45, 0, 0, word_of_nat (40 + n), 0, 0, 0, 0, 64, 6, 0, 0, 10, 0, 0, 1, 10, 0, 0, 2] @
     [0x9C, 0x40, 0x0C, 0xEA, 0, 0, 0, 0, 0, 0, 0, 0, 0x50, 0x18, 0, 0, 0, 0, 0, 0]"

definition sample_frame :: "bytes \<Rightarrow> bytes" where
  "sample_frame data = sample_headers (length data) @ data"

definition select_one :: bytes where
  "select_one = [9, 0, 0, 0, 3] @ bytes_of_string ''SELECT 1''"

definition sample_request :: "bytes \<Rightarrow> int \<Rightarrow> MysqlRequest" where
  "sample_request data t =
     \<lparr>AlreadyParsed = False, SrcIp = ''10.0.0.1'', SrcPort = 40000, Data = data, CapturedAt = t,
      ParsedRequest = None\<rparr>"

definition sample_config :: Config where
  "sample_config =
     \<lparr>fastPacketParsing = True, onlySelect = True, packetExpireTimeoutSeconds = 10, threads = 5,
      mongo_db = ''mrte'', mongo_collection = ''mrte'', linkType = DLT_EN10MB\<rparr>"

lemma sample_parsed:
  "ParsePacketFast (sample_frame select_one) DLT_EN10MB 0 = Inr (Inr (sample_request select_one 0))"
  by code_simp

lemma sample_slow:
  "snd (slow_parse (sample_frame select_one) 0 zero_layers) = Inr (Inr (Some (sample_request select_one 0)))"
  by code_simp

lemma spec_event_fast:
  assumes "fastPacketParsing cfg" "\<not> IsParsed pkt"
    and "ParsePacketFast (RawData pkt) (linkType cfg) captured = Inr (Inr mp)"
  shows "spec_event cfg (Received pkt captured now) (m, l) = on_map l (spec_request cfg now mp m)"
  using assms by (simp add: spec_event_def)

lemma not_blank:
  assumes "c \<in> set (string_of_bytes d)" "c \<notin> set (concat go_spaces)"
  shows "\<not> blank d"
proof -
  have "c \<in> set (strings_TrimSpace (string_of_bytes d))"
    using assms by (intro TrimSpace_rest) auto
  then show ?thesis by (auto simp: blank_def)
qed

lemma letter_E: "CHR ''E'' \<notin> set (concat go_spaces)"
  by (simp add: go_spaces_def ascii_spaces_def)

lemma blank_select_one: "\<not> blank select_one"
  by (rule not_blank [OF _ letter_E])
    (simp only: select_one_def string_of_bytes_append string_of_bytes_of_string, simp)

lemma complete_select_one: "complete select_one"
  by (simp add: complete_def header_size_def select_one_def)

lemma sample_event:
  "spec_event sample_config (Received (raw_packet (sample_frame select_one)) 0 0) (Map.empty, l) =
     Inr ((Map.empty, l), parsed sample_config (sample_request select_one 0))"
proof -
  have "spec_request sample_config 0 (sample_request select_one 0) Map.empty =
      Inr (Map.empty, parsed sample_config (sample_request select_one 0))"
    using blank_select_one complete_select_one
    by (intro spec_request_complete) (simp_all add: sample_request_def, simp add: select_one_def)
  then show ?thesis
    using sample_parsed by (simp add: spec_event_fast sample_config_def raw_packet_def on_map_def)
qed

end
