(* ===== verification/PropsParsing.thy ===== *)
theory PropsParsing
  imports Samples MysqlHelper
begin

text \<open>
  The properties of the parsers, of the documents they produce and of the two helper packages.
\<close>

subsection \<open>Packets\<close>

text \<open>\<open>ParsePacketFast\<close> as one equation: the first check that fails decides the error, and
  otherwise the request holds the dotted source address, the source port and the bytes of the
  TCP segment after its header, where the segment is cut by the total length of the IP header.
  It never panics, for any bytes and any link type.\<close>

theorem ParsePacketFast_result:
  "ParsePacketFast d dlt now =
     (let ip = ip_area d dlt; seg = tcp_segment ip in
      Inr (if length d < 14 then Inl ''Packet is too small (less than ethernet-header''
           else if ethernet_header_length dlt = 14 \<and> u16_at d 12 \<noteq> 0x0800 then Inl ''Not a ip packet''
           else if length ip < 20 then Inl ''Packet is too small (less than ip-header''
           else if ip ! 9 \<noteq> IP_TCP then Inl ''Not a tcp packet''
           else if length seg < 20 then Inl ''Packet is too small (less than tcp-header''
           else Inr \<lparr>AlreadyParsed = False, SrcIp = dotted (take 4 (drop 12 ip)),
                      SrcPort = int (u16_at seg 0), Data = drop (tcp_data_offset seg) seg,
                      CapturedAt = now, ParsedRequest = None\<rparr>))"
  by (rule ParsePacketFast_eq)

text \<open>The port by which the dispatcher chooses a worker is the source port of the request
  that the worker's fast parser makes of the packet.\<close>

theorem dispatched_by_source_port:
  assumes "ParsePacketFast d dlt now = Inr (Inr r)"
  shows "\<exists>p. GetPortNo d dlt = Inr p \<and> SrcPort r = uint p"
  by (rule GetPortNo_agrees [OF assms])

theorem dispatched_by_source_port_witness:
  "\<exists>p. GetPortNo (sample_frame select_one) DLT_EN10MB = Inr p \<and> SrcPort (sample_request select_one 0) = uint p"
  by (rule dispatched_by_source_port [OF sample_parsed])

text \<open>\<open>uitoa\<close> prints every 64-bit unsigned value in decimal, within its 32-byte buffer,
  and the text reads back as the value.\<close>

theorem uitoa_prints_decimal:
  assumes "v < 2 ^ 64"
  shows "\<exists>s. uitoa v = Inr s \<and> parse_int64 s = (if v < 2 ^ 63 then Some (int v) else None) \<and>
    digits_value 0 s = Some v"
proof -
  have "parse_int64 (decimal v) = (if v < 2 ^ 63 then Some (int v) else None)"
  proof -
    have "hd (decimal v) \<noteq> CHR ''-''" "hd (decimal v) \<noteq> CHR ''+''"
      using decimal_digits [of "hd (decimal v)" v] by (auto simp: hd_in_set)
    then show ?thesis
      by (auto simp: parse_int64_def digits_value_decimal_acc)
  qed
  then show ?thesis
    using uitoa_decimal [OF assms] digits_value_decimal_acc by auto
qed

theorem uitoa_prints_decimal_witness:
  "\<exists>s. uitoa 255 = Inr s \<and> parse_int64 s = (if (255::nat) < 2 ^ 63 then Some (int 255) else None) \<and>
    digits_value 0 s = Some 255"
  by (rule uitoa_prints_decimal) simp

text \<open>C17: On a packet with the Ethernet type and the protocol of TCP over IPv4, and a nonzero total
  length in its IP header, whatever request the gopacket parser makes the fast parser makes too: the
  same address, port and data, for every state of the decoding layers. The converse does not hold: the
  fast parser also takes fragments, empty payloads and headers that gopacket refuses.\<close>

theorem parsers_agree:
  assumes "slow_parse d now s = (s', Inr (Inr (Some r)))"
    and "u16_at d 12 = 0x0800" and "ip_area d DLT_EN10MB ! 9 = IP_TCP"
    and "u16_at (ip_area d DLT_EN10MB) 2 \<noteq> 0"
  shows "ParsePacketFast d DLT_EN10MB now = Inr (Inr r)"
  by (rule slow_agrees_with_fast [OF assms])

theorem parsers_agree_witness:
  "ParsePacketFast (sample_frame select_one) DLT_EN10MB 0 = Inr (Inr (sample_request select_one 0))"
proof (rule parsers_agree)
  show "slow_parse (sample_frame select_one) 0 zero_layers =
      (fst (slow_parse (sample_frame select_one) 0 zero_layers),
       Inr (Inr (Some (sample_request select_one 0))))"
    using sample_slow by (metis prod.collapse)
qed (code_simp)+

text \<open>The data of a request made by the gopacket parser is a contiguous part of the packet,
  whatever layers it was nested in.\<close>

theorem slow_data_from_packet:
  assumes "slow_parse d now s = (s', Inr (Inr (Some r)))"
  shows "sublist (Data r) d"
  by (rule slow_parse_data_inside [OF assms])

theorem slow_data_from_packet_witness:
  "sublist (Data (sample_request select_one 0)) (sample_frame select_one)"
proof (rule slow_data_from_packet)
  show "slow_parse (sample_frame select_one) 0 zero_layers =
      (fst (slow_parse (sample_frame select_one) 0 zero_layers),
       Inr (Inr (Some (sample_request select_one 0))))"
    using sample_slow by (metis prod.collapse)
qed

text \<open>Decoding with the gopacket parser does not panic and ends, whatever the packet, and
  keeps the addresses in the layers short enough for a flow; the layers of a new worker are.\<close>

theorem slow_parse_never_panics:
  assumes "addresses_ok s"
  shows "addresses_ok (fst (slow_parse d now s)) \<and> \<not> panics (snd (slow_parse d now s))"
  using slow_parse_total [OF _ assms, of d now] by (metis not_panics_iff prod.collapse)

theorem slow_parse_never_panics_witness:
  "addresses_ok (fst (slow_parse [1, 2, 3] 0 zero_layers)) \<and> \<not> panics (snd (slow_parse [1, 2, 3] 0 zero_layers))"
  by (rule slow_parse_never_panics) (simp add: addresses_ok_def zero_layers_def)

text \<open>The hop-by-hop options of an IPv6 packet are never cleared from the layer. Once one
  of them is a jumbo payload option, every later packet of the worker with a well-formed
  hop-by-hop header and an ordinary length is refused.\<close>

theorem stale_jumbo_option_rejects:
  assumes "has_jumbo (ip6_hbh_Options l)"
    and "ip6_fixed_header data l = Inr h" "ip6_NextHeader h = 0" "ip6_Length h \<noteq> 0"
    and "decodeIPv6ExtensionBase (ip6_Payload h) = Inr b"
    and "snd (hbh_options (ip6_Payload h) 2 (ext_ActualLength b) (ip6_hbh_Options h)) = Inr ()"
  shows "snd (snd (IPv6_DecodeFromBytes data l)) =
    Inr (Inl ''IPv6 has jumbo length and IPv6 length is not 0'')"
  by (rule stale_jumbo_rejects [OF assms])

definition jumbo_layer :: IPv6 where
  "jumbo_layer =
     (l_ip6 zero_layers)\<lparr>ip6_hbh_Options :=
        [\<lparr>tlv_OptionType = 0xC2, tlv_OptionLength = 4, tlv_ActualLength = 6, tlv_OptionData = [0, 1, 0, 0]\<rparr>]\<rparr>"

definition hbh_packet :: bytes where
  "hbh_packet = [0x60, 0, 0, 0, 0, 28, 0, 64] @ replicate 32 1 @ [6, 0, 1, 4, 0, 0, 0, 0] @ replicate 20 7"

theorem stale_jumbo_option_rejects_witness:
  "snd (snd (IPv6_DecodeFromBytes hbh_packet jumbo_layer)) =
    Inr (Inl ''IPv6 has jumbo length and IPv6 length is not 0'')"
proof (rule stale_jumbo_option_rejects)
  show "has_jumbo (ip6_hbh_Options jumbo_layer)"
    unfolding has_jumbo_def
  proof (intro exI conjI)
    let ?o = "hd (ip6_hbh_Options jumbo_layer)"
    show "first_option IPv6HopByHopOptionJumbogram (ip6_hbh_Options jumbo_layer) = Some ?o" by code_simp
    show "length (tlv_OptionData ?o) = 4" by code_simp
    show "be_uint32 (tlv_OptionData ?o) = Inr 0x10000" by code_simp
    show "ipv6MaxPayloadLength < unat (0x10000 :: 32 word)" by (simp add: ipv6MaxPayloadLength_def)
  qed
  let ?h = "the (case ip6_fixed_header hbh_packet jumbo_layer of Inl e \<Rightarrow> None | Inr h \<Rightarrow> Some h)"
  show "ip6_fixed_header hbh_packet jumbo_layer = Inr ?h" by code_simp
  show "ip6_NextHeader ?h = 0" by code_simp
  show "ip6_Length ?h \<noteq> 0" by code_simp
  let ?b = "the (case decodeIPv6ExtensionBase (ip6_Payload ?h) of Inl e \<Rightarrow> None | Inr b \<Rightarrow> Some b)"
  show "decodeIPv6ExtensionBase (ip6_Payload ?h) = Inr ?b" by code_simp
  show "snd (hbh_options (ip6_Payload ?h) 2 (ext_ActualLength ?b) (ip6_hbh_Options ?h)) = Inr ()"
    by code_simp
qed

text \<open>A flow gives back the endpoints it was made of, and hashes like its reverse.\<close>

theorem flow_round_trip:
  assumes "length src \<le> MaxEndpointSize" "length dst \<le> MaxEndpointSize"
  shows "\<exists>f. NewFlow t src dst = Inr f \<and> Endpoint_Raw (Flow_Src f) = src \<and> Endpoint_Raw (Flow_Dst f) = dst \<and>
    NewFlow t dst src = Inr (Flow_Reverse f) \<and> Flow_FastHash (Flow_Reverse f) = Flow_FastHash f"
proof -
  from NewFlow_endpoints [OF assms, of t] obtain f where f: "NewFlow t src dst = Inr f"
    "Endpoint_Raw (Flow_Src f) = src" "Endpoint_Raw (Flow_Dst f) = dst" by blast
  have "NewFlow t dst src = Inr (Flow_Reverse f)"
    using f(1) assms by (simp add: NewFlow_def Flow_Reverse_def) (auto simp: Flow_Reverse_def)
  with f show ?thesis by (intro exI [of _ f]) (simp add: Flow_FastHash_symmetric)
qed

theorem flow_round_trip_witness:
  "\<exists>f. NewFlow EndpointIPv4 [10, 0, 0, 1] [10, 0, 0, 2] = Inr f \<and>
    Endpoint_Raw (Flow_Src f) = [10, 0, 0, 1] \<and> Endpoint_Raw (Flow_Dst f) = [10, 0, 0, 2] \<and>
    NewFlow EndpointIPv4 [10, 0, 0, 2] [10, 0, 0, 1] = Inr (Flow_Reverse f) \<and>
    Flow_FastHash (Flow_Reverse f) = Flow_FastHash f"
  by (rule flow_round_trip) (simp_all add: MaxEndpointSize_def)

subsection \<open>The MySQL protocol\<close>

text \<open>A statement is relayed as a read exactly when removing at most four leading comments,
  in the way the code removes them, uncovers \<open>select\<close>, \<open>desc\<close> or \<open>show\<close> in any letter case.\<close>

theorem read_statements:
  "isSelectStatement s 0 = Inr True \<longleftrightarrow>
     (\<exists>k t. k \<le> 4 \<and> peel k s = Some t \<and> 6 \<le> length t \<and>
        (strings_ToLower (take 6 t) = ''select'' \<or> strings_ToLower (take 4 t) = ''desc'' \<or>
         strings_ToLower (take 4 t) = ''show''))"
  by (simp add: isSelectStatement_iff read_start_iff)

text \<open>A block comment in front of a statement costs one level of depth and nothing else, if
  no line comment starts in the first six bytes.\<close>

theorem block_comment_transparent:
  assumes "depth \<le> 4" "trimmed rest" "6 \<le> length rest"
    and "str_index (''/*'' @ c @ ''*/'') ''*/'' = Some (length c + 2)"
    and "str_index (take 4 (c @ ''*/'' @ rest)) ''--'' = None"
  shows "isSelectStatement (''/*'' @ c @ ''*/'' @ rest) depth = isSelectStatement rest (depth + 1)"
  by (rule block_comment_skipped [OF assms])

theorem block_comment_transparent_witness:
  "isSelectStatement (''/*'' @ ''hint'' @ ''*/'' @ ''select 1'') 0 = isSelectStatement ''select 1'' (0 + 1)"
  by (rule block_comment_transparent) code_simp+

text \<open>After a line comment that ends in a bare line feed the scan goes on two bytes after it:
  whatever the first byte of the rest is, it is not looked at.\<close>

theorem line_comment_drops_byte:
  assumes "depth \<le> 4" "trimmed rest" "6 \<le> length rest" "CHR 0x0A \<notin> set c"
  shows "isSelectStatement (''--'' @ c @ [CHR 0x0A, x] @ rest) depth = isSelectStatement rest (depth + 1)"
  by (rule line_comment_skips_byte [OF assms])

theorem line_comment_drops_byte_witness:
  "isSelectStatement (''--'' @ '' c'' @ [CHR 0x0A, CHR ''s''] @ ''elect 1'') 0 = isSelectStatement ''elect 1'' (0 + 1)"
  by (rule line_comment_drops_byte) code_simp+

text \<open>Every packet with a header and a payload gives a document by its sequence number and
  command byte, or one of four errors; \<open>ParsePacket\<close> never panics.\<close>

theorem ParsePacket_result:
  "ParsePacket data only = Inr
     (if length data \<le> 4 then Inl ''packet data is too short (must be length>4)''
      else if data ! 3 = 1 then Inr (doc_cq COM_LOGIN (hex_encode (drop 4 data)))
      else if data ! 3 \<noteq> 0 then
        Inl ''not support for 'sequence>1', looks like retry auth for failed-login-auth''
      else if data ! 4 = 1 then Inr (doc_cq COM_QUIT '''')
      else if data ! 4 = 2 \<or> data ! 4 = 0x1b then
        Inr (doc_cq (uint (data ! 4)) (string_of_bytes (drop 5 data)))
      else if data ! 4 = 3 then
        (if only \<and> isSelectStatement (string_of_bytes (drop 5 data)) 0 = Inr False
         then Inl ''this is not a select statement''
         else Inr (doc_cq COM_QUERY (string_of_bytes (drop 5 data))))
      else Inl ''not interesting command'')"
proof (cases "length data \<le> 4")
  case False
  then have "4 < length data" by simp
  from ParsePacket_eq [OF this, of only] False show ?thesis by simp
qed (simp add: ParsePacket_def)

text \<open>No byte of a packet is lost in its document: the command and the text give back the
  payload of a login, database, option or query packet.\<close>

definition payload_of_doc :: "bson_M \<Rightarrow> bytes" where
  "payload_of_doc doc =
     (case doc of
        [(_, BInt c), (_, BString q)] \<Rightarrow>
          if c = COM_LOGIN then hex_decode q else word_of_int c # bytes_of_string q
      | _ \<Rightarrow> [])"

theorem document_keeps_payload:
  assumes "ParsePacket data only = Inr (Inr doc)"
    and "data ! 3 = 0 \<longrightarrow> data ! 4 \<noteq> 1"
  shows "payload_of_doc doc = drop 4 data"
proof -
  have len: "4 < length data"
  proof (rule ccontr)
    assume "\<not> 4 < length data"
    with assms(1) show False by (simp add: ParsePacket_def)
  qed
  then have d: "drop 4 data = data ! 4 # drop 5 data"
    by (metis Cons_nth_drop_Suc eval_nat_numeral(2) eval_nat_numeral(3) numeral_eq_Suc Suc_eq_plus1
        add_numeral_special(2) pred_numeral_simps(1))
  show ?thesis
    using assms(2) assms(1)[unfolded ParsePacket_eq [OF len]]
    by (auto simp: payload_of_doc_def doc_cq_def com_defs d split: if_splits)
qed

theorem document_keeps_payload_witness:
  "payload_of_doc (doc_cq COM_QUERY ''SELECT 1'') = drop 4 select_one"
proof (rule document_keeps_payload)
  show "ParsePacket select_one False = Inr (Inr (doc_cq COM_QUERY ''SELECT 1''))" by code_simp
  show "select_one ! 3 = 0 \<longrightarrow> select_one ! 4 \<noteq> 1" by code_simp
qed

subsection \<open>The process list\<close>

text \<open>A row of the process list gives a session exactly when it is no replication thread, has
  a database, and its host is not local and has the form \<open>h:p\<close> with one colon and a number \<open>p\<close>;
  the session is then the one that selects the database for that host and port.\<close>

theorem row_gives_session:
  "session_of_row [host, db, state] = Inr (Some info) \<longleftrightarrow>
     \<not> repl_state state \<and> \<not> local_host host \<and> db \<noteq> '''' \<and>
     (\<exists>h p port. host = h @ CHR '':'' # p \<and> CHR '':'' \<notin> set h \<and> CHR '':'' \<notin> set p \<and>
        parse_int64 p = Some port \<and>
        info = \<lparr>ci_SrcIp = h, ci_SrcPort = to_int32 port, ci_ParsedRequest = doc_cq COM_INIT_DB db\<rparr>)"
  by (simp add: session_of_row_eq row_session_Some_iff)

text \<open>C38: The sessions of a result set with the three selected columns are those of its rows, in
  order, and one row that cannot be scanned discards them all, those before it included.\<close>

theorem sessions_of_result:
  assumes "wide_rows rows"
  shows "GetSessionDefaultDatabase (Fetched (map Inr rows)) = Inr (List.map_filter row_info rows) \<and>
    GetSessionDefaultDatabase (Fetched (map Inr rows @ Inl err # rest)) = Inr []"
  using GetSessionDefaultDatabase_ok [OF assms] fetch_sessions_scan_error [OF assms]
  by (simp add: GetSessionDefaultDatabase_def)

definition sample_row :: "bytes option list" where
  "sample_row = [Some (bytes_of_string ''10.0.0.1:40000''), Some (bytes_of_string ''app''), None]"

theorem sessions_of_result_witness:
  "GetSessionDefaultDatabase (Fetched (map Inr [sample_row])) = Inr (List.map_filter row_info [sample_row]) \<and>
    GetSessionDefaultDatabase (Fetched (map Inr [sample_row] @ Inl ''closed'' # [])) = Inr []"
  by (rule sessions_of_result) (simp add: wide_rows_def sample_row_def)

text \<open>A remote host and port print and read back: the session of a row for \<open>h:p\<close> carries
  exactly that address and port, for every 16-bit port.\<close>

theorem session_round_trip:
  assumes "\<not> repl_state state" "\<not> local_host h" "CHR '':'' \<notin> set h" "db \<noteq> ''''" "p < 65536"
  shows "session_of_row [h @ CHR '':'' # decimal p, db, state] =
    Inr (Some \<lparr>ci_SrcIp = h, ci_SrcPort = int p, ci_ParsedRequest = doc_cq COM_INIT_DB db\<rparr>)"
  by (simp add: session_of_row_eq row_session_round_trip [OF assms])

theorem session_round_trip_witness:
  "session_of_row [''10.0.0.1'' @ CHR '':'' # decimal 40000, ''app'', ''''] =
    Inr (Some \<lparr>ci_SrcIp = ''10.0.0.1'', ci_SrcPort = int 40000, ci_ParsedRequest = doc_cq COM_INIT_DB ''app''\<rparr>)"
  by (rule session_round_trip) (simp_all add: local_host_def has_prefix_def)

subsection \<open>The queue collections\<close>

text \<open>Different workers have different collections.\<close>

theorem collection_names_distinct:
  assumes "0 \<le> i" "0 \<le> j"
  shows "getCollectionName pfx i = getCollectionName pfx j \<longleftrightarrow> i = j"
  by (rule getCollectionName_inject [OF assms])

theorem collection_names_distinct_witness:
  "getCollectionName ''mrte'' 3 = getCollectionName ''mrte'' 12 \<longleftrightarrow> (3 :: int) = 12"
  by (rule collection_names_distinct) simp_all

text \<open>Preparing the collections leaves each of the \<open>counter\<close> collections of the prefix with the
  marker document alone, whatever it held before, and touches no other.\<close>

theorem prepared_collections:
  "fold apply_cmd (PrepareCollections db pfx maxSize counter) st (d, c) =
     (if d = db \<and> (\<exists>k < nat counter. c = getCollectionName pfx (int k)) then Some [marker_doc]
      else st (d, c))"
  using fold_prepare [of 0 db pfx maxSize "nat counter" st] by (simp add: PrepareCollections_def)

text \<open>A bulk insert sends the documents of the packets in their order to the collection of
  the worker, and its count is all of them or none.\<close>

theorem bulk_insert_all_or_none:
  "InsertBulkPackets db pfx q (map Some vs) answer =
     Inr (BulkInsert db (getCollectionName pfx q) (map request_doc vs),
          if answer = None then length vs else 0)"
  by (rule InsertBulkPackets_ok)

end
