(* ===== verification/PropsWorker.thy ===== *)
theory PropsWorker
  imports Samples
begin

text \<open>
  The properties of a worker: what it writes, how it puts requests together, when it panics.
\<close>

subsection \<open>What a worker writes\<close>

text \<open>C1: In every run of a worker, from a state in which the loop may stand, with any answers of
  the server and any deletions of expired requests in between: the worker panics exactly when
  its specification does; otherwise the documents it sent, followed by those it still holds, are
  those of the requests the specification accepts, each once and in order, every bulk insert
  goes to its own collection and has between 1 and \<open>queueBatchSize\<close> documents, and fewer than
  \<open>queueBatchSize\<close> are held.\<close>

theorem worker_writes_accepted:
  assumes "worker_inv w"
  shows "case spec_run cfg acts (store_of w) of
      Inl e \<Rightarrow> worker_run cfg acts w = Inl e
    | Inr (st, out) \<Rightarrow> \<exists>w' cmds. worker_run cfg acts w = Inr (w', cmds) \<and> store_of w' = st \<and> worker_inv w' \<and>
        map request_doc (pending w @ out) = concat (map cmd_docs cmds) @ map request_doc (pending w') \<and>
        (\<forall>c \<in> set cmds. 1 \<le> length (cmd_docs c) \<and> length (cmd_docs c) \<le> queueBatchSize \<and>
           (\<exists>ds. c = BulkInsert (mongo_db cfg) (getCollectionName (mongo_collection cfg) (workerIdx w)) ds)) \<and>
        length (pending w') < queueBatchSize"
proof -
  have held: "length (pending w') < queueBatchSize" if "worker_inv w'" for w'
    using that by (simp add: worker_inv_def length_pending)
  from worker_run_spec [OF assms, of cfg acts] held show ?thesis
    by (auto simp: writes_def batch_sized_def split: sum.splits)
qed

theorem worker_writes_accepted_witness:
  "case spec_run sample_config [Turn (Received (raw_packet (sample_frame select_one)) 0 0) None, Turn Ticked None]
       (store_of (new_worker 0)) of
      Inl e \<Rightarrow> worker_run sample_config [Turn (Received (raw_packet (sample_frame select_one)) 0 0) None,
        Turn Ticked None] (new_worker 0) = Inl e
    | Inr (st, out) \<Rightarrow> \<exists>w' cmds. worker_run sample_config
          [Turn (Received (raw_packet (sample_frame select_one)) 0 0) None, Turn Ticked None] (new_worker 0) =
          Inr (w', cmds) \<and> store_of w' = st \<and> worker_inv w' \<and>
        map request_doc (pending (new_worker 0) @ out) = concat (map cmd_docs cmds) @ map request_doc (pending w') \<and>
        (\<forall>c \<in> set cmds. 1 \<le> length (cmd_docs c) \<and> length (cmd_docs c) \<le> queueBatchSize \<and>
           (\<exists>ds. c = BulkInsert (mongo_db sample_config)
              (getCollectionName (mongo_collection sample_config) (workerIdx (new_worker 0))) ds)) \<and>
        length (pending w') < queueBatchSize"
  by (rule worker_writes_accepted) (rule new_worker_inv)

text \<open>A tick leaves nothing unwritten: after it every request the worker accepted so far has
  been sent.\<close>

theorem tick_flushes:
  assumes "worker_inv w"
  shows "\<exists>w' cmds. worker_turn cfg answer Ticked w = Inr (w', cmds) \<and> pending w' = [] \<and>
    concat (map cmd_docs cmds) = map request_doc (pending w) \<and> length cmds \<le> 1 \<and>
    requestMap w' = requestMap w"
proof -
  have "spec_event cfg Ticked (store_of w) = Inr (store_of w, [])" by (simp add: spec_event_def)
  with worker_turn_spec [OF assms, where cfg = cfg and ev = Ticked and answer = answer]
  obtain w' cmds where turn: "worker_turn cfg answer Ticked w = Inr (w', cmds)" "pending w' = []"
    "concat (map cmd_docs cmds) = map request_doc (pending w)" "store_of w' = store_of w"
    by auto
  have "length cmds \<le> 1"
    using turn(1) by (auto simp: worker_turn_def select_case_def flush_batch_def go_bind_eq_Inr split: if_splits)
  with turn show ?thesis by (auto simp: store_of_def)
qed

theorem tick_flushes_witness:
  "\<exists>w' cmds. worker_turn sample_config None Ticked (new_worker 3) = Inr (w', cmds) \<and> pending w' = [] \<and>
    concat (map cmd_docs cmds) = map request_doc (pending (new_worker 3)) \<and> length cmds \<le> 1 \<and>
    requestMap w' = requestMap (new_worker 3)"
  by (rule tick_flushes) (rule new_worker_inv)

text \<open>The error counter goes up by the number of documents of the turn when the server refuses
  the bulk insert, and not at all when it takes it.\<close>

theorem errors_counted:
  assumes "worker_inv w" "worker_turn cfg answer ev w = Inr (w', cmds)"
  shows "mqErrorCounter w' = mqErrorCounter w +
    (if answer = None then 0 else word_of_nat (length (concat (map cmd_docs cmds))))"
  by (rule worker_turn_errors [OF assms])

theorem errors_counted_witness:
  "\<exists>w' cmds. worker_turn sample_config (Some ''no primary'') Ticked (new_worker 3) = Inr (w', cmds) \<and>
    mqErrorCounter w' = mqErrorCounter (new_worker 3) +
      (if Some ''no primary'' = None then 0 else word_of_nat (length (concat (map cmd_docs cmds))))"
proof -
  have "\<exists>w' cmds. worker_turn sample_config (Some ''no primary'') Ticked (new_worker 3) = Inr (w', cmds)"
    using worker_turn_spec [OF new_worker_inv, where cfg = sample_config and ev = Ticked
        and answer = "Some ''no primary''", of 3]
    by (auto simp: spec_event_def)
  then show ?thesis using errors_counted [OF new_worker_inv] by blast
qed

subsection \<open>Putting requests together\<close>

text \<open>C36: The request map holds, under the address and port they came from, only requests that are
  not complete, have a packet header and are not blank: so in every run from the start.\<close>

theorem stored_requests_incomplete:
  assumes "worker_run cfg acts (new_worker i) = Inr (w, cmds)" "requestMap w k = Some r"
  shows "k = SrcIp r @ '':'' @ strconv_Itoa (SrcPort r) \<and> length (Data r) < header_size (Data r) \<and>
    4 \<le> length (Data r) \<and> strings_TrimSpace (string_of_bytes (Data r)) \<noteq> ''''"
proof -
  from worker_run_spec [OF new_worker_inv, of cfg acts i] assms(1) obtain out where
    run: "spec_run cfg acts (store_of (new_worker i)) = Inr (store_of w, out)"
    by (auto split: sum.splits)
  have "store_ok (fst (store_of (new_worker i)))"
    by (simp add: store_ok_def store_of_def new_worker_def)
  from spec_run_store_ok [OF this run] have "store_ok (requestMap w)" by (simp add: store_of_def)
  from store_okD [OF this assms(2)] show ?thesis
    by (auto simp: request_key_def complete_def blank_def)
qed

text \<open>The two halves of \<open>select_one\<close>, the first with its header.\<close>

definition first_half :: bytes where
  "first_half = [9, 0, 0, 0, 3] @ bytes_of_string ''SEL''"

definition second_half :: bytes where
  "second_half = bytes_of_string ''ECT 1''"

lemma halves:
  "\<not> blank first_half" "length first_half = 8" "header_size first_half = 13"
  "\<not> blank second_half" "length second_half = 5" "first_half @ second_half = select_one"
  "header_size second_half = 5522249"
proof -
  show "\<not> blank first_half"
    by (rule not_blank [OF _ letter_E])
      (simp only: first_half_def string_of_bytes_append string_of_bytes_of_string, simp)
  show "\<not> blank second_half"
    by (rule not_blank [OF _ letter_E]) (simp add: second_half_def)
  show "header_size second_half = 5522249"
    by (simp add: header_size_def second_half_def bytes_of_string_def)
qed (simp_all add: first_half_def second_half_def select_one_def header_size_def bytes_of_string_def)

lemma halves_parsed:
  "ParsePacketFast (sample_frame first_half) DLT_EN10MB 0 = Inr (Inr (sample_request first_half 0))"
  "ParsePacketFast (sample_frame second_half) DLT_EN10MB 1 = Inr (Inr (sample_request second_half 1))"
  by code_simp+

theorem stored_requests_incomplete_witness:
  "\<exists>w cmds k r. worker_run sample_config [Turn (Received (raw_packet (sample_frame first_half)) 0 0) None]
      (new_worker 0) = Inr (w, cmds) \<and> requestMap w k = Some r \<and>
    k = SrcIp r @ '':'' @ strconv_Itoa (SrcPort r) \<and> length (Data r) < header_size (Data r) \<and>
    4 \<le> length (Data r) \<and> strings_TrimSpace (string_of_bytes (Data r)) \<noteq> ''''"
proof -
  let ?a = "sample_request first_half 0"
  let ?acts = "[Turn (Received (raw_packet (sample_frame first_half)) 0 0) None]"
  have "spec_request sample_config 0 ?a Map.empty = Inr ([request_key ?a \<mapsto> ?a], [])"
    by (rule spec_request_first) (simp_all add: sample_request_def halves complete_def)
  then have "spec_run sample_config ?acts (store_of (new_worker 0)) =
      Inr (([request_key ?a \<mapsto> ?a], zero_layers), [])"
    using spec_event_fast [of sample_config "raw_packet (sample_frame first_half)" 0 ?a] halves_parsed(1)
    by (simp add: store_of_def new_worker_def raw_packet_def sample_config_def on_map_def)
  with worker_run_spec [OF new_worker_inv, of sample_config ?acts 0] obtain w cmds where
    run: "worker_run sample_config ?acts (new_worker 0) = Inr (w, cmds)"
    and "requestMap w = [request_key ?a \<mapsto> ?a]"
    by (auto simp: store_of_def)
  then have "requestMap w (request_key ?a) = Some ?a" by simp
  from stored_requests_incomplete [OF run this] run this show ?thesis by blast
qed

definition waiting_worker :: Worker where
  "waiting_worker = (new_worker 0)\<lparr>requestMap :=
     [request_key (sample_request first_half 0) \<mapsto> sample_request first_half 0]\<rparr>"

lemma waiting_worker_inv: "worker_inv waiting_worker"
  using new_worker_inv [of 0] by (simp add: waiting_worker_def worker_inv_def)

text \<open>C18: A request in two TCP segments, with the fast parser. Let both segments carry at least four
  bytes that are not blank, come from the same address and port, of which nothing is stored, and let the
  second complete the request that the first does not complete, before the stored part expires, and with
  a length field that does not give the length of the first. Then the worker takes what parsing the
  concatenation gives, one document or none, behind what it holds, with the time of the first segment;
  neither segment alone gives a document, and the stored part is forgotten.\<close>

theorem two_segments_assembled:
  assumes "worker_inv w" "fastPacketParsing cfg"
    and "ParsePacketFast d1 (linkType cfg) t1 = Inr (Inr a)" "ParsePacketFast d2 (linkType cfg) t2 = Inr (Inr b)"
    and "requestMap w (request_key a) = None" "request_key b = request_key a"
    and "\<not> blank (Data a)" "4 \<le> length (Data a)" "\<not> complete (Data a)"
    and "\<not> blank (Data b)" "4 \<le> length (Data b)" "complete (Data a @ Data b)"
    and "\<not> expired cfg now2 a" "length (Data a) \<noteq> header_size (Data b)"
  shows "\<exists>w' cmds. worker_run cfg
      [Turn (Received (raw_packet d1) t1 now1) ans1, Turn (Received (raw_packet d2) t2 now2) ans2] w = Inr (w', cmds) \<and>
    requestMap w' = requestMap w \<and>
    concat (map cmd_docs cmds) @ map request_doc (pending w') =
      map request_doc (pending w @ parsed cfg (a\<lparr>Data := Data a @ Data b\<rparr>))"
proof -
  let ?m = "requestMap w" and ?l = "parser_layers w"
  let ?as = "[Turn (Received (raw_packet d1) t1 now1) ans1, Turn (Received (raw_packet d2) t2 now2) ans2]"
  have one: "spec_event cfg (Received (raw_packet d1) t1 now1) (?m, ?l) = Inr ((?m(request_key a \<mapsto> a), ?l), [])"
    using spec_event_fast [OF assms(2), of "raw_packet d1" t1 a] spec_request_first [where m = ?m, OF assms(7,8,5,9)] assms(3)
    by (simp add: raw_packet_def on_map_def)
  have "spec_request cfg now2 b (?m(request_key a \<mapsto> a)) =
      Inr (?m, parsed cfg (a\<lparr>Data := Data a @ Data b\<rparr>))"
    using spec_request_next [of b "?m(request_key a \<mapsto> a)" a cfg now2] assms(5-14)
    by (simp add: fun_upd_idem)
  then have two: "spec_event cfg (Received (raw_packet d2) t2 now2) (?m(request_key a \<mapsto> a), ?l) =
      Inr ((?m, ?l), parsed cfg (a\<lparr>Data := Data a @ Data b\<rparr>))"
    using spec_event_fast [OF assms(2), of "raw_packet d2" t2 b] assms(4)
    by (simp add: raw_packet_def on_map_def)
  have "spec_run cfg ?as (store_of w) = Inr (store_of w, parsed cfg (a\<lparr>Data := Data a @ Data b\<rparr>))"
    using one two by (simp add: store_of_def)
  with worker_run_spec [OF assms(1), of cfg ?as] show ?thesis
    by (auto simp: writes_def store_of_def)
qed

theorem two_segments_assembled_witness:
  "\<exists>w' cmds. worker_run sample_config
      [Turn (Received (raw_packet (sample_frame first_half)) 0 0) None,
       Turn (Received (raw_packet (sample_frame second_half)) 1 1) None] (new_worker 0) = Inr (w', cmds) \<and>
    requestMap w' = requestMap (new_worker 0) \<and>
    concat (map cmd_docs cmds) @ map request_doc (pending w') =
      map request_doc (pending (new_worker 0) @ parsed sample_config
        ((sample_request first_half 0)\<lparr>Data :=
           Data (sample_request first_half 0) @ Data (sample_request second_half 1)\<rparr>))"
proof (rule two_segments_assembled [OF new_worker_inv])
  show "ParsePacketFast (sample_frame first_half) (linkType sample_config) 0 = Inr (Inr (sample_request first_half 0))"
    "ParsePacketFast (sample_frame second_half) (linkType sample_config) 1 = Inr (Inr (sample_request second_half 1))"
    using halves_parsed by (simp_all add: sample_config_def)
  show "requestMap (new_worker 0) (request_key (sample_request first_half 0)) = None"
    by (simp add: new_worker_def)
  show "\<not> expired sample_config 1 (sample_request first_half 0)"
    by (simp add: expired_def sample_config_def sample_request_def whole_seconds_def)
qed (use complete_select_one in \<open>simp_all add: halves complete_def sample_request_def request_key_def sample_config_def\<close>)

text \<open>C31: A request in three or more segments is lost from its third on: a segment that continues
  a stored part without completing it changes nothing but a counter, and its bytes are not kept.\<close>

theorem continuation_discarded:
  assumes "requestMap w (request_key b) = Some a" "\<not> blank (Data b)"
    "4 \<le> length (Data a)" "4 \<le> length (Data b)" "\<not> expired cfg now a"
    "length (Data a) \<noteq> header_size (Data b)" "\<not> complete (Data a @ Data b)"
  shows "handle_request cfg now b w = Inr (w\<lparr>assembledPackets := assembledPackets w + 1\<rparr>)"
  by (rule continuation_not_stored [OF assms])

theorem continuation_discarded_witness:
  "handle_request sample_config 1 (sample_request (take 4 second_half) 1) waiting_worker =
    Inr (waiting_worker\<lparr>assembledPackets := assembledPackets waiting_worker + 1\<rparr>)"
proof (rule continuation_discarded)
  let ?b = "sample_request (take 4 second_half) 1" and ?a = "sample_request first_half 0"
  show "requestMap waiting_worker (request_key ?b) = Some ?a"
    by (simp add: waiting_worker_def request_key_def sample_request_def)
  have "take 4 second_half = bytes_of_string ''ECT ''"
    by (simp add: second_half_def bytes_of_string_def)
  then show "\<not> blank (Data ?b)"
    by (intro not_blank [OF _ letter_E]) (simp add: sample_request_def)
  show "\<not> expired sample_config 1 ?a"
    by (simp add: expired_def sample_config_def sample_request_def whole_seconds_def)
  show "length (Data ?a) \<noteq> header_size (Data ?b)"
    by (simp add: sample_request_def halves) (simp add: header_size_def second_half_def bytes_of_string_def)
  have "header_size (first_half @ take 4 second_half) = header_size first_half"
    by (rule header_size_append) (simp add: halves)
  then show "\<not> complete (Data ?a @ Data ?b)"
    by (simp add: complete_def sample_request_def halves)
qed (simp_all add: sample_request_def halves)

text \<open>A stored part swallows the packet after it: while it is in time, a packet of the same
  address and port that is a whole request by itself is joined to it, unless its length field is
  exactly the length of the part; the packet is never accepted as the request it is.\<close>

theorem whole_packet_joined:
  assumes "worker_inv w" "requestMap w (request_key b) = Some a" "\<not> blank (Data b)" "4 \<le> length (Data b)"
    and "complete (Data b)" "\<not> expired cfg now a" "length (Data a) \<noteq> header_size (Data b)"
  shows "\<exists>w'. handle_request cfg now b w = Inr w' \<and>
    pending w' = pending w @
      (if complete (Data a @ Data b) then parsed cfg (a\<lparr>Data := Data a @ Data b\<rparr>) else []) \<and>
    requestMap w' =
      (if complete (Data a @ Data b) then (requestMap w)(request_key b := None) else requestMap w)"
proof -
  have "buffer_ok w" "batched w < queueBatchSize" using assms(1) by (simp_all add: worker_inv_def)
  from handle_request_spec [OF this, of cfg now b]
  show ?thesis
    by (simp add: spec_request_next [where a = a] assms(2-7) accepts_def split: if_splits) auto
qed

theorem whole_packet_joined_witness:
  "\<exists>w'. handle_request sample_config 1 (sample_request select_one 1) waiting_worker = Inr w' \<and>
    pending w' = pending waiting_worker @
      (if complete (Data (sample_request first_half 0) @ Data (sample_request select_one 1))
       then parsed sample_config ((sample_request first_half 0)\<lparr>Data :=
         Data (sample_request first_half 0) @ Data (sample_request select_one 1)\<rparr>) else []) \<and>
    requestMap w' =
      (if complete (Data (sample_request first_half 0) @ Data (sample_request select_one 1))
       then (requestMap waiting_worker)(request_key (sample_request select_one 1) := None)
       else requestMap waiting_worker)"
proof (rule whole_packet_joined [OF waiting_worker_inv])
  show "requestMap waiting_worker (request_key (sample_request select_one 1)) = Some (sample_request first_half 0)"
    by (simp add: waiting_worker_def request_key_def sample_request_def)
  show "\<not> expired sample_config 1 (sample_request first_half 0)"
    by (simp add: expired_def sample_config_def sample_request_def whole_seconds_def)
  show "4 \<le> length (Data (sample_request select_one 1))"
    "length (Data (sample_request first_half 0)) \<noteq> header_size (Data (sample_request select_one 1))"
    by (simp_all add: sample_request_def halves) (simp_all add: select_one_def header_size_def)
qed (use complete_select_one blank_select_one in \<open>simp_all add: sample_request_def\<close>)

text \<open>A stored part that is too old and has the length that the new packet's header announces
  is removed once but counted as expired twice.\<close>

theorem expired_counted_twice:
  assumes "expired cfg now p" "4 \<le> length (Data mp)" "length (Data p) = header_size (Data mp)"
  shows "check_stored cfg now key p mp w =
    Inr (w\<lparr>requestMap := (requestMap w)(key := None), expiredPackets := expiredPackets w + 2\<rparr>, False)"
  by (rule expired_twice [OF assms])

theorem expired_counted_twice_witness:
  "check_stored sample_config 20000000000 ''10.0.0.1:40000''
      (sample_request (20 # tl select_one) 0) (sample_request select_one 20000000000) (new_worker 0) =
    Inr ((new_worker 0)\<lparr>requestMap := (requestMap (new_worker 0))(''10.0.0.1:40000'' := None),
      expiredPackets := expiredPackets (new_worker 0) + 2\<rparr>, False)"
  by (rule expired_counted_twice)
    (simp_all add: expired_def sample_config_def sample_request_def whole_seconds_def select_one_def header_size_def)

subsection \<open>When a worker panics\<close>

text \<open>C22: A turn of a worker panics exactly when it receives a packet whose TCP payload is not
  blank and shorter than four bytes; then reading the length field is out of range, and as no
  goroutine recovers, the program ends. One or three bytes from a client are enough.\<close>

theorem worker_panics_iff:
  assumes "worker_inv w" "addresses_ok (parser_layers w)"
  shows "worker_turn cfg answer ev w = Inl e \<longleftrightarrow>
    e = IndexOutOfRange \<and> (\<exists>pkt captured now mp. ev = Received pkt captured now \<and>
      decodes cfg pkt captured (parser_layers w) mp \<and> \<not> blank (Data mp) \<and> length (Data mp) < 4)"
  using worker_turn_panics [OF assms] by (simp add: too_short_def)

theorem worker_panics_iff_witness:
  "worker_turn sample_config None (Received (raw_packet (sample_frame [5, 0, 0])) 0 0) (new_worker 0) =
    Inl IndexOutOfRange"
proof -
  have inv: "addresses_ok (parser_layers (new_worker 0))"
    by (simp add: new_worker_def addresses_ok_def zero_layers_def)
  have "ParsePacketFast (sample_frame [5, 0, 0]) DLT_EN10MB 0 = Inr (Inr (sample_request [5, 0, 0] 0))"
    by code_simp
  then have "decodes sample_config (raw_packet (sample_frame [5, 0, 0])) 0 (parser_layers (new_worker 0))
      (sample_request [5, 0, 0] 0)"
    by (simp add: decodes_def raw_packet_def sample_config_def)
  moreover have "\<not> blank [5, 0, 0]"
    by (rule not_blank [of "CHR 0x05"]) code_simp+
  ultimately show ?thesis
    unfolding worker_panics_iff [OF new_worker_inv inv] by (auto simp: sample_request_def)
qed

end
