(* ===== verification/Spec2Isabelle.thy ===== *)
theory Spec2Isabelle
  imports PropsMongo PropsStmt PropsDsn PropsDial MgoRing DriverOpen PropsParsing PropsWorker
begin

text \<open>
  \<^bold>\<open>A verification development for MRTE2.\<close>

  MRTE2 replays the traffic of a MySQL server on another one. Its collector, a Go program
  (\<open>MRTECollector/MRTECollector.go\<close> and the package \<open>MRTECollector/src/mrte\<close>), captures the packets
  that arrive at the MySQL port, takes the requests of the MySQL protocol out of them and writes
  them as documents to capped collections of a MongoDB server; a Java player reads and executes
  them. The development models the collector, and of the vendored packages the parts that the
  collector runs: the decoders of \<open>google/gopacket\<close>, the driver \<open>go-sql-driver/mysql\<close>, and of
  \<open>globalsign/mgo\<close> the codec of BSON, the write operations, the socket and the connection strings.

  \<^bold>\<open>How the program works.\<close> The capture loop of \<open>main\<close> counts each packet, skips small ones, looks
  up the source port (\<open>GetPortNo\<close>) and sends the packet to the channel of worker
  \<open>port mod threads\<close> (\<open>assembleUserPacket\<close>). Each worker (\<open>sendUserPacket\<close>) parses a packet with the
  fast parser or with gopacket, joins requests that came in several TCP segments, turns a whole
  request into a document (\<open>ParsePacket\<close>), and inserts the documents in bulk when thirty are there or
  its five-millisecond ticker fires. A status goroutine (\<open>printProcessStatus\<close>) prints the counts of
  each second, deletes requests that stayed incomplete, checks the memory, and every twentieth
  turn reads the process list to send the database of every open connection to the workers.

  \<^bold>\<open>Which theory models what.\<close>
  \<^item> \<open>GoBase\<close>: panics as values (\<open>'a go\<close> is a panic or a result), indexing and slicing of byte slices
    with Go's range checks, big and little endian reads. \<open>GoStrings\<close>: the functions of \<open>strings\<close>,
    \<open>strconv\<close> and \<open>encoding/hex\<close> that the code calls, on byte strings.
  \<^item> \<open>MrteTypes\<close>: \<open>MysqlRequest\<close> of \<open>mongo_helper.go\<close>, BSON documents, conversions to \<open>int32\<close> and
    \<open>int64\<close>, the remainder of Go.
  \<^item> \<open>PacketParser\<close>: \<open>custom_packet_parser.go\<close> (\<open>GetPortNo\<close>, \<open>ParsePacketFast\<close>, \<open>ipToString\<close>, \<open>uitoa\<close>).
  \<^item> \<open>MysqlProtocol\<close>: \<open>mysql_protocol.go\<close> (\<open>isSelectStatement\<close>, \<open>ParsePacket\<close>).
  \<^item> \<open>MysqlHelper\<close>: \<open>mysql_helper.go\<close>, the sessions of the process list; \<open>MongoHelper\<close>:
    \<open>mongo_helper.go\<close>, the commands sent to the queue server, as a data type.
  \<^item> \<open>GopacketLayers\<close>, \<open>GopacketParser\<close>, \<open>Flows\<close>: the vendored gopacket code that the slow parser runs:
    the decoders of seven layers, \<open>DecodingLayerParser\<close>, endpoints and flows. \<open>SlowParser\<close>:
    \<open>gopacket_packet_parser.go\<close> on top of them.
  \<^item> \<open>Worker\<close>: \<open>sendUserPacket\<close> and \<open>flushExpiredRequest\<close>. The record \<open>Worker\<close> has the locals of the
    goroutine and the entries of the global arrays at its index; \<open>worker_turn\<close> is one iteration of
    its loop. \<open>WorkerSpec\<close>: what a worker promises without its buffer, and the proof that it does.
  \<^item> \<open>Collector\<close>: channels, \<open>capture\<close>, \<open>send_session\<close>, \<open>status_turn\<close>, \<open>checkMemoryUsage\<close>, the start-up.
    \<open>CollectorRun\<close>: the step relation \<open>sys_step\<close> of the goroutines and its runs. \<open>CollectorStatus\<close>:
    the capture and status goroutines in the runs.
  \<^item> The MySQL driver (\<open>github.com/go-sql-driver/mysql\<close>), through which the process list is read.
    \<open>ByteOrder\<close>, \<open>PrefixCodec\<close>: little endian bytes, and encodings that end by themselves.
    \<open>DriverUtils\<close>, \<open>DriverDates\<close>, \<open>DriverEscape\<close>: \<open>utils.go\<close> and \<open>interpolateParams\<close>. \<open>DriverConn\<close>: the
    buffer, the record \<open>mysqlConn\<close>, \<open>readPacket\<close> and \<open>writePacket\<close>, and \<open>DriverFrames\<close> what they promise.
    \<open>DriverPackets\<close>, \<open>DriverRows\<close>, \<open>DriverColumns\<close>: the packets of a result. \<open>DriverQuery\<close>,
    \<open>DriverSession\<close>: queries, result sets and transactions. \<open>DriverTypes\<close>: column types and
    collations. \<open>DriverAuth\<close>, \<open>DriverLogin\<close>: the connection phase. \<open>DriverStmt\<close>, \<open>DriverExecute\<close>,
    \<open>DriverBinary\<close>: prepared statements. \<open>DriverDsn\<close>, \<open>DsnParsed\<close>, \<open>DsnRoundTrip\<close>: \<open>dsn.go\<close>.
    \<open>DriverOpen\<close>: \<open>Open\<close>, from a data source name to a connection. The first of each group has the
    definitions, the others what they promise.
  \<^item> The MongoDB driver (\<open>github.com/globalsign/mgo\<close>), which fills the queue collections. \<open>BsonValue\<close>,
    \<open>BsonDecode\<close>: \<open>bson/encode.go\<close>, \<open>bson/decode.go\<close>; \<open>BsonCodec\<close>, \<open>BsonRoundTrip\<close>, \<open>BsonDocuments\<close>,
    \<open>BsonSizes\<close>: what they promise. \<open>MgoWrite\<close>, \<open>MgoBulk\<close>: \<open>Insert\<close> and \<open>Bulk\<close> of \<open>session.go\<close> and
    \<open>bulk.go\<close>; \<open>MgoInsert\<close>, \<open>MgoRun\<close>: their specification, a server that stores documents one by one;
    \<open>MgoQueue\<close>: the batches of \<open>mongo_helper.go\<close> on top of them. \<open>MgoSocket\<close>: \<open>socket.go\<close>;
    \<open>MgoReplies\<close>, \<open>MgoExchange\<close>: requests and their replies. \<open>MgoRing\<close>: \<open>queue.go\<close>. \<open>MgoDial\<close>: connection strings and the
    sessions dialled for them.
  \<^item> \<open>GoFlow\<close>: code that may not return. \<open>GoUrl\<close>: the functions of \<open>net\<close> and \<open>net/url\<close> for both drivers.
  \<^item> \<open>PropsDriver\<close>, \<open>PropsStmt\<close>, \<open>PropsDsn\<close>: the properties of the MySQL driver. \<open>PropsMongo\<close>,
    \<open>PropsDial\<close>: those of the MongoDB driver.
  \<^item> \<open>Samples\<close>: a frame, a request and a configuration for concrete instances. \<open>PropsParsing\<close>,
    \<open>PropsWorker\<close> and this theory: the properties.

  \<^bold>\<open>Interfaces.\<close> \<open>decoding_layer\<close> (GopacketParser) is what the parser needs of a layer, a payload inside
  and shorter than the data, and makes its loop end; each of the seven decoders interprets it.
  \<open>bounded_buffer\<close> (Worker) is what a turn needs of the batch buffer; \<open>fifo\<close> (Fifo) is a queue with
  an invariant, and \<open>channel\<close> extends it by a capacity: the channels of Go interpret \<open>channel\<close> (Collector),
  the ring buffer of the MongoDB driver interprets \<open>fifo\<close> (MgoRing). \<open>prefix_codec\<close> (PrefixCodec) is
  an encoder with a decoder that reads one encoding off the front of a byte string, and gives the
  reader of a sequence of them: length-encoded integers and column definitions (DriverRows) interpret it.

  \<^bold>\<open>What is shown.\<close> The parsers are given as equations and do not panic, and what the
  gopacket parser makes of a packet with TCP over IPv4 the fast parser makes too. A worker refines its
  specification: in every run the documents it sent, in bulk inserts of 1 to 30, and those it still
  holds are those of the accepted requests, once and in order. In the whole system channels are queues,
  with the fast parser every port has one worker, and the bulk inserts sent for a worker's collection
  are what its specification accepts of the packets it received, up to those still held. The counts of the status lines
  add up. The MySQL driver gives the collector the sessions that the server sent, in whatever pieces
  they arrive; what it writes is read back (packets, integers, rows, data source names), an argument
  stays one literal of its query, and a connection that failed stays closed. The MongoDB driver stores
  exactly the documents that the server takes and names the others, its codec reads back what it
  writes and always ends, and a reply on a socket reaches the function of its request. Other theorems
  state where the code falls short of its comments: a payload of one to
  three bytes panics, a request in three segments loses its third, a partial request swallows
  the packet after it, workers from 20 on are never cleaned; an unordered bulk reports success when
  whole commands failed, a malformed reply ends the program, and the write concern of a connection
  string has no effect.

  \<^bold>\<open>Bounds.\<close> \<open>isSelectStatement\<close> is recursive with a depth limit, and total by that measure. The
  decoding loop is total since each payload is shorter than its data. Reading a BSON document nests as deep as its bytes say
  and takes fuel: the number of bytes and one, which \<open>Unmarshal_ends\<close> shows to be enough. That rows end
  (\<open>rows_end_within\<close>) is shown with the bytes that are left and one. The loop that sends a long argument
  (\<open>long_data_loop\<close>) is a partial function: \<open>None\<close> is that it does not return. Integers
  that the code keeps in machine words are words (\<open>64 word\<close> counters, \<open>32 word\<close> sizes, bytes) or have
  their conversion written out (\<open>to_int32\<close>); lengths and indices are \<open>nat\<close> or \<open>int\<close>.

  \<^bold>\<open>Assumptions and limits of the model.\<close>
  \<^item> The clock, pcap statistics, the page size and the content of \<open>/proc/self/statm\<close> are inputs, and so
    are the answers of the servers: for a worker, the success of an insert; for the MySQL driver, the
    pieces that the network delivers; for the MongoDB driver, what acquiring a socket, \<open>Database.run\<close>
    and \<open>getLastError\<close> answer (\<open>mongo_env\<close>) or the bytes on a socket, and the answer to the first ping.
    \<open>sys_step\<close> allows every value of its inputs.
  \<^item> Texts of dates and durations, time zones, SHA and RSA, TLS and the registries for keys, dialers and
    TLS configurations are parameters (\<open>dsn_env\<close> and arguments of that kind), with what the code relies
    on as hypotheses.
  \<^item> The drivers share buffers: a packet that was read is valid until the next read. The model keeps
    the indices and the bytes of the read buffer of a connection where its reuse is seen (the response
    to a challenge), and takes the bytes that \<open>interpolateParams\<close> builds in it as a value.
  \<^item> A turn of a goroutine is one step. Goroutines interleave at turns; a send into a full channel is
    not enabled. The code shares the request maps between a worker and the status goroutine without
    a lock; the model takes each access as a whole.
  \<^item> A slice of Go shares its array. No function modelled here writes to a slice that another one
    still reads, but for \<open>append\<close> into spare capacity behind a stored segment, which no reader sees;
    so slices are lists.
  \<^item> The record of a dialled session has its settings, not its sockets or its cluster; a clone is a
    copy of them.
  \<^item> Not modelled: log output and the text of the status line, flag parsing, the set-up of pcap, the
    pool of \<open>database/sql\<close>; of the MySQL driver contexts and the conversion of arguments; of the MongoDB
    driver the discovery of servers, pools of sockets, authentication, queries and iterators (the
    collector only inserts), and user types in BSON, which rest on reflection; the other layers and
    packages of gopacket, which the collector does not run; the player, a Java program.
\<close>

lemma spec_run_addresses:
  "spec_run cfg acts (m, l) = Inr ((m', l'), out) \<Longrightarrow> addresses_ok l \<Longrightarrow> addresses_ok l'"
proof (induction acts arbitrary: m l out)
  case (Cons a acts)
  from Cons.prems(1) obtain m1 l1 out1 out2 where
    a: "spec_act cfg a (m, l) = Inr ((m1, l1), out1)" and rest: "spec_run cfg acts (m1, l1) = Inr ((m', l'), out2)"
    by (auto simp: go_bind_eq_Inr)
  have "addresses_ok l1"
    using a Cons.prems(2) by (cases a) (auto dest: spec_event_addresses)
  with Cons.IH [OF rest] show ?case .
qed simp

lemma reachable_worker:
  assumes "sys_run cfg (init_system cfg sz) ls s" "i < nat (threads cfg)"
  shows "worker_inv (workers s ! i)" "addresses_ok (parser_layers (workers s ! i))"
proof -
  have "sys_ok cfg s" using sys_run_ok [OF assms(1) init_system_ok] .
  then show "worker_inv (workers s ! i)" using assms(2) by (simp add: sys_ok_def)
  from sys_run_queue [OF assms] obtain out where
    "spec_run cfg (actions_of i ls) (Map.empty, zero_layers) = Inr (store_of (workers s ! i), out)" by blast
  then show "addresses_ok (parser_layers (workers s ! i))"
    unfolding store_of_def
    by (rule spec_run_addresses) (simp add: addresses_ok_def zero_layers_def)
qed

lemma never_expired:
  assumes "sys_run cfg (init_system cfg sz) ls s" "0 < threads cfg" "20 \<le> i"
  shows "Expire clock \<notin> set (actions_of i ls)"
  using assms
proof (induction rule: sys_run.induct)
  case (run_step ls s l s')
  have "Expire clock \<notin> set (action_of i l)"
  proof (cases l)
    case (Worked j a)
    with run_step.hyps(2) have "\<exists>ev answer. a = Turn ev answer" by (auto elim: step_workedE)
    with Worked show ?thesis by (auto simp: action_of_def)
  next
    case (Reported inp line idx)
    with sys_run_expires [OF run_step.hyps(1)] run_step.hyps(2) run_step.prems
    have "idx = int (reports ls mod 20) mod threads cfg" by blast
    moreover have "int (reports ls mod 20) mod threads cfg \<le> int (reports ls mod 20)"
      using run_step.prems by (intro zmod_le_nonneg_dividend) simp
    ultimately have "idx \<noteq> int i" using run_step.prems by simp
    with Reported show ?thesis by (simp add: action_of_def)
  qed (simp_all add: action_of_def)
  with run_step show ?case by simp
qed simp

subsection \<open>A run of the collector\<close>

text \<open>
  A collector with five workers captures the frame of \<open>SELECT 1\<close> from port 40000, worker 0
  receives it, its ticker fires, and the status goroutine reports.
\<close>

definition sample_input :: StatusInput where
  "sample_input = \<lparr>in_pcapStats = Some (2, 1), in_clock = (\<lambda>k. 0), in_pageSize = 4096, in_statm = None,
     in_processlist = OpenFailed ''Access denied''\<rparr>"

definition sample_labels :: "label list" where
  "sample_labels =
     [Captured (sample_frame select_one),
      Worked 0 (Turn (Received (raw_packet (sample_frame select_one)) 0 0) None),
      Worked 0 (Turn Ticked None)]"

lemma sample_port: "packet_worker sample_config (sample_frame select_one) = Some 0"
proof -
  from GetPortNo_agrees [OF sample_parsed] obtain p where
    "GetPortNo (sample_frame select_one) DLT_EN10MB = Inr p" "uint p = 40000"
    by (auto simp: sample_request_def)
  moreover have "0x42 < length (sample_frame select_one)"
    by (simp add: sample_frame_def sample_headers_def select_one_def)
  ultimately show ?thesis
    by (simp add: packet_worker_def sample_config_def go_rem_def)
qed

lemma sample_captured:
  "sys_run sample_config (init_system sample_config 0) [Captured (sample_frame select_one)]
     ((init_system sample_config 0)\<lparr>totalPackets := 1,
        channels := (channels (init_system sample_config 0))[0 := [raw_packet (sample_frame select_one)]]\<rparr>)"
    (is "sys_run ?cfg ?s0 _ ?s1")
proof -
  let ?pkt = "raw_packet (sample_frame select_one)"
  have "channels ?s0 = replicate 5 []"
    by (simp add: init_system_def sample_config_def)
  then have "send_packet 0 ?pkt (?s0\<lparr>totalPackets := 1\<rparr>) = Inr (Some ?s1)"
    by (simp add: send_packet_in_range channelBufferSize_def)
  moreover have "totalPackets ?s0 = 0" by (simp add: init_system_def)
  ultimately have "capture ?cfg (sample_frame select_one) ?s0 = Inr (Some ?s1)"
    using sample_port
    by (auto simp: capture_def assembleUserPacket_def packet_worker_def raw_packet_def go_bind_eq_Inr
        split: if_splits sum.splits)
  then show ?thesis
    using run_step [OF run_start step_capture] by simp
qed

lemma sample_run: "\<exists>s. sys_run sample_config (init_system sample_config 0) sample_labels s"
proof -
  let ?cfg = sample_config and ?pkt = "raw_packet (sample_frame select_one)"
  let ?s0 = "init_system sample_config 0"
  let ?s1 = "?s0\<lparr>totalPackets := 1, channels := (channels ?s0)[0 := [?pkt]]\<rparr>"
  have init: "channels ?s0 = replicate 5 []" "length (workers ?s0) = 5" "workers ?s0 ! 0 = new_worker 0"
    by (simp_all add: init_system_def sample_config_def)
  note one = sample_captured
  have "spec_event ?cfg (Received ?pkt 0 0) (store_of (new_worker 0)) =
      Inr ((Map.empty, zero_layers), parsed ?cfg (sample_request select_one 0))"
    using sample_event by (simp add: store_of_def new_worker_def)
  with worker_turn_spec [OF new_worker_inv, where cfg = ?cfg and ev = "Received ?pkt 0 0" and answer = None, of 0]
  obtain w cmds where w: "worker_turn ?cfg None (Received ?pkt 0 0) (new_worker 0) = Inr (w, cmds)"
    and inv: "worker_inv w" by auto
  let ?s2 = "?s1\<lparr>channels := (channels ?s1)[0 := []], workers := (workers ?s1)[0 := w],
      queue_log := queue_log ?s1 @ cmds\<rparr>"
  have "sys_step ?cfg ?s1 (Worked 0 (Turn (Received ?pkt 0 0) None)) ?s2"
    by (rule step_receive) (simp_all add: init w)
  with one have two: "sys_run ?cfg ?s0 [Captured (sample_frame select_one),
      Worked 0 (Turn (Received ?pkt 0 0) None)] ?s2"
    using run_step by fastforce
  have "spec_event ?cfg Ticked (store_of w) = Inr (store_of w, [])" by (simp add: spec_event_def)
  with worker_turn_spec [OF inv, where cfg = ?cfg and ev = Ticked and answer = None]
  obtain w2 cmds2 where "worker_turn ?cfg None Ticked w = Inr (w2, cmds2)" by auto
  then have "sys_step ?cfg ?s2 (Worked 0 (Turn Ticked None))
      (?s2\<lparr>workers := (workers ?s2)[0 := w2], queue_log := queue_log ?s2 @ cmds2\<rparr>)"
    by (intro step_tick) (simp_all add: init)
  from run_step [OF two this] show ?thesis
    unfolding sample_labels_def by auto
qed

lemma sample_report:
  "\<exists>s' line idx. sys_step sample_config (init_system sample_config 0) (Reported sample_input line idx) s'"
proof -
  let ?s = "init_system sample_config 0"
  have nil: "strings_Fields '''' = []" by (simp add: strings_Fields_def fields_from.simps)
  have "\<exists>s' line idx. status_turn sample_config sample_input ?s = Inr (s', line, idx)"
    by (simp add: status_turn_def sample_input_def init_system_def init_status_def go_rem_def
        sample_config_def expire_worker_def checkMemoryUsage_def STATM_FIELD_END_def nil
        GetSessionDefaultDatabase_def split: prod.split)
  moreover have "sessions ?s = []" by (simp add: init_system_def)
  ultimately show ?thesis by (meson step_report)
qed

subsection \<open>What reaches the queue collections\<close>

text \<open>C2: In every run of the collector, the documents of the bulk inserts that were sent for the
  collection of a worker, followed by those the worker still holds, are those of the requests that the
  specification accepts from the packets the worker received, in their order: none is left out, sent
  twice or reordered by the buffer, the flushes, the expiry of the status goroutine or the other workers.
  What is stated is what is sent, whatever the server answers; what a collection then contains depends on
  the server.\<close>

theorem queue_holds_accepted:
  assumes "sys_run cfg (init_system cfg sz) ls s" "i < nat (threads cfg)"
  shows "\<exists>out. spec_run cfg (actions_of i ls) (Map.empty, zero_layers) = Inr (store_of (workers s ! i), out) \<and>
    concat (map cmd_docs (queue_cmds cfg i s)) @ map request_doc (pending (workers s ! i)) = map request_doc out"
  by (rule sys_run_queue [OF assms])

theorem queue_holds_accepted_witness:
  "\<exists>s out. sys_run sample_config (init_system sample_config 0) sample_labels s \<and>
    spec_run sample_config (actions_of 0 sample_labels) (Map.empty, zero_layers) = Inr (store_of (workers s ! 0), out) \<and>
    concat (map cmd_docs (queue_cmds sample_config 0 s)) @ map request_doc (pending (workers s ! 0)) = map request_doc out"
proof -
  obtain s where run: "sys_run sample_config (init_system sample_config 0) sample_labels s"
    using sample_run by blast
  have "0 < nat (threads sample_config)" by (simp add: sample_config_def)
  from queue_holds_accepted [OF run this] run show ?thesis by blast
qed

text \<open>C3: The channel of a worker is a queue: what the worker has received and what waits in its
  channel is what was sent to it, in that order, in every interleaving of the goroutines.\<close>

theorem packets_in_order:
  assumes "sys_run cfg (init_system cfg sz) ls s" "i < nat (threads cfg)"
  shows "received_by i ls @ channels s ! i = sent_to cfg i ls"
  using sys_run_fifo [OF assms(1) init_system_ok assms(2)] assms(2) by (simp add: init_system_def)

theorem packets_in_order_witness:
  "\<exists>s. sys_run sample_config (init_system sample_config 0) sample_labels s \<and>
    received_by 0 sample_labels @ channels s ! 0 = sent_to sample_config 0 sample_labels"
  using sample_run packets_in_order [of sample_config 0 sample_labels _ 0] by (auto simp: sample_config_def)

text \<open>C8: With the fast parser every request that a worker holds incomplete, holds for a batch or
  has sent in a bulk insert came from a client port that is its index modulo the number of workers, so
  all traffic of one connection goes through one worker and is sent for one collection. With the gopacket
  parser this is not claimed: \<open>GetPortNo\<close> looks for the port where an IPv4 header without a VLAN tag
  puts it.\<close>

theorem ports_partition_workers:
  assumes "fastPacketParsing cfg" "sys_run cfg (init_system cfg sz) ls s" "i < nat (threads cfg)"
  shows "(\<forall>k r. requestMap (workers s ! i) k = Some r \<longrightarrow> SrcPort r mod threads cfg = int i) \<and>
    (\<exists>out. concat (map cmd_docs (queue_cmds cfg i s)) @ map request_doc (pending (workers s ! i)) =
       map request_doc out \<and> (\<forall>r \<in> set out. SrcPort r mod threads cfg = int i))"
  using sys_run_on_port [OF assms] by (auto simp: store_on_port_def on_port_def)

theorem ports_partition_workers_witness:
  "\<exists>s. sys_run sample_config (init_system sample_config 0) sample_labels s \<and>
    (\<forall>k r. requestMap (workers s ! 0) k = Some r \<longrightarrow> SrcPort r mod threads sample_config = int 0) \<and>
    (\<exists>out. concat (map cmd_docs (queue_cmds sample_config 0 s)) @ map request_doc (pending (workers s ! 0)) =
       map request_doc out \<and> (\<forall>r \<in> set out. SrcPort r mod threads sample_config = int 0))"
proof -
  obtain s where run: "sys_run sample_config (init_system sample_config 0) sample_labels s"
    using sample_run by blast
  have "fastPacketParsing sample_config" "0 < nat (threads sample_config)" by (simp_all add: sample_config_def)
  from ports_partition_workers [OF this(1) run this(2)] run show ?thesis by blast
qed

text \<open>A session from the process list goes to the worker that gets the packets of the same
  client port, so its database is in that worker's collection too.\<close>

theorem session_follows_packets:
  assumes "ParsePacketFast data (linkType cfg) t = Inr (Inr mp)" "0x42 < length data"
    and "SrcPort mp = session_port x"
  shows "session_worker cfg x = packet_worker cfg data"
proof -
  from GetPortNo_agrees [OF assms(1)] obtain p where
    "GetPortNo data (linkType cfg) = Inr p" "uint p = session_port x" using assms(3) by auto
  with assms(2) show ?thesis by (simp add: session_worker_def packet_worker_def)
qed

theorem session_follows_packets_witness:
  "session_worker sample_config \<lparr>ci_SrcIp = ''10.0.0.1'', ci_SrcPort = 40000, ci_ParsedRequest = doc_cq COM_INIT_DB ''app''\<rparr> =
    packet_worker sample_config (sample_frame select_one)"
proof (rule session_follows_packets)
  show "ParsePacketFast (sample_frame select_one) (linkType sample_config) 0 = Inr (Inr (sample_request select_one 0))"
    using sample_parsed by (simp add: sample_config_def)
qed (simp_all add: session_port_def sample_request_def sample_frame_def sample_headers_def select_one_def)

subsection \<open>Invariant and progress\<close>

text \<open>C29: In every reachable state there are as many channels and workers as threads, every channel
  holds at most \<open>channelBufferSize\<close> packets, worker \<open>i\<close> has index \<open>i\<close>, an intact buffer that is
  not full, and no flush pending.\<close>

theorem collector_invariant:
  assumes "sys_run cfg (init_system cfg sz) ls s"
  shows "length (channels s) = nat (threads cfg) \<and> length (workers s) = nat (threads cfg) \<and>
    (\<forall>ch \<in> set (channels s). length ch \<le> channelBufferSize) \<and>
    (\<forall>i < nat (threads cfg). workerIdx (workers s ! i) = int i \<and> buffer_ok (workers s ! i) \<and>
       batched (workers s ! i) < queueBatchSize \<and> \<not> forceFlush (workers s ! i))"
  using sys_run_ok [OF assms init_system_ok] by (simp add: sys_ok_def worker_inv_def)

theorem collector_invariant_witness:
  "\<exists>s. sys_run sample_config (init_system sample_config 0) sample_labels s \<and>
    length (channels s) = nat (threads sample_config) \<and> length (workers s) = nat (threads sample_config) \<and>
    (\<forall>ch \<in> set (channels s). length ch \<le> channelBufferSize) \<and>
    (\<forall>i < nat (threads sample_config). workerIdx (workers s ! i) = int i \<and> buffer_ok (workers s ! i) \<and>
       batched (workers s ! i) < queueBatchSize \<and> \<not> forceFlush (workers s ! i))"
proof -
  obtain s where run: "sys_run sample_config (init_system sample_config 0) sample_labels s"
    using sample_run by blast
  from collector_invariant [OF run] run show ?thesis by blast
qed

text \<open>C24: A worker never blocks for good: in every reachable state a worker with a waiting packet can
  take it, whatever the clocks and the answer of the server, unless the packet decodes to fewer
  than four bytes that are not blank.\<close>

theorem worker_takes_packet:
  assumes "sys_run cfg (init_system cfg sz) ls s" "i < nat (threads cfg)" "channels s ! i = pkt # rest"
  shows "(\<exists>s'. sys_step cfg s (Worked i (Turn (Received pkt captured now) answer)) s') \<longleftrightarrow>
    \<not> (\<exists>mp. decodes cfg pkt captured (parser_layers (workers s ! i)) mp \<and> too_short (Data mp))"
proof -
  let ?w = "workers s ! i" and ?ev = "Received pkt captured now"
  have ok: "i < length (workers s)" "i < length (channels s)"
    using sys_run_ok [OF assms(1) init_system_ok] assms(2) by (simp_all add: sys_ok_def)
  note panics = worker_turn_panics [OF reachable_worker [OF assms(1,2)], of cfg answer ?ev]
  show ?thesis
  proof (cases "worker_turn cfg answer ?ev ?w")
    case (Inl e)
    then have "\<nexists>s'. sys_step cfg s (Worked i (Turn ?ev answer)) s'"
      by (auto elim: step_workedE)
    with Inl panics show ?thesis by auto
  next
    case (Inr r)
    obtain w cmds where "r = (w, cmds)" by (metis prod.exhaust)
    with Inr have turn: "worker_turn cfg answer ?ev ?w = Inr (w, cmds)" by simp
    have "chan_recv (channels s ! i) = Some (pkt, rest)" using assms(3) by simp
    from step_receive [OF ok this turn] have "\<exists>s'. sys_step cfg s (Worked i (Turn ?ev answer)) s'" by blast
    with Inr panics show ?thesis by auto
  qed
qed

theorem worker_takes_packet_witness:
  "\<exists>s. sys_run sample_config (init_system sample_config 0) [Captured (sample_frame select_one)] s \<and>
    (\<exists>s'. sys_step sample_config s (Worked 0 (Turn (Received (raw_packet (sample_frame select_one)) 0 0) None)) s')"
proof -
  let ?pkt = "raw_packet (sample_frame select_one)"
  obtain s where run: "sys_run sample_config (init_system sample_config 0) [Captured (sample_frame select_one)] s"
    using sample_captured by blast
  have "received_by 0 [Captured (sample_frame select_one)] @ channels s ! 0 =
      channels (init_system sample_config 0) ! 0 @ sent_to sample_config 0 [Captured (sample_frame select_one)]"
    by (rule sys_run_fifo [OF run init_system_ok]) (simp add: sample_config_def)
  then have ch: "channels s ! 0 = ?pkt # []"
    using sample_port
    by (simp add: received_by_def actions_of_def action_of_def sent_to_def packet_to_def)
      (simp add: init_system_def sample_config_def)
  have "0 < nat (threads sample_config)" by (simp add: sample_config_def)
  note iff = worker_takes_packet [OF run this ch, of 0 0 None]
  have "\<not> (\<exists>mp. decodes sample_config ?pkt 0 (parser_layers (workers s ! 0)) mp \<and> too_short (Data mp))"
    using sample_parsed
    by (auto simp: decodes_def raw_packet_def sample_config_def too_short_def sample_request_def select_one_def)
  with iff run show ?thesis by blast
qed

subsection \<open>Capturing\<close>

text \<open>C37: With the fast parser the capture loop never panics. It counts every packet, skips one
  of at most 66 bytes, and otherwise appends it to the channel of its port's worker, or waits when
  that channel is full.\<close>

theorem capture_with_fast_parser:
  assumes "fastPacketParsing cfg" "0 < threads cfg" "length (channels s) = nat (threads cfg)"
  shows "capture cfg data s =
    (let s1 = s\<lparr>totalPackets := totalPackets s + 1\<rparr> in
     if length data \<le> 66 then Inr (Some s1)
     else
       let ip = ip_area data (linkType cfg); h = ip_header_bytes ip;
           port = (if h + 2 \<le> length ip then u16_at ip h else 0);
           i = nat (int port mod threads cfg)
       in if length (channels s ! i) < channelBufferSize
          then Inr (Some (s1\<lparr>channels := (channels s)[i := channels s ! i @ [raw_packet data]]\<rparr>))
          else Inr None)"
  using capture_fast [OF assms, of data] by simp

theorem capture_with_fast_parser_witness:
  "capture sample_config [1, 2, 3] (init_system sample_config 0) =
    Inr (Some ((init_system sample_config 0)\<lparr>totalPackets := totalPackets (init_system sample_config 0) + 1\<rparr>))"
  by (subst capture_with_fast_parser) (simp_all add: sample_config_def init_system_def Let_def)

text \<open>With the gopacket parser the capture loop panics on every packet that ends before the byte
  after the link header, and on no other.\<close>

theorem capture_with_slow_parser:
  assumes "\<not> fastPacketParsing cfg" "0 < threads cfg" "length (channels s) = nat (threads cfg)"
  shows "panics (capture cfg data s) \<longleftrightarrow> length data \<le> ethernet_header_length (linkType cfg)"
proof (cases "length data \<le> ethernet_header_length (linkType cfg)")
  case True
  then have "GetPortNo data (linkType cfg) = Inl IndexOutOfRange"
    by (simp add: GetPortNo_def go_at_def)
  with assms(1) True show ?thesis
    by (simp add: capture_def assembleUserPacket_def Let_def)
next
  case False
  then obtain p where p: "GetPortNo data (linkType cfg) = Inr p"
    using GetPortNo_no_panic [of "linkType cfg" data] by auto
  have "0 \<le> uint p mod threads cfg" "uint p mod threads cfg < threads cfg"
    using assms(2) by simp_all
  then have "nat (uint p mod threads cfg) < length (channels s)" using assms(3) by simp
  with p False assms(1,2) show ?thesis
    by (auto simp: capture_def assembleUserPacket_def go_rem_nonneg Let_def send_packet_in_range panics_def
        split: if_splits)
qed

theorem capture_with_slow_parser_witness:
  "panics (capture (sample_config\<lparr>fastPacketParsing := False\<rparr>) [1, 2, 3] (init_system sample_config 0)) \<longleftrightarrow>
    length ([1, 2, 3] :: bytes) \<le> ethernet_header_length (linkType (sample_config\<lparr>fastPacketParsing := False\<rparr>))"
  by (rule capture_with_slow_parser) (simp_all add: sample_config_def init_system_def)

subsection \<open>The status goroutine\<close>

text \<open>The report number \<open>n\<close> of a run, from 0, removes the expired requests of worker
  \<open>(n mod 20) mod threads\<close>.\<close>

theorem expiry_schedule:
  assumes "sys_run cfg (init_system cfg sz) ls s" "sys_step cfg s (Reported inp line idx) s'" "0 < threads cfg"
  shows "idx = int (reports ls mod 20) mod threads cfg"
  by (rule sys_run_expires [OF assms])

theorem expiry_schedule_witness:
  "\<exists>line idx s'. sys_step sample_config (init_system sample_config 0) (Reported sample_input line idx) s' \<and>
    idx = int (reports [] mod 20) mod threads sample_config"
proof -
  obtain line idx s' where
    step: "sys_step sample_config (init_system sample_config 0) (Reported sample_input line idx) s'"
    using sample_report by blast
  have "0 < threads sample_config" by (simp add: sample_config_def)
  from expiry_schedule [OF run_start step this] step show ?thesis by blast
qed

text \<open>C39: The expired requests of worker 20 and the workers after it are never removed by the status
  goroutine, in any run: an incomplete request there stays until its client sends again.\<close>

theorem no_expiry_from_twenty:
  assumes "sys_run cfg (init_system cfg sz) ls s" "0 < threads cfg" "20 \<le> i"
  shows "Expire clock \<notin> set (actions_of i ls)"
  by (rule never_expired [OF assms])

theorem no_expiry_from_twenty_witness:
  "Expire (\<lambda>k. 0) \<notin> set (actions_of 20 sample_labels)"
  using sample_run no_expiry_from_twenty [of sample_config 0 sample_labels _ 20 "\<lambda>k. 0"]
  by (auto simp: sample_config_def)

text \<open>The counts of the status lines add up, modulo \<open>2 ^ 64\<close>: all totals printed in a run sum
  up to what the last report had seen, and the count of captured packets is exact.\<close>

theorem status_lines_add_up:
  assumes "sys_run cfg (init_system cfg sz) ls s"
  shows "total_of l_total ls = pTotalPackets (status s) \<and> total_of l_valid ls = pValidPackets (status s) \<and>
    total_of l_assembled ls = pAssembledPackets (status s) \<and> total_of l_expired ls = pExpiredPackets (status s) \<and>
    total_of l_mqerrors ls = pMqueueErrors (status s) \<and>
    totalPackets s = word_of_nat (length (filter is_capture ls))"
  using sys_run_totals [OF assms] sys_run_captured [OF assms] by (simp add: reported_totals_def)

theorem status_lines_add_up_witness:
  "\<exists>s. sys_run sample_config (init_system sample_config 0) sample_labels s \<and>
    total_of l_total sample_labels = pTotalPackets (status s) \<and> total_of l_valid sample_labels = pValidPackets (status s) \<and>
    total_of l_assembled sample_labels = pAssembledPackets (status s) \<and>
    total_of l_expired sample_labels = pExpiredPackets (status s) \<and>
    total_of l_mqerrors sample_labels = pMqueueErrors (status s) \<and>
    totalPackets s = word_of_nat (length (filter is_capture sample_labels))"
proof -
  obtain s where run: "sys_run sample_config (init_system sample_config 0) sample_labels s"
    using sample_run by blast
  from status_lines_add_up [OF run] run show ?thesis by blast
qed

text \<open>The memory check ends the program exactly when the second field of a \<open>statm\<close> line of at
  least six fields is a number whose product with the page size, in 64 bits, is above the limit;
  an unreadable or malformed line counts as no memory in use.\<close>

theorem memory_check:
  "panics (checkMemoryUsage pageSize statm limit) =
   (let resident =
      (case statm of
         None \<Rightarrow> 0
       | Some b \<Rightarrow>
           if 6 \<le> length (strings_Fields b)
           then case parse_int64 (strings_Fields b ! 1) of None \<Rightarrow> 0 | Some v \<Rightarrow> to_int64 (v * pageSize)
           else 0)
    in limit < resident)"
  by (rule checkMemoryUsage_panics_iff)

end
